(* ===== verification/Prelude.thy ===== *)
theory Prelude
  imports Main "HOL-Library.Word" "HOL-Library.List_Lexorder" "HOL-Library.Char_ord"
    "HOL-Library.Sublist"
begin

text \<open>
  The vocabulary every component shares: the part of Rust's standard library the
  sources use (byte strings, UTF-8, \<open>std::path\<close>, ordered sets and maps), the
  result of running a fallible step function over a list of events, and the lemmas and
  hint collections the component theories rest on.

  A Rust \<open>String\<close>, \<open>OsStr\<close> or byte slice is the list of its bytes
  (\<open>char\<close> is an 8-bit value here); \<open>len\<close> is its length. A
  \<open>Path\<close> is its sequence of components: \<open>==\<close>, \<open>cmp\<close>,
  \<open>hash\<close>, \<open>starts_with\<close>, \<open>file_name\<close>, \<open>parent\<close> and \<open>join\<close>
  of \<open>std::path\<close> are defined on that sequence. \<open>u64\<close> is a 64-bit word whose
  addition wraps, as in the release build; \<open>usize\<close> counters and identifiers that only
  ever count items held in memory are natural numbers; \<open>i64\<close> timestamps are integers.
\<close>

named_theorems wf_intros "introduction rules for well-formedness predicates"
named_theorems step_simps "unfoldings of one-step functions"

subsection \<open>Machine types and results\<close>

type_synonym u8 = "8 word"
type_synonym u16 = "16 word"
type_synonym u32 = "32 word"
type_synonym u64 = "64 word"
type_synonym sha256 = string

abbreviation Ok :: "'a \<Rightarrow> 'e + 'a" where
  "Ok x \<equiv> Inr x"

abbreviation Err :: "'e \<Rightarrow> 'e + 'a" where
  "Err e \<equiv> Inl e"

definition result_bind :: "'e + 'a \<Rightarrow> ('a \<Rightarrow> 'e + 'b) \<Rightarrow> 'e + 'b" where
  "result_bind r f = (case r of Inl e \<Rightarrow> Inl e | Inr x \<Rightarrow> f x)"

lemma result_bind_simps [simp]:
  "result_bind (Inl e) f = Inl e"
  "result_bind (Inr x) f = f x"
  by (simp_all add: result_bind_def)

lemma result_bind_Inr [simp]:
  "result_bind r f = Inr y \<longleftrightarrow> (\<exists>x. r = Inr x \<and> f x = Inr y)"
  by (cases r) auto

text \<open>\<open>Iterator::map(f).collect::<Result<Vec<_>, _>>()\<close>: the results of all the
  elements, or the first error.\<close>

fun collect_results :: "('a \<Rightarrow> 'e + 'b) \<Rightarrow> 'a list \<Rightarrow> 'e + 'b list" where
  "collect_results f [] = Ok []"
| "collect_results f (x # xs) =
     result_bind (f x) (\<lambda>y. result_bind (collect_results f xs) (\<lambda>ys. Ok (y # ys)))"

lemma collect_results_Ok: "list_all (\<lambda>x. \<exists>y. f x = Ok y) xs \<Longrightarrow> \<exists>ys. collect_results f xs = Ok ys"
  by (induction xs) auto

lemma collect_results_set:
  "collect_results f xs = Ok ys \<Longrightarrow> y \<in> set ys \<longleftrightarrow> (\<exists>x \<in> set xs. f x = Ok y)"
  by (induction xs arbitrary: ys) auto

lemma collect_results_map_Ok:
  "(\<And>x. x \<in> set xs \<Longrightarrow> f (g x) = Ok (h x)) \<Longrightarrow> collect_results f (map g xs) = Ok (map h xs)"
  by (induction xs) auto

definition ok_or :: "'e \<Rightarrow> 'a option \<Rightarrow> 'e + 'a" where
  "ok_or e x = (case x of None \<Rightarrow> Inl e | Some y \<Rightarrow> Inr y)"

lemma ok_or_simps [simp]:
  "ok_or e None = Inl e"
  "ok_or e (Some x) = Inr x"
  by (simp_all add: ok_or_def)

lemma ok_or_Inr [simp]: "ok_or e x = Inr y \<longleftrightarrow> x = Some y"
  by (cases x) auto

definition is_some_and :: "('a \<Rightarrow> bool) \<Rightarrow> 'a option \<Rightarrow> bool" where
  "is_some_and P x = (case x of None \<Rightarrow> False | Some y \<Rightarrow> P y)"

definition is_none_or :: "('a \<Rightarrow> bool) \<Rightarrow> 'a option \<Rightarrow> bool" where
  "is_none_or P x = (case x of None \<Rightarrow> True | Some y \<Rightarrow> P y)"

lemma is_some_and_simps [simp]:
  "\<not> is_some_and P None"
  "is_some_and P (Some x) = P x"
  by (simp_all add: is_some_and_def)

lemma is_none_or_simps [simp]:
  "is_none_or P None"
  "is_none_or P (Some x) = P x"
  by (simp_all add: is_none_or_def)

lemma is_some_and_iff: "is_some_and P x \<longleftrightarrow> (\<exists>y. x = Some y \<and> P y)"
  by (cases x) auto

lemma is_none_or_iff: "is_none_or P x \<longleftrightarrow> (\<forall>y. x = Some y \<longrightarrow> P y)"
  by (cases x) auto

subsection \<open>ASCII classes and UTF-8\<close>

abbreviation byte :: "char \<Rightarrow> nat" where
  "byte c \<equiv> of_char c"

definition is_ascii_digit :: "char \<Rightarrow> bool" where
  "is_ascii_digit c = (48 \<le> byte c \<and> byte c \<le> 57)"

definition is_ascii_alphabetic :: "char \<Rightarrow> bool" where
  "is_ascii_alphabetic c = (65 \<le> byte c \<and> byte c \<le> 90 \<or> 97 \<le> byte c \<and> byte c \<le> 122)"

definition is_ascii_alphanumeric :: "char \<Rightarrow> bool" where
  "is_ascii_alphanumeric c = (is_ascii_alphabetic c \<or> is_ascii_digit c)"

definition is_ascii_hexdigit :: "char \<Rightarrow> bool" where
  "is_ascii_hexdigit c = (is_ascii_digit c \<or> 65 \<le> byte c \<and> byte c \<le> 70 \<or>
     97 \<le> byte c \<and> byte c \<le> 102)"

definition is_ascii_whitespace :: "char \<Rightarrow> bool" where
  "is_ascii_whitespace c = (byte c \<in> {9, 10, 12, 13, 32})"

abbreviation NUL :: char where
  "NUL \<equiv> CHR 0x00"

text \<open>
  One step of UTF-8 decoding: the scalar value read, or \<open>None\<close> for an ill-formed
  sequence, and the number of bytes consumed (for an ill-formed sequence its maximal
  subpart, which \<open>from_utf8_lossy\<close> replaces by one U+FFFD).
\<close>

definition in_range :: "nat \<Rightarrow> nat \<Rightarrow> nat \<Rightarrow> bool" where
  "in_range lo hi n = (lo \<le> n \<and> n \<le> hi)"

definition utf8_second_range :: "nat \<Rightarrow> nat \<times> nat" where
  "utf8_second_range b0 =
     (if b0 = 224 then (160, 191) else if b0 = 237 then (128, 159)
      else if b0 = 240 then (144, 191) else if b0 = 244 then (128, 143) else (128, 191))"

definition cont_at :: "string \<Rightarrow> nat \<Rightarrow> bool" where
  "cont_at bs i = (i < length bs \<and> in_range 128 191 (byte (bs ! i)))"

definition utf8_step :: "string \<Rightarrow> nat option \<times> nat" where
  "utf8_step bs =
     (case bs of [] \<Rightarrow> (None, 0)
      | b # rest \<Rightarrow>
        (let b0 = byte b; (lo, hi) = utf8_second_range b0;
             second = (1 < length bs \<and> in_range lo hi (byte (bs ! 1)));
             at = (\<lambda>i. byte (bs ! i) - 128) in
         if b0 < 128 then (Some b0, 1)
         else if in_range 194 223 b0 then
           (if second then (Some ((b0 - 192) * 64 + at 1), 2) else (None, 1))
         else if in_range 224 239 b0 then
           (if \<not> second then (None, 1)
            else if \<not> cont_at bs 2 then (None, 2)
            else (Some ((b0 - 224) * 4096 + at 1 * 64 + at 2), 3))
         else if in_range 240 244 b0 then
           (if \<not> second then (None, 1)
            else if \<not> cont_at bs 2 then (None, 2)
            else if \<not> cont_at bs 3 then (None, 3)
            else (Some ((b0 - 240) * 262144 + at 1 * 4096 + at 2 * 64 + at 3), 4))
         else (None, 1)))"

lemma utf8_step_consumes: "bs \<noteq> [] \<Longrightarrow> 0 < snd (utf8_step bs)"
  by (cases bs) (auto simp: utf8_step_def Let_def split: prod.splits)

function utf8_decode :: "string \<Rightarrow> nat option list" where
  "utf8_decode bs =
     (if bs = [] then []
      else fst (utf8_step bs) # utf8_decode (drop (snd (utf8_step bs)) bs))"
  by pat_completeness auto
termination
  by (relation "measure length") (auto simp: utf8_step_consumes)

declare utf8_decode.simps [simp del]

text \<open>\<open>std::str::from_utf8(bytes).is_ok()\<close> and \<open>to_string_lossy().chars()\<close>.\<close>

definition is_utf8 :: "string \<Rightarrow> bool" where
  "is_utf8 bs = (None \<notin> set (utf8_decode bs))"

text \<open>The scalar values of a string read lossily, each with the bytes that encode it in the
  lossy result: its own bytes, or those of U+FFFD.\<close>

function lossy_chunks :: "string \<Rightarrow> (nat \<times> string) list" where
  "lossy_chunks bs =
     (if bs = [] then []
      else (case fst (utf8_step bs) of
              None \<Rightarrow> (65533, [CHR 0xEF, CHR 0xBF, CHR 0xBD])
            | Some c \<Rightarrow> (c, take (snd (utf8_step bs)) bs))
        # lossy_chunks (drop (snd (utf8_step bs)) bs))"
  by pat_completeness auto
termination
  by (relation "measure length") (auto simp: utf8_step_consumes)

declare lossy_chunks.simps [simp del]

definition lossy_chars :: "string \<Rightarrow> nat list" where
  "lossy_chars bs = map fst (lossy_chunks bs)"

definition to_string_lossy :: "string \<Rightarrow> string" where
  "to_string_lossy bs = concat (map snd (lossy_chunks bs))"

lemma utf8_decode_Nil [simp]: "utf8_decode [] = []"
  by (simp add: utf8_decode.simps)

lemma utf8_decode_ascii:
  "byte c < 128 \<Longrightarrow> utf8_decode (c # cs) = Some (byte c) # utf8_decode cs"
  by (subst utf8_decode.simps) (simp add: utf8_step_def Let_def split: prod.splits)

lemma is_utf8_ascii: "\<forall>c \<in> set s. byte c < 128 \<Longrightarrow> is_utf8 s"
  by (induction s) (auto simp: is_utf8_def utf8_decode_ascii)

lemma lossy_chunks_Nil [simp]: "lossy_chunks [] = []"
  by (simp add: lossy_chunks.simps)

lemma lossy_chunks_ascii:
  "byte c < 128 \<Longrightarrow> lossy_chunks (c # cs) = (byte c, [c]) # lossy_chunks cs"
  by (subst lossy_chunks.simps) (simp add: utf8_step_def Let_def split: prod.splits)

lemma lossy_chars_ascii: "\<forall>c \<in> set s. byte c < 128 \<Longrightarrow> lossy_chars s = map byte s"
  by (induction s) (auto simp: lossy_chars_def lossy_chunks_ascii)

lemma to_string_lossy_utf8: "is_utf8 s \<Longrightarrow> to_string_lossy s = s"
proof (induction s rule: utf8_decode.induct)
  case (1 s)
  show ?case
  proof (cases "s = []")
    case False
    with "1.prems" obtain c where c: "fst (utf8_step s) = Some c"
      and rest: "is_utf8 (drop (snd (utf8_step s)) s)"
      by (cases "fst (utf8_step s)") (auto simp: is_utf8_def utf8_decode.simps[of s])
    have "to_string_lossy s =
        take (snd (utf8_step s)) s @ to_string_lossy (drop (snd (utf8_step s)) s)"
      using False c by (simp add: to_string_lossy_def lossy_chunks.simps[of s])
    with "1.IH"[OF False rest] show ?thesis by simp
  qed (simp add: to_string_lossy_def)
qed

lemma second_range_low: "utf8_second_range b0 = (lo, hi) \<Longrightarrow> 128 \<le> lo"
  by (auto simp: utf8_second_range_def split: if_splits)

lemma take_nth_bytes:
  assumes "\<forall>i < n. P (xs ! i)" "x \<in> set (take n xs)"
  shows "P x"
  using assms by (auto simp: in_set_conv_nth)

lemma utf8_step_scalar:
  assumes "fst (utf8_step bs) = Some c"
  shows "c < 128 \<and> take (snd (utf8_step bs)) bs = [char_of c] \<or>
    128 \<le> c \<and> (\<forall>b \<in> set (take (snd (utf8_step bs)) bs). 128 \<le> byte b)"
proof (cases bs)
  case Nil
  with assms show ?thesis by (simp add: utf8_step_def)
next
  case (Cons b rest)
  let ?b0 = "byte b"
  obtain lo hi where r: "utf8_second_range ?b0 = (lo, hi)" by fastforce
  note lo = second_range_low[OF r]
  let ?second = "1 < length bs \<and> in_range lo hi (byte (bs ! 1))"
  have hi: "128 \<le> byte (bs ! 1)" if ?second using that lo by (simp add: in_range_def)
  have cont: "128 \<le> byte (bs ! i)" if "cont_at bs i" for i
    using that by (simp add: cont_at_def in_range_def)
  have all: "\<forall>x \<in> set (take n bs). 128 \<le> byte x" if "\<forall>i < n. 128 \<le> byte (bs ! i)" for n
    using take_nth_bytes[of n "\<lambda>x. 128 \<le> byte x" bs] that by blast
  consider (one) "?b0 < 128" | (two) "in_range 194 223 ?b0" | (three) "in_range 224 239 ?b0"
    | (four) "in_range 240 244 ?b0" | (bad) "\<not> ?b0 < 128" "\<not> in_range 194 223 ?b0"
      "\<not> in_range 224 239 ?b0" "\<not> in_range 240 244 ?b0" by blast
  then show ?thesis
  proof cases
    case one
    with Cons assms show ?thesis by (auto simp: utf8_step_def Let_def r)
  next
    case two
    then have "\<not> ?b0 < 128" by (simp add: in_range_def)
    with two Cons assms r have s: ?second "utf8_step bs = (Some c, 2)"
      "c = (?b0 - 192) * 64 + (byte (bs ! 1) - 128)"
      by (auto simp: utf8_step_def Let_def split: if_splits)
    have "\<forall>i < 2. 128 \<le> byte (bs ! i)"
      using hi s(1) two Cons by (auto simp: less_2_cases_iff in_range_def)
    moreover have "2 * 64 \<le> (?b0 - 192) * 64"
      by (rule mult_le_mono1) (use two in \<open>unfold in_range_def, linarith\<close>)
    then have "128 \<le> c" using s(3) by linarith
    ultimately show ?thesis using all[of 2] s by auto
  next
    case three
    then have "\<not> ?b0 < 128" "\<not> in_range 194 223 ?b0" by (auto simp: in_range_def)
    with three Cons assms r have s: ?second "cont_at bs 2" "utf8_step bs = (Some c, 3)"
      "c = (?b0 - 224) * 4096 + (byte (bs ! 1) - 128) * 64 + (byte (bs ! 2) - 128)"
      by (auto simp: utf8_step_def Let_def split: if_splits)
    have "\<forall>i < 3. 128 \<le> byte (bs ! i)"
      using hi s(1) cont[OF s(2)] three Cons by (auto simp: less_Suc_eq numeral_3_eq_3 numeral_2_eq_2 in_range_def)
    moreover have "128 \<le> c"
      using s r three by (auto simp: in_range_def utf8_second_range_def split: if_splits)
    ultimately show ?thesis using all[of 3] s by auto
  next
    case four
    then have "\<not> ?b0 < 128" "\<not> in_range 194 223 ?b0" "\<not> in_range 224 239 ?b0"
      by (auto simp: in_range_def)
    with four Cons assms r have s: ?second "cont_at bs 2" "cont_at bs 3" "utf8_step bs = (Some c, 4)"
      "c = (?b0 - 240) * 262144 + (byte (bs ! 1) - 128) * 4096 + (byte (bs ! 2) - 128) * 64 + (byte (bs ! 3) - 128)"
      by (auto simp: utf8_step_def Let_def split: if_splits)
    have "\<forall>i < 4. 128 \<le> byte (bs ! i)"
      using hi s(1) cont[OF s(2)] cont[OF s(3)] four Cons
      by (auto simp: less_Suc_eq numeral_eq_Suc in_range_def)
    moreover have "128 \<le> c"
      using s r four by (auto simp: in_range_def utf8_second_range_def split: if_splits)
    ultimately show ?thesis using all[of 4] s by auto
  next
    case bad
    with Cons assms show ?thesis by (auto simp: utf8_step_def Let_def r)
  qed
qed

lemma lossy_chunk_cases:
  "(c, t) \<in> set (lossy_chunks s) \<Longrightarrow>
     c < 128 \<and> t = [char_of c] \<or> 128 \<le> c \<and> (\<forall>b \<in> set t. 128 \<le> byte b)"
proof (induction s rule: lossy_chunks.induct)
  case (1 s)
  show ?case
  proof (cases "s = []")
    case False
    with "1.prems" consider "(c, t) \<in> set (lossy_chunks (drop (snd (utf8_step s)) s))"
      | "fst (utf8_step s) = None" "c = 65533" "t = [CHR 0xEF, CHR 0xBF, CHR 0xBD]"
      | "fst (utf8_step s) = Some c" "t = take (snd (utf8_step s)) s"
      by (auto simp: lossy_chunks.simps[of s] split: option.splits)
    then show ?thesis
    proof cases
      case 1
      with "1.IH"[OF False] show ?thesis by blast
    next
      case 2
      then show ?thesis by simp
    next
      case 3
      with utf8_step_scalar[of s c] show ?thesis by blast
    qed
  qed (use "1.prems" in simp)
qed

subsection \<open>Printing numbers\<close>

definition digit_char :: "nat \<Rightarrow> char" where
  "digit_char d = char_of (if d < 10 then 48 + d else 87 + d)"

fun radix_str :: "nat \<Rightarrow> nat \<Rightarrow> string" where
  "radix_str base n =
     (if n < base \<or> base < 2 then [digit_char n]
      else radix_str base (n div base) @ [digit_char (n mod base)])"

declare radix_str.simps [simp del]

definition nat_str :: "nat \<Rightarrow> string" where
  "nat_str n = radix_str 10 n"

definition hex_str :: "nat \<Rightarrow> string" where
  "hex_str n = radix_str 16 n"

subsection \<open>Byte-string helpers\<close>

definition strip_prefix :: "string \<Rightarrow> string \<Rightarrow> string option" where
  "strip_prefix pre s = (if prefix pre s then Some (drop (length pre) s) else None)"

definition strip_suffix :: "string \<Rightarrow> string \<Rightarrow> string option" where
  "strip_suffix suf s = (if suffix suf s then Some (take (length s - length suf) s) else None)"

lemma strip_prefix_append [simp]: "strip_prefix pre (pre @ s) = Some s"
  by (simp add: strip_prefix_def)

lemma strip_prefix_Some: "strip_prefix pre s = Some t \<longleftrightarrow> s = pre @ t"
  by (auto simp: strip_prefix_def prefix_def)

lemma strip_suffix_append [simp]: "strip_suffix suf (s @ suf) = Some s"
  by (simp add: strip_suffix_def suffix_def)

lemma strip_suffix_Some: "strip_suffix suf s = Some t \<longleftrightarrow> s = t @ suf"
  by (auto simp: strip_suffix_def suffix_def)

end
