(* ===== verification/Paths.thy ===== *)
theory Paths
  imports Prelude
begin

text \<open>
  \<open>std::path\<close> as the sources use it: a path is the list of its components, ordered
  as \<open>Component\<close> derives \<open>Ord\<close> (root, \<open>.\<close>, \<open>..\<close>, then names by their
  bytes) and compared component by component. \<open>components\<close> reads a path from its
  bytes; the other operations are the ones on component sequences.
\<close>

datatype component = RootDir | CurDir | ParentDir | Normal string

type_synonym path = "component list"

fun component_rank :: "component \<Rightarrow> nat" where
  "component_rank RootDir = 0"
| "component_rank CurDir = 1"
| "component_rank ParentDir = 2"
| "component_rank (Normal _) = 3"

fun component_name :: "component \<Rightarrow> string" where
  "component_name (Normal s) = s"
| "component_name _ = []"

instantiation component :: linorder
begin

definition less_eq_component :: "component \<Rightarrow> component \<Rightarrow> bool" where
  "less_eq_component a b =
     (component_rank a < component_rank b \<or>
      component_rank a = component_rank b \<and> component_name a \<le> component_name b)"

definition less_component :: "component \<Rightarrow> component \<Rightarrow> bool" where
  "less_component a b =
     (component_rank a < component_rank b \<or>
      component_rank a = component_rank b \<and> component_name a < component_name b)"

instance
proof
  fix x y z :: component
  show "(x < y) = (x \<le> y \<and> \<not> y \<le> x)"
    by (auto simp: less_component_def less_eq_component_def)
  show "x \<le> x"
    by (simp add: less_eq_component_def)
  show "x \<le> z" if "x \<le> y" "y \<le> z"
    using that by (auto simp: less_eq_component_def)
  show "x = y" if "x \<le> y" "y \<le> x"
    using that by (cases x; cases y) (auto simp: less_eq_component_def)
  show "x \<le> y \<or> y \<le> x"
    by (auto simp: less_eq_component_def)
qed

end

subsection \<open>Reading a path from its bytes\<close>

definition SLASH :: char where
  "SLASH = CHR ''/''"

text \<open>\<open>str::split\<close> on one separator byte: a piece between any two separators.\<close>

fun split_on :: "char \<Rightarrow> string \<Rightarrow> string list" where
  "split_on sep [] = [[]]"
| "split_on sep (c # cs) =
     (if c = sep then [] # split_on sep cs
      else (case split_on sep cs of
              [] \<Rightarrow> [[c]]
            | piece # pieces \<Rightarrow> (c # piece) # pieces))"

definition component_of :: "string \<Rightarrow> component option" where
  "component_of piece =
     (if piece = [] \<or> piece = ''.'' then None
      else if piece = ''..'' then Some ParentDir
      else Some (Normal piece))"

definition components :: "string \<Rightarrow> path" where
  "components raw =
     (let body = List.map_filter component_of (split_on SLASH raw) in
      case raw of
        [] \<Rightarrow> []
      | c # _ \<Rightarrow>
          if c = SLASH then RootDir # body
          else if hd (split_on SLASH raw) = ''.'' then CurDir # body
          else body)"

lemma split_on_nonempty: "split_on sep s \<noteq> []"
  by (induction s) (auto split: list.splits)

subsection \<open>Operations on component sequences\<close>

definition is_absolute :: "path \<Rightarrow> bool" where
  "is_absolute p = (case p of RootDir # _ \<Rightarrow> True | _ \<Rightarrow> False)"

definition file_name :: "path \<Rightarrow> string option" where
  "file_name p = (if p = [] then None
                  else case last p of Normal s \<Rightarrow> Some s | _ \<Rightarrow> None)"

definition parent :: "path \<Rightarrow> path option" where
  "parent p = (if p = [] \<or> last p = RootDir then None else Some (butlast p))"

text \<open>\<open>PathBuf::push\<close> and \<open>Path::join\<close>: an absolute argument replaces the path,
  and a leading \<open>.\<close> of the argument survives only at the start of the result.\<close>

definition join :: "path \<Rightarrow> path \<Rightarrow> path" where
  "join p q =
     (if is_absolute q then q
      else if p = [] then q
      else p @ filter (\<lambda>c. c \<noteq> CurDir) q)"

definition pop :: "path \<Rightarrow> path" where
  "pop p = (case parent p of None \<Rightarrow> p | Some q \<Rightarrow> q)"

definition starts_with :: "path \<Rightarrow> path \<Rightarrow> bool" where
  "starts_with p base = prefix base p"

definition path_contains_nul :: "path \<Rightarrow> bool" where
  "path_contains_nul p = (\<exists>c \<in> set p. NUL \<in> set (component_name c))"

definition component_str :: "component \<Rightarrow> string" where
  "component_str c = (case c of RootDir \<Rightarrow> ''/'' | CurDir \<Rightarrow> ''.'' | ParentDir \<Rightarrow> ''..'' | Normal s \<Rightarrow> s)"

text \<open>The bytes of a path in normal form: its components separated by single slashes.\<close>

fun join_with :: "string \<Rightarrow> string list \<Rightarrow> string" where
  "join_with sep [] = []"
| "join_with sep [s] = s"
| "join_with sep (s # t # ss) = s @ sep @ join_with sep (t # ss)"

definition path_str :: "path \<Rightarrow> string" where
  "path_str p =
     (case p of
        RootDir # rest \<Rightarrow> ''/'' @ join_with ''/'' (map component_str rest)
      | _ \<Rightarrow> join_with ''/'' (map component_str p))"

abbreviation Name :: "string \<Rightarrow> path" where
  "Name s \<equiv> [Normal s]"

subsection \<open>Lemmas\<close>

lemma file_name_snoc [simp]:
  "file_name (p @ [Normal s]) = Some s"
  "file_name (p @ [RootDir]) = None"
  "file_name (p @ [ParentDir]) = None"
  "file_name (p @ [CurDir]) = None"
  by (simp_all add: file_name_def)

lemma file_name_Nil [simp]: "file_name [] = None"
  by (simp add: file_name_def)

lemma file_name_Some: "file_name p = Some s \<Longrightarrow> \<exists>q. p = q @ [Normal s]"
  by (cases p rule: rev_cases) (auto simp: file_name_def split: component.splits)

lemma pop_snoc [simp]: "pop (p @ [Normal s]) = p"
  by (simp add: pop_def parent_def)

lemma join_Normal [simp]: "join p [Normal s] = p @ [Normal s]"
  by (simp add: join_def is_absolute_def)

lemma join_RootDir [simp]: "join p [RootDir] = [RootDir]"
  by (simp add: join_def is_absolute_def)

lemma is_absolute_simps [simp]:
  "\<not> is_absolute []"
  "is_absolute (RootDir # p)"
  "\<not> is_absolute (Normal s # p)"
  "\<not> is_absolute (ParentDir # p)"
  "\<not> is_absolute (CurDir # p)"
  by (simp_all add: is_absolute_def)

lemma is_absolute_iff: "is_absolute p \<longleftrightarrow> (\<exists>q. p = RootDir # q)"
  by (cases p rule: list.exhaust; cases "hd p") auto

lemma starts_with_refl [simp]: "starts_with p p"
  by (simp add: starts_with_def)

lemma starts_with_trans: "starts_with p q \<Longrightarrow> starts_with q r \<Longrightarrow> starts_with p r"
  by (auto simp: starts_with_def)

text \<open>A path all of whose components are names is a normalised relative path.\<close>

definition all_normal :: "path \<Rightarrow> bool" where
  "all_normal p = (\<forall>c \<in> set p. \<exists>s. c = Normal s)"

lemma all_normal_code [code]:
  "all_normal p = list_all (\<lambda>c. case c of Normal _ \<Rightarrow> True | _ \<Rightarrow> False) p"
  unfolding all_normal_def list_all_iff
  by (rule ball_cong) (auto split: component.splits)

lemma all_normal_simps [simp]:
  "all_normal []"
  "all_normal (Normal s # p) = all_normal p"
  "\<not> all_normal (RootDir # p)"
  "\<not> all_normal (ParentDir # p)"
  "\<not> all_normal (CurDir # p)"
  "all_normal (p @ q) = (all_normal p \<and> all_normal q)"
  by (auto simp: all_normal_def)

lemma join_all_normal: "all_normal q \<Longrightarrow> join p q = p @ q"
proof -
  assume n: "all_normal q"
  then have "filter (\<lambda>c. c \<noteq> CurDir) q = q"
    by (auto simp: all_normal_def intro: filter_True)
  moreover from n have "\<not> is_absolute q"
    by (auto simp: is_absolute_iff)
  ultimately show ?thesis by (simp add: join_def)
qed

lemma join_stays_under_root: "all_normal q \<Longrightarrow> starts_with (join p q) p"
  by (simp add: join_all_normal starts_with_def)

subsection \<open>Printing and reading paths\<close>

text \<open>A component sequence the standard library can produce: names are not empty, hold no
  separator and are neither \<open>.\<close> nor \<open>..\<close>; the root and \<open>.\<close> only come first.\<close>

definition name_wf :: "string \<Rightarrow> bool" where
  "name_wf s = (s \<noteq> [] \<and> SLASH \<notin> set s \<and> s \<noteq> ''.'' \<and> s \<noteq> ''..'')"

definition inner_wf :: "component \<Rightarrow> bool" where
  "inner_wf c = (case c of Normal s \<Rightarrow> name_wf s | ParentDir \<Rightarrow> True | _ \<Rightarrow> False)"

definition path_wf :: "path \<Rightarrow> bool" where
  "path_wf p =
     (case p of [] \<Rightarrow> True
      | c # cs \<Rightarrow> (c = RootDir \<or> c = CurDir \<or> inner_wf c) \<and> list_all inner_wf cs)"

lemma split_on_append_sep: "sep \<notin> set s \<Longrightarrow> split_on sep (s @ sep # t) = s # split_on sep t"
  by (induction s) auto

lemma split_on_no_sep: "sep \<notin> set s \<Longrightarrow> split_on sep s = [s]"
  by (induction s) auto

lemma split_on_join_with:
  "ss \<noteq> [] \<Longrightarrow> list_all (\<lambda>s. sep \<notin> set s) ss \<Longrightarrow> split_on sep (join_with [sep] ss) = ss"
  by (induction "[sep]" ss rule: join_with.induct) (auto simp: split_on_no_sep split_on_append_sep)

lemma component_of_str: "inner_wf c \<Longrightarrow> component_of (component_str c) = Some c"
  by (auto simp: inner_wf_def component_of_def component_str_def name_wf_def split: component.splits)

lemma component_str_no_slash: "c \<noteq> RootDir \<Longrightarrow> c = CurDir \<or> inner_wf c \<Longrightarrow> SLASH \<notin> set (component_str c)"
  by (auto simp: inner_wf_def component_str_def name_wf_def SLASH_def split: component.splits)

lemma component_of_Nil: "component_of [] = None"
  by (simp add: component_of_def)

lemma map_filter_component_str:
  "list_all inner_wf cs \<Longrightarrow> List.map_filter component_of (map component_str cs) = cs"
  by (induction cs) (auto simp: component_of_str List.map_filter_def)

lemma no_slash_strs: "list_all inner_wf cs \<Longrightarrow> list_all (\<lambda>s. SLASH \<notin> set s) (map component_str cs)"
  by (induction cs) (auto simp: component_str_no_slash inner_wf_def SLASH_def component_str_def name_wf_def split: component.splits)

lemma slash_str: "''/'' = [SLASH]"
  by (simp add: SLASH_def)

lemma split_join_strs:
  "list_all inner_wf cs \<Longrightarrow> cs \<noteq> [] \<Longrightarrow>
     split_on SLASH (join_with ''/'' (map component_str cs)) = map component_str cs"
  unfolding slash_str by (rule split_on_join_with) (auto simp: no_slash_strs)

text \<open>Reading the printed bytes of a path gives the path back.\<close>

lemma components_path_str: "path_wf p \<Longrightarrow> components (path_str p) = p"
proof (cases p)
  case Nil
  then show ?thesis by (simp add: path_str_def components_def)
next
  case (Cons c cs)
  assume wf: "path_wf p"
  then have cs: "list_all inner_wf cs" and c: "c = RootDir \<or> c = CurDir \<or> inner_wf c"
    by (auto simp: path_wf_def Cons)
  show ?thesis
  proof (cases "c = RootDir")
    case True
    have s: "path_str p = SLASH # join_with ''/'' (map component_str cs)"
      by (simp add: Cons True path_str_def SLASH_def)
    have "List.map_filter component_of (split_on SLASH (path_str p)) = cs"
    proof (cases "cs = []")
      case True
      then show ?thesis by (simp add: s component_of_def List.map_filter_def)
    next
      case False
      with cs show ?thesis
        by (simp add: s split_join_strs List.map_filter_simps component_of_Nil
            map_filter_component_str)
    qed
    then have "components (path_str p) = RootDir # cs"
      unfolding components_def Let_def by (simp add: s)
    with Cons True show ?thesis by simp
  next
    case False
    then have s: "path_str p = join_with ''/'' (map component_str (c # cs))"
      by (cases c) (simp_all add: Cons path_str_def)
    have all: "list_all (\<lambda>s. SLASH \<notin> set s) (map component_str (c # cs))"
      using component_str_no_slash[OF False] c False no_slash_strs[OF cs] by auto
    have sp: "split_on SLASH (path_str p) = map component_str (c # cs)"
      unfolding s slash_str by (rule split_on_join_with) (use all in auto)
    have ne: "component_str c \<noteq> []" "hd (component_str c) \<noteq> SLASH"
      using c False by (auto simp: component_str_def inner_wf_def name_wf_def SLASH_def split: component.splits dest: hd_in_set)
    have hd: "path_str p \<noteq> []" "hd (path_str p) \<noteq> SLASH"
      using ne by (cases cs; simp add: s)+
    have body: "List.map_filter component_of (map component_str (c # cs)) = (if c = CurDir then cs else c # cs)"
      using c False map_filter_component_str[OF cs] component_of_str[of c]
      by (auto simp: List.map_filter_def component_of_def component_str_def)
    have dot: "component_str c = ''.'' \<longleftrightarrow> c = CurDir"
      using c False by (auto simp: component_str_def inner_wf_def name_wf_def split: component.splits)
    show ?thesis
      using hd sp body dot by (cases "path_str p") (auto simp: components_def Cons Let_def)
  qed
qed

end
