(* ===== verification/Collections.thy ===== *)
theory Collections
  imports Paths
begin

text \<open>
  Ordered sets and maps of the standard library as the sources use them: a
  \<open>BTreeSet\<close> is the ascending list of its elements, a \<open>BTreeMap\<close> the list of
  its bindings in ascending order of the keys. Collecting a sequence into a map keeps the
  last binding of a key. The section ends with sequences of fallible steps and with the
  interface an invariant of such a step function has to provide.
\<close>

definition btree_set :: "'a::linorder list \<Rightarrow> 'a list" where
  "btree_set xs = sort (remdups xs)"

definition btree_map :: "('k::linorder \<times> 'v) list \<Rightarrow> ('k \<times> 'v) list" where
  "btree_map xs = map (\<lambda>k. (k, the (map_of (rev xs) k))) (btree_set (map fst xs))"

definition btree_get :: "('k \<times> 'v) list \<Rightarrow> 'k \<Rightarrow> 'v option" where
  "btree_get = map_of"

lemma set_btree_set [simp]: "set (btree_set xs) = set xs"
  by (simp add: btree_set_def)

lemma sorted_btree_set [simp]: "sorted (btree_set xs)"
  by (simp add: btree_set_def)

lemma distinct_btree_set [simp]: "distinct (btree_set xs)"
  by (simp add: btree_set_def)

lemma btree_set_unique:
  "sorted ys \<Longrightarrow> distinct ys \<Longrightarrow> set ys = set xs \<Longrightarrow> btree_set xs = ys"
  by (metis distinct_btree_set set_btree_set sorted_btree_set sorted_distinct_set_unique)

lemma btree_set_cong: "set xs = set ys \<Longrightarrow> btree_set xs = btree_set ys"
  by (rule btree_set_unique) simp_all

lemma btree_set_Nil_iff [simp]: "btree_set xs = [] \<longleftrightarrow> xs = []"
  by (metis set_btree_set set_empty)

lemma length_btree_set: "length (btree_set xs) = card (set xs)"
  by (metis distinct_btree_set distinct_card set_btree_set)

lemma map_of_map_keys:
  "map_of (map (\<lambda>k. (k, f k)) ks) k = (if k \<in> set ks then Some (f k) else None)"
  by (induction ks) auto

lemma btree_get_btree_map: "btree_get (btree_map xs) k = map_of (rev xs) k"
proof (cases "k \<in> set (map fst xs)")
  case True
  then have "map_of (rev xs) k \<noteq> None"
    by (simp add: map_of_eq_None_iff)
  with True show ?thesis
    by (auto simp: btree_get_def btree_map_def map_of_map_keys)
next
  case False
  then have "map_of (rev xs) k = None"
    by (simp add: map_of_eq_None_iff)
  with False show ?thesis
    by (auto simp: btree_get_def btree_map_def map_of_map_keys)
qed

lemma keys_btree_map [simp]: "map fst (btree_map xs) = btree_set (map fst xs)"
  by (simp add: btree_map_def comp_def)

lemma btree_map_eq_iff:
  "btree_map xs = btree_map ys \<longleftrightarrow> (\<forall>k. btree_get (btree_map xs) k = btree_get (btree_map ys) k)"
proof
  assume get: "\<forall>k. btree_get (btree_map xs) k = btree_get (btree_map ys) k"
  then have m: "map_of (rev xs) = map_of (rev ys)"
    by (auto simp: btree_get_btree_map)
  have "set (map fst xs) = set (map fst ys)"
    by (metis m dom_map_of_conv_image_fst list.set_map set_rev)
  then have "btree_set (map fst xs) = btree_set (map fst ys)"
    by (rule btree_set_cong)
  with m show "btree_map xs = btree_map ys"
    by (simp add: btree_map_def)
qed simp

lemma map_of_distinct_rev:
  "distinct (map fst xs) \<Longrightarrow> map_of (rev xs) = map_of xs"
  by (metis distinct_map distinct_rev list.set_map map_of_inject_set rev_map set_rev)

subsection \<open>Stable sorting by a key\<close>

text \<open>\<open>sort_by\<close> on a key comparison and \<open>sort_by_key\<close> are stable.\<close>

definition sort_by :: "('a \<Rightarrow> 'k::linorder) \<Rightarrow> 'a list \<Rightarrow> 'a list" where
  "sort_by f xs = sort_key f xs"

lemma set_sort_by [simp]: "set (sort_by f xs) = set xs"
  by (simp add: sort_by_def)

lemma length_sort_by [simp]: "length (sort_by f xs) = length xs"
  by (simp add: sort_by_def)

lemma sorted_sort_by [simp]: "sorted (map f (sort_by f xs))"
  by (simp add: sort_by_def)

lemma distinct_map_sort_by [simp]: "distinct (map g (sort_by f xs)) = distinct (map g xs)"
  by (simp add: sort_by_def distinct_map)

lemma sort_by_Nil_iff [simp]: "sort_by f xs = [] \<longleftrightarrow> xs = []"
  by (metis length_0_conv length_sort_by)

subsection \<open>Finding an element by its key\<close>

lemma find_Some_D: "List.find P xs = Some x \<Longrightarrow> x \<in> set xs \<and> P x"
  by (induction xs) (auto split: if_splits)

lemma find_None_iff_all: "List.find P xs = None \<longleftrightarrow> (\<forall>x \<in> set xs. \<not> P x)"
  by (induction xs) auto

lemma find_distinct_key:
  "distinct (map f xs) \<Longrightarrow> x \<in> set xs \<Longrightarrow> List.find (\<lambda>y. f y = f x) xs = Some x"
  by (induction xs) (auto simp: image_iff dest: sym)

lemma find_map_of:
  "List.find (\<lambda>x. f x = k) xs = map_of (map (\<lambda>x. (f x, x)) xs) k"
  by (induction xs) auto

subsection \<open>Runs of a fallible step\<close>

fun run_steps :: "('s \<Rightarrow> 'e \<Rightarrow> 's option) \<Rightarrow> 's \<Rightarrow> 'e list \<Rightarrow> 's option" where
  "run_steps step s [] = Some s"
| "run_steps step s (e # es) =
     (case step s e of None \<Rightarrow> None | Some t \<Rightarrow> run_steps step t es)"

lemma run_steps_append:
  "run_steps step s (es @ fs) =
     (case run_steps step s es of None \<Rightarrow> None | Some t \<Rightarrow> run_steps step t fs)"
  by (induction es arbitrary: s) (auto split: option.splits)

lemma run_steps_snoc:
  "run_steps step s (es @ [e]) = Some u \<longleftrightarrow>
     (\<exists>t. run_steps step s es = Some t \<and> step t e = Some u)"
  by (auto simp: run_steps_append split: option.splits)

text \<open>
  The interface of an invariant: the client supplies one step and a predicate, and promises
  that a successful step keeps it; every run then keeps it, and every intermediate state has it.
\<close>

locale step_invariant =
  fixes step :: "'s \<Rightarrow> 'e \<Rightarrow> 's option"
    and inv :: "'s \<Rightarrow> bool"
  assumes step_keeps: "inv s \<Longrightarrow> step s e = Some t \<Longrightarrow> inv t"
begin

lemma run_keeps: "inv s \<Longrightarrow> run_steps step s es = Some t \<Longrightarrow> inv t"
  by (induction es arbitrary: s) (auto split: option.splits dest: step_keeps)

lemma run_prefix_keeps:
  assumes "inv s" and "run_steps step s (es @ fs) = Some t"
  shows "\<exists>u. run_steps step s es = Some u \<and> inv u \<and> run_steps step u fs = Some t"
  using assms by (auto simp: run_steps_append split: option.splits intro: run_keeps)

end

end
