(* ===== verification/Model.thy ===== *)
theory Model
  imports Collections
begin

text \<open>
  \<open>crates/syncplus-core/src/model.rs\<close>: peers and their SSH endpoints with the
  validation of every field, the options of a profile, the profile itself, and the state
  machine of a run. The frozen snapshot of a run is in \<open>Process\<close>, because
  it is built from a process specification.
\<close>

subsection \<open>Secret references\<close>

record saved_secret_reference =
  secret_id :: string

datatype secret_reference_error = SecretEmpty | SecretInvalid | SecretTooLong

definition MAX_SECRET_LENGTH :: nat where
  "MAX_SECRET_LENGTH = 128"

definition is_secret_char :: "char \<Rightarrow> bool" where
  "is_secret_char c = (is_ascii_alphanumeric c \<or> c \<in> {CHR ''.'', CHR ''_'', CHR ''-''})"

definition saved_secret_reference_new ::
  "string \<Rightarrow> secret_reference_error + saved_secret_reference" where
  "saved_secret_reference_new i =
     (if i = [] then Err SecretEmpty
      else if MAX_SECRET_LENGTH < length i then Err SecretTooLong
      else if \<not> list_all is_secret_char i then Err SecretInvalid
      else Ok \<lparr>secret_id = i\<rparr>)"

subsection \<open>SSH peers\<close>

datatype ssh_authentication =
    Key
  | Agent
  | InteractivePassword
  | SavedPassword saved_secret_reference

definition default_ssh_authentication :: ssh_authentication where
  "default_ssh_authentication = Key"

record ssh_peer =
  server :: string
  username :: string
  port :: u16
  identity :: "path option"
  authentication :: ssh_authentication
  remote_path :: path

datatype ssh_peer_error =
    EmptyServer | InvalidServer | EmptyUsername | InvalidUsername | InvalidPort
  | EmptyIdentity | NulInIdentity | MissingIdentityForKey
  | EmptyRemotePath | NulInRemotePath

definition is_ssh_address_char :: "char \<Rightarrow> bool" where
  "is_ssh_address_char c =
     (is_ascii_hexdigit c \<or> is_ascii_alphanumeric c \<or>
      c \<in> {CHR '':'', CHR ''%'', CHR ''.'', CHR ''-''})"

definition is_valid_ssh_server :: "string \<Rightarrow> bool" where
  "is_valid_ssh_server s =
     (if prefix ''['' s \<or> suffix '']'' s
      then (case Option.bind (strip_prefix ''['' s) (strip_suffix '']'') of
              None \<Rightarrow> False
            | Some address \<Rightarrow> address \<noteq> [] \<and> list_all is_ssh_address_char address)
      else list_all (\<lambda>c. is_ascii_alphanumeric c \<or> c \<in> {CHR ''.'', CHR ''-''}) s)"

definition is_valid_ssh_username :: "string \<Rightarrow> bool" where
  "is_valid_ssh_username s =
     list_all (\<lambda>c. is_ascii_alphanumeric c \<or> c \<in> {CHR ''.'', CHR ''_'', CHR ''-''}) s"

definition ssh_peer_new ::
  "string \<Rightarrow> string \<Rightarrow> u16 \<Rightarrow> path option \<Rightarrow> ssh_authentication \<Rightarrow> string
    \<Rightarrow> ssh_peer_error + ssh_peer" where
  "ssh_peer_new srv user prt ident auth remote =
     (if srv = [] then Err EmptyServer
      else if \<not> is_valid_ssh_server srv then Err InvalidServer
      else if user = [] then Err EmptyUsername
      else if \<not> is_valid_ssh_username user then Err InvalidUsername
      else if prt = 0 then Err InvalidPort
      else if ident = Some [] then Err EmptyIdentity
      else if is_some_and path_contains_nul ident then Err NulInIdentity
      else if auth = Key \<and> ident = None then Err MissingIdentityForKey
      else if remote = [] then Err EmptyRemotePath
      else if NUL \<in> set remote then Err NulInRemotePath
      else Ok \<lparr>server = srv, username = user, port = prt, identity = ident,
               authentication = auth, remote_path = components remote\<rparr>)"

subsection \<open>Peers\<close>

datatype peer_endpoint = Local path | Ssh ssh_peer

record peer =
  peer_label :: string
  endpoint :: peer_endpoint

definition peer_new :: "string \<Rightarrow> path \<Rightarrow> peer" where
  "peer_new name root = \<lparr>peer_label = name, endpoint = Local root\<rparr>"

definition peer_ssh ::
  "string \<Rightarrow> string \<Rightarrow> string \<Rightarrow> u16 \<Rightarrow> path option \<Rightarrow> ssh_authentication \<Rightarrow> string
    \<Rightarrow> ssh_peer_error + peer" where
  "peer_ssh name srv user prt ident auth remote =
     result_bind (ssh_peer_new srv user prt ident auth remote)
       (\<lambda>ssh. Ok \<lparr>peer_label = name, endpoint = Ssh ssh\<rparr>)"

definition peer_from_ssh :: "string \<Rightarrow> ssh_peer \<Rightarrow> peer" where
  "peer_from_ssh name ssh = \<lparr>peer_label = name, endpoint = Ssh ssh\<rparr>"

definition peer_root :: "peer \<Rightarrow> path" where
  "peer_root p = (case endpoint p of Local root \<Rightarrow> root | Ssh ssh \<Rightarrow> remote_path ssh)"

definition is_ssh :: "peer \<Rightarrow> bool" where
  "is_ssh p = (case endpoint p of Ssh _ \<Rightarrow> True | Local _ \<Rightarrow> False)"

definition peer_ssh_peer :: "peer \<Rightarrow> ssh_peer option" where
  "peer_ssh_peer p = (case endpoint p of Local _ \<Rightarrow> None | Ssh ssh \<Rightarrow> Some ssh)"

subsection \<open>Options\<close>

datatype sync_mode = OneWay | Mirror

datatype one_way_source = SourcePeerA | SourcePeerB

datatype deletion_method = Trash | PermanentRemoval

datatype partial_transfer_policy = Cleanup | KeepPartialForResume

text \<open>A \<open>Duration\<close> is its number of nanoseconds, at most \<open>Duration::MAX\<close>.\<close>

type_synonym duration = nat

definition NANOS_PER_SECOND :: nat where
  "NANOS_PER_SECOND = 1000000000"

definition DURATION_MAX :: duration where
  "DURATION_MAX = (2 ^ 64 - 1) * NANOS_PER_SECOND + 999999999"

definition duration_checked_mul :: "duration \<Rightarrow> nat \<Rightarrow> duration option" where
  "duration_checked_mul d k = (if d * k \<le> DURATION_MAX then Some (d * k) else None)"

record retry_policy =
  max_attempts :: u8
  initial_delay :: duration

definition MAX_ATTEMPTS :: u8 where
  "MAX_ATTEMPTS = 10"

definition MAX_INITIAL_DELAY :: duration where
  "MAX_INITIAL_DELAY = 60 * 60 * NANOS_PER_SECOND"

definition delay_for_retry :: "retry_policy \<Rightarrow> u8 \<Rightarrow> duration" where
  "delay_for_retry policy n =
     (case duration_checked_mul (initial_delay policy) (unat n) of
        Some d \<Rightarrow> d
      | None \<Rightarrow> DURATION_MAX)"

definition default_retry_policy :: retry_policy where
  "default_retry_policy = \<lparr>max_attempts = 3, initial_delay = 100 * 1000000\<rparr>"

record specialist_metadata_requirements =
  ownership :: bool
  access_control_lists :: bool
  extended_attributes :: bool

definition specialist_any :: "specialist_metadata_requirements \<Rightarrow> bool" where
  "specialist_any s = (ownership s \<or> access_control_lists s \<or> extended_attributes s)"

record metadata_requirements =
  req_file_type :: bool
  req_executable_permissions :: bool
  req_symlink_targets :: bool
  req_timestamps :: bool
  req_specialist :: specialist_metadata_requirements

definition no_specialist_metadata :: specialist_metadata_requirements where
  "no_specialist_metadata =
     \<lparr>ownership = False, access_control_lists = False, extended_attributes = False\<rparr>"

definition metadata_requirements_new ::
  "bool \<Rightarrow> bool \<Rightarrow> bool \<Rightarrow> bool \<Rightarrow> metadata_requirements" where
  "metadata_requirements_new ft ex sl ts =
     \<lparr>req_file_type = ft, req_executable_permissions = ex, req_symlink_targets = sl,
      req_timestamps = ts, req_specialist = no_specialist_metadata\<rparr>"

definition with_specialist_metadata ::
  "metadata_requirements \<Rightarrow> specialist_metadata_requirements \<Rightarrow> metadata_requirements" where
  "with_specialist_metadata m s = m\<lparr>req_specialist := s\<rparr>"

definition default_metadata_requirements :: metadata_requirements where
  "default_metadata_requirements = metadata_requirements_new True True True False"

record sync_options =
  opt_safe_delete :: bool
  opt_destination_cleanup :: bool
  opt_deletion_method :: "deletion_method option"
  opt_metadata :: metadata_requirements
  opt_partial_transfer_policy :: partial_transfer_policy
  opt_retry_policy :: retry_policy
  opt_bandwidth_limit :: "u64 option"

definition MAX_BANDWIDTH_LIMIT_KIB_PER_SECOND :: u64 where
  "MAX_BANDWIDTH_LIMIT_KIB_PER_SECOND = 4000000"

definition default_sync_options :: sync_options where
  "default_sync_options =
     \<lparr>opt_safe_delete = False, opt_destination_cleanup = False, opt_deletion_method = None,
      opt_metadata = default_metadata_requirements, opt_partial_transfer_policy = Cleanup,
      opt_retry_policy = default_retry_policy, opt_bandwidth_limit = None\<rparr>"

definition options_with_deletion_method ::
  "sync_options \<Rightarrow> deletion_method option \<Rightarrow> sync_options" where
  "options_with_deletion_method opts dm = opts\<lparr>opt_deletion_method := dm\<rparr>"

record authorization_snapshot =
  allow_unattended_destructive :: bool
  allow_unattended_permanent_removal :: bool

definition default_authorization_snapshot :: authorization_snapshot where
  "default_authorization_snapshot =
     \<lparr>allow_unattended_destructive = False, allow_unattended_permanent_removal = False\<rparr>"

subsection \<open>Profiles\<close>

record sync_profile =
  prof_name :: string
  peer_a :: peer
  peer_b :: peer
  prof_mode :: sync_mode
  prof_source :: one_way_source
  prof_options :: sync_options
  prof_exclusions :: "string list"

definition sync_profile_new :: "string \<Rightarrow> peer \<Rightarrow> peer \<Rightarrow> sync_profile" where
  "sync_profile_new name a b =
     \<lparr>prof_name = name, peer_a = a, peer_b = b, prof_mode = OneWay, prof_source = SourcePeerA,
      prof_options = default_sync_options, prof_exclusions = []\<rparr>"

definition selected_destination :: "sync_profile \<Rightarrow> peer" where
  "selected_destination prof =
     (case prof_source prof of SourcePeerA \<Rightarrow> peer_b prof | SourcePeerB \<Rightarrow> peer_a prof)"

definition selected_source :: "sync_profile \<Rightarrow> peer" where
  "selected_source prof =
     (case prof_source prof of SourcePeerA \<Rightarrow> peer_a prof | SourcePeerB \<Rightarrow> peer_b prof)"

definition effective_destination_root :: "sync_profile \<Rightarrow> path" where
  "effective_destination_root prof =
     (if prof_mode prof = Mirror then peer_root (selected_destination prof)
      else
        let source = selected_source prof; destination = selected_destination prof in
        case file_name (peer_root source) of
          None \<Rightarrow> peer_root destination
        | Some source_name \<Rightarrow>
            if file_name (peer_root destination) = Some source_name
            then peer_root destination
            else join (peer_root destination) (Name source_name))"

definition advanced_mode_requirement :: "sync_profile \<Rightarrow> string option" where
  "advanced_mode_requirement prof =
     (let opts = prof_options prof; specialist = req_specialist (opt_metadata opts) in
      if opt_deletion_method opts = Some PermanentRemoval then Some ''Permanent Removal''
      else if opt_destination_cleanup opts then Some ''Destination Cleanup''
      else if \<not> req_executable_permissions (opt_metadata opts)
        then Some ''executable-permission comparison''
      else if req_timestamps (opt_metadata opts) then Some ''timestamp preservation''
      else if ownership specialist then Some ''ownership preservation''
      else if access_control_lists specialist then Some ''access-control-list preservation''
      else if extended_attributes specialist then Some ''extended-attribute preservation''
      else if opt_partial_transfer_policy opts \<noteq> Cleanup
        then Some ''keeping partial transfers for resume''
      else if opt_retry_policy opts \<noteq> default_retry_policy then Some ''custom retry policy''
      else if opt_bandwidth_limit opts \<noteq> None then Some ''bandwidth limiting''
      else if is_some_and (\<lambda>ssh. port ssh \<noteq> 22) (peer_ssh_peer (peer_a prof)) \<or>
              is_some_and (\<lambda>ssh. port ssh \<noteq> 22) (peer_ssh_peer (peer_b prof))
        then Some ''custom SSH port''
      else None)"

definition with_source :: "sync_profile \<Rightarrow> one_way_source \<Rightarrow> sync_profile" where
  "with_source prof src = prof\<lparr>prof_source := src\<rparr>"

definition with_mode :: "sync_profile \<Rightarrow> sync_mode \<Rightarrow> sync_profile" where
  "with_mode prof m = prof\<lparr>prof_mode := m\<rparr>"

definition with_options :: "sync_profile \<Rightarrow> sync_options \<Rightarrow> sync_profile" where
  "with_options prof opts = prof\<lparr>prof_options := opts\<rparr>"

definition with_exclusion :: "sync_profile \<Rightarrow> string \<Rightarrow> sync_profile" where
  "with_exclusion prof e = prof\<lparr>prof_exclusions := prof_exclusions prof @ [e]\<rparr>"

definition with_exclusions :: "sync_profile \<Rightarrow> string list \<Rightarrow> sync_profile" where
  "with_exclusions prof es = prof\<lparr>prof_exclusions := prof_exclusions prof @ es\<rparr>"

subsection \<open>The state machine of a run\<close>

datatype active_run_state =
    IdleEdit | Prechecking | Analyzing | PlanReview | ExecutionConfirmation
  | Executing | CompletionReconciling | ReviewResolution

datatype terminal_outcome =
    OutcomeCompleted | OutcomeCompletedWithReviewRequired | OutcomeFailed | OutcomeCancelled
  | OutcomeInterrupted | OutcomeBlocked | OutcomeRecoveryReview | OutcomeReviewCleared

datatype run_state = Active active_run_state | PendingReview | Terminal terminal_outcome

definition is_terminal :: "run_state \<Rightarrow> bool" where
  "is_terminal s = (case s of Terminal _ \<Rightarrow> True | _ \<Rightarrow> False)"

datatype run_event =
    BeginPrecheck | PrecheckPassed | AnalysisCompleted | PlanReviewed | ExecutionConfirmed
  | ExecutionCompleted | ReconciliationCompleted bool | OpenReview | BeginResolutionRun
  | EvReviewCleared | EvBlocked | EvFailed | EvCancelled | EvInterrupted | EvRecoveryReview

definition is_stop_event :: "run_event \<Rightarrow> bool" where
  "is_stop_event e =
     (e = EvBlocked \<or> e = EvFailed \<or> e = EvCancelled \<or> e = EvInterrupted \<or> e = EvRecoveryReview)"

fun stop_outcome :: "run_event \<Rightarrow> terminal_outcome option" where
  "stop_outcome EvBlocked = Some OutcomeBlocked"
| "stop_outcome EvFailed = Some OutcomeFailed"
| "stop_outcome EvCancelled = Some OutcomeCancelled"
| "stop_outcome EvInterrupted = Some OutcomeInterrupted"
| "stop_outcome EvRecoveryReview = Some OutcomeRecoveryReview"
| "stop_outcome _ = None"

definition active_next :: "active_run_state \<Rightarrow> run_event \<Rightarrow> run_state option" where
  "active_next a e =
     (case a of
        IdleEdit \<Rightarrow> if e = BeginPrecheck then Some (Active Prechecking) else None
      | Prechecking \<Rightarrow> if e = PrecheckPassed then Some (Active Analyzing) else None
      | Analyzing \<Rightarrow> if e = AnalysisCompleted then Some (Active PlanReview) else None
      | PlanReview \<Rightarrow> if e = PlanReviewed then Some (Active ExecutionConfirmation) else None
      | ExecutionConfirmation \<Rightarrow> if e = ExecutionConfirmed then Some (Active Executing) else None
      | Executing \<Rightarrow> if e = ExecutionCompleted then Some (Active CompletionReconciling) else None
      | CompletionReconciling \<Rightarrow>
          (case e of
             ReconciliationCompleted requires_review \<Rightarrow>
               if requires_review then Some PendingReview else Some (Terminal OutcomeCompleted)
           | _ \<Rightarrow> None)
      | ReviewResolution \<Rightarrow>
          if e = BeginResolutionRun then Some (Active Analyzing)
          else if e = EvReviewCleared then Some (Terminal OutcomeReviewCleared)
          else None)"

definition advance_state :: "run_state \<Rightarrow> run_event \<Rightarrow> run_state option" where
  "advance_state s e =
     (case s of
        Active a \<Rightarrow> active_next a e
      | PendingReview \<Rightarrow> if e = OpenReview then Some (Active ReviewResolution) else None
      | Terminal _ \<Rightarrow> None)"

definition next_state :: "run_state \<Rightarrow> run_event \<Rightarrow> run_state option" where
  "next_state s e =
     (if is_stop_event e
      then (case s of
              Terminal _ \<Rightarrow> None
            | _ \<Rightarrow> map_option Terminal (stop_outcome e))
      else advance_state s e)"

definition state_outcome :: "run_state \<Rightarrow> terminal_outcome option" where
  "state_outcome s =
     (case s of
        PendingReview \<Rightarrow> Some OutcomeCompletedWithReviewRequired
      | Terminal t \<Rightarrow> Some t
      | Active _ \<Rightarrow> None)"

subsection \<open>Lemmas on validation\<close>

lemma byte_not_special:
  assumes "is_ascii_alphanumeric c"
  shows "c \<noteq> NUL" "c \<noteq> CHR '' ''" "c \<noteq> CHR ''@''" "c \<noteq> CHR '':''" "c \<noteq> CHR ''/''"
    "c \<noteq> CHR 0x27" "c \<noteq> CHR ''['' " "c \<noteq> CHR '']''"
  using assms
  by (auto simp: is_ascii_alphanumeric_def is_ascii_alphabetic_def is_ascii_digit_def)

lemma hexdigit_alphanumeric: "is_ascii_hexdigit c \<Longrightarrow> is_ascii_alphanumeric c"
  by (auto simp: is_ascii_hexdigit_def is_ascii_alphanumeric_def is_ascii_alphabetic_def)

text \<open>The shape \<open>SshPeer::new\<close> guarantees of every peer it accepts.\<close>

definition ssh_peer_wf :: "ssh_peer \<Rightarrow> bool" where
  "ssh_peer_wf p =
     (server p \<noteq> [] \<and> is_valid_ssh_server (server p) \<and>
      username p \<noteq> [] \<and> is_valid_ssh_username (username p) \<and>
      port p \<noteq> 0 \<and>
      (case identity p of None \<Rightarrow> authentication p \<noteq> Key
       | Some i \<Rightarrow> i \<noteq> [] \<and> \<not> path_contains_nul i) \<and>
      remote_path p \<noteq> [] \<and> \<not> path_contains_nul (remote_path p))"

lemma set_split_on: "\<Union> (set ` set (split_on sep s)) \<subseteq> set s"
proof (induction s)
  case Nil
  then show ?case by simp
next
  case (Cons x s)
  obtain piece pieces where "split_on sep s = piece # pieces"
    using split_on_nonempty[of sep s] by (cases "split_on sep s") auto
  with Cons show ?case by auto
qed

lemma component_of_name: "component_of piece = Some c \<Longrightarrow> set (component_name c) \<subseteq> set piece"
  by (auto simp: component_of_def split: if_splits)

lemma components_no_nul: "NUL \<notin> set raw \<Longrightarrow> \<not> path_contains_nul (components raw)"
proof -
  assume n: "NUL \<notin> set raw"
  have body: "NUL \<notin> set (component_name c)"
    if "c \<in> set (List.map_filter component_of (split_on SLASH raw))" for c
  proof -
    from that obtain piece where p: "piece \<in> set (split_on SLASH raw)" "component_of piece = Some c"
      by (auto simp: List.map_filter_def)
    then have "set (component_name c) \<subseteq> set piece" by (blast dest: component_of_name)
    with p n show ?thesis using set_split_on[of SLASH raw] by blast
  qed
  then show ?thesis
    by (auto simp: path_contains_nul_def components_def Let_def split: list.splits)
qed

lemma components_Nil_iff [simp]: "components raw = [] \<longleftrightarrow> raw = []"
proof (cases raw)
  case Nil
  then show ?thesis by (simp add: components_def)
next
  case (Cons c cs)
  show ?thesis
  proof (cases "c = SLASH \<or> hd (split_on SLASH raw) = ''.''")
    case True
    with Cons show ?thesis by (auto simp: components_def Let_def)
  next
    case False
    with Cons obtain piece pieces where sp: "split_on SLASH raw = (c # piece) # pieces"
      by (cases "split_on SLASH cs") (auto simp: split_on_nonempty)
    with False have "component_of (c # piece) \<noteq> None"
      by (auto simp: component_of_def)
    with sp have "List.map_filter component_of (split_on SLASH raw) \<noteq> []"
      by (auto simp: List.map_filter_def)
    with False Cons show ?thesis by (auto simp: components_def Let_def)
  qed
qed

lemma ssh_peer_new_wf: "ssh_peer_new s u q i a r = Ok p \<Longrightarrow> ssh_peer_wf p"
  by (auto simp: ssh_peer_new_def ssh_peer_wf_def components_no_nul
      split: if_splits option.splits)

lemma ssh_peer_new_fields:
  "ssh_peer_new s u q i a r = Ok p \<longleftrightarrow>
     ssh_peer_wf \<lparr>server = s, username = u, port = q, identity = i, authentication = a,
       remote_path = components r\<rparr> \<and> NUL \<notin> set r \<and>
     p = \<lparr>server = s, username = u, port = q, identity = i, authentication = a,
       remote_path = components r\<rparr>"
  by (auto simp: ssh_peer_new_def ssh_peer_wf_def components_no_nul
      split: if_splits option.splits)

subsection \<open>The documented transitions, and inversion\<close>

text \<open>
  The transitions of the plan's run life cycle as a relation, one rule per transition; the
  implemented function decides exactly this relation.
\<close>

inductive run_edge :: "run_state \<Rightarrow> run_event \<Rightarrow> run_state \<Rightarrow> bool" where
  begin_precheck: "run_edge (Active IdleEdit) BeginPrecheck (Active Prechecking)"
| precheck_passed: "run_edge (Active Prechecking) PrecheckPassed (Active Analyzing)"
| analysis_completed: "run_edge (Active Analyzing) AnalysisCompleted (Active PlanReview)"
| plan_reviewed: "run_edge (Active PlanReview) PlanReviewed (Active ExecutionConfirmation)"
| execution_confirmed:
    "run_edge (Active ExecutionConfirmation) ExecutionConfirmed (Active Executing)"
| execution_completed:
    "run_edge (Active Executing) ExecutionCompleted (Active CompletionReconciling)"
| reconciled_clean:
    "run_edge (Active CompletionReconciling) (ReconciliationCompleted False)
       (Terminal OutcomeCompleted)"
| reconciled_review:
    "run_edge (Active CompletionReconciling) (ReconciliationCompleted True) PendingReview"
| open_review: "run_edge PendingReview OpenReview (Active ReviewResolution)"
| begin_resolution: "run_edge (Active ReviewResolution) BeginResolutionRun (Active Analyzing)"
| review_cleared:
    "run_edge (Active ReviewResolution) EvReviewCleared (Terminal OutcomeReviewCleared)"
| stop: "stop_outcome e = Some t \<Longrightarrow> \<not> is_terminal s \<Longrightarrow> run_edge s e (Terminal t)"

lemma stop_event_outcome: "is_stop_event e \<longleftrightarrow> stop_outcome e \<noteq> None"
  by (cases e) (auto simp: is_stop_event_def)

lemma next_state_iff_edge: "next_state s e = Some u \<longleftrightarrow> run_edge s e u"
proof
  assume "next_state s e = Some u"
  then show "run_edge s e u"
    by (auto simp: next_state_def stop_event_outcome advance_state_def active_next_def
        is_terminal_def intro: run_edge.intros
        split: run_state.splits active_run_state.splits run_event.splits if_splits)
next
  assume "run_edge s e u"
  then show "next_state s e = Some u"
  proof cases
    case (stop t)
    then show ?thesis
      by (auto simp: next_state_def stop_event_outcome is_terminal_def split: run_state.splits)
  qed (simp_all add: next_state_def is_stop_event_def advance_state_def active_next_def)
qed

lemma stop_outcome_values:
  "stop_outcome e \<noteq> Some OutcomeCompleted"
  "stop_outcome e \<noteq> Some OutcomeReviewCleared"
  "stop_outcome e \<noteq> Some OutcomeCompletedWithReviewRequired"
  by (cases e; simp)+

inductive_simps into_idle: "run_edge s e (Active IdleEdit)"
inductive_simps into_prechecking: "run_edge s e (Active Prechecking)"
inductive_simps into_analyzing: "run_edge s e (Active Analyzing)"
inductive_simps into_plan_review: "run_edge s e (Active PlanReview)"
inductive_simps into_confirmation: "run_edge s e (Active ExecutionConfirmation)"
inductive_simps into_executing: "run_edge s e (Active Executing)"
inductive_simps into_reconciling: "run_edge s e (Active CompletionReconciling)"
inductive_simps into_review_resolution: "run_edge s e (Active ReviewResolution)"
inductive_simps into_pending_review: "run_edge s e PendingReview"
inductive_simps into_terminal: "run_edge s e (Terminal t)"
inductive_cases from_terminal: "run_edge (Terminal t) e u"

lemmas run_inversions = next_state_iff_edge into_idle into_prechecking into_analyzing
  into_plan_review into_confirmation into_executing into_reconciling into_review_resolution
  into_pending_review into_terminal stop_outcome_values

text \<open>The run machine over whole event sequences, started in the editing state.\<close>

definition run_from_idle :: "run_event list \<Rightarrow> run_state option" where
  "run_from_idle es = run_steps next_state (Active IdleEdit) es"

lemma run_from_idle_Nil [simp]: "run_from_idle [] = Some (Active IdleEdit)"
  by (simp add: run_from_idle_def)

lemma run_from_idle_snoc:
  "run_from_idle (es @ [e]) = Some u \<longleftrightarrow> (\<exists>t. run_from_idle es = Some t \<and> next_state t e = Some u)"
  by (simp add: run_from_idle_def run_steps_snoc)

lemma run_from_idle_last:
  assumes "run_from_idle es = Some u" and "u \<noteq> Active IdleEdit"
  obtains fs e t where "es = fs @ [e]" "run_from_idle fs = Some t" "next_state t e = Some u"
proof (cases es rule: rev_cases)
  case Nil
  with assms show ?thesis by simp
next
  case (snoc fs e)
  with assms(1) that show ?thesis by (auto simp: run_from_idle_snoc)
qed

definition past_precheck :: "run_state \<Rightarrow> bool" where
  "past_precheck s = (s \<notin> {Active IdleEdit, Active Prechecking} \<and> \<not> is_terminal s)"

lemma precheck_before_analysis:
  "run_from_idle es = Some s \<Longrightarrow> past_precheck s \<Longrightarrow> PrecheckPassed \<in> set es"
proof (induction es arbitrary: s rule: rev_induct)
  case Nil
  then show ?case by (simp add: past_precheck_def)
next
  case (snoc e es)
  then obtain t where t: "run_from_idle es = Some t" "next_state t e = Some s"
    by (auto simp: run_from_idle_snoc)
  show ?case
  proof (cases "past_precheck t")
    case True
    with snoc.IH t show ?thesis by auto
  next
    case False
    then have "t = Active IdleEdit \<or> t = Active Prechecking \<or> is_terminal t"
      by (auto simp: past_precheck_def)
    with t(2) snoc.prems(2) have "e = PrecheckPassed"
      by (auto simp: next_state_iff_edge past_precheck_def is_terminal_def elim: run_edge.cases)
    then show ?thesis by simp
  qed
qed

lemma executing_needs:
  assumes "run_from_idle es = Some (Active Executing)"
  shows "\<exists>fs. es = fs @ [AnalysisCompleted, PlanReviewed, ExecutionConfirmed] \<and>
           run_from_idle fs = Some (Active Analyzing) \<and> PrecheckPassed \<in> set fs"
proof -
  from assms obtain f1 where 1: "es = f1 @ [ExecutionConfirmed]"
      "run_from_idle f1 = Some (Active ExecutionConfirmation)"
    by (rule run_from_idle_last) (auto simp: run_inversions)
  from 1(2) obtain f2 where 2: "f1 = f2 @ [PlanReviewed]"
      "run_from_idle f2 = Some (Active PlanReview)"
    by (rule run_from_idle_last) (auto simp: run_inversions)
  from 2(2) obtain f3 where 3: "f2 = f3 @ [AnalysisCompleted]"
      "run_from_idle f3 = Some (Active Analyzing)"
    by (rule run_from_idle_last) (auto simp: run_inversions)
  from 3(2) have "PrecheckPassed \<in> set f3"
    by (rule precheck_before_analysis) (simp add: past_precheck_def is_terminal_def)
  with 1 2 3 show ?thesis by auto
qed

lemma reconciling_needs:
  assumes "run_from_idle es = Some (Active CompletionReconciling)"
  shows "\<exists>fs. es = fs @ [AnalysisCompleted, PlanReviewed, ExecutionConfirmed, ExecutionCompleted]"
proof -
  from assms obtain f1 where 1: "es = f1 @ [ExecutionCompleted]"
      "run_from_idle f1 = Some (Active Executing)"
    by (rule run_from_idle_last) (auto simp: run_inversions)
  from executing_needs[OF 1(2)] 1(1) show ?thesis by auto
qed

lemma resolution_needs:
  assumes "run_from_idle es = Some (Active ReviewResolution)"
  shows "\<exists>fs. es = fs @ [AnalysisCompleted, PlanReviewed, ExecutionConfirmed,
           ExecutionCompleted, ReconciliationCompleted True, OpenReview]"
proof -
  from assms obtain f1 where 1: "es = f1 @ [OpenReview]" "run_from_idle f1 = Some PendingReview"
    by (rule run_from_idle_last) (auto simp: run_inversions)
  from 1(2) obtain f2 where 2: "f1 = f2 @ [ReconciliationCompleted True]"
      "run_from_idle f2 = Some (Active CompletionReconciling)"
    by (rule run_from_idle_last) (auto simp: run_inversions)
  from reconciling_needs[OF 2(2)] 2(1) 1(1) show ?thesis by auto
qed

subsection \<open>Properties\<close>

text \<open>C1: Whatever events a run receives from the editing state on, it is executing only
  if its last three events are a completed analysis, the review of that plan and the
  execution confirmation, in this order and with nothing in between, after a precheck that
  passed; the same holds when the run comes back through a resolution run.\<close>

theorem execution_follows_confirmation:
  assumes "run_from_idle es = Some (Active Executing)"
  shows "\<exists>fs. es = fs @ [AnalysisCompleted, PlanReviewed, ExecutionConfirmed] \<and>
           run_from_idle fs = Some (Active Analyzing) \<and> PrecheckPassed \<in> set fs"
  using assms by (rule executing_needs)

theorem execution_follows_confirmation_witness:
  "\<exists>fs. [BeginPrecheck, PrecheckPassed, AnalysisCompleted, PlanReviewed, ExecutionConfirmed]
      = fs @ [AnalysisCompleted, PlanReviewed, ExecutionConfirmed] \<and>
     run_from_idle fs = Some (Active Analyzing) \<and> PrecheckPassed \<in> set fs"
  by (rule execution_follows_confirmation)
    (simp add: run_from_idle_def next_state_def is_stop_event_def advance_state_def active_next_def)

text \<open>A run ends as completed only through a confirmed execution whose reconciliation
  needed no review, and as review-cleared only after a reconciliation that asked for a
  review which the user opened.\<close>

theorem completion_follows_reconciliation:
  assumes "run_from_idle es = Some (Terminal t)"
  shows "(t = OutcomeCompleted \<longrightarrow>
           (\<exists>fs. es = fs @ [AnalysisCompleted, PlanReviewed, ExecutionConfirmed,
              ExecutionCompleted, ReconciliationCompleted False])) \<and>
         (t = OutcomeReviewCleared \<longrightarrow>
           (\<exists>fs. es = fs @ [AnalysisCompleted, PlanReviewed, ExecutionConfirmed,
              ExecutionCompleted, ReconciliationCompleted True, OpenReview, EvReviewCleared])) \<and>
         t \<noteq> OutcomeCompletedWithReviewRequired"
proof -
  from assms obtain f1 e s where 1: "es = f1 @ [e]" "run_from_idle f1 = Some s"
      "next_state s e = Some (Terminal t)"
    by (rule run_from_idle_last) simp
  have "\<exists>fs. es = fs @ [AnalysisCompleted, PlanReviewed, ExecutionConfirmed,
      ExecutionCompleted, ReconciliationCompleted False]" if "t = OutcomeCompleted"
    using 1 that by (auto simp: run_inversions dest!: reconciling_needs)
  moreover have "\<exists>fs. es = fs @ [AnalysisCompleted, PlanReviewed, ExecutionConfirmed,
      ExecutionCompleted, ReconciliationCompleted True, OpenReview, EvReviewCleared]"
    if "t = OutcomeReviewCleared"
    using 1 that by (auto simp: run_inversions dest!: resolution_needs)
  moreover have "t \<noteq> OutcomeCompletedWithReviewRequired"
    using 1(3) by (auto simp: run_inversions)
  ultimately show ?thesis by blast
qed

theorem completion_follows_reconciliation_witness:
  "\<exists>fs. [BeginPrecheck, PrecheckPassed, AnalysisCompleted, PlanReviewed, ExecutionConfirmed,
      ExecutionCompleted, ReconciliationCompleted False]
    = fs @ [AnalysisCompleted, PlanReviewed, ExecutionConfirmed, ExecutionCompleted,
        ReconciliationCompleted False]"
proof -
  have "run_from_idle [BeginPrecheck, PrecheckPassed, AnalysisCompleted, PlanReviewed,
      ExecutionConfirmed, ExecutionCompleted, ReconciliationCompleted False]
    = Some (Terminal OutcomeCompleted)"
    by (simp add: run_from_idle_def next_state_def is_stop_event_def advance_state_def active_next_def)
  from completion_follows_reconciliation[OF this] show ?thesis by simp
qed


end
