(* ===== verification/ScopeLock.thy ===== *)
theory ScopeLock
  imports Model
begin

text \<open>
  \<open>crates/syncplus-core/src/scope_lock.rs\<close>: the normalised scope of a peer, and the
  registry of scopes held by active runs. The working directory of the process is an
  argument (\<open>None\<close> when it cannot be read). The mutex makes each call of the registry
  one step, so the registry is a state passed from call to call; a lease is the token it
  was given, and dropping it is \<open>release\<close>.
\<close>

subsection \<open>Scopes\<close>

datatype scope_namespace = LocalScope | SshScope string string u16

record peer_scope =
  ps_namespace :: scope_namespace
  ps_path :: path

fun normalize_step :: "path \<Rightarrow> component \<Rightarrow> path" where
  "normalize_step acc RootDir = join acc [RootDir]"
| "normalize_step acc CurDir = acc"
| "normalize_step acc ParentDir = (if file_name acc \<noteq> None then pop acc else acc)"
| "normalize_step acc (Normal s) = join acc [Normal s]"

definition normalize_remote_path :: "path \<Rightarrow> path" where
  "normalize_remote_path p = foldl normalize_step [] p"

definition normalize_path :: "path option \<Rightarrow> path \<Rightarrow> path" where
  "normalize_path cwd p =
     (let absolute = (if is_absolute p then p
                      else case cwd of None \<Rightarrow> p | Some d \<Rightarrow> join d p)
      in foldl normalize_step [] absolute)"

definition peer_scope_new :: "path option \<Rightarrow> path \<Rightarrow> peer_scope" where
  "peer_scope_new cwd p = \<lparr>ps_namespace = LocalScope, ps_path = normalize_path cwd p\<rparr>"

definition for_peer :: "path option \<Rightarrow> peer \<Rightarrow> peer_scope" where
  "for_peer cwd p =
     (case peer_ssh_peer p of
        Some ssh \<Rightarrow>
          \<lparr>ps_namespace = SshScope (server ssh) (username ssh) (port ssh),
           ps_path = normalize_remote_path (remote_path ssh)\<rparr>
      | None \<Rightarrow>
          \<lparr>ps_namespace = LocalScope, ps_path = normalize_path cwd (peer_root p)\<rparr>)"

definition overlaps :: "peer_scope \<Rightarrow> peer_scope \<Rightarrow> bool" where
  "overlaps a b =
     (ps_namespace a = ps_namespace b \<and>
      (starts_with (ps_path a) (ps_path b) \<or> starts_with (ps_path b) (ps_path a)))"

text \<open>\<open>Peer::same_endpoint\<close> of \<open>model.rs\<close>.\<close>

definition same_endpoint :: "path option \<Rightarrow> peer \<Rightarrow> peer \<Rightarrow> bool" where
  "same_endpoint cwd p q = (for_peer cwd p = for_peer cwd q)"

subsection \<open>The registry\<close>

record scope_lock_owner =
  owner_profile :: string
  owner_run :: nat

record held_scope =
  hs_token :: u64
  hs_scope :: peer_scope
  hs_owner :: scope_lock_owner

record lock_state =
  next_token :: u64
  held :: "held_scope list"

record scope_lock_conflict =
  conflict_requested :: peer_scope
  conflict_held :: peer_scope
  conflict_owner :: scope_lock_owner

datatype scope_lock_error = EmptyScopes | ScopeConflict scope_lock_conflict

definition empty_registry :: lock_state where
  "empty_registry = \<lparr>next_token = 0, held = []\<rparr>"

fun first_conflict :: "peer_scope list \<Rightarrow> held_scope list \<Rightarrow> scope_lock_conflict option" where
  "first_conflict [] hs = None"
| "first_conflict (r # rs) hs =
     (case List.find (\<lambda>h. overlaps r (hs_scope h)) hs of
        Some h \<Rightarrow>
          Some \<lparr>conflict_requested = r, conflict_held = hs_scope h, conflict_owner = hs_owner h\<rparr>
      | None \<Rightarrow> first_conflict rs hs)"

definition fresh_token :: "u64 \<Rightarrow> u64" where
  "fresh_token t = max (t + 1) 1"

definition acquire ::
  "lock_state \<Rightarrow> scope_lock_owner \<Rightarrow> peer_scope list \<Rightarrow> scope_lock_error + (lock_state \<times> u64)" where
  "acquire st owner scopes =
     (let requested = remdups_adj (sort_by ps_path scopes) in
      if requested = [] then Err EmptyScopes
      else case first_conflict requested (held st) of
        Some c \<Rightarrow> Err (ScopeConflict c)
      | None \<Rightarrow>
          let token = fresh_token (next_token st) in
          Ok (st\<lparr>next_token := token,
                 held := held st @ map (\<lambda>s. \<lparr>hs_token = token, hs_scope = s, hs_owner = owner\<rparr>)
                   requested\<rparr>, token))"

definition release :: "lock_state \<Rightarrow> u64 \<Rightarrow> lock_state" where
  "release st token = st\<lparr>held := filter (\<lambda>h. hs_token h \<noteq> token) (held st)\<rparr>"

subsection \<open>Normal forms of paths\<close>

text \<open>A normalised path: an optional root followed by names only.\<close>

definition is_normalized :: "path \<Rightarrow> bool" where
  "is_normalized p = (all_normal p \<or> (\<exists>q. p = RootDir # q \<and> all_normal q))"

lemma is_normalized_Nil [simp]: "is_normalized []"
  by (simp add: is_normalized_def)

lemma all_normal_butlast: "all_normal p \<Longrightarrow> all_normal (butlast p)"
  by (auto simp: all_normal_def dest: in_set_butlastD)

lemma is_normalized_snoc: "is_normalized p \<Longrightarrow> is_normalized (p @ [Normal s])"
  by (auto simp: is_normalized_def)

lemma is_normalized_unsnoc: "is_normalized (p @ [Normal s]) \<Longrightarrow> is_normalized p"
  by (cases p) (auto simp: is_normalized_def all_normal_def)

lemma is_absolute_snoc [simp]: "is_absolute (p @ [Normal s]) = is_absolute p"
  by (cases p) (auto simp: is_absolute_def split: component.splits)

lemma normalize_step_keeps: "is_normalized p \<Longrightarrow> is_normalized (normalize_step p c)"
proof (cases c)
  case RootDir
  then show ?thesis by (simp add: is_normalized_def)
next
  case ParentDir
  moreover assume "is_normalized p"
  ultimately show ?thesis
    by (auto dest!: file_name_Some is_normalized_unsnoc)
qed (simp_all add: is_normalized_snoc)

lemma normalize_step_absolute: "is_absolute p \<Longrightarrow> is_absolute (normalize_step p c)"
  by (cases c) (auto dest!: file_name_Some)

lemma foldl_normalize_keeps:
  "is_normalized acc \<Longrightarrow> is_normalized (foldl normalize_step acc p)"
  by (induction p arbitrary: acc) (auto simp: normalize_step_keeps)

lemma normalize_names: "all_normal p \<Longrightarrow> foldl normalize_step acc p = acc @ p"
  by (induction p arbitrary: acc) (auto simp: all_normal_def)

lemma normalize_idem: "is_normalized p \<Longrightarrow> foldl normalize_step [] p = p"
  by (auto simp: is_normalized_def normalize_names)

lemma foldl_normalize_absolute:
  "is_absolute acc \<Longrightarrow> is_absolute (foldl normalize_step acc p)"
  by (induction p arbitrary: acc) (auto simp: normalize_step_absolute)

lemma normalize_absolute: "is_absolute p \<Longrightarrow> is_absolute (foldl normalize_step [] p)"
  using foldl_normalize_absolute[of "[RootDir]"] by (cases p) (auto simp: is_absolute_iff)

subsection \<open>Overlap\<close>

lemma overlaps_refl [simp]: "overlaps s s"
  by (simp add: overlaps_def)

lemma overlaps_sym: "overlaps s t = overlaps t s"
  by (auto simp: overlaps_def)

text \<open>Two scopes overlap exactly when some location lies in both.\<close>

definition in_scope :: "scope_namespace \<Rightarrow> path \<Rightarrow> peer_scope \<Rightarrow> bool" where
  "in_scope ns p s = (ns = ps_namespace s \<and> starts_with p (ps_path s))"

lemma overlaps_iff_common:
  "overlaps s t \<longleftrightarrow> (\<exists>ns p. in_scope ns p s \<and> in_scope ns p t)"
proof
  assume "overlaps s t"
  then show "\<exists>ns p. in_scope ns p s \<and> in_scope ns p t"
    unfolding overlaps_def in_scope_def by (metis starts_with_refl)
next
  assume "\<exists>ns p. in_scope ns p s \<and> in_scope ns p t"
  then show "overlaps s t"
    by (auto simp: overlaps_def in_scope_def starts_with_def dest: prefix_same_cases)
qed

subsection \<open>The invariant of the registry\<close>

text \<open>
  Scopes held under different tokens do not overlap, and no token above the counter is
  in use while the counter has not wrapped.
\<close>

definition registry_exclusive :: "lock_state \<Rightarrow> bool" where
  "registry_exclusive st =
     (\<forall>h \<in> set (held st). \<forall>k \<in> set (held st).
        hs_token h \<noteq> hs_token k \<longrightarrow> \<not> overlaps (hs_scope h) (hs_scope k))"

definition tokens_below :: "lock_state \<Rightarrow> bool" where
  "tokens_below st = (\<forall>h \<in> set (held st). hs_token h \<le> next_token st)"

lemma first_conflict_None:
  "first_conflict rs hs = None \<longleftrightarrow>
     (\<forall>r \<in> set rs. \<forall>h \<in> set hs. \<not> overlaps r (hs_scope h))"
  by (induction rs) (auto simp: find_None_iff_all split: option.splits dest: find_Some_D)

lemma first_conflict_Some:
  "first_conflict rs hs = Some c \<Longrightarrow>
     conflict_requested c \<in> set rs \<and> overlaps (conflict_requested c) (conflict_held c) \<and>
     (\<exists>h \<in> set hs. hs_scope h = conflict_held c \<and> hs_owner h = conflict_owner c)"
  by (induction rs) (auto split: option.splits dest: find_Some_D)

lemma acquire_cases:
  assumes "acquire st owner scopes = Ok (st', token)"
  shows "token = fresh_token (next_token st)" "next_token st' = token" "scopes \<noteq> []"
    "held st' = held st @ map (\<lambda>s. \<lparr>hs_token = token, hs_scope = s, hs_owner = owner\<rparr>)
       (remdups_adj (sort_by ps_path scopes))"
    "\<forall>r \<in> set scopes. \<forall>h \<in> set (held st). \<not> overlaps r (hs_scope h)"
  using assms
  by (auto simp: acquire_def Let_def first_conflict_None split: if_splits option.splits)

lemma release_exclusive: "registry_exclusive st \<Longrightarrow> registry_exclusive (release st t)"
  by (auto simp: registry_exclusive_def release_def)

lemma acquire_exclusive:
  assumes "registry_exclusive st" and ok: "acquire st owner scopes = Ok (st', token)"
  shows "registry_exclusive st'"
  unfolding registry_exclusive_def
proof (intro ballI impI)
  note a = acquire_cases[OF ok]
  fix h k
  assume h: "h \<in> set (held st')" and k: "k \<in> set (held st')" and ne: "hs_token h \<noteq> hs_token k"
  have new: "x \<in> set (held st) \<or> hs_token x = token \<and> hs_scope x \<in> set scopes"
    if "x \<in> set (held st')" for x
    using that a(4) by auto
  from new[OF h] new[OF k] ne assms(1) a(5) show "\<not> overlaps (hs_scope h) (hs_scope k)"
    unfolding registry_exclusive_def by (metis overlaps_sym)
qed

lemma fresh_token_above: "t \<noteq> -1 \<Longrightarrow> t < fresh_token t"
proof -
  assume "t \<noteq> -1"
  then have "t < t + 1"
    by (metis inc_less_eq_triv_imp linorder_less_linear word_le_less_eq)
  then show ?thesis by (simp add: fresh_token_def less_max_iff_disj)
qed

lemma acquire_tokens_below:
  assumes "tokens_below st" "next_token st \<noteq> -1" and ok: "acquire st owner scopes = Ok (st', t)"
  shows "tokens_below st'" and "\<forall>h \<in> set (held st). hs_token h < t"
proof -
  note a = acquire_cases[OF ok]
  have above: "next_token st < t"
    using fresh_token_above[OF assms(2)] a(1) by simp
  show below: "\<forall>h \<in> set (held st). hs_token h < t"
    using assms(1) above unfolding tokens_below_def by (meson le_less_trans)
  show "tokens_below st'"
    using below a(2,4) by (auto simp: tokens_below_def)
qed

lemma release_acquired:
  assumes "tokens_below st" "next_token st \<noteq> -1" and ok: "acquire st owner scopes = Ok (st', t)"
  shows "held (release st' t) = held st"
proof -
  note below = acquire_tokens_below(2)[OF assms]
  have "filter (\<lambda>h. hs_token h \<noteq> t) (held st) = held st"
    using below by (auto intro: filter_True)
  with acquire_cases(4)[OF ok] show ?thesis by (simp add: release_def)
qed

subsection \<open>The registry as a machine\<close>

datatype lock_event = Acquire scope_lock_owner "peer_scope list" | Release u64

definition lock_step :: "lock_state \<Rightarrow> lock_event \<Rightarrow> lock_state option" where
  "lock_step st ev =
     (case ev of
        Acquire owner scopes \<Rightarrow>
          (case acquire st owner scopes of Inl _ \<Rightarrow> Some st | Inr (st', _) \<Rightarrow> Some st')
      | Release t \<Rightarrow> Some (release st t))"

interpretation lock: step_invariant lock_step registry_exclusive
  by unfold_locales
    (auto simp: lock_step_def split: lock_event.splits sum.splits
      intro: release_exclusive acquire_exclusive)

lemma empty_registry_exclusive: "registry_exclusive empty_registry"
  by (simp add: registry_exclusive_def empty_registry_def)

subsection \<open>Properties\<close>

text \<open>C13: Whatever runs acquire and release, in any order, no location of any peer is ever
  covered by scopes of two different leases.\<close>

theorem scope_leases_are_exclusive:
  assumes "run_steps lock_step empty_registry evs = Some st"
    and "h \<in> set (held st)" "k \<in> set (held st)"
    and "in_scope ns p (hs_scope h)" "in_scope ns p (hs_scope k)"
  shows "hs_token h = hs_token k"
proof -
  have "registry_exclusive st"
    using lock.run_keeps[OF empty_registry_exclusive assms(1)] .
  moreover have "overlaps (hs_scope h) (hs_scope k)"
    using assms(4,5) overlaps_iff_common by blast
  ultimately show ?thesis
    using assms(2,3) by (auto simp: registry_exclusive_def)
qed

definition example_owner :: scope_lock_owner where
  "example_owner = \<lparr>owner_profile = ''photos'', owner_run = 1\<rparr>"

definition example_scope :: "string \<Rightarrow> peer_scope" where
  "example_scope s = \<lparr>ps_namespace = LocalScope, ps_path = [RootDir, Normal s]\<rparr>"

lemmas example_lock_defs = acquire_def Let_def sort_by_def fresh_token_def example_scope_def
  overlaps_def starts_with_def empty_registry_def example_owner_def release_def

lemma example_lock_run:
  "run_steps lock_step empty_registry
     [Acquire example_owner [example_scope ''a''], Acquire example_owner [example_scope ''a''],
      Acquire example_owner [example_scope ''b''], Release 2]
   = Some \<lparr>next_token = 2, held =
       [\<lparr>hs_token = 1, hs_scope = example_scope ''a'', hs_owner = example_owner\<rparr>]\<rparr>"
  by (simp add: lock_step_def example_lock_defs)

theorem scope_leases_are_exclusive_witness:
  "hs_token \<lparr>hs_token = 1, hs_scope = example_scope ''a'', hs_owner = example_owner\<rparr> = 1"
  by (rule scope_leases_are_exclusive[OF example_lock_run,
        of _ "\<lparr>hs_token = 1, hs_scope = example_scope ''a'', hs_owner = example_owner\<rparr>"
           LocalScope "[RootDir, Normal ''a'']", simplified])
    (simp_all add: in_scope_def example_scope_def)

text \<open>An acquisition fails with \<open>EmptyScopes\<close> exactly when nothing is requested; it
  fails with a conflict exactly when a requested scope overlaps a held one, and then names
  such a pair and the owner that holds it; otherwise it holds every requested scope for the
  caller, next to everything held before.\<close>

theorem acquire_decides_by_overlap:
  "case acquire st owner scopes of
     Inl EmptyScopes \<Rightarrow> scopes = []
   | Inl (ScopeConflict c) \<Rightarrow>
       conflict_requested c \<in> set scopes \<and>
       overlaps (conflict_requested c) (conflict_held c) \<and>
       (\<exists>h \<in> set (held st). hs_scope h = conflict_held c \<and> hs_owner h = conflict_owner c)
   | Inr (st', t) \<Rightarrow>
       scopes \<noteq> [] \<and>
       (\<forall>s \<in> set scopes. \<forall>h \<in> set (held st). \<not> overlaps s (hs_scope h)) \<and>
       set (held st') = set (held st) \<union>
         (\<lambda>s. \<lparr>hs_token = t, hs_scope = s, hs_owner = owner\<rparr>) ` set scopes"
proof (cases "acquire st owner scopes")
  case (Inl e)
  then show ?thesis
    by (cases e)
      (auto simp: acquire_def Let_def split: if_splits option.splits dest!: first_conflict_Some)
next
  case (Inr r)
  then show ?thesis
    using acquire_cases[of st owner scopes] by (cases r) auto
qed

theorem acquire_decides_by_overlap_witness:
  "acquire empty_registry example_owner [example_scope ''a''] =
     Ok (\<lparr>next_token = 1, held =
       [\<lparr>hs_token = 1, hs_scope = example_scope ''a'', hs_owner = example_owner\<rparr>]\<rparr>, 1) \<and>
   set (held \<lparr>next_token = 1, held =
       [\<lparr>hs_token = 1, hs_scope = example_scope ''a'', hs_owner = example_owner\<rparr>]\<rparr>) =
     set (held empty_registry) \<union>
       (\<lambda>s. \<lparr>hs_token = 1, hs_scope = s, hs_owner = example_owner\<rparr>) ` set [example_scope ''a'']"
proof -
  have ok: "acquire empty_registry example_owner [example_scope ''a''] =
     Ok (\<lparr>next_token = 1, held =
       [\<lparr>hs_token = 1, hs_scope = example_scope ''a'', hs_owner = example_owner\<rparr>]\<rparr>, 1)"
    by (simp add: example_lock_defs)
  with acquire_decides_by_overlap[where st = empty_registry and owner = example_owner
      and scopes = "[example_scope ''a'']"]
  show ?thesis by simp
qed

text \<open>Dropping a lease gives back exactly what it acquired: as long as the token counter
  has not reached the last \<open>u64\<close>, an acquisition followed by the release of its token
  leaves the held scopes as they were, and keeps the counter above every token in use.\<close>

theorem release_undoes_acquire:
  assumes "tokens_below st" and "next_token st \<noteq> -1"
    and "acquire st owner scopes = Ok (st', t)"
  shows "held (release st' t) = held st \<and> tokens_below st' \<and> t \<notin> hs_token ` set (held st)"
  using release_acquired[OF assms] acquire_tokens_below[OF assms] by auto

theorem release_undoes_acquire_witness:
  "\<exists>st' t. acquire empty_registry example_owner [example_scope ''a''] = Ok (st', t) \<and>
     held (release st' t) = held empty_registry \<and> tokens_below st' \<and>
     t \<notin> hs_token ` set (held empty_registry)"
proof -
  have 1: "tokens_below empty_registry" "next_token empty_registry \<noteq> -1"
    by (simp_all add: tokens_below_def empty_registry_def)
  obtain st' t where 2: "acquire empty_registry example_owner [example_scope ''a''] = Ok (st', t)"
    by (simp add: example_lock_defs)
  from release_undoes_acquire[OF 1 2] 2 show ?thesis by blast
qed

text \<open>C40: A scope's path is in normal form whatever the endpoint's path was: an optional root
  and then names, with no dot components; normalising again changes nothing, an absolute
  path stays absolute, and two peers with the same endpoint always overlap.\<close>

theorem scope_paths_are_normalized:
  "is_normalized (ps_path (for_peer cwd p)) \<and>
   normalize_remote_path (ps_path (for_peer cwd p)) = ps_path (for_peer cwd p) \<and>
   (is_absolute (peer_root p) \<longrightarrow> is_absolute (ps_path (for_peer cwd p))) \<and>
   (same_endpoint cwd p q \<longrightarrow> overlaps (for_peer cwd p) (for_peer cwd q))"
proof -
  have n: "is_normalized (ps_path (for_peer cwd p))"
    by (auto simp: for_peer_def normalize_path_def normalize_remote_path_def Let_def
        foldl_normalize_keeps split: option.splits)
  moreover have "is_absolute (peer_root p) \<longrightarrow> is_absolute (ps_path (for_peer cwd p))"
    by (auto simp: for_peer_def normalize_path_def normalize_remote_path_def Let_def
        normalize_absolute peer_ssh_peer_def peer_root_def
        split: option.splits peer_endpoint.splits)
  ultimately show ?thesis
    by (auto simp: normalize_remote_path_def normalize_idem same_endpoint_def)
qed

theorem scope_paths_are_normalized_witness:
  "ps_path (for_peer None (peer_new ''p'' (components ''/home/./u/../v'')))
     = [RootDir, Normal ''home'', Normal ''v''] \<and>
   is_absolute (ps_path (for_peer None (peer_new ''p'' (components ''/home/./u/../v''))))"
proof -
  have abs: "is_absolute (peer_root (peer_new ''p'' (components ''/home/./u/../v'')))"
    by (simp add: peer_root_def peer_new_def components_def SLASH_def)
  have "ps_path (for_peer None (peer_new ''p'' (components ''/home/./u/../v'')))
     = [RootDir, Normal ''home'', Normal ''v'']"
    by code_simp
  with abs scope_paths_are_normalized[of None "peer_new ''p'' (components ''/home/./u/../v'')"]
  show ?thesis by simp
qed

end
