(* ===== verification/Inventory.thy ===== *)
theory Inventory
  imports Model
begin

unbundle bit_operations_syntax

text \<open>
  The data a plan is made of: items, inventories and plan actions of
  \<open>analysis.rs\<close>, the frozen snapshots of \<open>reconciliation.rs\<close>, and the
  metadata-aware equality of \<open>baseline.rs\<close>. The lookups share one interface
  (\<open>keyed_store\<close>), and the equalities another (\<open>partial_equality\<close>).
\<close>

subsection \<open>Items and inventories\<close>

datatype item_type = RegularFile | Directory | Symlink | UnsupportedType

text \<open>A \<open>SystemTime\<close> is its signed distance from the Unix epoch in nanoseconds.\<close>

type_synonym system_time = int

record item_metadata =
  md_size :: u64
  md_modified_at :: "system_time option"
  md_readonly :: bool
  md_permissions :: "u32 option"
  md_symlink_target :: "path option"

definition executable_bits :: "u32 option \<Rightarrow> u32 option" where
  "executable_bits perms = map_option (\<lambda>p. p AND 73) perms"

definition md_executable_permissions :: "item_metadata \<Rightarrow> u32 option" where
  "md_executable_permissions m = executable_bits (md_permissions m)"

datatype analysis_outcome = Included | Excluded | UnsupportedOutcome

datatype scope_decision = InApprovedSyncScope | OutsideApprovedSyncScope

record inventory_item =
  it_path :: path
  it_type :: item_type
  it_metadata :: item_metadata
  it_outcome :: analysis_outcome
  it_fingerprint :: "sha256 option"

definition item_scope :: "inventory_item \<Rightarrow> scope_decision" where
  "item_scope i =
     (case it_outcome i of
        Included \<Rightarrow> InApprovedSyncScope
      | Excluded \<Rightarrow> OutsideApprovedSyncScope
      | UnsupportedOutcome \<Rightarrow> OutsideApprovedSyncScope)"

definition is_eligible :: "inventory_item \<Rightarrow> bool" where
  "is_eligible i = (it_outcome i = Included)"

record approved_sync_scope =
  included_paths :: "path list"
  excluded_paths :: "path list"

definition included_count :: "approved_sync_scope \<Rightarrow> nat" where
  "included_count s = length (included_paths s)"

definition excluded_count :: "approved_sync_scope \<Rightarrow> nat" where
  "excluded_count s = length (excluded_paths s)"

record source_inventory =
  inv_peer_name :: string
  inv_root :: path
  inv_items :: "inventory_item list"
  inv_scope :: approved_sync_scope

definition scope_of_items :: "inventory_item list \<Rightarrow> approved_sync_scope" where
  "scope_of_items items =
     \<lparr>included_paths = map it_path (filter (\<lambda>i. it_outcome i = Included) items),
      excluded_paths = map it_path (filter (\<lambda>i. it_outcome i = Excluded) items)\<rparr>"

definition inventory_from_items ::
  "string \<Rightarrow> path \<Rightarrow> inventory_item list \<Rightarrow> source_inventory" where
  "inventory_from_items name root items =
     (let sorted_items = sort_by it_path items in
      \<lparr>inv_peer_name = name, inv_root = root, inv_items = sorted_items,
       inv_scope = scope_of_items sorted_items\<rparr>)"

definition inv_item :: "source_inventory \<Rightarrow> path \<Rightarrow> inventory_item option" where
  "inv_item iv p = List.find (\<lambda>i. it_path i = p) (inv_items iv)"

definition included_items :: "source_inventory \<Rightarrow> inventory_item list" where
  "included_items iv = filter is_eligible (inv_items iv)"

definition excluded_items :: "source_inventory \<Rightarrow> inventory_item list" where
  "excluded_items iv = filter (\<lambda>i. it_outcome i = Excluded) (inv_items iv)"

subsection \<open>Plan actions\<close>

datatype peer_side = PeerA | PeerB

definition side_of_source :: "one_way_source \<Rightarrow> peer_side" where
  "side_of_source s = (case s of SourcePeerA \<Rightarrow> PeerA | SourcePeerB \<Rightarrow> PeerB)"

definition opposite :: "peer_side \<Rightarrow> peer_side" where
  "opposite s = (case s of PeerA \<Rightarrow> PeerB | PeerB \<Rightarrow> PeerA)"

datatype plan_action_kind =
    CopyToDestination | OverwriteDestination | RemoveDestination
  | RemoveSourceAfterVerification

record plan_action =
  pa_id :: nat
  pa_path :: path
  pa_kind :: plan_action_kind
  pa_consequence :: string
  pa_source_side :: peer_side
  pa_size :: "u64 option"

subsection \<open>Frozen snapshots\<close>

text \<open>\<open>unix_nanos\<close> of \<open>reconciliation.rs\<close>: the time as an \<open>i64\<close> when it fits;
  before the epoch the distance is converted first and then negated.\<close>

definition I64_MAX :: int where
  "I64_MAX = 2 ^ 63 - 1"

definition unix_nanos :: "system_time option \<Rightarrow> int option" where
  "unix_nanos t =
     (case t of
        None \<Rightarrow> None
      | Some n \<Rightarrow> if 0 \<le> n then (if n \<le> I64_MAX then Some n else None)
                  else (let d = - n in if d \<le> I64_MAX then Some (- d) else None))"

record snapshot_item =
  sn_path :: path
  sn_type :: item_type
  sn_outcome :: analysis_outcome
  sn_size :: u64
  sn_modified :: "int option"
  sn_readonly :: bool
  sn_permissions :: "u32 option"
  sn_symlink_target :: "path option"
  sn_fingerprint :: "sha256 option"

definition snapshot_of_item :: "inventory_item \<Rightarrow> snapshot_item" where
  "snapshot_of_item i =
     \<lparr>sn_path = it_path i, sn_type = it_type i, sn_outcome = it_outcome i,
      sn_size = md_size (it_metadata i), sn_modified = unix_nanos (md_modified_at (it_metadata i)),
      sn_readonly = md_readonly (it_metadata i), sn_permissions = md_permissions (it_metadata i),
      sn_symlink_target = md_symlink_target (it_metadata i), sn_fingerprint = it_fingerprint i\<rparr>"

definition sn_executable_permissions :: "snapshot_item \<Rightarrow> u32 option" where
  "sn_executable_permissions i = executable_bits (sn_permissions i)"

record inventory_snapshot =
  snap_peer_name :: string
  snap_root :: path
  snap_items :: "snapshot_item list"

definition snapshot_of_inventory :: "source_inventory \<Rightarrow> inventory_snapshot" where
  "snapshot_of_inventory iv =
     \<lparr>snap_peer_name = inv_peer_name iv, snap_root = inv_root iv,
      snap_items = map snapshot_of_item (inv_items iv)\<rparr>"

definition snap_item :: "inventory_snapshot \<Rightarrow> path \<Rightarrow> snapshot_item option" where
  "snap_item snap p = List.find (\<lambda>i. sn_path i = p) (snap_items snap)"

subsection \<open>Mirror equality\<close>

text \<open>The fields \<open>equal_parts\<close> of \<open>baseline.rs\<close> receives for each side, the time
  already normalised.\<close>

record compared =
  cp_type :: item_type
  cp_size :: u64
  cp_modified :: "int option"
  cp_executable :: "u32 option"
  cp_symlink :: "path option"
  cp_content :: "sha256 option"

definition equal_parts :: "metadata_requirements \<Rightarrow> compared \<Rightarrow> compared \<Rightarrow> bool" where
  "equal_parts req l r =
     (if cp_type l \<noteq> cp_type r then False
      else if specialist_any (req_specialist req) then False
      else if cp_type l = RegularFile \<and>
              (cp_size l \<noteq> cp_size r \<or> cp_content l = None \<or> cp_content l \<noteq> cp_content r)
        then False
      else if req_executable_permissions req \<and> cp_executable l \<noteq> cp_executable r then False
      else if req_symlink_targets req \<and> cp_symlink l \<noteq> cp_symlink r then False
      else if req_timestamps req \<and> cp_modified l \<noteq> cp_modified r then False
      else True)"

text \<open>\<open>into_unix_nanos\<close> for \<open>SystemTime\<close> of \<open>baseline.rs\<close> negates before it converts.\<close>

definition into_unix_nanos :: "system_time \<Rightarrow> int option" where
  "into_unix_nanos n =
     (if 0 \<le> n then (if n \<le> I64_MAX then Some n else None)
      else (if - (I64_MAX + 1) \<le> n then Some n else None))"

definition normalize_modified_at :: "('t \<Rightarrow> int option) \<Rightarrow> 't option \<Rightarrow> int option" where
  "normalize_modified_at into t = Option.bind t into"

definition snapshot_parts :: "snapshot_item \<Rightarrow> compared" where
  "snapshot_parts i =
     \<lparr>cp_type = sn_type i, cp_size = sn_size i,
      cp_modified = normalize_modified_at Some (sn_modified i),
      cp_executable = sn_executable_permissions i, cp_symlink = sn_symlink_target i,
      cp_content = sn_fingerprint i\<rparr>"

definition inventory_parts :: "inventory_item \<Rightarrow> compared" where
  "inventory_parts i =
     \<lparr>cp_type = it_type i, cp_size = md_size (it_metadata i),
      cp_modified = normalize_modified_at into_unix_nanos (md_modified_at (it_metadata i)),
      cp_executable = md_executable_permissions (it_metadata i),
      cp_symlink = md_symlink_target (it_metadata i), cp_content = it_fingerprint i\<rparr>"

definition mirror_equal :: "metadata_requirements \<Rightarrow> snapshot_item \<Rightarrow> snapshot_item \<Rightarrow> bool" where
  "mirror_equal req l r =
     (if sn_outcome l \<noteq> Included \<or> sn_outcome r \<noteq> Included then False
      else equal_parts req (snapshot_parts l) (snapshot_parts r))"

definition mirror_equal_inventory ::
  "metadata_requirements \<Rightarrow> inventory_item \<Rightarrow> inventory_item \<Rightarrow> bool" where
  "mirror_equal_inventory req l r =
     (if it_outcome l \<noteq> Included \<or> it_outcome r \<noteq> Included then False
      else equal_parts req (inventory_parts l) (inventory_parts r))"

subsection \<open>Interface: lookup by key\<close>

text \<open>
  What every inventory promises its clients: a list of items, each with a key, and a lookup
  that returns the first item with the key.
\<close>

locale keyed_store =
  fixes items :: "'r \<Rightarrow> 'i list"
    and key :: "'i \<Rightarrow> 'k"
    and lookup :: "'r \<Rightarrow> 'k \<Rightarrow> 'i option"
  assumes lookup_find: "lookup r k = List.find (\<lambda>i. key i = k) (items r)"
begin

lemma lookup_Some: "lookup r k = Some i \<Longrightarrow> i \<in> set (items r) \<and> key i = k"
  by (auto simp: lookup_find dest: find_Some_D)

lemma lookup_None: "lookup r k = None \<longleftrightarrow> k \<notin> key ` set (items r)"
  by (auto simp: lookup_find find_None_iff_all)

lemma lookup_defined: "i \<in> set (items r) \<Longrightarrow> \<exists>j. lookup r (key i) = Some j \<and> j \<in> set (items r) \<and> key j = key i"
  by (cases "lookup r (key i)") (auto simp: lookup_None dest: lookup_Some)

lemma lookup_distinct:
  "distinct (map key (items r)) \<Longrightarrow> i \<in> set (items r) \<Longrightarrow> lookup r (key i) = Some i"
  by (simp add: lookup_find find_distinct_key)

lemma lookup_eq_iff:
  "distinct (map key (items r)) \<Longrightarrow> lookup r k = Some i \<longleftrightarrow> i \<in> set (items r) \<and> key i = k"
  using lookup_Some lookup_distinct by blast

end

interpretation inv: keyed_store inv_items it_path inv_item
  by unfold_locales (simp add: inv_item_def)

interpretation snap: keyed_store snap_items sn_path snap_item
  by unfold_locales (simp add: snap_item_def)

text \<open>An inventory as Fresh Analysis builds it: one item per path, in path order, and the
  scope derived from the items.\<close>

definition inventory_wf :: "source_inventory \<Rightarrow> bool" where
  "inventory_wf iv =
     (sorted (map it_path (inv_items iv)) \<and> distinct (map it_path (inv_items iv)) \<and>
      inv_scope iv = scope_of_items (inv_items iv))"

lemma inventory_from_items_wf [wf_intros]:
  "distinct (map it_path items) \<Longrightarrow> inventory_wf (inventory_from_items name root items)"
  by (simp add: inventory_wf_def inventory_from_items_def Let_def)

lemma inventory_wf_distinct: "inventory_wf iv \<Longrightarrow> distinct (map it_path (inv_items iv))"
  by (simp add: inventory_wf_def)

lemma included_items_iff:
  "i \<in> set (included_items iv) \<longleftrightarrow> i \<in> set (inv_items iv) \<and> is_eligible i"
  by (auto simp: included_items_def)

lemma snap_item_of_inventory:
  "snap_item (snapshot_of_inventory iv) p = map_option snapshot_of_item (inv_item iv p)"
proof -
  have "List.find (\<lambda>i. sn_path i = p) (map snapshot_of_item is) =
      map_option snapshot_of_item (List.find (\<lambda>i. it_path i = p) is)" for "is"
    by (induction "is") (auto simp: snapshot_of_item_def)
  then show ?thesis by (simp add: snap_item_def snapshot_of_inventory_def inv_item_def)
qed

subsection \<open>Interface: equality that fails closed\<close>

text \<open>
  The contract of every item equality: symmetric and transitive, so that it is an
  equivalence on the items it accepts at all; an item it rejects against itself lacks
  required evidence and equals nothing.
\<close>

locale partial_equality =
  fixes eq :: "'a \<Rightarrow> 'a \<Rightarrow> bool"
  assumes eq_sym: "eq x y \<Longrightarrow> eq y x"
    and eq_trans: "eq x y \<Longrightarrow> eq y z \<Longrightarrow> eq x z"
begin

lemma eq_self: "eq x y \<Longrightarrow> eq x x \<and> eq y y"
  by (meson eq_sym eq_trans)

lemma eq_commute: "eq x y = eq y x"
  by (meson eq_sym)

lemma rejected_alone: "\<not> eq x x \<Longrightarrow> \<not> eq x y \<and> \<not> eq y x"
  using eq_self by blast

lemma eq_replace: "eq x y \<Longrightarrow> eq x z = eq y z"
  by (meson eq_sym eq_trans)

end

definition same_content :: "compared \<Rightarrow> compared \<Rightarrow> bool" where
  "same_content l r =
     (cp_size l = cp_size r \<and> cp_content l \<noteq> None \<and> cp_content l = cp_content r)"

lemma same_content_sym: "same_content l r \<Longrightarrow> same_content r l"
  unfolding same_content_def by metis

lemma same_content_trans: "same_content l m \<Longrightarrow> same_content m r \<Longrightarrow> same_content l r"
  unfolding same_content_def by metis

lemma same_content_self: "same_content x x \<longleftrightarrow> cp_content x \<noteq> None"
  by (simp add: same_content_def)

lemma equal_parts_iff:
  "equal_parts req l r \<longleftrightarrow>
     cp_type l = cp_type r \<and> \<not> specialist_any (req_specialist req) \<and>
     (cp_type l = RegularFile \<longrightarrow> same_content l r) \<and>
     (req_executable_permissions req \<longrightarrow> cp_executable l = cp_executable r) \<and>
     (req_symlink_targets req \<longrightarrow> cp_symlink l = cp_symlink r) \<and>
     (req_timestamps req \<longrightarrow> cp_modified l = cp_modified r)"
  unfolding equal_parts_def same_content_def by argo

lemma equal_parts_self:
  "equal_parts req x x \<longleftrightarrow>
     \<not> specialist_any (req_specialist req) \<and> (cp_type x = RegularFile \<longrightarrow> cp_content x \<noteq> None)"
  by (simp add: equal_parts_iff same_content_self)

lemma equal_parts_sym: "equal_parts req x y \<Longrightarrow> equal_parts req y x"
  unfolding equal_parts_iff by (simp add: same_content_sym)

lemma equal_parts_trans: "equal_parts req x y \<Longrightarrow> equal_parts req y z \<Longrightarrow> equal_parts req x z"
  unfolding equal_parts_iff by (elim conjE, intro conjI impI) (simp_all add: same_content_trans)

interpretation parts: partial_equality "equal_parts req" for req
  by unfold_locales (fact equal_parts_sym equal_parts_trans)+

interpretation mirror: partial_equality "mirror_equal req" for req
  by unfold_locales
    (auto simp: mirror_equal_def split: if_splits intro: parts.eq_sym parts.eq_trans)

interpretation mirror_inv: partial_equality "mirror_equal_inventory req" for req
  by unfold_locales
    (auto simp: mirror_equal_inventory_def split: if_splits intro: parts.eq_sym parts.eq_trans)

text \<open>The two conversions of a time differ at one instant only.\<close>

lemma unix_nanos_conversions:
  "t \<noteq> - (I64_MAX + 1) \<Longrightarrow> unix_nanos (Some t) = into_unix_nanos t"
  by (auto simp: unix_nanos_def into_unix_nanos_def Let_def)

lemma snapshot_of_item_outcome: "sn_outcome (snapshot_of_item i) = it_outcome i"
  by (simp add: snapshot_of_item_def)

lemma mirror_equal_of_inventory:
  assumes "\<forall>t. md_modified_at (it_metadata l) = Some t \<longrightarrow> t \<noteq> - (I64_MAX + 1)"
    and "\<forall>t. md_modified_at (it_metadata r) = Some t \<longrightarrow> t \<noteq> - (I64_MAX + 1)"
  shows "mirror_equal req (snapshot_of_item l) (snapshot_of_item r) = mirror_equal_inventory req l r"
proof -
  have parts: "snapshot_parts (snapshot_of_item i) = inventory_parts i"
    if "\<forall>t. md_modified_at (it_metadata i) = Some t \<longrightarrow> t \<noteq> - (I64_MAX + 1)" for i
  proof (cases "md_modified_at (it_metadata i)")
    case None
    then show ?thesis
      by (simp add: snapshot_parts_def inventory_parts_def snapshot_of_item_def unix_nanos_def
          normalize_modified_at_def sn_executable_permissions_def md_executable_permissions_def)
  next
    case (Some t)
    with that have "unix_nanos (Some t) = into_unix_nanos t"
      by (simp add: unix_nanos_conversions)
    with Some show ?thesis
      by (simp add: snapshot_parts_def inventory_parts_def snapshot_of_item_def
          normalize_modified_at_def sn_executable_permissions_def md_executable_permissions_def)
  qed
  show ?thesis
    by (simp add: mirror_equal_def mirror_equal_inventory_def snapshot_of_item_outcome
        parts[OF assms(1)] parts[OF assms(2)])
qed

end
