(* ===== verification/HostTrust.thy ===== *)
theory HostTrust
  imports Model
begin

text \<open>
  \<open>crates/syncplus-core/src/ssh_host.rs\<close> and the two store operations it uses
  (\<open>evidence.rs\<close>): the trust decision for an SSH host, its approval, and the permit
  a transfer needs. The store is the table \<open>ssh_host_fingerprints\<close>, a map from hosts
  to rows; a failure of the database itself is an argument of the operations
  (\<open>None\<close> when the database works). The identity probe is a parameter.
\<close>

subsection \<open>Hosts and fingerprints\<close>

record ssh_host =
  host_server :: string
  host_port :: u16

definition ssh_host_from_peer :: "ssh_peer \<Rightarrow> ssh_host" where
  "ssh_host_from_peer p = \<lparr>host_server = server p, host_port = port p\<rparr>"

text \<open>The digest is an array of 32 bytes; the length is part of the type in the source.\<close>

record fingerprint =
  digest :: "u8 list"

definition fingerprint_sha256 :: "u8 list \<Rightarrow> fingerprint" where
  "fingerprint_sha256 d = \<lparr>digest = d\<rparr>"

definition fingerprint_algorithm :: string where
  "fingerprint_algorithm = ''sha256''"

datatype fingerprint_error = UnsupportedAlgorithm | InvalidDigestLength

definition fingerprint_from_storage ::
  "string \<Rightarrow> u8 list \<Rightarrow> fingerprint_error + fingerprint" where
  "fingerprint_from_storage algorithm d =
     (if algorithm \<noteq> ''sha256'' then Err UnsupportedAlgorithm
      else if length d \<noteq> 32 then Err InvalidDigestLength
      else Ok (fingerprint_sha256 d))"

definition fingerprint_error_message :: "fingerprint_error \<Rightarrow> string" where
  "fingerprint_error_message e =
     (case e of
        UnsupportedAlgorithm \<Rightarrow> ''unsupported SSH host fingerprint algorithm''
      | InvalidDigestLength \<Rightarrow> ''invalid SSH host fingerprint digest length'')"

definition hex_byte :: "u8 \<Rightarrow> string" where
  "hex_byte b = [digit_char (unat b div 16), digit_char (unat b mod 16)]"

definition fingerprint_display :: "fingerprint \<Rightarrow> string" where
  "fingerprint_display f = ''SHA256:'' @ concat (map hex_byte (digest f))"

subsection \<open>Decisions and errors\<close>

datatype identity_error = ConnectionUnavailable | FingerprintUnavailable | ProbeFailed

datatype trust_decision =
    FirstUseApprovalRequired ssh_host fingerprint
  | Approved ssh_host fingerprint
  | ChangedFingerprint ssh_host fingerprint fingerprint

datatype trust_mode = Interactive | Unattended

datatype trust_error =
    IdentityProbe identity_error
  | StoreFailure string
  | FirstUseRequired
  | ChangedFingerprintRejected
  | InteractiveApprovalRequired
  | DecisionForDifferentHost

record trust_permit =
  permit_host :: ssh_host
  permit_fingerprint :: fingerprint

definition is_approved :: "trust_decision \<Rightarrow> bool" where
  "is_approved d = (case d of Approved _ _ \<Rightarrow> True | _ \<Rightarrow> False)"

definition into_permit :: "trust_decision \<Rightarrow> trust_error + trust_permit" where
  "into_permit d =
     (case d of
        Approved h f \<Rightarrow> Ok \<lparr>permit_host = h, permit_fingerprint = f\<rparr>
      | FirstUseApprovalRequired _ _ \<Rightarrow> Err FirstUseRequired
      | ChangedFingerprint _ _ _ \<Rightarrow> Err ChangedFingerprintRejected)"

definition decision_host :: "trust_decision \<Rightarrow> ssh_host" where
  "decision_host d =
     (case d of
        FirstUseApprovalRequired h _ \<Rightarrow> h
      | Approved h _ \<Rightarrow> h
      | ChangedFingerprint h _ _ \<Rightarrow> h)"

definition decision_observed :: "trust_decision \<Rightarrow> fingerprint" where
  "decision_observed d =
     (case d of
        FirstUseApprovalRequired _ f \<Rightarrow> f
      | ChangedFingerprint _ _ f \<Rightarrow> f
      | Approved _ f \<Rightarrow> f)"

subsection \<open>The store\<close>

type_synonym host_table = "ssh_host \<Rightarrow> (string \<times> u8 list) option"

definition load_fingerprint ::
  "string option \<Rightarrow> host_table \<Rightarrow> ssh_host \<Rightarrow> trust_error + fingerprint option" where
  "load_fingerprint fault table host =
     (case fault of
        Some detail \<Rightarrow> Err (StoreFailure detail)
      | None \<Rightarrow>
          (case table host of
             None \<Rightarrow> Ok None
           | Some (algorithm, d) \<Rightarrow>
               (case fingerprint_from_storage algorithm d of
                  Inl e \<Rightarrow> Err (StoreFailure (fingerprint_error_message e))
                | Inr f \<Rightarrow> Ok (Some f))))"

definition approve_fingerprint ::
  "string option \<Rightarrow> host_table \<Rightarrow> ssh_host \<Rightarrow> fingerprint \<Rightarrow> trust_error + host_table" where
  "approve_fingerprint fault table host f =
     (case fault of
        Some detail \<Rightarrow> Err (StoreFailure detail)
      | None \<Rightarrow> Ok (table(host \<mapsto> (fingerprint_algorithm, digest f))))"

subsection \<open>The controller\<close>

type_synonym identity_probe = "ssh_peer \<Rightarrow> identity_error + fingerprint"

definition inspect ::
  "string option \<Rightarrow> host_table \<Rightarrow> identity_probe \<Rightarrow> ssh_peer \<Rightarrow> trust_error + trust_decision" where
  "inspect fault table probe p =
     (let host = ssh_host_from_peer p in
      case probe p of
        Inl e \<Rightarrow> Err (IdentityProbe e)
      | Inr observed \<Rightarrow>
          result_bind (load_fingerprint fault table host)
            (\<lambda>stored. Ok (case stored of
                None \<Rightarrow> FirstUseApprovalRequired host observed
              | Some approved \<Rightarrow>
                  if approved = observed then Approved host observed
                  else ChangedFingerprint host approved observed)))"

definition pre_mutation_permit ::
  "string option \<Rightarrow> host_table \<Rightarrow> identity_probe \<Rightarrow> ssh_peer \<Rightarrow> trust_error + trust_permit" where
  "pre_mutation_permit fault table probe p =
     result_bind (inspect fault table probe p) into_permit"

definition approve ::
  "string option \<Rightarrow> host_table \<Rightarrow> ssh_peer \<Rightarrow> trust_decision \<Rightarrow> trust_mode
    \<Rightarrow> trust_error + (host_table \<times> fingerprint)" where
  "approve fault table p d mode =
     (if mode \<noteq> Interactive then Err InteractiveApprovalRequired
      else if decision_host d \<noteq> ssh_host_from_peer p then Err DecisionForDifferentHost
      else (case d of
              ChangedFingerprint _ _ _ \<Rightarrow> Err ChangedFingerprintRejected
            | _ \<Rightarrow>
                result_bind (approve_fingerprint fault table (decision_host d) (decision_observed d))
                  (\<lambda>t. Ok (t, decision_observed d))))"

subsection \<open>Histories of approvals\<close>

record approval =
  ap_fault :: "string option"
  ap_peer :: ssh_peer
  ap_decision :: trust_decision
  ap_mode :: trust_mode

definition trust_step :: "host_table \<Rightarrow> approval \<Rightarrow> host_table option" where
  "trust_step table a =
     (case approve (ap_fault a) table (ap_peer a) (ap_decision a) (ap_mode a) of
        Inl _ \<Rightarrow> Some table
      | Inr (t, _) \<Rightarrow> Some t)"

definition accepted :: "approval \<Rightarrow> bool" where
  "accepted a =
     (ap_fault a = None \<and> ap_mode a = Interactive \<and>
      decision_host (ap_decision a) = ssh_host_from_peer (ap_peer a) \<and>
      (\<forall>h f g. ap_decision a \<noteq> ChangedFingerprint h f g))"

lemma accepted_code [code]:
  "accepted a =
     (ap_fault a = None \<and> ap_mode a = Interactive \<and>
      decision_host (ap_decision a) = ssh_host_from_peer (ap_peer a) \<and>
      (case ap_decision a of ChangedFingerprint _ _ _ \<Rightarrow> False | _ \<Rightarrow> True))"
  by (cases "ap_decision a") (auto simp: accepted_def)

lemma trust_step_total:
  "trust_step table a =
     Some (if accepted a
           then table(decision_host (ap_decision a) \<mapsto>
                  (fingerprint_algorithm, digest (decision_observed (ap_decision a))))
           else table)"
  by (cases "ap_decision a"; cases "ap_fault a")
    (auto simp: trust_step_def approve_def approve_fingerprint_def accepted_def)

text \<open>The row of a host after a history: written by the last accepted approval for it.\<close>

lemma run_trust_table:
  assumes "run_steps trust_step Map.empty as = Some table" and "table host = Some row"
  shows "\<exists>us a vs. as = us @ a # vs \<and> accepted a \<and> decision_host (ap_decision a) = host \<and>
     row = (fingerprint_algorithm, digest (decision_observed (ap_decision a))) \<and>
     (\<forall>b \<in> set vs. accepted b \<longrightarrow> decision_host (ap_decision b) \<noteq> host)"
  using assms
proof (induction as arbitrary: table rule: rev_induct)
  case Nil
  then show ?case by auto
next
  case (snoc a as)
  then obtain t where t: "run_steps trust_step Map.empty as = Some t" "trust_step t a = Some table"
    by (auto simp: run_steps_snoc)
  show ?case
  proof (cases "accepted a \<and> decision_host (ap_decision a) = host")
    case True
    with t(2) snoc.prems(2) show ?thesis
      by (intro exI[of _ as] exI[of _ a] exI[of _ "[]"]) (auto simp: trust_step_total)
  next
    case False
    with t(2) snoc.prems(2) have "t host = Some row"
      by (auto simp: trust_step_total split: if_splits)
    from snoc.IH[OF t(1) this] obtain us b vs where h: "as = us @ b # vs" "accepted b"
      "decision_host (ap_decision b) = host"
      "row = (fingerprint_algorithm, digest (decision_observed (ap_decision b)))"
      "\<forall>c \<in> set vs. accepted c \<longrightarrow> decision_host (ap_decision c) \<noteq> host"
      by blast
    with False show ?thesis
      by (intro exI[of _ us] exI[of _ b] exI[of _ "vs @ [a]"]) auto
  qed
qed

lemma fingerprint_from_storage_ok:
  "fingerprint_from_storage fingerprint_algorithm d = Ok f \<longleftrightarrow> length d = 32 \<and> f = \<lparr>digest = d\<rparr>"
  by (auto simp: fingerprint_from_storage_def fingerprint_algorithm_def fingerprint_sha256_def)

lemma inspect_Ok:
  "inspect fault table probe p = Ok d \<longleftrightarrow>
     (\<exists>obs stored. probe p = Ok obs \<and>
        load_fingerprint fault table (ssh_host_from_peer p) = Ok stored \<and>
        d = (case stored of
               None \<Rightarrow> FirstUseApprovalRequired (ssh_host_from_peer p) obs
             | Some approved \<Rightarrow>
                 if approved = obs then Approved (ssh_host_from_peer p) obs
                 else ChangedFingerprint (ssh_host_from_peer p) approved obs))"
  by (cases "probe p") (auto simp: inspect_def Let_def)

lemma permit_from_row:
  assumes "pre_mutation_permit fault table probe p = Ok pm"
  shows "permit_host pm = ssh_host_from_peer p \<and> probe p = Ok (permit_fingerprint pm) \<and>
    fault = None \<and>
    (\<exists>alg d. table (ssh_host_from_peer p) = Some (alg, d) \<and>
       fingerprint_from_storage alg d = Ok (permit_fingerprint pm))"
proof -
  from assms obtain d where d: "inspect fault table probe p = Ok d" "into_permit d = Ok pm"
    by (auto simp: pre_mutation_permit_def)
  then obtain host f where a: "d = Approved host f" "pm = \<lparr>permit_host = host, permit_fingerprint = f\<rparr>"
    by (auto simp: into_permit_def split: trust_decision.splits)
  with d(1) have "probe p = Ok f" "host = ssh_host_from_peer p"
    "load_fingerprint fault table (ssh_host_from_peer p) = Ok (Some f)"
    by (auto simp: inspect_Ok split: option.splits if_splits)
  with a(2) show ?thesis
    by (auto simp: load_fingerprint_def split: option.splits sum.splits)
qed

lemma load_after_approval:
  assumes "length (digest f) = 32"
  shows "load_fingerprint None (table(h \<mapsto> (fingerprint_algorithm, digest f))) h = Ok (Some f)"
proof -
  from assms have "fingerprint_from_storage fingerprint_algorithm (digest f) = Ok f"
    by (simp add: fingerprint_from_storage_ok)
  then show ?thesis by (simp add: load_fingerprint_def)
qed

lemma approve_Ok:
  "approve None table p d Interactive = Ok (table', f) \<longleftrightarrow>
     decision_host d = ssh_host_from_peer p \<and> (\<forall>h g k. d \<noteq> ChangedFingerprint h g k) \<and>
     f = decision_observed d \<and> table' = table(decision_host d \<mapsto> (fingerprint_algorithm, digest f))"
  by (cases d) (auto simp: approve_def approve_fingerprint_def)

text \<open>
  The approval looks at the decision it is given, not at the store: a first-use decision
  taken earlier is accepted whatever fingerprint was approved for the host in between.
\<close>

lemma stale_first_use_replaces:
  "approve None table p (FirstUseApprovalRequired (ssh_host_from_peer p) f) Interactive
     = Ok (table(ssh_host_from_peer p \<mapsto> (fingerprint_algorithm, digest f)), f)"
  by (simp add: approve_Ok decision_host_def decision_observed_def)

subsection \<open>Properties\<close>


definition example_ssh_peer :: ssh_peer where
  "example_ssh_peer = \<lparr>server = ''host'', username = ''u'', port = 22, identity = None,
     authentication = Agent, remote_path = [RootDir, Normal ''srv'']\<rparr>"

definition example_fingerprint :: "u8 \<Rightarrow> fingerprint" where
  "example_fingerprint b = \<lparr>digest = replicate 32 b\<rparr>"

definition example_approval :: "u8 \<Rightarrow> approval" where
  "example_approval b =
     \<lparr>ap_fault = None, ap_peer = example_ssh_peer,
      ap_decision = FirstUseApprovalRequired (ssh_host_from_peer example_ssh_peer) (example_fingerprint b),
      ap_mode = Interactive\<rparr>"

lemma example_accepted: "accepted (example_approval b)"
  by (simp add: accepted_def example_approval_def decision_host_def)

lemma example_permit:
  "pre_mutation_permit None
     (Map.empty(ssh_host_from_peer example_ssh_peer \<mapsto> (fingerprint_algorithm, replicate 32 b)))
     (\<lambda>_. Ok (example_fingerprint b)) example_ssh_peer
   = Ok \<lparr>permit_host = ssh_host_from_peer example_ssh_peer, permit_fingerprint = example_fingerprint b\<rparr>"
  by (simp add: pre_mutation_permit_def inspect_def Let_def load_fingerprint_def into_permit_def
      fingerprint_from_storage_def fingerprint_algorithm_def fingerprint_sha256_def
      example_fingerprint_def)

lemma example_trust_run:
  "run_steps trust_step Map.empty [example_approval 1]
   = Some (Map.empty(ssh_host_from_peer example_ssh_peer \<mapsto> (fingerprint_algorithm, replicate 32 1)))"
  by (simp add: trust_step_total example_accepted)
    (simp add: example_approval_def decision_host_def decision_observed_def example_fingerprint_def)


text \<open>What a fresh inspection says of a host follows from the row stored for it: it is
  approved exactly when the stored fingerprint is the observed one; an approval of the
  decision an inspection returned makes the next inspection, with the same observation,
  approve, and touches no other host; a changed fingerprint is never accepted.\<close>

theorem approval_takes_effect:
  assumes "inspect None table probe p = Ok d"
    and "approve None table p d Interactive = Ok (table', f)"
    and "\<forall>p f. probe p = Ok f \<longrightarrow> length (digest f) = 32"
  shows "inspect None table' probe p = Ok (Approved (ssh_host_from_peer p) f) \<and>
    probe p = Ok f \<and> (\<forall>h. h \<noteq> ssh_host_from_peer p \<longrightarrow> table' h = table h) \<and>
    (\<forall>g. table (ssh_host_from_peer p) = Some (fingerprint_algorithm, g) \<longrightarrow> g = digest f)"
proof -
  from assms(1) obtain obs stored where i: "probe p = Ok obs"
      "load_fingerprint None table (ssh_host_from_peer p) = Ok stored"
      "d = (case stored of
               None \<Rightarrow> FirstUseApprovalRequired (ssh_host_from_peer p) obs
             | Some approved \<Rightarrow>
                 if approved = obs then Approved (ssh_host_from_peer p) obs
                 else ChangedFingerprint (ssh_host_from_peer p) approved obs)"
    by (auto simp: inspect_Ok)
  from assms(2) i(3) have f: "f = obs" "stored = None \<or> stored = Some obs"
    and t: "table' = table(ssh_host_from_peer p \<mapsto> (fingerprint_algorithm, digest obs))"
    by (auto simp: approve_Ok decision_observed_def decision_host_def
        split: option.splits if_splits)
  have "inspect None table' probe p = Ok (Approved (ssh_host_from_peer p) f)"
    using load_after_approval[of obs table "ssh_host_from_peer p"] assms(3) i(1) f(1) t
    by (simp add: inspect_def)
  moreover have "g = digest f" if "table (ssh_host_from_peer p) = Some (fingerprint_algorithm, g)" for g
    using that i(2) f by (auto simp: load_fingerprint_def fingerprint_from_storage_ok split: sum.splits)
  ultimately show ?thesis using i(1) f(1) t by simp
qed

theorem approval_takes_effect_witness:
  "\<exists>table'. inspect None table' (\<lambda>_. Ok (example_fingerprint 1)) example_ssh_peer
     = Ok (Approved (ssh_host_from_peer example_ssh_peer) (example_fingerprint 1))"
proof -
  have 1: "inspect None Map.empty (\<lambda>_. Ok (example_fingerprint 1)) example_ssh_peer
      = Ok (FirstUseApprovalRequired (ssh_host_from_peer example_ssh_peer) (example_fingerprint 1))"
    by (simp add: inspect_def Let_def load_fingerprint_def)
  have 2: "approve None Map.empty example_ssh_peer
      (FirstUseApprovalRequired (ssh_host_from_peer example_ssh_peer) (example_fingerprint 1))
      Interactive
    = Ok (Map.empty(ssh_host_from_peer example_ssh_peer \<mapsto>
        (fingerprint_algorithm, replicate 32 1)), example_fingerprint 1)"
    by (simp add: approve_def decision_host_def decision_observed_def approve_fingerprint_def
        example_fingerprint_def)
  from approval_takes_effect[OF 1 2] show ?thesis by (auto simp: example_fingerprint_def)
qed

end
