(* ===== verification/Process.thy ===== *)
theory Process
  imports HostTrust Inventory
begin

text \<open>
  \<open>crates/syncplus-core/src/process.rs\<close>: the typed arguments of an \<open>rsync\<close> or
  \<open>ssh\<close> call, the validation of the options of a profile, and the specification from
  which every invocation of a run is built; and the run of \<open>model.rs\<close>, which freezes
  such a specification. Whether a directory exists (\<open>Path::is_dir\<close>) is an argument.
  A path is printed as its components separated by single slashes.
\<close>

subsection \<open>Flags\<close>

datatype rsync_flag =
    FlagArchive | FlagItemizeChanges | FlagProtectArgs | FlagCompress | FlagDestinationCleanup
  | FlagEndOfOptions | FlagOwner | FlagGroup | FlagAcls | FlagXattrs

definition flag_str :: "rsync_flag \<Rightarrow> string" where
  "flag_str f =
     (case f of
        FlagArchive \<Rightarrow> ''--archive''
      | FlagItemizeChanges \<Rightarrow> ''--itemize-changes''
      | FlagProtectArgs \<Rightarrow> ''--protect-args''
      | FlagCompress \<Rightarrow> ''--compress''
      | FlagDestinationCleanup \<Rightarrow> ''--delete''
      | FlagEndOfOptions \<Rightarrow> ''--''
      | FlagOwner \<Rightarrow> ''--owner''
      | FlagGroup \<Rightarrow> ''--group''
      | FlagAcls \<Rightarrow> ''--acls''
      | FlagXattrs \<Rightarrow> ''--xattrs'')"

datatype process_spec_error =
    UnknownArgument string
  | ArbitraryArgument string
  | InvalidOptionCombination string
  | EmptyPeerPath string
  | NulInPeerPath string
  | InvalidExclusionPattern string
  | InvalidSecretBinding string
  | UnsupportedSyncMode
  | UnsupportedSshTopology
  | UnsupportedSshFilesystemOperation
  | MirrorRequiresReviewedPlan
  | ActionNotAllowed plan_action_kind
  | ActionSourceMismatch
  | InvalidTransferPath path
  | InvalidRetryPolicy u8
  | InvalidRetryDelay nat
  | InvalidBandwidthLimit u64
  | AdvancedModeRequired string
  | HostTrustPermitMismatch
  | DeletionMethodRequired

definition rsync_flag_try_from :: "string \<Rightarrow> process_spec_error + rsync_flag" where
  "rsync_flag_try_from v =
     (if v = ''--archive'' then Ok FlagArchive
      else if v = ''--itemize-changes'' then Ok FlagItemizeChanges
      else if v = ''--protect-args'' then Ok FlagProtectArgs
      else if v = ''--compress'' then Ok FlagCompress
      else if v = ''--'' then Ok FlagEndOfOptions
      else if v = ''--owner'' then Ok FlagOwner
      else if v = ''--group'' then Ok FlagGroup
      else if v = ''--acls'' then Ok FlagAcls
      else if v = ''--xattrs'' then Ok FlagXattrs
      else if v \<in> {''--delete'', ''--delete-after'', ''--delete-before'', ''--delete-during''}
        then Err (ArbitraryArgument v)
      else Err (UnknownArgument v))"

definition specialist_rsync_flags :: "metadata_requirements \<Rightarrow> rsync_flag list" where
  "specialist_rsync_flags m =
     (let s = req_specialist m in
      List.map_filter (\<lambda>(enabled, flag). if enabled then Some flag else None)
        [(ownership s, FlagOwner), (ownership s, FlagGroup),
         (access_control_lists s, FlagAcls), (extended_attributes s, FlagXattrs)])"

subsection \<open>Validation of names and paths\<close>

definition validate_peer_path :: "string \<Rightarrow> path \<Rightarrow> process_spec_error + unit" where
  "validate_peer_path name p =
     (if p = [] then Err (EmptyPeerPath name)
      else if path_contains_nul p then Err (NulInPeerPath name)
      else Ok ())"

definition validate_exclusion_pattern :: "string \<Rightarrow> process_spec_error + unit" where
  "validate_exclusion_pattern pattern =
     (if pattern = [] then Err (InvalidExclusionPattern ''the pattern must not be empty'')
      else if NUL \<in> set pattern then Err (InvalidExclusionPattern ''the pattern contains NUL'')
      else Ok ())"

definition validate_relative_transfer_path :: "path \<Rightarrow> process_spec_error + unit" where
  "validate_relative_transfer_path p =
     (if p = [] \<or> is_absolute p \<or> \<not> all_normal p then Err (InvalidTransferPath p) else Ok ())"

definition is_valid_secret_binding_name :: "string \<Rightarrow> bool" where
  "is_valid_secret_binding_name name =
     (case name of
        [] \<Rightarrow> False
      | first # rest \<Rightarrow>
          (first = CHR ''_'' \<or> is_ascii_alphabetic first) \<and>
          list_all (\<lambda>c. c = CHR ''_'' \<or> is_ascii_alphanumeric c) rest)"

subsection \<open>Quoting\<close>

definition QUOTE :: char where
  "QUOTE = CHR 0x27"

definition BACKSLASH :: char where
  "BACKSLASH = CHR 0x5C"

text \<open>The character of a chunk is compared by its scalar value, its bytes are copied.\<close>

definition encode_shell_char :: "nat \<times> string \<Rightarrow> string" where
  "encode_shell_char chunk =
     (if fst chunk = 39 then [QUOTE, BACKSLASH, QUOTE, QUOTE] else snd chunk)"

definition encode_remote_shell_word :: "path \<Rightarrow> string" where
  "encode_remote_shell_word p =
     [QUOTE] @ concat (map encode_shell_char (lossy_chunks (path_str p))) @ [QUOTE]"

definition is_control_scalar :: "nat \<Rightarrow> bool" where
  "is_control_scalar c = (c < 32 \<or> in_range 127 159 c)"

definition quote_char :: "nat \<times> string \<Rightarrow> string" where
  "quote_char chunk =
     (let c = fst chunk in
      if c = 92 then [BACKSLASH, BACKSLASH]
      else if c = 39 then [QUOTE, BACKSLASH, QUOTE, QUOTE]
      else if c = 10 then [BACKSLASH, CHR ''n'']
      else if c = 13 then [BACKSLASH, CHR ''r'']
      else if c = 9 then [BACKSLASH, CHR ''t'']
      else if is_control_scalar c then [BACKSLASH] @ ''u{'' @ hex_str c @ ''}''
      else snd chunk)"

definition shell_quote :: "string \<Rightarrow> string" where
  "shell_quote s = [QUOTE] @ concat (map quote_char (lossy_chunks s)) @ [QUOTE]"

subsection \<open>Arguments\<close>

record ssh_target =
  tgt_username :: string
  tgt_server :: string
  tgt_path :: path

definition ssh_target_from_peer :: "ssh_peer \<Rightarrow> ssh_target" where
  "ssh_target_from_peer p =
     \<lparr>tgt_username = username p, tgt_server = server p, tgt_path = remote_path p\<rparr>"

definition ssh_target_from_peer_path :: "ssh_peer \<Rightarrow> path \<Rightarrow> process_spec_error + ssh_target" where
  "ssh_target_from_peer_path p remote =
     result_bind (validate_peer_path ''remote target'' remote)
       (\<lambda>_. Ok \<lparr>tgt_username = username p, tgt_server = server p, tgt_path = remote\<rparr>)"

definition ssh_target_from_peer_at :: "ssh_peer \<Rightarrow> path \<Rightarrow> process_spec_error + ssh_target" where
  "ssh_target_from_peer_at p relative =
     result_bind (validate_relative_transfer_path relative)
       (\<lambda>_. ssh_target_from_peer_path p (join (remote_path p) relative))"

definition ssh_target_str :: "ssh_target \<Rightarrow> string" where
  "ssh_target_str t = tgt_username t @ ''@'' @ tgt_server t @ '':'' @ path_str (tgt_path t)"

record ssh_transport =
  tr_port :: u16
  tr_identity :: "path option"
  tr_authentication :: ssh_authentication

definition ssh_transport_from_peer :: "ssh_peer \<Rightarrow> ssh_transport" where
  "ssh_transport_from_peer p =
     \<lparr>tr_port = port p, tr_identity = identity p, tr_authentication = authentication p\<rparr>"

definition ssh_transport_str :: "ssh_transport \<Rightarrow> string" where
  "ssh_transport_str t =
     ''--rsh=ssh -p '' @ nat_str (unat (tr_port t)) @
     (case tr_authentication t of
        Key \<Rightarrow>
          '' -o IdentitiesOnly=yes -o IdentityAgent=none -o PreferredAuthentications=publickey'' @
          '' -o PasswordAuthentication=no -o KbdInteractiveAuthentication=no'' @
          (case tr_identity t of
             Some i \<Rightarrow> '' -i '' @ encode_remote_shell_word i
           | None \<Rightarrow> [])
      | Agent \<Rightarrow>
          '' -o IdentityFile=none -o PreferredAuthentications=publickey'' @
          '' -o PasswordAuthentication=no -o KbdInteractiveAuthentication=no''
      | InteractivePassword \<Rightarrow>
          '' -o IdentityFile=none -o IdentityAgent=none'' @
          '' -o PreferredAuthentications=keyboard-interactive,password'' @
          '' -o PasswordAuthentication=yes -o KbdInteractiveAuthentication=yes''
      | SavedPassword _ \<Rightarrow>
          '' -o IdentityFile=none -o IdentityAgent=none'' @
          '' -o PreferredAuthentications=keyboard-interactive,password'' @
          '' -o PasswordAuthentication=yes -o KbdInteractiveAuthentication=yes'')"

datatype process_argument =
    ArgFlag rsync_flag
  | ArgBandwidthLimit u64
  | ArgExclusion string
  | ArgPeerPath path
  | ArgRemotePeerPath ssh_target
  | ArgSshTransport ssh_transport

definition argument_str :: "process_argument \<Rightarrow> string" where
  "argument_str a =
     (case a of
        ArgFlag f \<Rightarrow> flag_str f
      | ArgBandwidthLimit l \<Rightarrow> ''--bwlimit='' @ nat_str (unat l)
      | ArgExclusion pattern \<Rightarrow> ''--exclude='' @ pattern
      | ArgPeerPath p \<Rightarrow> path_str p
      | ArgRemotePeerPath t \<Rightarrow> ssh_target_str t
      | ArgSshTransport t \<Rightarrow> ssh_transport_str t)"

record process_invocation =
  program :: string
  arguments :: "string list"
  secret_bindings :: "string list"

definition invocation_preview :: "process_invocation \<Rightarrow> string" where
  "invocation_preview i =
     join_with '' ''
       (map (\<lambda>b. b @ ''=<redacted>'') (secret_bindings i) @
        [shell_quote (program i)] @ map shell_quote (arguments i))"

subsection \<open>The remote hash helper\<close>

record remote_helper =
  helper_path :: path
  helper_invocation :: process_invocation

definition ssh_option :: "string \<Rightarrow> string list" where
  "ssh_option v = [''-o'', v]"

definition sha256_auth_arguments :: "ssh_peer \<Rightarrow> process_spec_error + string list" where
  "sha256_auth_arguments p =
     (case authentication p of
        Key \<Rightarrow>
          result_bind (ok_or UnsupportedSshTopology (identity p))
            (\<lambda>i. Ok (ssh_option ''IdentitiesOnly=yes'' @ ssh_option ''IdentityAgent=none'' @
              ssh_option ''PreferredAuthentications=publickey'' @
              ssh_option ''PasswordAuthentication=no'' @
              ssh_option ''KbdInteractiveAuthentication=no'' @ [''-i'', path_str i]))
      | Agent \<Rightarrow>
          Ok (ssh_option ''IdentityFile=none'' @
            ssh_option ''PreferredAuthentications=publickey'' @
            ssh_option ''PasswordAuthentication=no'' @
            ssh_option ''KbdInteractiveAuthentication=no'')
      | _ \<Rightarrow>
          Ok (ssh_option ''IdentityFile=none'' @ ssh_option ''IdentityAgent=none'' @
            ssh_option ''PreferredAuthentications=keyboard-interactive,password'' @
            ssh_option ''PasswordAuthentication=yes'' @
            ssh_option ''KbdInteractiveAuthentication=yes''))"

definition sha256_helper :: "ssh_peer \<Rightarrow> path \<Rightarrow> process_spec_error + remote_helper" where
  "sha256_helper p target =
     result_bind (validate_peer_path ''remote helper path'' target)
       (\<lambda>_. result_bind (sha256_auth_arguments p)
         (\<lambda>auth. Ok \<lparr>helper_path = target,
            helper_invocation =
              \<lparr>program = ''ssh'',
               arguments =
                 [''-p'', nat_str (unat (port p))] @ auth @
                 [username p @ ''@'' @ server p,
                  ''sha256sum -- '' @ encode_remote_shell_word target],
               secret_bindings = []\<rparr>\<rparr>))"

definition sha256_helper_with_permit ::
  "ssh_peer \<Rightarrow> trust_permit \<Rightarrow> path \<Rightarrow> process_spec_error + remote_helper" where
  "sha256_helper_with_permit p permit target =
     (if permit_host permit \<noteq> ssh_host_from_peer p then Err HostTrustPermitMismatch
      else sha256_helper p target)"

subsection \<open>Options\<close>

record validated_options =
  val_safe_delete :: bool
  val_destination_cleanup :: bool
  val_deletion_method :: "deletion_method option"
  val_metadata :: metadata_requirements
  val_partial_transfer_policy :: partial_transfer_policy
  val_retry_policy :: retry_policy
  val_bandwidth_limit :: "u64 option"

definition validate_options :: "sync_options \<Rightarrow> process_spec_error + validated_options" where
  "validate_options opts =
     (if opt_deletion_method opts \<noteq> None \<and> \<not> opt_safe_delete opts \<and> \<not> opt_destination_cleanup opts
        then Err (InvalidOptionCombination
          ''a deletion method requires an explicit destructive action'')
      else if \<not> (1 \<le> max_attempts (opt_retry_policy opts) \<and>
                 max_attempts (opt_retry_policy opts) \<le> MAX_ATTEMPTS)
        then Err (InvalidRetryPolicy (max_attempts (opt_retry_policy opts)))
      else if MAX_INITIAL_DELAY < initial_delay (opt_retry_policy opts)
        then Err (InvalidRetryDelay (initial_delay (opt_retry_policy opts) div 1000000))
      else if is_some_and (\<lambda>l. \<not> (1 \<le> l \<and> l \<le> MAX_BANDWIDTH_LIMIT_KIB_PER_SECOND))
                (opt_bandwidth_limit opts)
        then Err (InvalidBandwidthLimit (the (opt_bandwidth_limit opts)))
      else Ok
        \<lparr>val_safe_delete = opt_safe_delete opts, val_destination_cleanup = opt_destination_cleanup opts,
         val_deletion_method = opt_deletion_method opts, val_metadata = opt_metadata opts,
         val_partial_transfer_policy = opt_partial_transfer_policy opts,
         val_retry_policy = opt_retry_policy opts, val_bandwidth_limit = opt_bandwidth_limit opts\<rparr>)"

subsection \<open>Specifications\<close>

record process_specification =
  spec_arguments :: "process_argument list"
  spec_options :: validated_options
  spec_source :: one_way_source
  spec_source_root :: path
  spec_destination_root :: path
  spec_secret_bindings :: "string list"
  spec_mode :: sync_mode
  spec_peer_a_root :: path
  spec_peer_b_root :: path
  spec_ssh_transport :: "ssh_transport option"
  spec_peer_a_ssh :: "ssh_peer option"
  spec_peer_b_ssh :: "ssh_peer option"

definition process_destination_root :: "(path \<Rightarrow> bool) \<Rightarrow> sync_profile \<Rightarrow> peer \<Rightarrow> path" where
  "process_destination_root is_dir prof destination =
     (if prof_mode prof = OneWay \<and> \<not> is_ssh destination \<and>
         is_dir (effective_destination_root prof)
      then effective_destination_root prof
      else peer_root destination)"

definition peer_argument :: "peer \<Rightarrow> process_argument" where
  "peer_argument p =
     (case peer_ssh_peer p of
        Some ssh \<Rightarrow> ArgRemotePeerPath (ssh_target_from_peer ssh)
      | None \<Rightarrow> ArgPeerPath (peer_root p))"

definition side_argument_at_path ::
  "ssh_peer option \<Rightarrow> path \<Rightarrow> process_spec_error + process_argument" where
  "side_argument_at_path ssh p =
     (case ssh of
        Some peer \<Rightarrow> result_bind (ssh_target_from_peer_path peer p) (\<lambda>t. Ok (ArgRemotePeerPath t))
      | None \<Rightarrow> Ok (ArgPeerPath p))"

fun exclusion_arguments :: "string list \<Rightarrow> process_spec_error + process_argument list" where
  "exclusion_arguments [] = Ok []"
| "exclusion_arguments (e # es) =
     result_bind (validate_exclusion_pattern e)
       (\<lambda>_. result_bind (exclusion_arguments es) (\<lambda>as. Ok (ArgExclusion e # as)))"

definition profile_transport :: "sync_profile \<Rightarrow> ssh_transport option" where
  "profile_transport prof =
     map_option ssh_transport_from_peer
       (case peer_ssh_peer (peer_a prof) of
          Some s \<Rightarrow> Some s
        | None \<Rightarrow> peer_ssh_peer (peer_b prof))"

definition option_arguments :: "validated_options \<Rightarrow> bool \<Rightarrow> process_argument list" where
  "option_arguments opts protect =
     [ArgFlag FlagArchive, ArgFlag FlagItemizeChanges] @
     (case val_bandwidth_limit opts of None \<Rightarrow> [] | Some l \<Rightarrow> [ArgBandwidthLimit l]) @
     (if protect then [ArgFlag FlagProtectArgs] else []) @
     map ArgFlag (specialist_rsync_flags (val_metadata opts))"

definition assemble_spec ::
  "sync_profile \<Rightarrow> validated_options \<Rightarrow> path \<Rightarrow> process_argument list \<Rightarrow> process_argument
    \<Rightarrow> process_specification" where
  "assemble_spec prof opts destination_root exclusions target =
     (let transport = profile_transport prof in
      \<lparr>spec_arguments =
         option_arguments opts (transport \<noteq> None) @
         (if val_destination_cleanup opts then [ArgFlag FlagDestinationCleanup] else []) @
         exclusions @
         (case transport of None \<Rightarrow> [] | Some t \<Rightarrow> [ArgSshTransport t]) @
         [ArgFlag FlagEndOfOptions, peer_argument (selected_source prof), target],
       spec_options = opts,
       spec_source = prof_source prof,
       spec_source_root = peer_root (selected_source prof),
       spec_destination_root = destination_root,
       spec_secret_bindings = [],
       spec_mode = prof_mode prof,
       spec_peer_a_root =
         (if prof_mode prof = OneWay \<and> prof_source prof = SourcePeerB then destination_root
          else peer_root (peer_a prof)),
       spec_peer_b_root =
         (if prof_mode prof = OneWay \<and> prof_source prof = SourcePeerA then destination_root
          else peer_root (peer_b prof)),
       spec_ssh_transport = transport,
       spec_peer_a_ssh = peer_ssh_peer (peer_a prof),
       spec_peer_b_ssh = peer_ssh_peer (peer_b prof)\<rparr>)"

definition spec_from_profile ::
  "(path \<Rightarrow> bool) \<Rightarrow> sync_profile \<Rightarrow> process_spec_error + process_specification" where
  "spec_from_profile is_dir prof =
     result_bind (validate_options (prof_options prof)) (\<lambda>opts.
     if prof_mode prof = Mirror \<and> (val_safe_delete opts \<or> val_destination_cleanup opts)
     then Err (InvalidOptionCombination ''Mirror cannot enable One-Way deletion options'')
     else
     let source = selected_source prof;
         destination = selected_destination prof in
     if is_ssh (peer_a prof) \<and> is_ssh (peer_b prof) then Err UnsupportedSshTopology
     else
     let destination_root = process_destination_root is_dir prof destination in
     result_bind (validate_peer_path (peer_label source) (peer_root source)) (\<lambda>_.
     result_bind (validate_peer_path (peer_label destination) destination_root) (\<lambda>_.
     result_bind (exclusion_arguments (prof_exclusions prof)) (\<lambda>exclusions.
     result_bind (side_argument_at_path (peer_ssh_peer destination) destination_root) (\<lambda>target.
     Ok (assemble_spec prof opts destination_root exclusions target))))))"

definition spec_from_profile_for_run ::
  "(path \<Rightarrow> bool) \<Rightarrow> sync_profile \<Rightarrow> process_spec_error + process_specification" where
  "spec_from_profile_for_run is_dir prof =
     result_bind (spec_from_profile is_dir prof) (\<lambda>s.
       if val_safe_delete (spec_options s) \<and> val_deletion_method (spec_options s) = None
       then Err DeletionMethodRequired else Ok s)"

datatype application_mode = Simple | Advanced

definition spec_from_profile_for_mode ::
  "(path \<Rightarrow> bool) \<Rightarrow> sync_profile \<Rightarrow> application_mode
    \<Rightarrow> process_spec_error + process_specification" where
  "spec_from_profile_for_mode is_dir prof mode =
     result_bind (spec_from_profile is_dir prof) (\<lambda>s.
       if mode = Simple
       then (case advanced_mode_requirement prof of
               Some option_name \<Rightarrow> Err (AdvancedModeRequired option_name)
             | None \<Rightarrow> Ok s)
       else Ok s)"

definition spec_exclusions :: "process_specification \<Rightarrow> string list" where
  "spec_exclusions s =
     List.map_filter
       (\<lambda>a. case a of ArgExclusion pattern \<Rightarrow> Some pattern | _ \<Rightarrow> None) (spec_arguments s)"

definition with_secret_binding ::
  "process_specification \<Rightarrow> string \<Rightarrow> process_spec_error + process_specification" where
  "with_secret_binding s name =
     (if \<not> is_valid_secret_binding_name name then Err (InvalidSecretBinding name)
      else if name \<in> set (spec_secret_bindings s) then Ok s
      else Ok (s\<lparr>spec_secret_bindings := spec_secret_bindings s @ [name]\<rparr>))"

definition spec_invocation :: "process_specification \<Rightarrow> process_spec_error + process_invocation" where
  "spec_invocation s =
     (if spec_mode s = Mirror then Err MirrorRequiresReviewedPlan
      else Ok \<lparr>program = ''rsync'', arguments = map argument_str (spec_arguments s),
               secret_bindings = spec_secret_bindings s\<rparr>)"

definition spec_preview :: "process_specification \<Rightarrow> string" where
  "spec_preview s =
     (case spec_invocation s of
        Inl _ \<Rightarrow>
          ''Mirror Sync uses one controlled transfer per reviewed plan action; no whole-tree command is available.''
      | Inr i \<Rightarrow> invocation_preview i)"

subsection \<open>Invocations for one item\<close>

definition item_invocation ::
  "process_specification \<Rightarrow> path \<Rightarrow> path \<Rightarrow> process_spec_error + process_invocation" where
  "item_invocation s source temporary =
     (if spec_ssh_transport s \<noteq> None then Err UnsupportedSshFilesystemOperation
      else
        result_bind (validate_peer_path ''item source'' source) (\<lambda>_.
        result_bind (validate_peer_path ''temporary destination'' temporary) (\<lambda>_.
        Ok \<lparr>program = ''rsync'',
            arguments = map argument_str
              (option_arguments (spec_options s) False @
               [ArgFlag FlagEndOfOptions, ArgPeerPath source, ArgPeerPath temporary]),
            secret_bindings = []\<rparr>)))"

definition side_root :: "process_specification \<Rightarrow> peer_side \<Rightarrow> path" where
  "side_root s side = (case side of PeerA \<Rightarrow> spec_peer_a_root s | PeerB \<Rightarrow> spec_peer_b_root s)"

definition side_ssh :: "process_specification \<Rightarrow> peer_side \<Rightarrow> ssh_peer option" where
  "side_ssh s side = (case side of PeerA \<Rightarrow> spec_peer_a_ssh s | PeerB \<Rightarrow> spec_peer_b_ssh s)"

definition peer_argument_at ::
  "process_specification \<Rightarrow> peer_side \<Rightarrow> path \<Rightarrow> process_spec_error + process_argument" where
  "peer_argument_at s side relative =
     result_bind (validate_relative_transfer_path relative) (\<lambda>_.
       case side_ssh s side of
         Some peer \<Rightarrow> result_bind (ssh_target_from_peer_at peer relative) (\<lambda>t. Ok (ArgRemotePeerPath t))
       | None \<Rightarrow> Ok (ArgPeerPath (join (side_root s side) relative)))"

definition peer_argument_at_path ::
  "process_specification \<Rightarrow> peer_side \<Rightarrow> path \<Rightarrow> process_spec_error + process_argument" where
  "peer_argument_at_path s side p =
     result_bind (validate_peer_path ''transfer destination'' p)
       (\<lambda>_. side_argument_at_path (side_ssh s side) p)"

definition is_transfer_kind :: "plan_action_kind \<Rightarrow> bool" where
  "is_transfer_kind k = (k = CopyToDestination \<or> k = OverwriteDestination)"

definition ssh_item_invocation_to ::
  "process_specification \<Rightarrow> plan_action \<Rightarrow> path \<Rightarrow> process_spec_error + process_invocation" where
  "ssh_item_invocation_to s a destination =
     (case spec_ssh_transport s of
        None \<Rightarrow> Err UnsupportedSshFilesystemOperation
      | Some transport \<Rightarrow>
          if \<not> is_transfer_kind (pa_kind a) then Err (ActionNotAllowed (pa_kind a))
          else
            result_bind (validate_relative_transfer_path (pa_path a)) (\<lambda>_.
            result_bind (peer_argument_at s (pa_source_side a) (pa_path a)) (\<lambda>source.
            result_bind (peer_argument_at_path s (opposite (pa_source_side a)) destination) (\<lambda>target.
            Ok \<lparr>program = ''rsync'',
                arguments = map argument_str
                  (option_arguments (spec_options s) True @
                   [ArgSshTransport transport, ArgFlag FlagEndOfOptions, source, target]),
                secret_bindings = spec_secret_bindings s\<rparr>))))"

definition staging_path :: "path \<Rightarrow> nat \<Rightarrow> path" where
  "staging_path destination action_id =
     join (case parent destination of Some p \<Rightarrow> p | None \<Rightarrow> [CurDir])
       (Name (''.syncplus-temporary-0-'' @ nat_str action_id @ ''-'' @
          (case file_name destination of Some n \<Rightarrow> to_string_lossy n | None \<Rightarrow> ''item'')))"

definition ssh_item_invocation ::
  "process_specification \<Rightarrow> plan_action \<Rightarrow> process_spec_error + process_invocation" where
  "ssh_item_invocation s a =
     (let destination = join (side_root s (opposite (pa_source_side a))) (pa_path a)
      in ssh_item_invocation_to s a (staging_path destination (pa_id a)))"

definition ensure_local_filesystem_operations ::
  "process_specification \<Rightarrow> process_spec_error + unit" where
  "ensure_local_filesystem_operations s =
     (if spec_ssh_transport s \<noteq> None then Err UnsupportedSshFilesystemOperation else Ok ())"

definition side_path ::
  "process_specification \<Rightarrow> plan_action \<Rightarrow> peer_side \<Rightarrow> process_spec_error + path" where
  "side_path s a side =
     (if spec_mode s = OneWay \<and> pa_source_side a \<noteq> side_of_source (spec_source s)
      then Err ActionSourceMismatch
      else
        result_bind (ensure_local_filesystem_operations s) (\<lambda>_.
        result_bind (validate_relative_transfer_path (pa_path a)) (\<lambda>_.
        Ok (join (side_root s side) (pa_path a)))))"

definition source_path :: "process_specification \<Rightarrow> plan_action \<Rightarrow> process_spec_error + path" where
  "source_path s a = side_path s a (pa_source_side a)"

definition destination_path ::
  "process_specification \<Rightarrow> plan_action \<Rightarrow> process_spec_error + path" where
  "destination_path s a = side_path s a (opposite (pa_source_side a))"

definition transfer_paths ::
  "process_specification \<Rightarrow> plan_action \<Rightarrow> process_spec_error + (path \<times> path)" where
  "transfer_paths s a =
     (if \<not> is_transfer_kind (pa_kind a) then Err (ActionNotAllowed (pa_kind a))
      else if spec_mode s = OneWay \<and> pa_source_side a \<noteq> side_of_source (spec_source s)
        then Err ActionSourceMismatch
      else
        result_bind (ensure_local_filesystem_operations s) (\<lambda>_.
        result_bind (validate_relative_transfer_path (pa_path a)) (\<lambda>_.
        result_bind (source_path s a) (\<lambda>from_path.
        result_bind (destination_path s a) (\<lambda>to_path. Ok (from_path, to_path))))))"

subsection \<open>The frozen snapshot and the run\<close>

record profile_snapshot =
  snapshot_id :: nat
  snapshot_profile :: sync_profile
  snapshot_options :: validated_options
  snapshot_authorizations :: authorization_snapshot

definition profile_snapshot_new ::
  "(path \<Rightarrow> bool) \<Rightarrow> nat \<Rightarrow> sync_profile \<Rightarrow> authorization_snapshot
    \<Rightarrow> process_spec_error + profile_snapshot" where
  "profile_snapshot_new is_dir i prof auths =
     result_bind (spec_from_profile_for_run is_dir prof) (\<lambda>s.
       Ok \<lparr>snapshot_id = i, snapshot_profile = prof, snapshot_options = spec_options s,
           snapshot_authorizations = auths\<rparr>)"

record sync_run =
  run_id :: nat
  run_snapshot :: profile_snapshot
  run_state_of :: run_state

definition sync_run_new_with_authorizations ::
  "(path \<Rightarrow> bool) \<Rightarrow> nat \<Rightarrow> sync_profile \<Rightarrow> authorization_snapshot
    \<Rightarrow> process_spec_error + sync_run" where
  "sync_run_new_with_authorizations is_dir i prof auths =
     result_bind (profile_snapshot_new is_dir i prof auths) (\<lambda>snap.
       Ok \<lparr>run_id = i, run_snapshot = snap, run_state_of = Active IdleEdit\<rparr>)"

definition sync_run_new ::
  "(path \<Rightarrow> bool) \<Rightarrow> nat \<Rightarrow> sync_profile \<Rightarrow> process_spec_error + sync_run" where
  "sync_run_new is_dir i prof =
     sync_run_new_with_authorizations is_dir i prof default_authorization_snapshot"

datatype core_error = InvalidTransition run_state run_event

definition transition :: "sync_run \<Rightarrow> run_event \<Rightarrow> core_error + sync_run" where
  "transition r e =
     result_bind (ok_or (InvalidTransition (run_state_of r) e) (next_state (run_state_of r) e))
       (\<lambda>s. Ok (r\<lparr>run_state_of := s\<rparr>))"

subsection \<open>Lemmas on arguments\<close>

lemma validate_peer_path_Ok [simp]:
  "validate_peer_path name p = Ok u \<longleftrightarrow> p \<noteq> [] \<and> \<not> path_contains_nul p"
  by (simp add: validate_peer_path_def)

lemma validate_exclusion_Ok [simp]:
  "validate_exclusion_pattern e = Ok u \<longleftrightarrow> e \<noteq> [] \<and> NUL \<notin> set e"
  by (simp add: validate_exclusion_pattern_def)

lemma validate_relative_Ok [simp]:
  "validate_relative_transfer_path p = Ok u \<longleftrightarrow> p \<noteq> [] \<and> all_normal p"
  by (auto simp: validate_relative_transfer_path_def is_absolute_iff)

lemma specialist_flags_subset:
  "set (specialist_rsync_flags m) \<subseteq> {FlagOwner, FlagGroup, FlagAcls, FlagXattrs}"
  by (auto simp: specialist_rsync_flags_def Let_def List.map_filter_def)

lemma option_arguments_mem:
  "a \<in> set (option_arguments opts protect) \<Longrightarrow>
     (\<exists>f. a = ArgFlag f \<and> f \<noteq> FlagDestinationCleanup \<and> f \<noteq> FlagEndOfOptions) \<or>
     (\<exists>l. a = ArgBandwidthLimit l)"
  using specialist_flags_subset[of "val_metadata opts"]
  by (auto simp: option_arguments_def split: option.splits if_splits)

lemma argument_str_end [simp]: "argument_str (ArgFlag FlagEndOfOptions) = ''--''"
  by (simp add: argument_str_def flag_str_def)

definition is_deletion_option :: "string \<Rightarrow> bool" where
  "is_deletion_option s = prefix ''--del'' s"

lemma option_argument_str:
  assumes "a \<in> set (option_arguments opts protect)"
  shows "\<not> is_deletion_option (argument_str a) \<and> argument_str a \<noteq> ''--'' \<and> prefix ''--'' (argument_str a)"
proof -
  from option_arguments_mem[OF assms] consider
    (flag) f where "a = ArgFlag f" "f \<noteq> FlagDestinationCleanup" "f \<noteq> FlagEndOfOptions"
    | (limit) l where "a = ArgBandwidthLimit l"
    by blast
  then show ?thesis
  proof cases
    case flag
    then show ?thesis
      by (cases f) (simp_all add: argument_str_def flag_str_def is_deletion_option_def)
  next
    case limit
    then show ?thesis
      by (simp add: argument_str_def is_deletion_option_def)
  qed
qed

lemma transport_argument_str:
  "\<not> is_deletion_option (argument_str (ArgSshTransport t)) \<and>
     argument_str (ArgSshTransport t) \<noteq> ''--'' \<and> prefix ''--'' (argument_str (ArgSshTransport t))"
  by (simp add: argument_str_def ssh_transport_str_def is_deletion_option_def)

lemma exclusion_arguments_Ok:
  "exclusion_arguments es = Ok as \<longleftrightarrow>
     (\<forall>e \<in> set es. e \<noteq> [] \<and> NUL \<notin> set e) \<and> as = map ArgExclusion es"
  by (induction es arbitrary: as) auto

lemma side_argument_cases:
  "side_argument_at_path ssh p = Ok a \<Longrightarrow>
     (case ssh of
        None \<Rightarrow> a = ArgPeerPath p
      | Some peer \<Rightarrow> p \<noteq> [] \<and> \<not> path_contains_nul p \<and>
          a = ArgRemotePeerPath \<lparr>tgt_username = username peer, tgt_server = server peer, tgt_path = p\<rparr>)"
  by (auto simp: side_argument_at_path_def ssh_target_from_peer_path_def split: option.splits)

lemma one_le_word: "(1 \<le> (x :: 'a::len word)) = (x \<noteq> 0)"
  by (simp add: word_le_nat_alt unat_gt_0 Suc_le_eq)

lemma validate_options_Ok:
  "validate_options opts = Ok v \<longleftrightarrow>
     (opt_deletion_method opts \<noteq> None \<longrightarrow> opt_safe_delete opts \<or> opt_destination_cleanup opts) \<and>
     1 \<le> max_attempts (opt_retry_policy opts) \<and> max_attempts (opt_retry_policy opts) \<le> MAX_ATTEMPTS \<and>
     initial_delay (opt_retry_policy opts) \<le> MAX_INITIAL_DELAY \<and>
     is_none_or (\<lambda>l. 1 \<le> l \<and> l \<le> MAX_BANDWIDTH_LIMIT_KIB_PER_SECOND) (opt_bandwidth_limit opts) \<and>
     v = \<lparr>val_safe_delete = opt_safe_delete opts, val_destination_cleanup = opt_destination_cleanup opts,
         val_deletion_method = opt_deletion_method opts, val_metadata = opt_metadata opts,
         val_partial_transfer_policy = opt_partial_transfer_policy opts,
         val_retry_policy = opt_retry_policy opts, val_bandwidth_limit = opt_bandwidth_limit opts\<rparr>"
  by (cases "opt_bandwidth_limit opts") (auto simp: validate_options_def not_le not_less one_le_word)

text \<open>What a specification built from a profile contains.\<close>

lemma spec_from_profile_Ok:
  assumes "spec_from_profile is_dir prof = Ok s"
  shows "validate_options (prof_options prof) = Ok (spec_options s)"
    "prof_mode prof = Mirror \<longrightarrow> \<not> val_safe_delete (spec_options s) \<and> \<not> val_destination_cleanup (spec_options s)"
    "\<not> (is_ssh (peer_a prof) \<and> is_ssh (peer_b prof))"
    "\<forall>e \<in> set (prof_exclusions prof). e \<noteq> [] \<and> NUL \<notin> set e"
    "spec_mode s = prof_mode prof" "spec_source s = prof_source prof"
    "spec_ssh_transport s = profile_transport prof"
    "spec_peer_a_ssh s = peer_ssh_peer (peer_a prof)" "spec_peer_b_ssh s = peer_ssh_peer (peer_b prof)"
    "spec_secret_bindings s = []"
    "side_root s (side_of_source (prof_source prof)) = peer_root (selected_source prof)"
    "side_root s (opposite (side_of_source (prof_source prof))) =
       (if prof_mode prof = OneWay
        then process_destination_root is_dir prof (selected_destination prof)
        else peer_root (selected_destination prof))"
    "\<exists>target. spec_arguments s =
       option_arguments (spec_options s) (profile_transport prof \<noteq> None) @
       (if val_destination_cleanup (spec_options s) then [ArgFlag FlagDestinationCleanup] else []) @
       map ArgExclusion (prof_exclusions prof) @
       (case profile_transport prof of None \<Rightarrow> [] | Some t \<Rightarrow> [ArgSshTransport t]) @
       [ArgFlag FlagEndOfOptions, peer_argument (selected_source prof), target] \<and>
       side_argument_at_path (peer_ssh_peer (selected_destination prof))
         (process_destination_root is_dir prof (selected_destination prof)) = Ok target"
proof -
  obtain opts target where ok: "validate_options (prof_options prof) = Ok opts"
      "prof_mode prof = Mirror \<longrightarrow> \<not> val_safe_delete opts \<and> \<not> val_destination_cleanup opts"
      "\<not> (is_ssh (peer_a prof) \<and> is_ssh (peer_b prof))"
      "\<forall>e \<in> set (prof_exclusions prof). e \<noteq> [] \<and> NUL \<notin> set e"
      "side_argument_at_path (peer_ssh_peer (selected_destination prof))
         (process_destination_root is_dir prof (selected_destination prof)) = Ok target"
      "s = assemble_spec prof opts (process_destination_root is_dir prof (selected_destination prof))
         (map ArgExclusion (prof_exclusions prof)) target"
    using assms
    by (auto simp: spec_from_profile_def Let_def exclusion_arguments_Ok split: if_splits)
  note a = assemble_spec_def Let_def
  show "validate_options (prof_options prof) = Ok (spec_options s)" using ok by (simp add: a)
  show "prof_mode prof = Mirror \<longrightarrow> \<not> val_safe_delete (spec_options s) \<and> \<not> val_destination_cleanup (spec_options s)"
    using ok by (simp add: a)
  show "\<not> (is_ssh (peer_a prof) \<and> is_ssh (peer_b prof))" using ok by simp
  show "\<forall>e \<in> set (prof_exclusions prof). e \<noteq> [] \<and> NUL \<notin> set e" using ok by simp
  show "spec_mode s = prof_mode prof" "spec_source s = prof_source prof"
    "spec_ssh_transport s = profile_transport prof" "spec_secret_bindings s = []"
    "spec_peer_a_ssh s = peer_ssh_peer (peer_a prof)" "spec_peer_b_ssh s = peer_ssh_peer (peer_b prof)"
    using ok by (simp_all add: a)
  show "side_root s (side_of_source (prof_source prof)) = peer_root (selected_source prof)"
    using ok(6) by (cases "prof_source prof")
      (simp_all add: a side_root_def side_of_source_def selected_source_def)
  show "side_root s (opposite (side_of_source (prof_source prof))) =
       (if prof_mode prof = OneWay
        then process_destination_root is_dir prof (selected_destination prof)
        else peer_root (selected_destination prof))"
    using ok(6) by (cases "prof_source prof")
      (simp_all add: a side_root_def side_of_source_def selected_destination_def opposite_def)
  show "\<exists>target. spec_arguments s =
       option_arguments (spec_options s) (profile_transport prof \<noteq> None) @
       (if val_destination_cleanup (spec_options s) then [ArgFlag FlagDestinationCleanup] else []) @
       map ArgExclusion (prof_exclusions prof) @
       (case profile_transport prof of None \<Rightarrow> [] | Some t \<Rightarrow> [ArgSshTransport t]) @
       [ArgFlag FlagEndOfOptions, peer_argument (selected_source prof), target] \<and>
       side_argument_at_path (peer_ssh_peer (selected_destination prof))
         (process_destination_root is_dir prof (selected_destination prof)) = Ok target"
    using ok(5,6) by (intro exI[of _ target]) (simp add: a)
qed

lemma peer_argument_no_exclusion: "peer_argument p \<noteq> ArgExclusion e"
  by (simp add: peer_argument_def split: option.splits)

lemma map_filter_append: "List.map_filter f (xs @ ys) = List.map_filter f xs @ List.map_filter f ys"
  by (simp add: List.map_filter_def)

lemma map_filter_none: "\<forall>x \<in> set xs. f x = None \<Longrightarrow> List.map_filter f xs = []"
  by (simp add: List.map_filter_def filter_empty_conv)

lemma map_filter_exclusions:
  "List.map_filter (\<lambda>a. case a of ArgExclusion e \<Rightarrow> Some e | _ \<Rightarrow> None) (map ArgExclusion es) = es"
  by (simp add: List.map_filter_def comp_def)

lemma spec_exclusions_from_profile:
  assumes "spec_from_profile is_dir prof = Ok s"
  shows "spec_exclusions s = prof_exclusions prof"
proof -
  let ?f = "\<lambda>a. case a of ArgExclusion e \<Rightarrow> Some e | _ \<Rightarrow> None"
  obtain target where args: "spec_arguments s =
       option_arguments (spec_options s) (profile_transport prof \<noteq> None) @
       (if val_destination_cleanup (spec_options s) then [ArgFlag FlagDestinationCleanup] else []) @
       map ArgExclusion (prof_exclusions prof) @
       (case profile_transport prof of None \<Rightarrow> [] | Some t \<Rightarrow> [ArgSshTransport t]) @
       [ArgFlag FlagEndOfOptions, peer_argument (selected_source prof), target]"
    and target: "side_argument_at_path (peer_ssh_peer (selected_destination prof))
         (process_destination_root is_dir prof (selected_destination prof)) = Ok target"
    using spec_from_profile_Ok(13)[OF assms] by blast
  have 1: "List.map_filter ?f (option_arguments (spec_options s) b) = []" for b
    by (rule map_filter_none) (auto dest: option_arguments_mem)
  have 2: "?f (peer_argument (selected_source prof)) = None" "?f target = None"
    using side_argument_cases[OF target] by (auto simp: peer_argument_def split: option.splits)
  show ?thesis
    by (simp add: spec_exclusions_def args map_filter_append 1 map_filter_exclusions)
      (auto simp: List.map_filter_def 2 split: option.splits)
qed

subsection \<open>Reading back what is printed\<close>

text \<open>
  How a POSIX shell reads one word: outside quotes a backslash takes the next character, an
  apostrophe opens a quoted stretch, and an unquoted metacharacter ends the word (\<open>None\<close>
  here, because the word is then not the only one).
\<close>

definition is_shell_meta :: "char \<Rightarrow> bool" where
  "is_shell_meta c = (c \<in> set '' ;&|<>()$`*?[#~{!'' \<or> byte c \<in> {9, 10, 34})"

fun shell_word :: "bool \<Rightarrow> string \<Rightarrow> string option" where
  "shell_word True [] = None"
| "shell_word False [] = Some []"
| "shell_word True (c # cs) =
     (if c = QUOTE then shell_word False cs else map_option (Cons c) (shell_word True cs))"
| "shell_word False (c # cs) =
     (if c = QUOTE then shell_word True cs
      else if c = BACKSLASH
        then (case cs of [] \<Rightarrow> None | d # ds \<Rightarrow> map_option (Cons d) (shell_word False ds))
      else if is_shell_meta c then None
      else map_option (Cons c) (shell_word False cs))"

lemma shell_word_quoted_plain:
  "QUOTE \<notin> set t \<Longrightarrow> shell_word True (t @ rest) = map_option ((@) t) (shell_word True rest)"
  by (cases "shell_word True rest"; induction t) auto

lemma shell_word_encoded_chunk:
  assumes "chunk \<in> set (lossy_chunks s)"
  shows "shell_word True (encode_shell_char chunk @ rest) =
     map_option ((@) (snd chunk)) (shell_word True rest)"
proof (cases "fst chunk = 39")
  case True
  have q: "char_of (39 :: nat) = QUOTE" using char_of_char[of QUOTE, where 'a = nat] by (simp add: QUOTE_def)
  from True assms have "(39, snd chunk) \<in> set (lossy_chunks s)"
    by (metis prod.collapse)
  from lossy_chunk_cases[OF this] have "snd chunk = [QUOTE]" by (simp add: q)
  with True show ?thesis
    by (cases "shell_word True rest") (simp_all add: encode_shell_char_def QUOTE_def BACKSLASH_def)
next
  case False
  obtain c t where chunk: "chunk = (c, t)" by fastforce
  have "QUOTE \<notin> set t"
  proof
    assume q: "QUOTE \<in> set t"
    with lossy_chunk_cases[of c t s] assms chunk have c: "c < 128" "char_of c = QUOTE"
      by (auto simp: QUOTE_def)
    have "byte (char_of c :: char) = c mod 256" by (rule of_char_of)
    with c have "c = byte QUOTE" by simp
    with False chunk show False by (simp add: QUOTE_def)
  qed
  with chunk False show ?thesis
    by (simp add: encode_shell_char_def shell_word_quoted_plain)
qed

lemma shell_word_encoded_chunks:
  "set chunks \<subseteq> set (lossy_chunks s) \<Longrightarrow>
   shell_word True (concat (map encode_shell_char chunks) @ [QUOTE]) = Some (concat (map snd chunks))"
proof (induction chunks)
  case (Cons a chunks)
  then show ?case using shell_word_encoded_chunk[of a s] by simp
qed (simp add: QUOTE_def)

lemma shell_word_encoded:
  "shell_word False (encode_remote_shell_word p) = Some (to_string_lossy (path_str p))"
  using shell_word_encoded_chunks[OF subset_refl]
  by (simp add: encode_remote_shell_word_def to_string_lossy_def)

text \<open>How \<open>rsync\<close> reads \<open>user@host:path\<close>: the user up to the first \<open>@\<close>; the host up to
  the first colon, or up to the closing bracket of a bracketed address.\<close>

definition host_split :: "string \<Rightarrow> (string \<times> string) option" where
  "host_split s =
     (let host = (if prefix ''['' s then takeWhile (\<lambda>c. c \<noteq> CHR '']'') s @ '']''
                  else takeWhile (\<lambda>c. c \<noteq> CHR '':'') s) in
      case strip_prefix (host @ '':'') s of None \<Rightarrow> None | Some p \<Rightarrow> Some (host, p))"

definition target_split :: "string \<Rightarrow> (string \<times> string \<times> string) option" where
  "target_split s =
     (let user = takeWhile (\<lambda>c. c \<noteq> CHR ''@'') s in
      case strip_prefix (user @ ''@'') s of None \<Rightarrow> None
      | Some rest \<Rightarrow> (case host_split rest of None \<Rightarrow> None | Some (h, p) \<Rightarrow> Some (user, h, p)))"

lemma takeWhile_stop: "c \<notin> set xs \<Longrightarrow> takeWhile (\<lambda>x. x \<noteq> c) (xs @ c # ys) = xs"
  by (induction xs) auto

lemma username_plain: "is_valid_ssh_username u \<Longrightarrow> CHR ''@'' \<notin> set u"
  by (auto simp: is_valid_ssh_username_def list_all_iff dest: byte_not_special)

lemma server_split:
  assumes "is_valid_ssh_server s"
  shows "host_split (s @ '':'' @ p) = Some (s, p)"
proof (cases "prefix ''['' s \<or> suffix '']'' s")
  case True
  with assms obtain a where s: "s = CHR ''['' # a @ '']''" and a: "list_all is_ssh_address_char a"
    by (auto simp: is_valid_ssh_server_def strip_prefix_Some strip_suffix_Some
        split: option.splits bind_splits)
  have "is_ssh_address_char c \<Longrightarrow> c \<noteq> CHR '']''" for c
    by (auto simp: is_ssh_address_char_def dest: byte_not_special hexdigit_alphanumeric)
  with a have no: "CHR '']'' \<notin> set (CHR ''['' # a)"
    by (auto simp: list_all_iff)
  have "takeWhile (\<lambda>c. c \<noteq> CHR '']'') ((CHR ''['' # a) @ CHR '']'' # '':'' @ p) = CHR ''['' # a"
    by (rule takeWhile_stop[OF no])
  with s show ?thesis by (simp add: host_split_def Let_def strip_prefix_def)
next
  case False
  with assms have "list_all (\<lambda>c. is_ascii_alphanumeric c \<or> c \<in> {CHR ''.'', CHR ''-''}) s"
    by (auto simp: is_valid_ssh_server_def)
  then have no: "CHR '':'' \<notin> set s"
    by (auto simp: list_all_iff dest: byte_not_special)
  from False have "\<not> prefix ''['' (s @ '':'' @ p)"
    by (cases s) auto
  with takeWhile_stop[OF no, of p] show ?thesis
    by (simp add: host_split_def Let_def strip_prefix_def)
qed

lemma target_split_str:
  assumes "is_valid_ssh_username (tgt_username t)" "is_valid_ssh_server (tgt_server t)"
  shows "target_split (ssh_target_str t) = Some (tgt_username t, tgt_server t, path_str (tgt_path t))"
  using takeWhile_stop[OF username_plain[OF assms(1)]] server_split[OF assms(2)]
  by (simp add: target_split_def ssh_target_str_def Let_def strip_prefix_def)

lemma delay_not_saturated:
  assumes "initial_delay p \<le> MAX_INITIAL_DELAY"
  shows "delay_for_retry p n = initial_delay p * unat n"
proof -
  have "unat n \<le> 255" using unsigned_less[of n, where 'a = nat] by simp
  with assms have "initial_delay p * unat n \<le> MAX_INITIAL_DELAY * 255"
    by (rule mult_le_mono)
  also have "\<dots> \<le> DURATION_MAX"
    by (simp add: MAX_INITIAL_DELAY_def DURATION_MAX_def NANOS_PER_SECOND_def)
  finally show ?thesis by (simp add: delay_for_retry_def duration_checked_mul_def)
qed

lemma join_relative_below:
  "q \<noteq> [] \<Longrightarrow> all_normal q \<Longrightarrow> join p q = p @ q"
  by (simp add: join_all_normal)

lemma side_path_Ok:
  "side_path s a side = Ok p \<longleftrightarrow>
     (spec_mode s = OneWay \<longrightarrow> pa_source_side a = side_of_source (spec_source s)) \<and>
     spec_ssh_transport s = None \<and> pa_path a \<noteq> [] \<and> all_normal (pa_path a) \<and>
     p = side_root s side @ pa_path a"
  by (auto simp: side_path_def ensure_local_filesystem_operations_def join_all_normal)

lemma transfer_paths_Ok:
  "transfer_paths s a = Ok (p, q) \<longleftrightarrow>
     is_transfer_kind (pa_kind a) \<and>
     (spec_mode s = OneWay \<longrightarrow> pa_source_side a = side_of_source (spec_source s)) \<and>
     spec_ssh_transport s = None \<and> pa_path a \<noteq> [] \<and> all_normal (pa_path a) \<and>
     p = side_root s (pa_source_side a) @ pa_path a \<and>
     q = side_root s (opposite (pa_source_side a)) @ pa_path a"
  by (auto simp: transfer_paths_def source_path_def destination_path_def side_path_Ok
      ensure_local_filesystem_operations_def)

lemma item_invocation_Ok:
  "item_invocation s src tmp = Ok i \<longleftrightarrow>
     spec_ssh_transport s = None \<and> src \<noteq> [] \<and> \<not> path_contains_nul src \<and>
     tmp \<noteq> [] \<and> \<not> path_contains_nul tmp \<and>
     i = \<lparr>program = ''rsync'',
          arguments = map argument_str (option_arguments (spec_options s) False) @
            [''--'', path_str src, path_str tmp],
          secret_bindings = []\<rparr>"
  by (auto simp: item_invocation_def) (simp_all add: argument_str_def)

lemma ssh_item_invocation_to_Ok:
  assumes "ssh_item_invocation_to s a destination = Ok i"
  shows "\<exists>transport source target. spec_ssh_transport s = Some transport \<and>
     is_transfer_kind (pa_kind a) \<and> pa_path a \<noteq> [] \<and> all_normal (pa_path a) \<and>
     peer_argument_at s (pa_source_side a) (pa_path a) = Ok source \<and>
     peer_argument_at_path s (opposite (pa_source_side a)) destination = Ok target \<and>
     arguments i = map argument_str (option_arguments (spec_options s) True @ [ArgSshTransport transport]) @
        [''--'', argument_str source, argument_str target] \<and>
     program i = ''rsync'' \<and> secret_bindings i = spec_secret_bindings s"
  using assms by (auto simp: ssh_item_invocation_to_def split: option.splits if_splits)

definition safe_option_words :: "string list \<Rightarrow> bool" where
  "safe_option_words ws =
     (\<forall>w \<in> set ws. \<not> is_deletion_option w \<and> w \<noteq> ''--'' \<and> prefix ''--'' w)"

lemma safe_option_words_map:
  "safe_option_words (map argument_str (option_arguments opts b))"
  "safe_option_words (map argument_str (option_arguments opts b @ [ArgSshTransport t]))"
  using option_argument_str transport_argument_str by (auto simp: safe_option_words_def)

definition example_profile :: sync_profile where
  "example_profile = sync_profile_new ''docs''
     (peer_new ''a'' [RootDir, Normal ''home'', Normal ''docs''])
     (peer_new ''b'' [RootDir, Normal ''mnt'', Normal ''backup''])"

definition example_copy :: plan_action where
  "example_copy = \<lparr>pa_id = 1, pa_path = [Normal ''x'', Normal ''y''], pa_kind = CopyToDestination,
     pa_consequence = [], pa_source_side = PeerA, pa_size = Some 5\<rparr>"

lemma example_spec: "\<exists>s. spec_from_profile (\<lambda>_. False) example_profile = Ok s \<and>
    spec_ssh_transport s = None \<and> spec_mode s = OneWay \<and> spec_source s = SourcePeerA"
proof -
  have "\<exists>s. spec_from_profile (\<lambda>_. False) example_profile = Ok s"
    by (simp add: spec_from_profile_def example_profile_def sync_profile_new_def Let_def
        validate_options_Ok default_sync_options_def default_retry_policy_def MAX_ATTEMPTS_def
        MAX_INITIAL_DELAY_def NANOS_PER_SECOND_def word_le_nat_alt is_ssh_def peer_new_def
        selected_source_def selected_destination_def process_destination_root_def peer_root_def
        path_contains_nul_def side_argument_at_path_def peer_ssh_peer_def)
  then obtain s where s: "spec_from_profile (\<lambda>_. False) example_profile = Ok s" ..
  from spec_from_profile_Ok[OF s] have "spec_ssh_transport s = None" "spec_mode s = OneWay"
      "spec_source s = SourcePeerA"
    by (simp_all add: profile_transport_def example_profile_def sync_profile_new_def peer_new_def
        peer_ssh_peer_def)
  with s show ?thesis by blast
qed

subsection \<open>Properties\<close>

text \<open>Options that pass validation respect every bound: between one and ten attempts, at
  most an hour of initial delay, a bandwidth limit between 1 and 4000000 KiB/s, and a deletion
  method only with a destructive action; no option is altered. Within these bounds no retry
  delay ever saturates: the delay before retry \<open>n\<close> is exactly \<open>n\<close> times the initial delay.\<close>

theorem validated_options_in_bounds:
  assumes "validate_options opts = Ok v"
  shows "1 \<le> unat (max_attempts (val_retry_policy v)) \<and> unat (max_attempts (val_retry_policy v)) \<le> 10 \<and>
    initial_delay (val_retry_policy v) \<le> 3600 * NANOS_PER_SECOND \<and>
    (\<forall>n. delay_for_retry (val_retry_policy v) n = initial_delay (val_retry_policy v) * unat n) \<and>
    (\<forall>l. val_bandwidth_limit v = Some l \<longrightarrow> 1 \<le> unat l \<and> unat l \<le> 4000000) \<and>
    (val_deletion_method v \<noteq> None \<longrightarrow> val_safe_delete v \<or> val_destination_cleanup v) \<and>
    (val_safe_delete v, val_destination_cleanup v, val_deletion_method v, val_metadata v,
     val_partial_transfer_policy v, val_retry_policy v, val_bandwidth_limit v) =
    (opt_safe_delete opts, opt_destination_cleanup opts, opt_deletion_method opts,
     opt_metadata opts, opt_partial_transfer_policy opts, opt_retry_policy opts,
     opt_bandwidth_limit opts)"
  using assms
  by (auto simp: validate_options_Ok is_none_or_iff delay_not_saturated word_le_nat_alt
      MAX_ATTEMPTS_def MAX_BANDWIDTH_LIMIT_KIB_PER_SECOND_def MAX_INITIAL_DELAY_def)

theorem validated_options_in_bounds_witness:
  "\<exists>v. validate_options default_sync_options = Ok v \<and>
     delay_for_retry (val_retry_policy v) 3 = 300000000"
proof -
  obtain v where v: "validate_options default_sync_options = Ok v"
    by (simp add: validate_options_def default_sync_options_def default_retry_policy_def
        MAX_ATTEMPTS_def MAX_INITIAL_DELAY_def NANOS_PER_SECOND_def word_le_nat_alt)
  note b = validated_options_in_bounds[OF v]
  then have "delay_for_retry (val_retry_policy v) 3 = initial_delay (val_retry_policy v) * unat (3 :: u8)"
    by blast
  moreover from b have "val_retry_policy v = default_retry_policy"
    by (simp add: default_sync_options_def)
  ultimately show ?thesis using v by (simp add: default_retry_policy_def)
qed

text \<open>C15: The command for one item can never delete: in the local and in the SSH form the
  words before the end-of-options marker are options other than a deletion option, even when
  the profile has destination cleanup enabled, and exactly two words follow the marker, the
  source and the temporary destination.\<close>

theorem item_commands_never_delete:
  "(item_invocation s src tmp = Ok i \<longrightarrow>
      (\<exists>ws. arguments i = ws @ [''--'', path_str src, path_str tmp] \<and> safe_option_words ws)) \<and>
   (ssh_item_invocation_to s a tmp = Ok i \<longrightarrow>
      (\<exists>ws source target. arguments i = ws @ [''--'', argument_str source, argument_str target] \<and>
         safe_option_words ws \<and>
         peer_argument_at s (pa_source_side a) (pa_path a) = Ok source \<and>
         peer_argument_at_path s (opposite (pa_source_side a)) tmp = Ok target))"
  using ssh_item_invocation_to_Ok[of s a tmp i] safe_option_words_map
  by (fastforce simp: item_invocation_Ok)

theorem item_commands_never_delete_witness:
  "\<exists>s i ws. item_invocation s [RootDir, Normal ''a''] [RootDir, Normal ''t''] = Ok i \<and>
     arguments i = ws @ [''--'', ''/a'', ''/t''] \<and> safe_option_words ws"
proof -
  obtain s :: process_specification where s: "spec_ssh_transport s = None"
    using example_spec by auto
  then obtain i where i: "item_invocation s [RootDir, Normal ''a''] [RootDir, Normal ''t''] = Ok i"
    by (simp add: item_invocation_Ok path_contains_nul_def)
  from conjunct1[OF item_commands_never_delete[of s "[RootDir, Normal ''a'']" "[RootDir, Normal ''t'']" i]] i
  have "\<exists>ws. arguments i = ws @ [''--'', ''/a'', ''/t''] \<and> safe_option_words ws"
    by (simp add: path_str_def component_str_def)
  with i show ?thesis by blast
qed

text \<open>C16: The paths of a local transfer stay below the roots of the two peers: the source is
  the root of the peer the action names, the destination that of the other peer, each followed
  by the same non-empty sequence of plain names; a One-Way run accepts only actions of its own
  source, and its destination root is the resolved one.\<close>

theorem transfer_paths_confined:
  assumes "spec_from_profile is_dir prof = Ok s" and "transfer_paths s a = Ok (src, dst)"
  shows "\<exists>names. names \<noteq> [] \<and> pa_path a = map Normal names \<and>
      src = side_root s (pa_source_side a) @ map Normal names \<and>
      dst = side_root s (opposite (pa_source_side a)) @ map Normal names \<and>
      is_transfer_kind (pa_kind a) \<and>
      \<not> is_ssh (peer_a prof) \<and> \<not> is_ssh (peer_b prof) \<and>
      (prof_mode prof = OneWay \<longrightarrow>
         side_root s (pa_source_side a) = peer_root (selected_source prof) \<and>
         side_root s (opposite (pa_source_side a)) =
           process_destination_root is_dir prof (selected_destination prof))"
proof -
  note s = spec_from_profile_Ok[OF assms(1)]
  from assms(2) have t: "pa_path a \<noteq> []" "all_normal (pa_path a)" "is_transfer_kind (pa_kind a)"
      "spec_ssh_transport s = None"
      "prof_mode prof = OneWay \<longrightarrow> pa_source_side a = side_of_source (prof_source prof)"
      "src = side_root s (pa_source_side a) @ pa_path a"
      "dst = side_root s (opposite (pa_source_side a)) @ pa_path a"
    by (auto simp: transfer_paths_Ok s)
  from t(2) obtain names where names: "pa_path a = map Normal names"
    unfolding all_normal_def by (metis ex_map_conv)
  from t(4) have "\<not> is_ssh (peer_a prof)" "\<not> is_ssh (peer_b prof)"
    by (auto simp: s profile_transport_def is_ssh_def peer_ssh_peer_def
        split: option.splits peer_endpoint.splits)
  with t names show ?thesis
    by (intro exI[of _ names]) (simp add: s(11,12))
qed

theorem transfer_paths_confined_witness:
  "\<exists>s src dst. spec_from_profile (\<lambda>_. False) example_profile = Ok s \<and>
     transfer_paths s example_copy = Ok (src, dst) \<and>
     (\<exists>names. names \<noteq> [] \<and> pa_path example_copy = map Normal names \<and>
        src = side_root s (pa_source_side example_copy) @ map Normal names)"
proof -
  obtain s where s: "spec_from_profile (\<lambda>_. False) example_profile = Ok s"
    "spec_ssh_transport s = None" "spec_mode s = OneWay" "spec_source s = SourcePeerA"
    using example_spec by blast
  then obtain src dst where t: "transfer_paths s example_copy = Ok (src, dst)"
    by (auto simp: transfer_paths_Ok example_copy_def is_transfer_kind_def side_of_source_def)
  from transfer_paths_confined[OF s(1) t] s(1) t show ?thesis by blast
qed

text \<open>C17: The path handed to a remote shell is quoted so that the shell reads exactly one
  word, and its value is the path as text: the path itself when it is valid UTF-8, and
  otherwise the path with every ill-formed sequence replaced by U+FFFD.\<close>

theorem remote_word_reads_back:
  "shell_word False (encode_remote_shell_word p) = Some (to_string_lossy (path_str p)) \<and>
   (is_utf8 (path_str p) \<longrightarrow> shell_word False (encode_remote_shell_word p) = Some (path_str p))"
  by (simp add: shell_word_encoded to_string_lossy_utf8)

theorem remote_word_reads_back_witness:
  "shell_word False (encode_remote_shell_word [RootDir, Normal [CHR ''i'', CHR 0x27, CHR ''s'']])
     = Some (CHR ''/'' # [CHR ''i'', CHR 0x27, CHR ''s''])"
proof -
  have "is_utf8 (path_str [RootDir, Normal [CHR ''i'', CHR 0x27, CHR ''s'']])"
    by (rule is_utf8_ascii) (simp add: path_str_def component_str_def)
  with remote_word_reads_back[of "[RootDir, Normal [CHR ''i'', CHR 0x27, CHR ''s'']]"]
  have "shell_word False (encode_remote_shell_word [RootDir, Normal [CHR ''i'', CHR 0x27, CHR ''s'']])
     = Some (path_str [RootDir, Normal [CHR ''i'', CHR 0x27, CHR ''s'']])"
    by blast
  then show ?thesis by (simp add: path_str_def component_str_def)
qed

text \<open>A remote transfer target of a peer that passed validation is read back as the
  user, host and path it was made from: no user name, host name or bracketed address that
  \<open>SshPeer::new\<close> accepts can move the boundaries.\<close>

theorem remote_target_is_unambiguous:
  assumes "ssh_peer_new srv user prt ident auth remote = Ok p"
    and "ssh_target_from_peer_at p relative = Ok t"
  shows "target_split (ssh_target_str t) = Some (user, srv, path_str (components remote @ relative)) \<and>
    relative \<noteq> [] \<and> all_normal relative"
proof -
  from assms(1) have p: "ssh_peer_wf p" "username p = user" "server p = srv"
      "remote_path p = components remote"
    by (auto simp: ssh_peer_new_fields dest: ssh_peer_new_wf)
  from assms(2) p have t: "t = \<lparr>tgt_username = user, tgt_server = srv,
      tgt_path = components remote @ relative\<rparr>" "relative \<noteq> []" "all_normal relative"
    by (auto simp: ssh_target_from_peer_at_def ssh_target_from_peer_path_def join_all_normal)
  with p(1,2,3) target_split_str[of t] show ?thesis by (simp add: ssh_peer_wf_def)
qed

theorem remote_target_is_unambiguous_witness:
  "\<exists>p t. ssh_peer_new ''[::1]'' ''u'' 22 None Agent ''/srv'' = Ok p \<and>
     ssh_target_from_peer_at p [Normal ''a:b''] = Ok t \<and>
     target_split (ssh_target_str t) = Some (''u'', ''[::1]'', ''/srv/a:b'')"
proof -
  have c: "components ''/srv'' = [RootDir, Normal ''srv'']" by code_simp
  obtain p where p: "ssh_peer_new ''[::1]'' ''u'' 22 None Agent ''/srv'' = Ok p"
      "remote_path p = [RootDir, Normal ''srv'']"
    by (simp add: ssh_peer_new_def is_valid_ssh_server_def strip_prefix_def strip_suffix_def
        is_ssh_address_char_def is_ascii_hexdigit_def is_ascii_digit_def suffix_def
        is_valid_ssh_username_def is_ascii_alphanumeric_def is_ascii_alphabetic_def c)
  obtain t where t: "ssh_target_from_peer_at p [Normal ''a:b''] = Ok t"
    by (simp add: ssh_target_from_peer_at_def ssh_target_from_peer_path_def p(2) path_contains_nul_def)
  from remote_target_is_unambiguous[OF p(1) t] p t show ?thesis
    by (simp add: c path_str_def component_str_def)
qed

text \<open>A specification carries the profile it was built from: its exclusions, in order and
  all of them valid, its source, mode and SSH endpoints, at most one of which is remote; a
  Mirror specification has no deletion option and no whole-tree command; the whole-tree command
  of a One-Way specification asks for deletion only when destination cleanup is on.\<close>

theorem specification_reflects_profile:
  assumes "spec_from_profile is_dir prof = Ok s"
  shows "spec_exclusions s = prof_exclusions prof \<and>
    (\<forall>e \<in> set (prof_exclusions prof). e \<noteq> [] \<and> NUL \<notin> set e) \<and>
    \<not> (is_ssh (peer_a prof) \<and> is_ssh (peer_b prof)) \<and>
    (prof_mode prof = Mirror \<longrightarrow> spec_invocation s = Err MirrorRequiresReviewedPlan \<and>
       \<not> opt_safe_delete (prof_options prof) \<and> \<not> opt_destination_cleanup (prof_options prof)) \<and>
    (ArgFlag FlagDestinationCleanup \<in> set (spec_arguments s) \<longleftrightarrow>
       opt_destination_cleanup (prof_options prof))"
proof -
  note s = spec_from_profile_Ok[OF assms]
  from s(1) have o: "val_destination_cleanup (spec_options s) = opt_destination_cleanup (prof_options prof)"
      "val_safe_delete (spec_options s) = opt_safe_delete (prof_options prof)"
    by (auto simp: validate_options_Ok)
  obtain target where args: "spec_arguments s =
       option_arguments (spec_options s) (profile_transport prof \<noteq> None) @
       (if val_destination_cleanup (spec_options s) then [ArgFlag FlagDestinationCleanup] else []) @
       map ArgExclusion (prof_exclusions prof) @
       (case profile_transport prof of None \<Rightarrow> [] | Some t \<Rightarrow> [ArgSshTransport t]) @
       [ArgFlag FlagEndOfOptions, peer_argument (selected_source prof), target]"
    and target: "side_argument_at_path (peer_ssh_peer (selected_destination prof))
         (process_destination_root is_dir prof (selected_destination prof)) = Ok target"
    using s(13) by blast
  have 1: "ArgFlag FlagDestinationCleanup \<notin> set (option_arguments (spec_options s) b)" for b
    by (auto dest: option_arguments_mem)
  have 2: "target \<noteq> ArgFlag f" "peer_argument p \<noteq> ArgFlag f" for f p
    using side_argument_cases[OF target] by (auto simp: peer_argument_def split: option.splits)
  have "ArgFlag FlagDestinationCleanup \<in> set (spec_arguments s) \<longleftrightarrow>
      opt_destination_cleanup (prof_options prof)"
    using 1 2[symmetric] by (auto simp: args o split: option.splits)
  with s o show ?thesis
    by (auto simp: spec_exclusions_from_profile[OF assms] spec_invocation_def)
qed

theorem specification_reflects_profile_witness:
  "\<exists>s. spec_from_profile (\<lambda>_. False) example_profile = Ok s \<and> spec_exclusions s = []"
proof -
  obtain s where s: "spec_from_profile (\<lambda>_. False) example_profile = Ok s"
    using example_spec by blast
  from specification_reflects_profile[OF s] s show ?thesis
    by (auto simp: example_profile_def sync_profile_new_def)
qed

definition run_transition :: "sync_run \<Rightarrow> run_event \<Rightarrow> sync_run option" where
  "run_transition r e = (case transition r e of Inl _ \<Rightarrow> None | Inr r' \<Rightarrow> Some r')"

lemma run_transition_iff:
  "run_transition r e = Some r' \<longleftrightarrow>
     (\<exists>s. next_state (run_state_of r) e = Some s \<and> r' = r\<lparr>run_state_of := s\<rparr>)"
  by (cases "next_state (run_state_of r) e") (auto simp: run_transition_def transition_def)

lemma run_transitions_state:
  "run_steps run_transition r es = Some r' \<Longrightarrow>
     run_id r' = run_id r \<and> run_snapshot r' = run_snapshot r \<and>
     run_steps next_state (run_state_of r) es = Some (run_state_of r')"
proof (induction es arbitrary: r)
  case (Cons e es)
  then obtain s where s: "next_state (run_state_of r) e = Some s"
      "run_steps run_transition (r\<lparr>run_state_of := s\<rparr>) es = Some r'"
    by (auto simp: run_transition_iff split: option.splits)
  from Cons.IH[OF s(2)] s(1) show ?case by simp
qed simp

lemma sync_run_new_Ok:
  assumes "sync_run_new_with_authorizations is_dir i prof auths = Ok r"
  shows "run_id r = i \<and> snapshot_id (run_snapshot r) = i \<and> snapshot_profile (run_snapshot r) = prof \<and>
    snapshot_authorizations (run_snapshot r) = auths \<and> run_state_of r = Active IdleEdit \<and>
    validate_options (prof_options prof) = Ok (snapshot_options (run_snapshot r)) \<and>
    (val_safe_delete (snapshot_options (run_snapshot r)) \<longrightarrow>
       val_deletion_method (snapshot_options (run_snapshot r)) \<noteq> None)"
  using assms spec_from_profile_Ok(1)
  by (fastforce simp: sync_run_new_with_authorizations_def profile_snapshot_new_def
      spec_from_profile_for_run_def split: if_splits)

text \<open>A run freezes its profile: whatever transitions it goes through, its identifier and
  its snapshot stay those it was created with, its state is the one the run machine reaches,
  and the frozen options have a deletion method whenever Safe Delete is on.\<close>

theorem run_freezes_its_profile:
  assumes "sync_run_new_with_authorizations is_dir i prof auths = Ok r"
    and "run_steps run_transition r es = Some r'"
  shows "run_id r' = i \<and> snapshot_profile (run_snapshot r') = prof \<and>
    snapshot_authorizations (run_snapshot r') = auths \<and>
    validate_options (prof_options prof) = Ok (snapshot_options (run_snapshot r')) \<and>
    run_from_idle es = Some (run_state_of r') \<and>
    (val_safe_delete (snapshot_options (run_snapshot r')) \<longrightarrow>
       val_deletion_method (snapshot_options (run_snapshot r')) \<noteq> None)"
  using sync_run_new_Ok[OF assms(1)] run_transitions_state[OF assms(2)]
  by (simp add: run_from_idle_def)

theorem run_freezes_its_profile_witness:
  "\<exists>r r'. sync_run_new (\<lambda>_. False) 7 example_profile = Ok r \<and>
     run_steps run_transition r [BeginPrecheck, EvCancelled] = Some r' \<and>
     run_from_idle [BeginPrecheck, EvCancelled] = Some (run_state_of r') \<and>
     snapshot_profile (run_snapshot r') = example_profile"
proof -
  obtain s where s: "spec_from_profile (\<lambda>_. False) example_profile = Ok s"
    using example_spec by blast
  from spec_from_profile_Ok(1)[OF s] have "\<not> val_safe_delete (spec_options s)"
    by (auto simp: validate_options_Ok example_profile_def sync_profile_new_def default_sync_options_def)
  with s obtain r where r: "sync_run_new_with_authorizations (\<lambda>_. False) 7 example_profile
      default_authorization_snapshot = Ok r" "run_state_of r = Active IdleEdit"
    by (simp add: sync_run_new_with_authorizations_def profile_snapshot_new_def
        spec_from_profile_for_run_def)
  then obtain r' where r': "run_steps run_transition r [BeginPrecheck, EvCancelled] = Some r'"
    by (simp add: run_transition_def transition_def next_state_def advance_state_def
        active_next_def is_stop_event_def)
  from run_freezes_its_profile[OF r(1) r'] r r' show ?thesis by (auto simp: sync_run_new_def)
qed

text \<open>
  The remote helper places \<open>user@server\<close> after its options without an end-of-options
  marker, and validation accepts a user name that begins with a dash.
\<close>

lemma helper_destination_may_look_like_an_option:
  "\<exists>p h. ssh_peer_new ''h'' ''-Fx'' 22 None Agent ''/srv'' = Ok p \<and>
     sha256_helper p [RootDir, Normal ''f''] = Ok h \<and>
     arguments (helper_invocation h) =
       [''-p'', ''22'', ''-o'', ''IdentityFile=none'', ''-o'', ''PreferredAuthentications=publickey'',
        ''-o'', ''PasswordAuthentication=no'', ''-o'', ''KbdInteractiveAuthentication=no'',
        ''-Fx@h'', ''sha256sum -- '' @ encode_remote_shell_word [RootDir, Normal ''f'']]"
proof -
  have n: "nat_str 22 = ''22''" by code_simp
  show ?thesis
    by (simp add: ssh_peer_new_def is_valid_ssh_server_def strip_prefix_def suffix_def
        is_valid_ssh_username_def is_ascii_alphanumeric_def is_ascii_alphabetic_def
        is_ascii_digit_def sha256_helper_def sha256_auth_arguments_def ssh_option_def
        path_contains_nul_def n)
qed

end
