(* ===== verification/Exclusion.thy ===== *)
theory Exclusion
  imports Inventory
begin

text \<open>
  The exclusion patterns of \<open>analysis.rs\<close>: the wildcard matcher with its single
  backtracking point, and the choice of what a pattern is matched against. Patterns and
  values are sequences of scalar values. The matcher is compared with the declarative
  meaning of a pattern.
\<close>

subsection \<open>The matcher\<close>

definition STAR :: nat where
  "STAR = 42"

definition QMARK :: nat where
  "QMARK = 63"

definition wildcard_tail :: "nat list \<Rightarrow> nat \<Rightarrow> bool" where
  "wildcard_tail pattern pi = (dropWhile (\<lambda>c. c = STAR) (drop pi pattern) = [])"

text \<open>The main loop; its variables are the two indices, the last star and the value index
  the star was last extended to.\<close>

function wildcard_loop ::
  "nat list \<Rightarrow> nat list \<Rightarrow> nat \<Rightarrow> nat \<Rightarrow> nat option \<Rightarrow> nat \<Rightarrow> bool" where
  "wildcard_loop pattern v pi vi star svi =
     (if vi < length v then
        if pi < length pattern \<and> (pattern ! pi = QMARK \<or> pattern ! pi = v ! vi)
        then wildcard_loop pattern v (pi + 1) (vi + 1) star svi
        else if pi < length pattern \<and> pattern ! pi = STAR
        then wildcard_loop pattern v (pi + 1) vi (Some pi) vi
        else (case star of
                Some s \<Rightarrow> wildcard_loop pattern v (s + 1) (svi + 1) (Some s) (svi + 1)
              | None \<Rightarrow> False)
      else wildcard_tail pattern pi)"
  by pat_completeness auto
termination
  by (relation "measures [\<lambda>(p, v, pi, vi, star, svi). length v - min svi vi,
        \<lambda>(p, v, pi, vi, star, svi). length p - pi]") (auto simp: min_def)

declare wildcard_loop.simps [simp del]

definition wildcard_match :: "nat list \<Rightarrow> nat list \<Rightarrow> bool" where
  "wildcard_match pattern v = wildcard_loop pattern v 0 0 None 0"

subsection \<open>What a pattern is matched against\<close>

definition trim_end_slashes :: "string \<Rightarrow> string" where
  "trim_end_slashes s = rev (dropWhile (\<lambda>c. c = SLASH) (rev s))"

definition component_lossy :: "component \<Rightarrow> string" where
  "component_lossy c = to_string_lossy (component_str c)"

definition path_for_matching :: "path \<Rightarrow> string" where
  "path_for_matching p = join_with ''/'' (map component_lossy p)"

definition str_wildcard_match :: "string \<Rightarrow> string \<Rightarrow> bool" where
  "str_wildcard_match pattern v = wildcard_match (lossy_chars pattern) (lossy_chars v)"

definition matches_exclusion :: "path \<Rightarrow> item_type \<Rightarrow> string \<Rightarrow> bool" where
  "matches_exclusion relative_path ty raw =
     (let directory_pattern = suffix ''/'' raw; pattern = trim_end_slashes raw in
      if pattern = [] then False
      else if directory_pattern \<and> ty \<noteq> Directory then False
      else if SLASH \<in> set pattern
        then str_wildcard_match pattern (path_for_matching relative_path)
      else if directory_pattern
        then list_ex (\<lambda>c. str_wildcard_match pattern (component_lossy c)) relative_path
      else is_some_and (\<lambda>n. str_wildcard_match pattern (to_string_lossy n))
        (file_name relative_path))"

definition is_syncplus_internal_artifact :: "string \<Rightarrow> bool" where
  "is_syncplus_internal_artifact raw =
     (let name = to_string_lossy raw in
      prefix ''.syncplus-partial-'' name \<or> prefix ''.syncplus-temporary-'' name \<or>
      prefix ''.syncplus-previous-'' name)"

subsection \<open>The meaning of a pattern\<close>

text \<open>A star stands for any sequence, a question mark for any single character, anything
  else for itself.\<close>

fun glob :: "nat list \<Rightarrow> nat list \<Rightarrow> bool" where
  "glob [] v = (v = [])"
| "glob (c # p) [] = (c = STAR \<and> glob p [])"
| "glob (c # p) (x # v) =
     (if c = STAR then glob p (x # v) \<or> glob (c # p) v
      else (c = QMARK \<or> c = x) \<and> glob p v)"

lemma glob_star: "glob (STAR # p) v \<longleftrightarrow> (\<exists>k \<le> length v. glob p (drop k v))"
proof (induction v)
  case (Cons x v)
  have "(\<exists>k \<le> length (x # v). glob p (drop k (x # v))) \<longleftrightarrow>
      glob p (x # v) \<or> (\<exists>k \<le> length v. glob p (drop k v))"
    (is "?l = ?r")
  proof
    assume ?l
    then obtain k where "k \<le> length (x # v)" "glob p (drop k (x # v))" by blast
    then show ?r by (cases k) auto
  next
    assume ?r
    then show ?l
    proof
      assume "glob p (x # v)"
      then show ?l by (intro exI[of _ 0]) simp
    next
      assume "\<exists>k \<le> length v. glob p (drop k v)"
      then obtain k where "k \<le> length v" "glob p (drop k v)" by blast
      then show ?l by (intro exI[of _ "Suc k"]) simp
    qed
  qed
  with Cons show ?case by simp
qed simp

lemma glob_star_drop: "glob (STAR # p) (drop k v) \<Longrightarrow> glob (STAR # p) v"
proof (cases "k \<le> length v")
  case True
  assume "glob (STAR # p) (drop k v)"
  then obtain j where "j \<le> length v - k" "glob p (drop (j + k) v)"
    by (auto simp: glob_star)
  with True have "j + k \<le> length v" "glob p (drop (j + k) v)" by auto
  then show ?thesis unfolding glob_star by blast
next
  case False
  assume "glob (STAR # p) (drop k v)"
  with False have "glob p []" by (simp add: glob_star)
  then show ?thesis unfolding glob_star by (intro exI[of _ "length v"]) simp
qed

lemma glob_starless:
  "STAR \<notin> set seg \<Longrightarrow> glob (seg @ rest) v \<Longrightarrow>
     length seg \<le> length v \<and> glob rest (drop (length seg) v)"
proof (induction seg arbitrary: v)
  case (Cons c seg)
  then show ?case by (cases v) auto
qed simp

text \<open>The tail of the matcher decides the pattern on the empty value.\<close>

lemma wildcard_tail_glob: "wildcard_tail p pi = glob (drop pi p) []"
proof -
  have "(dropWhile (\<lambda>c. c = STAR) q = []) = glob q []" for q
    by (induction q) auto
  then show ?thesis by (simp add: wildcard_tail_def)
qed

text \<open>The invariant of the loop: since the star, the pattern and the value advanced in step
  over a stretch without stars.\<close>

definition star_invariant ::
  "nat list \<Rightarrow> nat list \<Rightarrow> nat \<Rightarrow> nat \<Rightarrow> nat option \<Rightarrow> nat \<Rightarrow> bool" where
  "star_invariant p v pi vi star svi =
     (pi \<le> length p \<and> vi \<le> length v \<and>
      (\<forall>s. star = Some s \<longrightarrow> s < pi \<and> svi \<le> vi \<and> p ! s = STAR \<and>
         pi - (s + 1) = vi - svi \<and> STAR \<notin> set (take (pi - (s + 1)) (drop (s + 1) p))))"

text \<open>What the matcher may still do: go on from here, or extend the star.\<close>

definition star_options :: "nat list \<Rightarrow> nat list \<Rightarrow> nat \<Rightarrow> nat \<Rightarrow> nat option \<Rightarrow> nat \<Rightarrow> bool" where
  "star_options p v pi vi star svi =
     (glob (drop pi p) (drop vi v) \<or>
      (\<exists>s k. star = Some s \<and> svi < k \<and> k \<le> length v \<and> glob (drop (s + 1) p) (drop k v)))"

lemma extend_star_segment:
  assumes inv: "star_invariant p v pi vi (Some s) svi" and k: "svi < k" "k \<le> length v"
    and g: "glob (drop (s + 1) p) (drop k v)"
  shows "\<exists>j. vi < j \<and> j \<le> length v \<and> glob (drop pi p) (drop j v)"
proof -
  let ?seg = "take (pi - (s + 1)) (drop (s + 1) p)"
  from inv have i: "s < pi" "svi \<le> vi" "pi - (s + 1) = vi - svi" "STAR \<notin> set ?seg" "pi \<le> length p"
    by (auto simp: star_invariant_def)
  have "drop (s + 1) p = ?seg @ drop pi p"
    using i(1) by (metis Suc_eq_plus1 Suc_leI append_take_drop_id drop_drop le_add_diff_inverse2)
  moreover have len: "length ?seg = vi - svi" using i by simp
  ultimately have "vi - svi \<le> length v - k" "glob (drop pi p) (drop (vi - svi) (drop k v))"
    using glob_starless[OF i(4), of "drop pi p" "drop k v"] g by auto
  then show ?thesis using k i(2) by (intro exI[of _ "k + (vi - svi)"]) (auto simp: add.commute)
qed

lemma star_invariant_match:
  assumes "star_invariant p v pi vi star svi" "vi < length v" "pi < length p" "p ! pi \<noteq> STAR"
  shows "star_invariant p v (pi + 1) (vi + 1) star svi"
  unfolding star_invariant_def
proof (intro conjI allI impI)
  show "pi + 1 \<le> length p" "vi + 1 \<le> length v" using assms by simp_all
  fix s
  assume st: "star = Some s"
  with assms(1) have i: "s < pi" "svi \<le> vi" "p ! s = STAR" "pi - (s + 1) = vi - svi"
    "STAR \<notin> set (take (pi - (s + 1)) (drop (s + 1) p))"
    by (auto simp: star_invariant_def)
  then show "s < pi + 1" "svi \<le> vi + 1" "p ! s = STAR" "pi + 1 - (s + 1) = vi + 1 - svi"
    by auto
  have "take (pi + 1 - (s + 1)) (drop (s + 1) p) = take (pi - (s + 1)) (drop (s + 1) p) @ [p ! pi]"
    using i(1) assms(3) take_Suc_conv_app_nth[of "pi - (s + 1)" "drop (s + 1) p"]
    by (simp add: Suc_diff_Suc)
  with i(5) assms(4) show "STAR \<notin> set (take (pi + 1 - (s + 1)) (drop (s + 1) p))" by simp
qed

lemma star_options_match:
  assumes "vi < length v" "pi < length p" "p ! pi = QMARK \<or> p ! pi = v ! vi" "p ! pi \<noteq> STAR"
  shows "star_options p v pi vi star svi = star_options p v (pi + 1) (vi + 1) star svi"
proof -
  have "glob (drop pi p) (drop vi v) = glob (drop (pi + 1) p) (drop (vi + 1) v)"
    using assms by (auto simp flip: Cons_nth_drop_Suc)
  then show ?thesis by (simp add: star_options_def)
qed

lemma star_options_star:
  assumes inv: "star_invariant p v pi vi star svi" and "pi < length p" "p ! pi = STAR"
  shows "star_options p v pi vi star svi = star_options p v (pi + 1) vi (Some pi) vi"
proof -
  have vi: "vi \<le> length v" using inv by (simp add: star_invariant_def)
  have drop: "drop pi p = STAR # drop (pi + 1) p"
    using assms(2,3) by (simp flip: Cons_nth_drop_Suc)
  have old: "glob (STAR # drop (pi + 1) p) (drop vi v)"
    if "star = Some s" "svi < k" "k \<le> length v" "glob (drop (s + 1) p) (drop k v)" for s k
  proof -
    from extend_star_segment[OF inv[unfolded that(1)] that(2-4)] obtain j
      where j: "vi < j" "glob (drop pi p) (drop j v)" by blast
    then have "glob (STAR # drop (pi + 1) p) (drop (j - vi) (drop vi v))"
      by (simp add: drop)
    then show ?thesis by (rule glob_star_drop)
  qed
  have "glob (STAR # drop (pi + 1) p) (drop vi v) \<longleftrightarrow>
      glob (drop (pi + 1) p) (drop vi v) \<or>
      (\<exists>k. vi < k \<and> k \<le> length v \<and> glob (drop (pi + 1) p) (drop k v))" (is "?g = ?n")
  proof
    assume ?g
    then obtain k where k: "k \<le> length v - vi" "glob (drop (pi + 1) p) (drop (k + vi) v)"
      by (auto simp: glob_star)
    then show ?n
    proof (cases k)
      case (Suc i)
      with k vi show ?n by (intro disjI2 exI[of _ "k + vi"]) auto
    qed simp
  next
    assume ?n
    then show ?g
    proof
      assume "\<exists>k. vi < k \<and> k \<le> length v \<and> glob (drop (pi + 1) p) (drop k v)"
      then obtain k where "vi < k" "k \<le> length v" "glob (drop (pi + 1) p) (drop k v)" by blast
      then show ?g unfolding glob_star by (intro exI[of _ "k - vi"]) auto
    next
      assume "glob (drop (pi + 1) p) (drop vi v)"
      then show ?g unfolding glob_star by (intro exI[of _ 0]) simp
    qed
  qed
  with old show ?thesis unfolding star_options_def drop by blast
qed

lemma star_options_extend:
  assumes "\<not> glob (drop pi p) (drop vi v)" "svi < length v"
  shows "star_options p v pi vi (Some s) svi =
    star_options p v (s + 1) (svi + 1) (Some s) (svi + 1)"
proof -
  have "(\<exists>k. svi < k \<and> k \<le> length v \<and> glob (drop (s + 1) p) (drop k v)) \<longleftrightarrow>
      glob (drop (s + 1) p) (drop (svi + 1) v) \<or>
      (\<exists>k. svi + 1 < k \<and> k \<le> length v \<and> glob (drop (s + 1) p) (drop k v))" (is "?l = ?r")
  proof
    assume ?l
    then obtain k where "svi < k" "k \<le> length v" "glob (drop (s + 1) p) (drop k v)" by blast
    then show ?r by (cases "k = svi + 1") auto
  qed (use assms(2) in \<open>auto intro: Suc_lessD\<close>)
  with assms(1) show ?thesis by (simp add: star_options_def)
qed

lemma glob_mismatch:
  assumes "vi < length v" "\<not> (pi < length p \<and> (p ! pi = QMARK \<or> p ! pi = v ! vi))"
    and "\<not> (pi < length p \<and> p ! pi = STAR)"
  shows "\<not> glob (drop pi p) (drop vi v)"
proof (cases "pi < length p")
  case True
  with assms show ?thesis by (auto simp flip: Cons_nth_drop_Suc)
qed (use assms(1) in simp)

lemma wildcard_loop_options:
  "star_invariant p v pi vi star svi \<Longrightarrow> STAR \<notin> set v \<Longrightarrow>
     wildcard_loop p v pi vi star svi = star_options p v pi vi star svi"
proof (induction p v pi vi star svi rule: wildcard_loop.induct)
  case (1 p v pi vi star svi)
  note inv = "1.prems"(1)
  show ?case
  proof (cases "vi < length v")
    case False
    with inv have "vi = length v" by (simp add: star_invariant_def)
    moreover have "\<not> (\<exists>s k. star = Some s \<and> svi < k \<and> k \<le> length v \<and> glob (drop (s + 1) p) (drop k v))"
      using extend_star_segment[of p v pi vi _ svi] inv \<open>vi = length v\<close> by fastforce
    ultimately show ?thesis
      by (auto simp: wildcard_loop.simps[of p v pi "length v"] wildcard_tail_glob star_options_def)
  next
    case True
    then have nostar: "v ! vi \<noteq> STAR" using "1.prems"(2) by (metis nth_mem)
    show ?thesis
    proof (cases "pi < length p \<and> (p ! pi = QMARK \<or> p ! pi = v ! vi)")
      case match: True
      with nostar have ns: "p ! pi \<noteq> STAR" by (auto simp: QMARK_def STAR_def)
      from "1.IH"(1)[OF True match star_invariant_match[OF inv True _ ns] "1.prems"(2)] match True
      show ?thesis
        by (simp add: wildcard_loop.simps[of p v pi vi] star_options_match[OF True _ _ ns])
    next
      case nomatch: False
      show ?thesis
      proof (cases "pi < length p \<and> p ! pi = STAR")
        case star: True
        have "star_invariant p v (pi + 1) vi (Some pi) vi"
          using inv star by (simp add: star_invariant_def)
        from "1.IH"(2)[OF True nomatch star this "1.prems"(2)] nomatch star True
        show ?thesis
          by (simp add: wildcard_loop.simps[of p v pi vi] star_options_star[OF inv])
      next
        case nostar: False
        note mismatch = glob_mismatch[OF True nomatch nostar]
        show ?thesis
        proof (cases star)
          case None
          with True nomatch nostar mismatch show ?thesis
            by (auto simp: wildcard_loop.simps[of p v pi vi] star_options_def)
        next
          case (Some s)
          with inv True have i: "svi < length v" "s < length p" "p ! s = STAR"
            by (auto simp: star_invariant_def)
          have "star_invariant p v (s + 1) (svi + 1) (Some s) (svi + 1)"
            using i by (simp add: star_invariant_def)
          from "1.IH"(3)[OF True nomatch nostar Some this "1.prems"(2)]
          show ?thesis using True nomatch nostar Some
            by (auto simp: wildcard_loop.simps[of p v pi vi] star_options_extend[OF mismatch i(1)])
        qed
      qed
    qed
  qed
qed

lemma wildcard_match_glob: "STAR \<notin> set v \<Longrightarrow> wildcard_match p v = glob p v"
proof -
  have "star_invariant p v 0 0 None 0" by (simp add: star_invariant_def)
  moreover assume "STAR \<notin> set v"
  ultimately show ?thesis
    by (simp add: wildcard_match_def wildcard_loop_options star_options_def)
qed

subsection \<open>Properties\<close>

text \<open>C39: The wildcard matcher, with its single backtracking point, always returns, and for
  every value without an asterisk it decides exactly the declarative meaning of the pattern,
  in which a star stands for any sequence and a question mark for one character.\<close>

theorem wildcard_match_is_glob:
  assumes "STAR \<notin> set v"
  shows "wildcard_match p v = glob p v"
  using assms by (rule wildcard_match_glob)

theorem wildcard_match_is_glob_witness:
  "wildcard_match (map byte ''*a?c'') (map byte ''xxaabc'') = glob (map byte ''*a?c'') (map byte ''xxaabc'')
   \<and> glob (map byte ''*a?c'') (map byte ''xxaabc'')"
proof
  show "wildcard_match (map byte ''*a?c'') (map byte ''xxaabc'') = glob (map byte ''*a?c'') (map byte ''xxaabc'')"
    by (rule wildcard_match_is_glob) (simp add: STAR_def)
  show "glob (map byte ''*a?c'') (map byte ''xxaabc'')"
    by (simp add: STAR_def QMARK_def)
qed

text \<open>
  When the value itself contains an asterisk, the test for an equal character comes before the
  test for a star, consumes the star as a literal and forgets the backtracking point.
\<close>

lemma literal_asterisk_defeats_star:
  "\<not> wildcard_match (map byte ''*'') (map byte ''*a'') \<and> glob (map byte ''*'') (map byte ''*a'')"
proof
  show "\<not> wildcard_match (map byte ''*'') (map byte ''*a'')"
    by (simp add: wildcard_match_def wildcard_loop.simps STAR_def QMARK_def)
  show "glob (map byte ''*'') (map byte ''*a'')"
    by (simp add: STAR_def)
qed

end
