(* ===== verification/Walk.thy ===== *)
theory Walk
  imports Exclusion Process "HOL-Library.Multiset"
begin

unbundle bit_operations_syntax

text \<open>
  Collecting the inventory of a local peer (\<open>collect_inventory\<close> and \<open>walk_directory\<close>
  of \<open>analysis.rs\<close>). The directory tree a peer's root denotes is given as data: what
  \<open>symlink_metadata\<close>, \<open>read_dir\<close>, \<open>read_link\<close> and the content proof return
  for every entry, with \<open>None\<close> where the call fails. Entries come in any order, as
  \<open>read_dir\<close> returns them.
\<close>

subsection \<open>What the file system answers\<close>

record fs_meta =
  fm_len :: u64
  fm_modified :: "system_time option"
  fm_readonly :: bool
  fm_mode :: u32

text \<open>An entry whose metadata cannot be read is \<open>EntryBroken\<close>. A directory that cannot be
  listed has no entries (\<open>None\<close>), nor does a link that cannot be read have a target, nor
  an unreadable file a content hash.\<close>

datatype fs_entry =
    EntryFile (entry_name: string) fs_meta "sha256 option"
  | EntryDir (entry_name: string) fs_meta "fs_entry list option"
  | EntryLink (entry_name: string) fs_meta "path option"
  | EntryOther (entry_name: string) fs_meta
  | EntryBroken (entry_name: string)

datatype root_answer =
    RootMissing
  | RootNoDirectory
  | RootDirectory "fs_entry list option"

record file_system =
  fs_is_dir :: "path \<Rightarrow> bool"
  fs_root :: "path \<Rightarrow> root_answer"

subsection \<open>Errors of an analysis\<close>

datatype plan_error =
    ActionOutsideApprovedScope path
  | ActionNotInPlan path
  | PlanActionNotAllowed plan_action_kind
  | SummaryMismatch

datatype analysis_error =
    SpecificationError process_spec_error
  | UnsupportedRemotePeer string
  | RootUnavailable string path
  | RootNotDirectory string path
  | ReadDirectory string path
  | ReadMetadata string path
  | ReadFileContents string path
  | PlanFailure plan_error
  | ProfileChanged
  | StaleAnalysis "path list"

subsection \<open>The walk\<close>

definition metadata_snapshot :: "fs_meta \<Rightarrow> path option \<Rightarrow> item_metadata" where
  "metadata_snapshot m target =
     \<lparr>md_size = fm_len m, md_modified_at = fm_modified m, md_readonly = fm_readonly m,
      md_permissions = Some (fm_mode m AND 4095), md_symlink_target = target\<rparr>"

definition is_excluded :: "bool \<Rightarrow> string list \<Rightarrow> path \<Rightarrow> item_type \<Rightarrow> bool" where
  "is_excluded inherited exclusions rel ty =
     (inherited \<or> list_ex (matches_exclusion rel ty) exclusions)"

definition outcome_for :: "bool \<Rightarrow> item_type \<Rightarrow> analysis_outcome" where
  "outcome_for excluded ty =
     (if excluded then Excluded
      else if ty = UnsupportedType then UnsupportedOutcome
      else Included)"

definition walk_item ::
  "bool \<Rightarrow> path \<Rightarrow> item_type \<Rightarrow> item_metadata \<Rightarrow> sha256 option \<Rightarrow> inventory_item" where
  "walk_item excluded rel ty md hash =
     \<lparr>it_path = rel, it_type = ty, it_metadata = md, it_outcome = outcome_for excluded ty,
      it_fingerprint =
        (if outcome_for excluded ty = Included \<and> ty = RegularFile then hash else None)\<rparr>"

lemma size_sort_key: "size_list f (sort_key k xs) = size_list f xs"
proof -
  have "size_list f ys = sum_mset (image_mset (\<lambda>x. Suc (f x)) (mset ys))" for ys
    by (induction ys) auto
  then show ?thesis by simp
qed

text \<open>One directory's entries in order of their names; the path of the directory itself is
  only used in errors. \<open>walk_entries\<close> is one iteration after another of the loop over the
  sorted entries.\<close>

function walk_entries ::
  "string \<Rightarrow> path \<Rightarrow> path \<Rightarrow> bool \<Rightarrow> string list \<Rightarrow> fs_entry list
    \<Rightarrow> analysis_error + inventory_item list" where
  "walk_entries peer_name dir rel inherited exclusions [] = Ok []"
| "walk_entries peer_name dir rel inherited exclusions (e # es) =
     (if is_syncplus_internal_artifact (entry_name e)
      then walk_entries peer_name dir rel inherited exclusions es
      else
      let path = join rel (Name (entry_name e)) in
      result_bind
        (case e of
           EntryBroken _ \<Rightarrow> Err (ReadMetadata peer_name path)
         | EntryFile _ m hash \<Rightarrow>
             Ok [walk_item (is_excluded inherited exclusions path RegularFile) path RegularFile
                   (metadata_snapshot m None) hash]
         | EntryLink _ m target \<Rightarrow>
             (case target of
                None \<Rightarrow> Err (ReadMetadata peer_name path)
              | Some t \<Rightarrow>
                  Ok [walk_item (is_excluded inherited exclusions path Symlink) path Symlink
                        (metadata_snapshot m (Some t)) None])
         | EntryOther _ m \<Rightarrow>
             Ok [walk_item (is_excluded inherited exclusions path UnsupportedType) path
                   UnsupportedType (metadata_snapshot m None) None]
         | EntryDir _ m children \<Rightarrow>
             let excluded = is_excluded inherited exclusions path Directory in
             (case children of
                None \<Rightarrow> Err (ReadDirectory peer_name (join dir (Name (entry_name e))))
              | Some cs \<Rightarrow>
                  result_bind
                    (walk_entries peer_name (join dir (Name (entry_name e))) path excluded
                       exclusions (sort_by entry_name cs))
                    (\<lambda>below. Ok (walk_item excluded path Directory (metadata_snapshot m None) None
                        # below))))
        (\<lambda>here. result_bind (walk_entries peer_name dir rel inherited exclusions es)
          (\<lambda>rest. Ok (here @ rest))))"
  by pat_completeness auto
termination
  by (relation "measure (\<lambda>(_, _, _, _, _, es). size_list size es)")
    (auto simp: sort_by_def size_sort_key)

definition walk_directory ::
  "string \<Rightarrow> path \<Rightarrow> path \<Rightarrow> bool \<Rightarrow> string list \<Rightarrow> fs_entry list option
    \<Rightarrow> analysis_error + inventory_item list" where
  "walk_directory peer_name dir rel inherited exclusions children =
     (case children of
        None \<Rightarrow> Err (ReadDirectory peer_name dir)
      | Some cs \<Rightarrow> walk_entries peer_name dir rel inherited exclusions (sort_by entry_name cs))"

definition collect_inventory ::
  "file_system \<Rightarrow> peer \<Rightarrow> string list \<Rightarrow> analysis_error + source_inventory" where
  "collect_inventory fs p exclusions =
     (case fs_root fs (peer_root p) of
        RootMissing \<Rightarrow> Err (RootUnavailable (peer_label p) (peer_root p))
      | RootNoDirectory \<Rightarrow> Err (RootNotDirectory (peer_label p) (peer_root p))
      | RootDirectory children \<Rightarrow>
          result_bind (walk_directory (peer_label p) (peer_root p) [] False exclusions children)
            (\<lambda>items. Ok (inventory_from_items (peer_label p) (peer_root p) items)))"

subsection \<open>A successful walk as a relation\<close>

fun leaf_parts :: "fs_entry \<Rightarrow> (item_type \<times> item_metadata \<times> sha256 option) option" where
  "leaf_parts (EntryFile _ m hash) = Some (RegularFile, metadata_snapshot m None, hash)"
| "leaf_parts (EntryLink _ m target) =
     map_option (\<lambda>t. (Symlink, metadata_snapshot m (Some t), None)) target"
| "leaf_parts (EntryOther _ m) = Some (UnsupportedType, metadata_snapshot m None, None)"
| "leaf_parts _ = None"

inductive walked :: "string list \<Rightarrow> bool \<Rightarrow> path \<Rightarrow> fs_entry list \<Rightarrow> inventory_item list \<Rightarrow> bool"
  for exclusions :: "string list" where
  walked_done: "walked exclusions inherited rel [] []"
| walked_artifact:
    "is_syncplus_internal_artifact (entry_name e) \<Longrightarrow> walked exclusions inherited rel es items \<Longrightarrow>
     walked exclusions inherited rel (e # es) items"
| walked_leaf:
    "\<not> is_syncplus_internal_artifact (entry_name e) \<Longrightarrow> leaf_parts e = Some (ty, md, hash) \<Longrightarrow>
     path = rel @ [Normal (entry_name e)] \<Longrightarrow> walked exclusions inherited rel es rest \<Longrightarrow>
     walked exclusions inherited rel (e # es)
       (walk_item (is_excluded inherited exclusions path ty) path ty md hash # rest)"
| walked_directory:
    "\<not> is_syncplus_internal_artifact n \<Longrightarrow> path = rel @ [Normal n] \<Longrightarrow>
     excluded = is_excluded inherited exclusions path Directory \<Longrightarrow>
     walked exclusions excluded path (sort_by entry_name cs) below \<Longrightarrow>
     walked exclusions inherited rel es rest \<Longrightarrow>
     walked exclusions inherited rel (EntryDir n m (Some cs) # es)
       (walk_item excluded path Directory (metadata_snapshot m None) None # below @ rest)"

lemma walk_directory_entry:
  assumes "\<not> is_syncplus_internal_artifact n"
    and "walk_entries peer_name dir rel inherited exclusions (EntryDir n m (Some children) # es) = Ok items"
  obtains below r where
    "walk_entries peer_name (join dir (Name n)) (rel @ [Normal n])
       (is_excluded inherited exclusions (rel @ [Normal n]) Directory) exclusions
       (sort_by entry_name children) = Ok below"
    "walk_entries peer_name dir rel inherited exclusions es = Ok r"
    "items = walk_item (is_excluded inherited exclusions (rel @ [Normal n]) Directory)
       (rel @ [Normal n]) Directory (metadata_snapshot m None) None # below @ r"
proof -
  let ?down = "walk_entries peer_name (join dir (Name n)) (rel @ [Normal n])
       (is_excluded inherited exclusions (rel @ [Normal n]) Directory) exclusions
       (sort_by entry_name children)"
  let ?next = "walk_entries peer_name dir rel inherited exclusions es"
  let ?item = "walk_item (is_excluded inherited exclusions (rel @ [Normal n]) Directory)
       (rel @ [Normal n]) Directory (metadata_snapshot m None) None"
  have "result_bind (result_bind ?down (\<lambda>below. Ok (?item # below)))
      (\<lambda>here. result_bind ?next (\<lambda>rest. Ok (here @ rest))) = Ok items"
    using assms by (simp add: Let_def del: result_bind_Inr)
  then show thesis
    by (cases ?down; cases ?next) (auto intro: that)
qed

lemma walk_entries_walked:
  "walk_entries peer_name dir rel inherited exclusions es = Ok items \<Longrightarrow>
     walked exclusions inherited rel es items"
proof (induction peer_name dir rel inherited exclusions es arbitrary: items rule: walk_entries.induct)
  case (1 peer_name dir rel inherited exclusions)
  then show ?case by (simp add: walked_done)
next
  case (2 peer_name dir rel inherited exclusions e es)
  show ?case
  proof (cases "is_syncplus_internal_artifact (entry_name e)")
    case True
    with 2 show ?thesis by (auto intro: walked_artifact)
  next
    case False
    note rest = "2.IH"(3)[OF False refl]
    show ?thesis
    proof (cases "\<exists>n m cs. e = EntryDir n m cs")
      case True
      then obtain n m cs where e: "e = EntryDir n m cs" by blast
      with "2.prems" False obtain children where cs: "cs = Some children"
        by (cases cs) (auto simp: Let_def)
      obtain below r where d:
        "walk_entries peer_name (join dir (Name n)) (rel @ [Normal n])
           (is_excluded inherited exclusions (rel @ [Normal n]) Directory) exclusions
           (sort_by entry_name children) = Ok below"
        "walk_entries peer_name dir rel inherited exclusions es = Ok r"
        "items = walk_item (is_excluded inherited exclusions (rel @ [Normal n]) Directory)
           (rel @ [Normal n]) Directory (metadata_snapshot m None) None # below @ r"
        using walk_directory_entry[of n peer_name dir rel inherited exclusions m children es items]
          "2.prems" False e cs by auto
      have "walked exclusions (is_excluded inherited exclusions (rel @ [Normal n]) Directory)
          (rel @ [Normal n]) (sort_by entry_name children) below"
        using "2.IH"(2)[OF False refl e refl cs] d(1) e by simp
      with walked_directory[OF _ refl refl this rest[OF d(2)]] False d e cs show ?thesis by simp
    next
      case notdir: False
      with "2.prems" False obtain ty md hash r where l: "leaf_parts e = Some (ty, md, hash)"
        "walk_entries peer_name dir rel inherited exclusions es = Ok r"
        "items = walk_item (is_excluded inherited exclusions (rel @ [Normal (entry_name e)]) ty)
           (rel @ [Normal (entry_name e)]) ty md hash # r"
        by (cases e) (auto simp: Let_def split: option.splits)
      with walked_leaf[OF False l(1) refl rest] show ?thesis by simp
    qed
  qed
qed

lemma walk_item_simps [simp]:
  "it_path (walk_item x p ty md h) = p"
  "it_type (walk_item x p ty md h) = ty"
  "it_outcome (walk_item x p ty md h) = outcome_for x ty"
  by (simp_all add: walk_item_def)

lemma outcome_for_excluded [simp]: "outcome_for x ty = Excluded \<longleftrightarrow> x"
  by (simp add: outcome_for_def)

text \<open>Every path of a walk leads from the directory's path over names of its entries.\<close>

lemma walked_paths:
  "walked exclusions inherited rel es items \<Longrightarrow> i \<in> set items \<Longrightarrow>
     \<exists>n ns. it_path i = rel @ map Normal (n # ns) \<and> n \<in> entry_name ` set es \<and>
       (\<forall>m \<in> set (n # ns). \<not> is_syncplus_internal_artifact m)"
proof (induction arbitrary: i rule: walked.induct)
  case (walked_directory n path rel excluded inherited cs below es rest m)
  from walked_directory.prems consider "it_path i = path" | "i \<in> set below" | "i \<in> set rest"
    by auto
  then show ?case
  proof cases
    case 1
    with walked_directory.hyps show ?thesis by (intro exI[of _ n] exI[of _ "[]"]) simp
  next
    case 2
    from walked_directory.IH(1)[OF this] obtain k ks where
      "it_path i = path @ map Normal (k # ks)" "\<forall>m \<in> set (k # ks). \<not> is_syncplus_internal_artifact m"
      by blast
    with walked_directory.hyps show ?thesis by (intro exI[of _ n] exI[of _ "k # ks"]) simp
  next
    case 3
    from walked_directory.IH(2)[OF this] show ?thesis by auto
  qed
next
  case (walked_leaf e ty md hash path rel inherited es rest)
  from walked_leaf.prems consider "it_path i = path" | "i \<in> set rest"
    by auto
  then show ?case
  proof cases
    case 1
    with walked_leaf.hyps show ?thesis by (intro exI[of _ "entry_name e"] exI[of _ "[]"]) simp
  next
    case 2
    from walked_leaf.IH[OF this] show ?thesis by auto
  qed
next
  case (walked_artifact e inherited rel es items)
  from walked_artifact.IH[OF walked_artifact.prems] show ?case by auto
qed simp

lemma walked_top:
  "walked exclusions inherited rel es items \<Longrightarrow> i \<in> set items \<Longrightarrow>
     length rel < length (it_path i) \<and>
     (\<exists>n \<in> entry_name ` set es. it_path i ! length rel = Normal n)"
  by (drule (1) walked_paths) (auto simp: nth_append)

lemma prefix_same_top:
  "prefix p q \<Longrightarrow> k < length p \<Longrightarrow> p ! k = q ! k"
  by (auto simp: prefix_def nth_append)

text \<open>In a well-formed directory tree the entries of a directory have different names.\<close>

fun entry_ok :: "fs_entry \<Rightarrow> bool" where
  "entry_ok (EntryDir _ _ (Some cs)) = (distinct (map entry_name cs) \<and> list_all entry_ok cs)"
| "entry_ok _ = True"

definition forest_ok :: "fs_entry list \<Rightarrow> bool" where
  "forest_ok es = (distinct (map entry_name es) \<and> list_all entry_ok es)"

lemma forest_ok_simps [simp]:
  "forest_ok []"
  "forest_ok (e # es) \<longleftrightarrow> entry_name e \<notin> entry_name ` set es \<and> entry_ok e \<and> forest_ok es"
  "forest_ok (sort_by entry_name es) = forest_ok es"
  by (auto simp: forest_ok_def list_all_iff)

lemma entry_ok_dir [simp]: "entry_ok (EntryDir n m (Some cs)) = forest_ok cs"
  by (simp add: forest_ok_def)

declare entry_ok.simps(1) [simp del]

lemma walked_distinct:
  "walked exclusions inherited rel es items \<Longrightarrow> forest_ok es \<Longrightarrow> distinct (map it_path items)"
proof (induction rule: walked.induct)
  case (walked_leaf e ty md hash path rel inherited es rest)
  have r: "it_path i ! length rel \<noteq> Normal (entry_name e)" if "i \<in> set rest" for i
    using walked_top[OF walked_leaf.hyps(4) that] walked_leaf.prems by auto
  have "path \<notin> it_path ` set rest"
  proof
    assume "path \<in> it_path ` set rest"
    then obtain i where "i \<in> set rest" "it_path i = path" by auto
    with r[of i] walked_leaf.hyps(3) show False by simp
  qed
  with walked_leaf show ?case by simp
next
  case (walked_directory n path rel excluded inherited cs below es rest m)
  have b: "length path < length (it_path i)" "it_path i ! length rel = Normal n" if "i \<in> set below" for i
    using walked_paths[OF walked_directory.hyps(4) that] walked_directory.hyps(2)
    by (auto simp: nth_append)
  have r: "it_path i ! length rel \<noteq> Normal n" if "i \<in> set rest" for i
    using walked_top[OF walked_directory.hyps(5) that] walked_directory.prems by auto
  have "path \<notin> it_path ` set below" using b(1) by force
  moreover have "path \<notin> it_path ` set rest"
  proof
    assume "path \<in> it_path ` set rest"
    then obtain i where "i \<in> set rest" "it_path i = path" by auto
    with r[of i] walked_directory.hyps(2) show False by simp
  qed
  moreover have "it_path ` set below \<inter> it_path ` set rest = {}"
    using b(2) r by force
  ultimately show ?case using walked_directory.IH walked_directory.prems by simp
qed auto

definition pattern_hit :: "string list \<Rightarrow> inventory_item \<Rightarrow> bool" where
  "pattern_hit exclusions i = list_ex (matches_exclusion (it_path i) (it_type i)) exclusions"

lemma pattern_hit_walk_item [simp]:
  "pattern_hit exclusions (walk_item x p ty md h) = list_ex (matches_exclusion p ty) exclusions"
  by (simp add: pattern_hit_def)

lemma walked_excluded_iff:
  "walked exclusions inherited rel es items \<Longrightarrow> forest_ok es \<Longrightarrow> i \<in> set items \<Longrightarrow>
     it_outcome i = Excluded \<longleftrightarrow>
       inherited \<or> (\<exists>j \<in> set items. prefix (it_path j) (it_path i) \<and> pattern_hit exclusions j)"
proof (induction arbitrary: i rule: walked.induct)
  case (walked_leaf e ty md hash path rel inherited es rest)
  have top: "it_path j ! length rel \<noteq> Normal (entry_name e)" "length rel < length (it_path j)"
    if "j \<in> set rest" for j
    using walked_top[OF walked_leaf.hyps(4) that] walked_leaf.prems(1) by auto
  have path: "path ! length rel = Normal (entry_name e)" "length rel < length path"
    using walked_leaf.hyps(3) by simp_all
  have apart: "\<not> prefix (it_path j) path" "\<not> prefix path (it_path j)" if "j \<in> set rest" for j
    using top[OF that] path prefix_same_top by metis+
  show ?case
  proof (cases "i \<in> set rest")
    case True
    with walked_leaf.IH[OF _ True] walked_leaf.prems apart[OF True] show ?thesis by auto
  next
    case False
    with walked_leaf.prems apart show ?thesis by (auto simp: is_excluded_def)
  qed
next
  case (walked_directory n path rel excluded inherited cs below es rest m)
  have path: "path ! length rel = Normal n" "length rel < length path"
    using walked_directory.hyps(2) by simp_all
  have top: "it_path j ! length rel \<noteq> Normal n" "length rel < length (it_path j)"
    if "j \<in> set rest" for j
    using walked_top[OF walked_directory.hyps(5) that] walked_directory.prems(1) by auto
  have below: "it_path j ! length rel = Normal n" "length path < length (it_path j)" "prefix path (it_path j)"
    if "j \<in> set below" for j
    using walked_paths[OF walked_directory.hyps(4) that] path
    by (auto simp: nth_append walked_directory.hyps(2))
  have apart: "\<not> prefix (it_path j) path" "\<not> prefix path (it_path j)" if "j \<in> set rest" for j
    using top[OF that] path prefix_same_top by metis+
  have apart2: "\<not> prefix (it_path j) (it_path k)" "\<not> prefix (it_path k) (it_path j)"
    if "j \<in> set rest" "k \<in> set below" for j k
    using top[OF that(1)] below[OF that(2)] path(2) prefix_same_top by (metis order_less_trans)+
  have above: "\<not> prefix (it_path k) path" if "k \<in> set below" for k
    using below(2)[OF that] prefix_length_le by fastforce
  have excl: "excluded \<longleftrightarrow> inherited \<or> list_ex (matches_exclusion path Directory) exclusions"
    using walked_directory.hyps(3) by (simp add: is_excluded_def)
  from walked_directory.prems(2) consider "i = walk_item excluded path Directory (metadata_snapshot m None) None"
    | "i \<in> set below" | "i \<in> set rest" by auto
  then show ?case
  proof cases
    case 1
    with apart above excl show ?thesis by auto
  next
    case 2
    from walked_directory.IH(1)[OF _ 2] walked_directory.prems(1) have
      "it_outcome i = Excluded \<longleftrightarrow> excluded \<or> (\<exists>j \<in> set below. prefix (it_path j) (it_path i) \<and> pattern_hit exclusions j)"
      by simp
    with excl below(3)[OF 2] apart2[OF _ 2] show ?thesis by auto
  next
    case 3
    from walked_directory.IH(2)[OF _ 3] walked_directory.prems(1) have
      "it_outcome i = Excluded \<longleftrightarrow> inherited \<or> (\<exists>j \<in> set rest. prefix (it_path j) (it_path i) \<and> pattern_hit exclusions j)"
      by simp
    with apart(2)[OF 3] apart2(2)[OF 3] show ?thesis by auto
  qed
qed auto

lemma walked_parents:
  "walked exclusions inherited rel es items \<Longrightarrow> i \<in> set items \<Longrightarrow>
     it_path i = rel @ [Normal n] @ q \<Longrightarrow> q \<noteq> [] \<Longrightarrow>
     \<exists>d \<in> set items. it_path d = butlast (it_path i) \<and> it_type d = Directory"
proof (induction arbitrary: i n q rule: walked.induct)
  case (walked_directory k path rel excluded inherited cs below es rest m)
  from walked_directory.prems(1) consider "it_path i = path" | "i \<in> set below" | "i \<in> set rest"
    by auto
  then show ?case
  proof cases
    case 1
    with walked_directory show ?thesis by simp
  next
    case 2
    from walked_paths[OF walked_directory.hyps(4) 2] obtain a as where
      p: "it_path i = path @ map Normal (a # as)" by blast
    show ?thesis
    proof (cases as)
      case Nil
      with p show ?thesis by (simp add: butlast_append)
    next
      case (Cons b bs)
      with walked_directory.IH(1)[OF 2, of a "map Normal as"] p show ?thesis by auto
    qed
  next
    case 3
    from walked_directory.IH(2)[OF 3 walked_directory.prems(2,3)] show ?thesis by auto
  qed
next
  case (walked_leaf e ty md hash path rel inherited es rest)
  then show ?case by fastforce
qed auto

lemma walked_items:
  "walked exclusions inherited rel es items \<Longrightarrow> i \<in> set items \<Longrightarrow>
     (it_fingerprint i \<noteq> None \<longrightarrow> it_outcome i = Included \<and> it_type i = RegularFile) \<and>
     (it_outcome i \<noteq> Excluded \<longrightarrow> (it_outcome i = UnsupportedOutcome \<longleftrightarrow> it_type i = UnsupportedType))"
proof (induction arbitrary: i rule: walked.induct)
  case (walked_leaf e ty md hash path rel inherited es rest)
  then show ?case by (auto simp: walk_item_def outcome_for_def split: if_splits)
next
  case (walked_directory k path rel excluded inherited cs below es rest m)
  then show ?case by (auto simp: walk_item_def outcome_for_def split: if_splits)
qed auto

text \<open>What a collected inventory is made of.\<close>

lemma collect_inventory_walked:
  assumes "collect_inventory fs p exclusions = Ok iv"
  obtains cs items where "fs_root fs (peer_root p) = RootDirectory (Some cs)"
    "walked exclusions False [] (sort_by entry_name cs) items"
    "iv = inventory_from_items (peer_label p) (peer_root p) items"
  using assms
  by (auto simp: collect_inventory_def walk_directory_def split: root_answer.splits option.splits
      dest: walk_entries_walked)

definition root_ok :: "file_system \<Rightarrow> path \<Rightarrow> bool" where
  "root_ok fs p = (case fs_root fs p of RootDirectory (Some cs) \<Rightarrow> forest_ok cs | _ \<Rightarrow> True)"

lemma collect_inventory_wf:
  assumes "collect_inventory fs p exclusions = Ok iv" and "root_ok fs (peer_root p)"
  shows "inventory_wf iv"
proof -
  obtain cs items where c: "fs_root fs (peer_root p) = RootDirectory (Some cs)"
    "walked exclusions False [] (sort_by entry_name cs) items"
    "iv = inventory_from_items (peer_label p) (peer_root p) items"
    using collect_inventory_walked[OF assms(1)] .
  from walked_distinct[OF c(2)] assms(2) c(1) have "distinct (map it_path items)"
    by (simp add: root_ok_def)
  with c(3) show ?thesis by (simp add: inventory_from_items_wf)
qed

lemma inv_items_from_items [simp]: "set (inv_items (inventory_from_items n r items)) = set items"
  by (simp add: inventory_from_items_def Let_def)

text \<open>The locations of a tree that are not internal artifacts or below one.\<close>

fun entry_paths :: "path \<Rightarrow> fs_entry \<Rightarrow> path list" where
  "entry_paths rel (EntryDir n m (Some cs)) =
     (if is_syncplus_internal_artifact n then []
      else (rel @ [Normal n]) # concat (map (entry_paths (rel @ [Normal n])) cs))"
| "entry_paths rel e =
     (if is_syncplus_internal_artifact (entry_name e) then [] else [rel @ [Normal (entry_name e)]])"

lemma entry_paths_artifact: "is_syncplus_internal_artifact (entry_name e) \<Longrightarrow> entry_paths rel e = []"
  by (induction rel e rule: entry_paths.induct) auto

lemma entry_paths_leaf:
  "leaf_parts e = Some x \<Longrightarrow> \<not> is_syncplus_internal_artifact (entry_name e) \<Longrightarrow>
     entry_paths rel e = [rel @ [Normal (entry_name e)]]"
  by (cases e) auto

lemma walked_complete:
  "walked exclusions inherited rel es items \<Longrightarrow>
     it_path ` set items = (\<Union>e \<in> set es. set (entry_paths rel e))"
proof (induction rule: walked.induct)
  case (walked_artifact e inherited rel es items)
  then show ?case by (simp add: entry_paths_artifact)
next
  case (walked_leaf e ty md hash path rel inherited es rest)
  then show ?case by (simp add: entry_paths_leaf)
next
  case (walked_directory n path rel excluded inherited cs below es rest m)
  then show ?case by (auto simp: image_Un)
qed simp

subsection \<open>Properties\<close>

text \<open>C18: A collected inventory lists every location of the tree that is not an internal
  artifact or below one, and nothing else, once each and in path order, with each parent listed
  as a directory. An item is excluded exactly when it or a directory above it matches an
  exclusion, and only an included regular file carries a content fingerprint.\<close>

theorem collected_inventory_is_exact:
  assumes "collect_inventory fs p exclusions = Ok iv" and "root_ok fs (peer_root p)"
  shows "inventory_wf iv \<and> inv_root iv = peer_root p \<and>
    (\<exists>cs. fs_root fs (peer_root p) = RootDirectory (Some cs) \<and>
       it_path ` set (inv_items iv) = (\<Union>e \<in> set cs. set (entry_paths [] e))) \<and>
    (\<forall>i \<in> set (inv_items iv).
       (\<exists>names. names \<noteq> [] \<and> it_path i = map Normal names \<and>
          (\<forall>n \<in> set names. \<not> is_syncplus_internal_artifact n)) \<and>
       (1 < length (it_path i) \<longrightarrow>
          (\<exists>d \<in> set (inv_items iv). it_path d = butlast (it_path i) \<and> it_type d = Directory)) \<and>
       (it_outcome i = Excluded \<longleftrightarrow>
          (\<exists>j \<in> set (inv_items iv). prefix (it_path j) (it_path i) \<and> pattern_hit exclusions j)) \<and>
       (it_fingerprint i \<noteq> None \<longrightarrow> it_outcome i = Included \<and> it_type i = RegularFile))"
proof -
  obtain cs items where c: "fs_root fs (peer_root p) = RootDirectory (Some cs)"
    "walked exclusions False [] (sort_by entry_name cs) items"
    "iv = inventory_from_items (peer_label p) (peer_root p) items"
    using collect_inventory_walked[OF assms(1)] .
  have set: "set (inv_items iv) = set items" using c(3) by simp
  have ok: "forest_ok (sort_by entry_name cs)" using assms(2) c(1) by (simp add: root_ok_def)
  have parent: "\<exists>d \<in> set items. it_path d = butlast (it_path i) \<and> it_type d = Directory"
    if i: "i \<in> set items" and len: "1 < length (it_path i)" for i
  proof -
    from walked_paths[OF c(2) i] obtain n ns where "it_path i = [] @ [Normal n] @ map Normal ns" by auto
    with walked_parents[OF c(2) i this] len show ?thesis by auto
  qed
  have names: "\<exists>names. names \<noteq> [] \<and> it_path i = map Normal names \<and>
      (\<forall>n \<in> set names. \<not> is_syncplus_internal_artifact n)" if "i \<in> set items" for i
    using walked_paths[OF c(2) that] by (metis append_Nil list.distinct(1))
  have "it_path ` set items = (\<Union>e \<in> set cs. set (entry_paths [] e))"
    using walked_complete[OF c(2)] by simp
  with c(1) have "\<exists>cs. fs_root fs (peer_root p) = RootDirectory (Some cs) \<and>
      it_path ` set items = (\<Union>e \<in> set cs. set (entry_paths [] e))" by blast
  moreover have "inv_root iv = peer_root p"
    using c(3) by (simp add: inventory_from_items_def Let_def)
  ultimately show ?thesis
    unfolding set
    using collect_inventory_wf[OF assms] names parent walked_excluded_iff[OF c(2) ok] walked_items[OF c(2)]
    by blast
qed

definition example_meta :: fs_meta where
  "example_meta = \<lparr>fm_len = 3, fm_modified = Some 0, fm_readonly = False, fm_mode = 420\<rparr>"

definition example_tree :: "fs_entry list" where
  "example_tree = [EntryDir ''d'' example_meta (Some [EntryFile ''f'' example_meta (Some ''h'')])]"

definition example_fs :: file_system where
  "example_fs = \<lparr>fs_is_dir = (\<lambda>_. False), fs_root = (\<lambda>_. RootDirectory (Some example_tree))\<rparr>"

definition example_root_peer :: peer where
  "example_root_peer = peer_new ''a'' [RootDir]"

lemma example_lossy:
  "to_string_lossy ''d'' = ''d''" "to_string_lossy ''f'' = ''f''"
  by (simp_all add: to_string_lossy_utf8 is_utf8_ascii)

lemma example_not_artifact:
  "\<not> is_syncplus_internal_artifact ''d''" "\<not> is_syncplus_internal_artifact ''f''"
  by (simp_all add: is_syncplus_internal_artifact_def example_lossy)

lemma example_pattern: "matches_exclusion [Normal ''d''] Directory ''d/''"
proof -
  have 1: "trim_end_slashes ''d/'' = ''d''" by (simp add: trim_end_slashes_def SLASH_def)
  have 2: "lossy_chars ''d'' = [100]" by (simp add: lossy_chars_ascii)
  have 3: "wildcard_match [100] [100]"
    by (simp add: wildcard_match_glob STAR_def)
  have 4: "suffix ''/'' ''d/''" by (rule suffixI[of _ "''d''"]) simp
  have 5: "SLASH \<notin> set ''d''" by (simp add: SLASH_def)
  have 6: "str_wildcard_match ''d'' (component_lossy (Normal ''d''))"
    by (simp only: str_wildcard_match_def component_lossy_def component_str_def component.case
        example_lossy 2 3)
  show ?thesis
    unfolding matches_exclusion_def Let_def 1 using 4 5 6 by simp
qed

lemma example_walk:
  "walk_entries ''a'' [RootDir] [] False [''d/''] example_tree =
     Ok [walk_item True [Normal ''d''] Directory (metadata_snapshot example_meta None) None,
         walk_item True [Normal ''d'', Normal ''f''] RegularFile (metadata_snapshot example_meta None)
           (Some ''h'')]"
  by (simp add: example_tree_def example_not_artifact Let_def is_excluded_def example_pattern sort_by_def)

lemma example_collect:
  "\<exists>iv. collect_inventory example_fs example_root_peer [''d/''] = Ok iv \<and>
     map (\<lambda>i. (it_path i, it_outcome i)) (inv_items iv) =
       [([Normal ''d''], Excluded), ([Normal ''d'', Normal ''f''], Excluded)]"
proof -
  have 1: "sort_by entry_name example_tree = example_tree"
    by (simp add: sort_by_def example_tree_def)
  let ?items = "[walk_item True [Normal ''d''] Directory (metadata_snapshot example_meta None) None,
     walk_item True [Normal ''d'', Normal ''f''] RegularFile (metadata_snapshot example_meta None)
       (Some ''h'')]"
  have "[Normal ''d''] \<le> [Normal ''d'', Normal ''f'']"
    by (simp add: less_eq_component_def)
  then have 2: "sort_by it_path ?items = ?items"
    unfolding sort_by_def by (intro sort_key_id_if_sorted) simp
  have "collect_inventory example_fs example_root_peer [''d/''] =
      Ok (inventory_from_items ''a'' [RootDir] ?items)"
    by (simp add: collect_inventory_def example_fs_def walk_directory_def 1 example_walk
        example_root_peer_def peer_root_def peer_new_def)
  moreover have "inv_items (inventory_from_items ''a'' [RootDir] ?items) = ?items"
    by (simp only: inventory_from_items_def Let_def 2 source_inventory.select_convs)
  ultimately show ?thesis
    by (intro exI[of _ "inventory_from_items ''a'' [RootDir] ?items"]) (simp add: outcome_for_def)
qed

theorem collected_inventory_is_exact_witness:
  "\<exists>iv. collect_inventory example_fs example_root_peer [''d/''] = Ok iv \<and>
     inventory_wf iv \<and> map (\<lambda>i. (it_path i, it_outcome i)) (inv_items iv) =
       [([Normal ''d''], Excluded), ([Normal ''d'', Normal ''f''], Excluded)]"
proof -
  obtain iv where iv: "collect_inventory example_fs example_root_peer [''d/''] = Ok iv"
    "map (\<lambda>i. (it_path i, it_outcome i)) (inv_items iv) =
       [([Normal ''d''], Excluded), ([Normal ''d'', Normal ''f''], Excluded)]"
    using example_collect by (elim exE conjE)
  have ok: "root_ok example_fs (peer_root example_root_peer)"
    by (simp add: root_ok_def example_fs_def example_tree_def)
  have "inventory_wf iv" using collected_inventory_is_exact[OF iv(1) ok] by (rule conjunct1)
  with iv show ?thesis by (intro exI[of _ iv] conjI)
qed

end
