(* ===== verification/Plan.thy ===== *)
theory Plan
  imports Walk
begin

text \<open>
  Planning (\<open>build_plan\<close> and \<open>OneWayPlan\<close> of \<open>analysis.rs\<close>): the actions of a
  One-Way or Mirror plan, its approved scope and summary, and the validation every plan has
  to pass. Counts are natural numbers, byte totals 64-bit words that wrap.
\<close>

subsection \<open>Summaries\<close>

record plan_summary =
  considered_items :: nat
  included_items_count :: nat
  excluded_items_count :: nat
  copy_count :: nat
  overwrite_count :: nat
  destination_removal_count :: nat
  source_removal_count :: nat
  copy_bytes :: u64
  overwrite_bytes :: u64
  destination_removal_bytes :: u64
  source_removal_bytes :: u64

definition total_bytes :: "plan_summary \<Rightarrow> u64" where
  "total_bytes s = copy_bytes s + overwrite_bytes s"

definition total_action_count :: "plan_summary \<Rightarrow> nat" where
  "total_action_count s =
     copy_count s + overwrite_count s + destination_removal_count s + source_removal_count s"

definition size_or_default :: "u64 option \<Rightarrow> u64" where
  "size_or_default sz = (case sz of None \<Rightarrow> 0 | Some n \<Rightarrow> n)"

definition count_action :: "plan_summary \<Rightarrow> plan_action \<Rightarrow> plan_summary" where
  "count_action s a =
     (case pa_kind a of
        CopyToDestination \<Rightarrow>
          s\<lparr>copy_count := copy_count s + 1, copy_bytes := copy_bytes s + size_or_default (pa_size a)\<rparr>
      | OverwriteDestination \<Rightarrow>
          s\<lparr>overwrite_count := overwrite_count s + 1,
            overwrite_bytes := overwrite_bytes s + size_or_default (pa_size a)\<rparr>
      | RemoveDestination \<Rightarrow>
          s\<lparr>destination_removal_count := destination_removal_count s + 1,
            destination_removal_bytes := destination_removal_bytes s + size_or_default (pa_size a)\<rparr>
      | RemoveSourceAfterVerification \<Rightarrow>
          s\<lparr>source_removal_count := source_removal_count s + 1,
            source_removal_bytes := source_removal_bytes s + size_or_default (pa_size a)\<rparr>)"

definition empty_summary :: "nat \<Rightarrow> nat \<Rightarrow> nat \<Rightarrow> plan_summary" where
  "empty_summary considered incl excl =
     \<lparr>considered_items = considered, included_items_count = incl, excluded_items_count = excl,
      copy_count = 0, overwrite_count = 0, destination_removal_count = 0, source_removal_count = 0,
      copy_bytes = 0, overwrite_bytes = 0, destination_removal_bytes = 0, source_removal_bytes = 0\<rparr>"

definition summary_for :: "plan_action list \<Rightarrow> source_inventory \<Rightarrow> plan_summary" where
  "summary_for actions source =
     foldl count_action
       (empty_summary (length (inv_items source)) (included_count (inv_scope source))
          (excluded_count (inv_scope source))) actions"

definition outcome_paths :: "analysis_outcome \<Rightarrow> source_inventory \<Rightarrow> path list" where
  "outcome_paths o' iv = map it_path (filter (\<lambda>i. it_outcome i = o') (inv_items iv))"

definition mirror_approved_scope ::
  "source_inventory \<Rightarrow> source_inventory \<Rightarrow> approved_sync_scope" where
  "mirror_approved_scope a b =
     (let incl = btree_set (outcome_paths Included a @ outcome_paths Included b);
          excl = btree_set (outcome_paths Excluded a @ outcome_paths Excluded b) in
      \<lparr>included_paths = incl, excluded_paths = filter (\<lambda>p. p \<notin> set incl) excl\<rparr>)"

definition mirror_summary_for ::
  "plan_action list \<Rightarrow> source_inventory \<Rightarrow> source_inventory \<Rightarrow> plan_summary" where
  "mirror_summary_for actions a b =
     (let scope = mirror_approved_scope a b in
      foldl count_action
        (empty_summary
           (length (btree_set (map it_path (inv_items a) @ map it_path (inv_items b))))
           (included_count scope) (excluded_count scope)) actions)"

subsection \<open>Plans\<close>

record one_way_plan =
  plan_specification :: process_specification
  plan_source :: source_inventory
  plan_destination :: source_inventory
  plan_scope :: approved_sync_scope
  plan_actions :: "plan_action list"
  plan_summary_of :: plan_summary

definition action_for :: "one_way_plan \<Rightarrow> path \<Rightarrow> plan_action option" where
  "action_for p rel = List.find (\<lambda>a. pa_path a = rel) (plan_actions p)"

definition is_removal_kind :: "plan_action_kind \<Rightarrow> bool" where
  "is_removal_kind k = (k = RemoveDestination \<or> k = RemoveSourceAfterVerification)"

definition is_deletion_candidate :: "one_way_plan \<Rightarrow> path \<Rightarrow> bool" where
  "is_deletion_candidate p rel = is_some_and (\<lambda>a. is_removal_kind (pa_kind a)) (action_for p rel)"

definition validate_action :: "one_way_plan \<Rightarrow> plan_action \<Rightarrow> plan_error option" where
  "validate_action p a =
     (let iv = (if spec_mode (plan_specification p) = Mirror
                then (case pa_source_side a of PeerA \<Rightarrow> plan_source p | PeerB \<Rightarrow> plan_destination p)
                else plan_source p) in
      if is_some_and (\<lambda>i. \<not> is_eligible i) (inv_item iv (pa_path a))
      then Some (ActionOutsideApprovedScope (pa_path a))
      else if pa_kind a = RemoveDestination \<and>
              \<not> val_destination_cleanup (spec_options (plan_specification p))
      then Some (PlanActionNotAllowed (pa_kind a))
      else if pa_kind a = RemoveSourceAfterVerification \<and>
              \<not> val_safe_delete (spec_options (plan_specification p))
      then Some (PlanActionNotAllowed (pa_kind a))
      else None)"

fun first_error :: "('a \<Rightarrow> 'e option) \<Rightarrow> 'a list \<Rightarrow> 'e option" where
  "first_error f [] = None"
| "first_error f (x # xs) = (case f x of Some e \<Rightarrow> Some e | None \<Rightarrow> first_error f xs)"

definition validate_plan :: "one_way_plan \<Rightarrow> plan_error + unit" where
  "validate_plan p =
     (case first_error (validate_action p) (plan_actions p) of
        Some e \<Rightarrow> Err e
      | None \<Rightarrow>
          let expected =
            (if spec_mode (plan_specification p) = Mirror
             then mirror_summary_for (plan_actions p) (plan_source p) (plan_destination p)
             else summary_for (plan_actions p) (plan_source p)) in
          if expected \<noteq> plan_summary_of p then Err SummaryMismatch else Ok ())"

subsection \<open>Consequences and sizes\<close>

definition consequence_for :: "plan_action_kind \<Rightarrow> string" where
  "consequence_for k =
     (case k of
        CopyToDestination \<Rightarrow>
          ''Copy the selected source item to the destination; preserve the source.''
      | OverwriteDestination \<Rightarrow>
          ''Replace the destination version with the selected source version after verification.''
      | RemoveDestination \<Rightarrow>
          ''Remove the destination item because it is absent from the selected source scope.''
      | RemoveSourceAfterVerification \<Rightarrow>
          ''Remove the source item only after the destination result is independently verified.'')"

definition mirror_consequence_for :: "plan_action_kind \<Rightarrow> peer_side \<Rightarrow> string" where
  "mirror_consequence_for k side =
     (if k = CopyToDestination
      then (case side of
              PeerA \<Rightarrow> ''Copy the Peer A item to Peer B; preserve the item on Peer A.''
            | PeerB \<Rightarrow> ''Copy the Peer B item to Peer A; preserve the item on Peer B.'')
      else consequence_for k)"

definition data_size :: "inventory_item \<Rightarrow> u64 option" where
  "data_size i = (if it_type i = RegularFile then Some (md_size (it_metadata i)) else None)"

subsection \<open>Building a plan\<close>

text \<open>The actions so far and the next action identifier.\<close>

record plan_builder =
  built :: "plan_action list"
  next_action_id :: nat

definition empty_builder :: plan_builder where
  "empty_builder = \<lparr>built = [], next_action_id = 1\<rparr>"

definition push_action ::
  "path \<Rightarrow> plan_action_kind \<Rightarrow> string \<Rightarrow> peer_side \<Rightarrow> u64 option \<Rightarrow> plan_builder \<Rightarrow> plan_builder" where
  "push_action rel k consequence side sz b =
     \<lparr>built = built b @
        [\<lparr>pa_id = next_action_id b, pa_path = rel, pa_kind = k, pa_consequence = consequence,
          pa_source_side = side, pa_size = sz\<rparr>],
      next_action_id = next_action_id b + 1\<rparr>"

definition items_by_path :: "source_inventory \<Rightarrow> (path \<times> inventory_item) list" where
  "items_by_path iv = btree_map (map (\<lambda>i. (it_path i, i)) (inv_items iv))"

definition mirror_step ::
  "source_inventory \<Rightarrow> source_inventory \<Rightarrow> plan_builder \<Rightarrow> path \<Rightarrow> plan_builder" where
  "mirror_step a b builder rel =
     (case (btree_get (items_by_path a) rel, btree_get (items_by_path b) rel) of
        (Some i, None) \<Rightarrow>
          if is_eligible i
          then push_action rel CopyToDestination (mirror_consequence_for CopyToDestination PeerA)
                 PeerA (data_size i) builder
          else builder
      | (None, Some i) \<Rightarrow>
          if is_eligible i
          then push_action rel CopyToDestination (mirror_consequence_for CopyToDestination PeerB)
                 PeerB (data_size i) builder
          else builder
      | _ \<Rightarrow> builder)"

definition mirror_actions :: "source_inventory \<Rightarrow> source_inventory \<Rightarrow> plan_builder" where
  "mirror_actions a b =
     foldl (mirror_step a b) empty_builder
       (btree_set (map fst (items_by_path a) @ map fst (items_by_path b)))"

definition same_item_state ::
  "inventory_item \<Rightarrow> inventory_item \<Rightarrow> metadata_requirements \<Rightarrow> bool" where
  "same_item_state s d req = mirror_equal_inventory req s d"

definition transfer_kind ::
  "metadata_requirements \<Rightarrow> inventory_item \<Rightarrow> inventory_item option \<Rightarrow> plan_action_kind option" where
  "transfer_kind req s d =
     (case d of
        None \<Rightarrow> Some CopyToDestination
      | Some i \<Rightarrow>
          if \<not> is_eligible i then None
          else if \<not> same_item_state s i req then Some OverwriteDestination
          else None)"

definition one_way_step ::
  "process_specification \<Rightarrow> source_inventory \<Rightarrow> plan_builder \<Rightarrow> inventory_item \<Rightarrow> plan_builder" where
  "one_way_step spec destination builder s =
     (let side = side_of_source (spec_source spec);
          d = btree_get (items_by_path destination) (it_path s);
          moved =
            (case transfer_kind (val_metadata (spec_options spec)) s d of
               Some k \<Rightarrow> push_action (it_path s) k (consequence_for k) side (data_size s) builder
             | None \<Rightarrow> builder) in
      if val_safe_delete (spec_options spec) \<and> is_none_or is_eligible d \<and>
         (it_type s = RegularFile \<or> it_type s = Symlink)
      then push_action (it_path s) RemoveSourceAfterVerification
             (consequence_for RemoveSourceAfterVerification) side (data_size s) moved
      else moved)"

definition cleanup_step ::
  "process_specification \<Rightarrow> source_inventory \<Rightarrow> plan_builder \<Rightarrow> inventory_item \<Rightarrow> plan_builder" where
  "cleanup_step spec source builder d =
     (if btree_get (items_by_path source) (it_path d) = None
      then push_action (it_path d) RemoveDestination (consequence_for RemoveDestination)
             (side_of_source (spec_source spec)) (data_size d) builder
      else builder)"

definition one_way_actions ::
  "process_specification \<Rightarrow> source_inventory \<Rightarrow> source_inventory \<Rightarrow> plan_builder" where
  "one_way_actions spec source destination =
     (let transfers = foldl (one_way_step spec destination) empty_builder (included_items source) in
      if val_destination_cleanup (spec_options spec)
      then foldl (cleanup_step spec source) transfers (included_items destination)
      else transfers)"

definition build_plan ::
  "process_specification \<Rightarrow> source_inventory \<Rightarrow> source_inventory \<Rightarrow> analysis_error + one_way_plan" where
  "build_plan spec source destination =
     (let plan =
        (if spec_mode spec = Mirror
         then let actions = built (mirror_actions source destination) in
           \<lparr>plan_specification = spec, plan_source = source, plan_destination = destination,
            plan_scope = mirror_approved_scope source destination, plan_actions = actions,
            plan_summary_of = mirror_summary_for actions source destination\<rparr>
         else let actions = built (one_way_actions spec source destination) in
           \<lparr>plan_specification = spec, plan_source = source, plan_destination = destination,
            plan_scope = inv_scope source, plan_actions = actions,
            plan_summary_of = summary_for actions source\<rparr>) in
      case validate_plan plan of
        Inl e \<Rightarrow> Err (PlanFailure e)
      | Inr _ \<Rightarrow> Ok plan)"

subsection \<open>Lookups in well-formed inventories\<close>

lemma items_by_path_get:
  "distinct (map it_path (inv_items iv)) \<Longrightarrow> btree_get (items_by_path iv) rel = inv_item iv rel"
  by (simp add: items_by_path_def btree_get_btree_map map_of_distinct_rev comp_def
      inv_item_def find_map_of)

lemma items_by_path_wf [simp]:
  "inventory_wf iv \<Longrightarrow> btree_get (items_by_path iv) = inv_item iv"
  by (rule ext) (simp add: items_by_path_get inventory_wf_distinct)

lemma keys_items_by_path [simp]: "set (map fst (items_by_path iv)) = it_path ` set (inv_items iv)"
  by (simp only: items_by_path_def keys_btree_map set_btree_set) auto

lemma inv_item_wf_iff:
  "inventory_wf iv \<Longrightarrow> inv_item iv q = Some i \<longleftrightarrow> i \<in> set (inv_items iv) \<and> it_path i = q"
  by (simp add: inv.lookup_eq_iff inventory_wf_distinct)

lemma inv_item_path: "inv_item iv q = Some i \<Longrightarrow> it_path i = q"
  by (auto dest: inv.lookup_Some)

lemma inv_item_in: "inventory_wf iv \<Longrightarrow> i \<in> set (inv_items iv) \<Longrightarrow> inv_item iv (it_path i) = Some i"
  by (simp add: inv_item_wf_iff)

subsection \<open>What a step adds\<close>

text \<open>An action without its identifier.\<close>

definition strip :: "plan_action \<Rightarrow> plan_action" where
  "strip a = a\<lparr>pa_id := 0\<rparr>"

definition draft ::
  "path \<Rightarrow> plan_action_kind \<Rightarrow> string \<Rightarrow> peer_side \<Rightarrow> u64 option \<Rightarrow> plan_action" where
  "draft rel k consequence side sz =
     \<lparr>pa_id = 0, pa_path = rel, pa_kind = k, pa_consequence = consequence, pa_source_side = side,
      pa_size = sz\<rparr>"

lemma draft_simps [simp]:
  "pa_path (draft q k c s z) = q" "pa_kind (draft q k c s z) = k"
  "pa_source_side (draft q k c s z) = s" "pa_size (draft q k c s z) = z"
  "pa_consequence (draft q k c s z) = c"
  by (simp_all add: draft_def)

lemma strip_simps [simp]:
  "pa_path (strip a) = pa_path a" "pa_kind (strip a) = pa_kind a"
  "pa_source_side (strip a) = pa_source_side a" "pa_size (strip a) = pa_size a"
  "pa_consequence (strip a) = pa_consequence a"
  by (simp_all add: strip_def)

definition numbered :: "plan_builder \<Rightarrow> bool" where
  "numbered b = (map pa_id (built b) = [1..<next_action_id b] \<and> next_action_id b = length (built b) + 1)"

text \<open>A step that appends the drafts \<open>ds x\<close>, numbered on from the last identifier.\<close>

definition appends ::
  "(plan_builder \<Rightarrow> 'x \<Rightarrow> plan_builder) \<Rightarrow> ('x \<Rightarrow> plan_action list) \<Rightarrow> bool" where
  "appends step ds =
     (\<forall>b x. map strip (built (step b x)) = map strip (built b) @ ds x \<and>
        (numbered b \<longrightarrow> numbered (step b x)))"

lemma foldl_appends:
  assumes "appends step ds"
  shows "map strip (built (foldl step b xs)) = map strip (built b) @ concat (map ds xs) \<and>
    (numbered b \<longrightarrow> numbered (foldl step b xs))"
  using assms by (induction xs arbitrary: b) (auto simp: appends_def)

lemma push_draft:
  "map strip (built (push_action q k c s z b)) = map strip (built b) @ [draft q k c s z]"
  by (simp add: push_action_def strip_def draft_def)

lemma push_numbered: "numbered b \<Longrightarrow> numbered (push_action q k c s z b)"
  by (auto simp: numbered_def push_action_def)

lemma empty_builder_simps [simp]: "numbered empty_builder" "built empty_builder = []"
  by (simp_all add: numbered_def empty_builder_def)

definition mirror_drafts :: "source_inventory \<Rightarrow> source_inventory \<Rightarrow> path \<Rightarrow> plan_action list" where
  "mirror_drafts a b rel =
     (case (btree_get (items_by_path a) rel, btree_get (items_by_path b) rel) of
        (Some i, None) \<Rightarrow>
          if is_eligible i
          then [draft rel CopyToDestination (mirror_consequence_for CopyToDestination PeerA) PeerA (data_size i)]
          else []
      | (None, Some i) \<Rightarrow>
          if is_eligible i
          then [draft rel CopyToDestination (mirror_consequence_for CopyToDestination PeerB) PeerB (data_size i)]
          else []
      | _ \<Rightarrow> [])"

lemma mirror_step_appends: "appends (mirror_step a b) (mirror_drafts a b)"
  by (auto simp: appends_def mirror_step_def mirror_drafts_def push_draft push_numbered
      split: option.splits)

definition one_way_drafts ::
  "process_specification \<Rightarrow> source_inventory \<Rightarrow> inventory_item \<Rightarrow> plan_action list" where
  "one_way_drafts spec destination s =
     (let side = side_of_source (spec_source spec);
          d = btree_get (items_by_path destination) (it_path s) in
      (case transfer_kind (val_metadata (spec_options spec)) s d of
         Some k \<Rightarrow> [draft (it_path s) k (consequence_for k) side (data_size s)]
       | None \<Rightarrow> []) @
      (if val_safe_delete (spec_options spec) \<and> is_none_or is_eligible d \<and>
          (it_type s = RegularFile \<or> it_type s = Symlink)
       then [draft (it_path s) RemoveSourceAfterVerification
               (consequence_for RemoveSourceAfterVerification) side (data_size s)]
       else []))"

lemma one_way_step_appends: "appends (one_way_step spec destination) (one_way_drafts spec destination)"
  by (auto simp: appends_def one_way_step_def one_way_drafts_def Let_def push_draft push_numbered
      split: option.splits)

definition cleanup_drafts ::
  "process_specification \<Rightarrow> source_inventory \<Rightarrow> inventory_item \<Rightarrow> plan_action list" where
  "cleanup_drafts spec source d =
     (if btree_get (items_by_path source) (it_path d) = None
      then [draft (it_path d) RemoveDestination (consequence_for RemoveDestination)
              (side_of_source (spec_source spec)) (data_size d)]
      else [])"

lemma cleanup_step_appends: "appends (cleanup_step spec source) (cleanup_drafts spec source)"
  by (auto simp: appends_def cleanup_step_def cleanup_drafts_def push_draft push_numbered)

lemma mirror_actions_drafts:
  "map strip (built (mirror_actions a b)) =
     concat (map (mirror_drafts a b) (btree_set (map fst (items_by_path a) @ map fst (items_by_path b)))) \<and>
   numbered (mirror_actions a b)"
  using foldl_appends[OF mirror_step_appends, of a b empty_builder] by (simp add: mirror_actions_def)

lemma one_way_actions_drafts:
  "map strip (built (one_way_actions spec s d)) =
     concat (map (one_way_drafts spec d) (included_items s)) @
     (if val_destination_cleanup (spec_options spec)
      then concat (map (cleanup_drafts spec s) (included_items d)) else []) \<and>
   numbered (one_way_actions spec s d)"
  using foldl_appends[OF one_way_step_appends, of spec d empty_builder "included_items s"]
    foldl_appends[OF cleanup_step_appends, of spec s
      "foldl (one_way_step spec d) empty_builder (included_items s)" "included_items d"]
  by (simp add: one_way_actions_def Let_def)

lemma ex_strip:
  assumes "\<And>a. P a = P (strip a)"
  shows "(\<exists>a \<in> set as. P a) \<longleftrightarrow> (\<exists>x \<in> set (map strip as). P x)"
  using assms by auto

lemma strip_idem [simp]: "strip (strip a) = strip a"
  by (simp add: strip_def)

lemma transfer_kind_Some:
  "transfer_kind req s d = Some k \<longleftrightarrow>
     d = None \<and> k = CopyToDestination \<or>
     (\<exists>i. d = Some i \<and> is_eligible i \<and> \<not> mirror_equal_inventory req s i \<and> k = OverwriteDestination)"
  by (auto simp: transfer_kind_def same_item_state_def split: option.splits)

text \<open>The actions of a One-Way plan: what is planned for a location.\<close>

definition planned ::
  "process_specification \<Rightarrow> source_inventory \<Rightarrow> source_inventory \<Rightarrow> path \<Rightarrow> plan_action_kind \<Rightarrow> bool" where
  "planned spec s d q k =
     (case k of
        CopyToDestination \<Rightarrow>
          is_some_and is_eligible (inv_item s q) \<and> inv_item d q = None
      | OverwriteDestination \<Rightarrow>
          is_some_and (\<lambda>i. is_eligible i \<and>
            is_some_and (\<lambda>j. is_eligible j \<and>
              \<not> mirror_equal_inventory (val_metadata (spec_options spec)) i j) (inv_item d q)) (inv_item s q)
      | RemoveSourceAfterVerification \<Rightarrow>
          val_safe_delete (spec_options spec) \<and>
          is_some_and (\<lambda>i. is_eligible i \<and> it_type i \<in> {RegularFile, Symlink}) (inv_item s q) \<and>
          is_none_or is_eligible (inv_item d q)
      | RemoveDestination \<Rightarrow>
          val_destination_cleanup (spec_options spec) \<and> inv_item s q = None \<and>
          is_some_and is_eligible (inv_item d q))"

lemma one_way_draft_iff:
  assumes "inventory_wf d"
  shows "x \<in> set (one_way_drafts spec d s) \<longleftrightarrow>
    (\<exists>k. x = draft (it_path s) k (consequence_for k) (side_of_source (spec_source spec)) (data_size s) \<and>
       (transfer_kind (val_metadata (spec_options spec)) s (inv_item d (it_path s)) = Some k \<or>
        k = RemoveSourceAfterVerification \<and> val_safe_delete (spec_options spec) \<and>
        is_none_or is_eligible (inv_item d (it_path s)) \<and> it_type s \<in> {RegularFile, Symlink}))"
  using assms by (auto simp: one_way_drafts_def Let_def split: option.splits)

lemma one_way_draft_for:
  assumes "inventory_wf d"
  shows "(\<exists>x \<in> set (one_way_drafts spec d s). pa_path x = q \<and> pa_kind x = k) \<longleftrightarrow>
    it_path s = q \<and>
       (transfer_kind (val_metadata (spec_options spec)) s (inv_item d q) = Some k \<or>
        k = RemoveSourceAfterVerification \<and> val_safe_delete (spec_options spec) \<and>
        is_none_or is_eligible (inv_item d q) \<and> it_type s \<in> {RegularFile, Symlink})" (is "?l \<longleftrightarrow> ?r")
proof
  assume ?l
  then obtain x where x: "x \<in> set (one_way_drafts spec d s)" "pa_path x = q" "pa_kind x = k" by blast
  from x(1)[unfolded one_way_draft_iff[OF assms]] x(2,3) show ?r by auto
next
  assume ?r
  then have "draft q k (consequence_for k) (side_of_source (spec_source spec)) (data_size s)
      \<in> set (one_way_drafts spec d s)"
    unfolding one_way_draft_iff[OF assms] by blast
  then show ?l by (rule bexI[rotated]) simp
qed

lemma one_way_action_iff:
  assumes wf: "inventory_wf s" "inventory_wf d"
  shows "(\<exists>a \<in> set (built (one_way_actions spec s d)). pa_path a = q \<and> pa_kind a = k) \<longleftrightarrow>
    planned spec s d q k"
proof -
  have "(\<exists>a \<in> set (built (one_way_actions spec s d)). pa_path a = q \<and> pa_kind a = k) \<longleftrightarrow>
      (\<exists>x \<in> set (map strip (built (one_way_actions spec s d))). pa_path x = q \<and> pa_kind x = k)"
    by auto
  also have "\<dots> \<longleftrightarrow>
      (\<exists>i. inv_item s q = Some i \<and> is_eligible i \<and>
         (transfer_kind (val_metadata (spec_options spec)) i (inv_item d q) = Some k \<or>
          k = RemoveSourceAfterVerification \<and> val_safe_delete (spec_options spec) \<and>
          is_none_or is_eligible (inv_item d q) \<and> it_type i \<in> {RegularFile, Symlink})) \<or>
      (val_destination_cleanup (spec_options spec) \<and> k = RemoveDestination \<and>
       inv_item s q = None \<and> is_some_and is_eligible (inv_item d q))" (is "?l \<longleftrightarrow> ?r1 \<or> ?r2")
  proof -
    have 1: "(\<exists>x \<in> set (concat (map (one_way_drafts spec d) (included_items s))).
        pa_path x = q \<and> pa_kind x = k) \<longleftrightarrow> ?r1"
    proof -
      have "(\<exists>x \<in> set (concat (map (one_way_drafts spec d) (included_items s))).
          pa_path x = q \<and> pa_kind x = k) \<longleftrightarrow>
        (\<exists>i \<in> set (included_items s).
           \<exists>x \<in> set (one_way_drafts spec d i). pa_path x = q \<and> pa_kind x = k)" by auto
      then show ?thesis
        unfolding one_way_draft_for[OF wf(2)] included_items_iff inv_item_wf_iff[OF wf(1)]
        by (auto simp: included_items_iff)
    qed
    have 2: "(\<exists>x \<in> set (concat (map (cleanup_drafts spec s) (included_items d))).
        pa_path x = q \<and> pa_kind x = k) \<longleftrightarrow>
        k = RemoveDestination \<and> inv_item s q = None \<and> is_some_and is_eligible (inv_item d q)"
      using wf by (auto simp: cleanup_drafts_def included_items_iff is_some_and_iff inv_item_wf_iff
          split: if_splits)
    show ?thesis using 1 2 by (auto simp: one_way_actions_drafts)
  qed
  also have "\<dots> \<longleftrightarrow> planned spec s d q k"
    by (cases k; cases "inv_item s q"; cases "inv_item d q")
      (auto simp: planned_def transfer_kind_Some)
  finally show ?thesis .
qed

lemma in_built_strip: "a \<in> set (built b) \<Longrightarrow> strip a \<in> set (map strip (built b))"
  by simp

lemma one_way_action_fields:
  assumes wf: "inventory_wf s" "inventory_wf d"
    and a: "a \<in> set (built (one_way_actions spec s d))"
  shows "pa_source_side a = side_of_source (spec_source spec) \<and>
    pa_consequence a = consequence_for (pa_kind a) \<and>
    (\<exists>i. inv_item (if pa_kind a = RemoveDestination then d else s) (pa_path a) = Some i \<and>
       is_eligible i \<and> pa_size a = data_size i)"
proof -
  from in_built_strip[OF a] consider
      (move) i where "i \<in> set (included_items s)" "strip a \<in> set (one_way_drafts spec d i)"
    | (cleanup) i where "i \<in> set (included_items d)" "strip a \<in> set (cleanup_drafts spec s i)"
    by (auto simp only: one_way_actions_drafts set_append set_concat set_map Un_iff UN_iff split: if_splits)
      auto
  then show ?thesis
  proof cases
    case move
    then obtain k where k: "strip a = draft (it_path i) k (consequence_for k) (side_of_source (spec_source spec)) (data_size i)"
      "transfer_kind (val_metadata (spec_options spec)) i (inv_item d (it_path i)) = Some k \<or>
        k = RemoveSourceAfterVerification"
      unfolding one_way_draft_iff[OF wf(2)] by blast
    then have "pa_path a = it_path i" "pa_kind a = k" "pa_size a = data_size i"
      "pa_source_side a = side_of_source (spec_source spec)" "pa_consequence a = consequence_for k"
      by (metis draft_simps strip_simps)+
    moreover from k(2) have "k \<noteq> RemoveDestination" by (auto simp: transfer_kind_Some)
    moreover have "inv_item s (it_path i) = Some i" "is_eligible i"
      using move(1) wf(1) by (auto simp: included_items_iff inv_item_in)
    ultimately show ?thesis by auto
  next
    case cleanup
    then have "strip a = draft (it_path i) RemoveDestination (consequence_for RemoveDestination)
        (side_of_source (spec_source spec)) (data_size i)"
      by (auto simp: cleanup_drafts_def split: if_splits)
    then have "pa_path a = it_path i" "pa_kind a = RemoveDestination" "pa_size a = data_size i"
      "pa_source_side a = side_of_source (spec_source spec)"
      "pa_consequence a = consequence_for RemoveDestination"
      by (metis draft_simps strip_simps)+
    moreover have "inv_item d (it_path i) = Some i" "is_eligible i"
      using cleanup(1) wf(2) by (auto simp: included_items_iff inv_item_in)
    ultimately show ?thesis by auto
  qed
qed

lemma first_error_None: "first_error f xs = None \<longleftrightarrow> (\<forall>x \<in> set xs. f x = None)"
  by (induction xs) (auto split: option.splits)

lemma validate_plan_Ok:
  "validate_plan p = Ok u \<longleftrightarrow>
     (\<forall>a \<in> set (plan_actions p). validate_action p a = None) \<and>
     plan_summary_of p =
       (if spec_mode (plan_specification p) = Mirror
        then mirror_summary_for (plan_actions p) (plan_source p) (plan_destination p)
        else summary_for (plan_actions p) (plan_source p))"
  unfolding first_error_None[symmetric]
  by (cases "first_error (validate_action p) (plan_actions p)") (auto simp: validate_plan_def Let_def)

lemma one_way_kind_planned:
  assumes wf: "inventory_wf s" "inventory_wf d" and a: "a \<in> set (built (one_way_actions spec s d))"
  shows "planned spec s d (pa_path a) (pa_kind a)"
  using one_way_action_iff[OF wf, of spec "pa_path a" "pa_kind a"] a by blast

lemma one_way_actions_valid:
  assumes wf: "inventory_wf s" "inventory_wf d" and mode: "spec_mode (plan_specification p) = OneWay"
    and p: "plan_specification p = spec" "plan_source p = s"
    and a: "a \<in> set (built (one_way_actions spec s d))"
  shows "validate_action p a = None"
  using one_way_kind_planned[OF wf a] mode
  by (cases "pa_kind a") (auto simp: validate_action_def p planned_def is_some_and_iff)

lemma mirror_draft_iff:
  assumes wf: "inventory_wf a" "inventory_wf b"
  shows "x \<in> set (concat (map (mirror_drafts a b)
      (btree_set (map fst (items_by_path a) @ map fst (items_by_path b))))) \<longleftrightarrow>
    (\<exists>i. inv_item a (it_path i) = Some i \<and> is_eligible i \<and> inv_item b (it_path i) = None \<and>
       x = draft (it_path i) CopyToDestination (mirror_consequence_for CopyToDestination PeerA) PeerA (data_size i)) \<or>
    (\<exists>i. inv_item b (it_path i) = Some i \<and> is_eligible i \<and> inv_item a (it_path i) = None \<and>
       x = draft (it_path i) CopyToDestination (mirror_consequence_for CopyToDestination PeerB) PeerB (data_size i))"
    (is "?l \<longleftrightarrow> ?r")
proof -
  have keys: "set (btree_set (map fst (items_by_path a) @ map fst (items_by_path b))) =
      it_path ` set (inv_items a) \<union> it_path ` set (inv_items b)"
    using keys_items_by_path[of a] keys_items_by_path[of b] by (simp only: set_btree_set set_append)
  have "?l \<longleftrightarrow> (\<exists>q \<in> it_path ` set (inv_items a) \<union> it_path ` set (inv_items b). x \<in> set (mirror_drafts a b q))"
    by (simp only: set_concat set_map keys UN_iff) auto
  also have "\<dots> \<longleftrightarrow> ?r"
  proof
    assume "\<exists>q \<in> it_path ` set (inv_items a) \<union> it_path ` set (inv_items b). x \<in> set (mirror_drafts a b q)"
    then obtain q where q: "x \<in> set (mirror_drafts a b q)" by blast
    show ?r
    proof (cases "inv_item a q")
      case None
      with q wf obtain i where i: "inv_item b q = Some i"
        by (cases "inv_item b q") (simp_all add: mirror_drafts_def)
      with q wf None have "is_eligible i"
        "x = draft q CopyToDestination (mirror_consequence_for CopyToDestination PeerB) PeerB (data_size i)"
        by (auto simp: mirror_drafts_def split: if_splits)
      moreover from i have "it_path i = q" by (auto dest: inv_item_path)
      ultimately show ?r using None i by blast
    next
      case (Some i)
      with q wf have "inv_item b q = None" "is_eligible i"
        "x = draft q CopyToDestination (mirror_consequence_for CopyToDestination PeerA) PeerA (data_size i)"
        by (auto simp: mirror_drafts_def split: option.splits if_splits)
      moreover from Some have "it_path i = q" by (auto dest: inv_item_path)
      ultimately show ?r using Some by blast
    qed
  next
    assume ?r
    then show "\<exists>q \<in> it_path ` set (inv_items a) \<union> it_path ` set (inv_items b). x \<in> set (mirror_drafts a b q)"
    proof (elim disjE exE conjE)
      fix i assume i: "inv_item a (it_path i) = Some i" "is_eligible i" "inv_item b (it_path i) = None"
        "x = draft (it_path i) CopyToDestination (mirror_consequence_for CopyToDestination PeerA) PeerA (data_size i)"
      then have "i \<in> set (inv_items a)" by (auto dest: inv.lookup_Some)
      with i wf show ?thesis by (intro bexI[of _ "it_path i"]) (auto simp: mirror_drafts_def)
    next
      fix i assume i: "inv_item b (it_path i) = Some i" "is_eligible i" "inv_item a (it_path i) = None"
        "x = draft (it_path i) CopyToDestination (mirror_consequence_for CopyToDestination PeerB) PeerB (data_size i)"
      then have "i \<in> set (inv_items b)" by (auto dest: inv.lookup_Some)
      with i wf show ?thesis by (intro bexI[of _ "it_path i"]) (auto simp: mirror_drafts_def)
    qed
  qed
  finally show ?thesis .
qed

lemma mirror_action_fields:
  assumes wf: "inventory_wf a" "inventory_wf b" and x: "x \<in> set (built (mirror_actions a b))"
  shows "pa_kind x = CopyToDestination \<and>
    (\<exists>i. is_eligible i \<and> pa_size x = data_size i \<and>
       inv_item (case pa_source_side x of PeerA \<Rightarrow> a | PeerB \<Rightarrow> b) (pa_path x) = Some i \<and>
       inv_item (case pa_source_side x of PeerA \<Rightarrow> b | PeerB \<Rightarrow> a) (pa_path x) = None)"
proof -
  from in_built_strip[OF x] have "strip x \<in> set (concat (map (mirror_drafts a b)
      (btree_set (map fst (items_by_path a) @ map fst (items_by_path b)))))"
    by (simp only: mirror_actions_drafts)
  then consider (A) i where "inv_item a (it_path i) = Some i" "is_eligible i" "inv_item b (it_path i) = None"
      "strip x = draft (it_path i) CopyToDestination (mirror_consequence_for CopyToDestination PeerA) PeerA (data_size i)"
    | (B) i where "inv_item b (it_path i) = Some i" "is_eligible i" "inv_item a (it_path i) = None"
      "strip x = draft (it_path i) CopyToDestination (mirror_consequence_for CopyToDestination PeerB) PeerB (data_size i)"
    unfolding mirror_draft_iff[OF wf] by blast
  then show ?thesis
  proof cases
    case A
    then have "pa_path x = it_path i" "pa_kind x = CopyToDestination" "pa_size x = data_size i"
      "pa_source_side x = PeerA" by (metis draft_simps strip_simps)+
    with A show ?thesis by auto
  next
    case B
    then have "pa_path x = it_path i" "pa_kind x = CopyToDestination" "pa_size x = data_size i"
      "pa_source_side x = PeerB" by (metis draft_simps strip_simps)+
    with B show ?thesis by auto
  qed
qed

lemma mirror_action_iff:
  assumes wf: "inventory_wf a" "inventory_wf b"
  shows "(\<exists>x \<in> set (built (mirror_actions a b)). pa_path x = q \<and> pa_source_side x = side) \<longleftrightarrow>
    is_some_and is_eligible (inv_item (case side of PeerA \<Rightarrow> a | PeerB \<Rightarrow> b) q) \<and>
    inv_item (case side of PeerA \<Rightarrow> b | PeerB \<Rightarrow> a) q = None" (is "?l \<longleftrightarrow> ?r")
proof
  assume ?l
  then show ?r using mirror_action_fields[OF wf] by (fastforce simp: is_some_and_iff)
next
  assume ?r
  then obtain i where i: "inv_item (case side of PeerA \<Rightarrow> a | PeerB \<Rightarrow> b) q = Some i" "is_eligible i"
    "inv_item (case side of PeerA \<Rightarrow> b | PeerB \<Rightarrow> a) q = None" by (auto simp: is_some_and_iff)
  then have "it_path i = q" by (auto dest: inv_item_path)
  with i have "draft q CopyToDestination (mirror_consequence_for CopyToDestination side) side (data_size i)
      \<in> set (map strip (built (mirror_actions a b)))"
    unfolding conjunct1[OF mirror_actions_drafts] mirror_draft_iff[OF wf] by (cases side) auto
  then obtain x where "x \<in> set (built (mirror_actions a b))"
    "strip x = draft q CopyToDestination (mirror_consequence_for CopyToDestination side) side (data_size i)"
    by auto
  then show ?l by (metis draft_simps(1,3) strip_simps(1,3))
qed

lemma mirror_actions_valid:
  assumes wf: "inventory_wf a" "inventory_wf b" and mode: "spec_mode (plan_specification p) = Mirror"
    and p: "plan_source p = a" "plan_destination p = b"
    and x: "x \<in> set (built (mirror_actions a b))"
  shows "validate_action p x = None"
  using mirror_action_fields[OF wf x] mode
  by (cases "pa_source_side x") (auto simp: validate_action_def p)

definition planned_actions ::
  "process_specification \<Rightarrow> source_inventory \<Rightarrow> source_inventory \<Rightarrow> plan_action list" where
  "planned_actions spec s d =
     (if spec_mode spec = Mirror then built (mirror_actions s d) else built (one_way_actions spec s d))"

lemma build_plan_total:
  assumes wf: "inventory_wf s" "inventory_wf d"
  shows "\<exists>p. build_plan spec s d = Ok p \<and> validate_plan p = Ok () \<and> plan_specification p = spec \<and>
    plan_source p = s \<and> plan_destination p = d \<and> plan_actions p = planned_actions spec s d"
proof (cases "spec_mode spec")
  case OneWay
  let ?p = "\<lparr>plan_specification = spec, plan_source = s, plan_destination = d, plan_scope = inv_scope s,
    plan_actions = built (one_way_actions spec s d),
    plan_summary_of = summary_for (built (one_way_actions spec s d)) s\<rparr>"
  have v: "validate_plan ?p = Ok ()"
    using one_way_actions_valid[OF wf, of ?p spec] OneWay by (simp add: validate_plan_Ok)
  then have "build_plan spec s d = Ok ?p"
    using OneWay by (simp add: build_plan_def Let_def)
  with v OneWay show ?thesis by (simp add: planned_actions_def)
next
  case Mirror
  let ?p = "\<lparr>plan_specification = spec, plan_source = s, plan_destination = d,
    plan_scope = mirror_approved_scope s d, plan_actions = built (mirror_actions s d),
    plan_summary_of = mirror_summary_for (built (mirror_actions s d)) s d\<rparr>"
  have v: "validate_plan ?p = Ok ()"
    using mirror_actions_valid[OF wf, of ?p] Mirror by (simp add: validate_plan_Ok)
  then have "build_plan spec s d = Ok ?p"
    using Mirror by (simp add: build_plan_def Let_def)
  with v Mirror show ?thesis by (simp add: planned_actions_def)
qed

lemma build_plan_actions:
  assumes "inventory_wf s" "inventory_wf d" "build_plan spec s d = Ok p"
  shows "plan_actions p = planned_actions spec s d" "plan_specification p = spec"
    "plan_source p = s" "plan_destination p = d" "validate_plan p = Ok ()"
  using build_plan_total[OF assms(1,2), of spec] assms(3) by auto

lemma distinct_concat_by_key:
  assumes "distinct (map f xs)" "\<And>x. x \<in> set xs \<Longrightarrow> distinct (map g (ds x))"
    "\<And>x y. x \<in> set xs \<Longrightarrow> y \<in> set (ds x) \<Longrightarrow> h (g y) = f x"
  shows "distinct (map g (concat (map ds xs)))"
  using assms
proof (induction xs)
  case (Cons x xs)
  have "g ` set (ds x) \<inter> g ` set (concat (map ds xs)) = {}"
  proof (rule ccontr)
    assume "\<not> ?thesis"
    then obtain y z w where "y \<in> set (ds x)" "w \<in> set xs" "z \<in> set (ds w)" "g y = g z" by auto
    with Cons.prems(3)[of x y] Cons.prems(3)[of w z] have "f x = f w" by simp
    with \<open>w \<in> set xs\<close> Cons.prems(1) show False by (metis distinct.simps(2) image_eqI list.set_map list.simps(9))
  qed
  moreover have "distinct (map g (concat (map ds xs)))"
    by (rule Cons.IH) (use Cons.prems in auto)
  ultimately show ?case using Cons.prems(2)[of x] by simp
qed simp

lemma distinct_included:
  "inventory_wf iv \<Longrightarrow> distinct (map it_path (included_items iv))"
  by (simp add: included_items_def inventory_wf_distinct distinct_map_filter)

definition action_key :: "plan_action \<Rightarrow> path \<times> plan_action_kind" where
  "action_key a = (pa_path a, pa_kind a)"

lemma action_key_draft [simp]: "action_key (draft q k c s z) = (q, k)"
  by (simp add: action_key_def)

lemma action_keys_strip: "map action_key xs = map action_key (map strip xs)"
  by (simp add: action_key_def)

lemma transfer_kind_no_removal [simp]:
  "transfer_kind req s d \<noteq> Some RemoveSourceAfterVerification"
  "Some RemoveSourceAfterVerification \<noteq> transfer_kind req s d"
  by (auto simp: transfer_kind_def split: option.splits)

lemma one_way_keys_distinct:
  assumes wf: "inventory_wf s" "inventory_wf d"
  shows "distinct (map action_key (built (one_way_actions spec s d)))"
proof -
  let ?moves = "concat (map (one_way_drafts spec d) (included_items s))"
  let ?cleanups = "if val_destination_cleanup (spec_options spec)
    then concat (map (cleanup_drafts spec s) (included_items d)) else []"
  have "distinct (map action_key ?moves)"
  proof (rule distinct_concat_by_key[where f = it_path and h = fst])
    show "distinct (map it_path (included_items s))" by (rule distinct_included[OF wf(1)])
    show "distinct (map action_key (one_way_drafts spec d i))" for i
      by (auto simp: one_way_drafts_def Let_def split: option.splits)
    show "fst (action_key y) = it_path i" if "y \<in> set (one_way_drafts spec d i)" for i y
      using that unfolding one_way_draft_iff[OF wf(2)] by auto
  qed
  moreover have "distinct (map action_key ?cleanups)"
  proof (cases "val_destination_cleanup (spec_options spec)")
    case True
    have "distinct (map action_key (concat (map (cleanup_drafts spec s) (included_items d))))"
      by (rule distinct_concat_by_key[where f = it_path and h = fst])
        (auto simp: cleanup_drafts_def distinct_included[OF wf(2)] split: if_splits)
    with True show ?thesis by simp
  qed simp
  moreover have "action_key ` set ?moves \<inter> action_key ` set ?cleanups = {}"
  proof -
    have disjoint: "action_key ` A \<inter> action_key ` B = {}"
      if "\<And>x. x \<in> A \<Longrightarrow> pa_kind x \<noteq> RemoveDestination" "\<And>x. x \<in> B \<Longrightarrow> pa_kind x = RemoveDestination"
      for A B :: "plan_action set"
      using that by (fastforce simp: action_key_def)
    have "pa_kind x \<noteq> RemoveDestination" if x: "x \<in> set ?moves" for x
    proof -
      from x obtain i where "x \<in> set (one_way_drafts spec d i)" by auto
      then obtain k where
        "x = draft (it_path i) k (consequence_for k) (side_of_source (spec_source spec)) (data_size i)"
        "transfer_kind (val_metadata (spec_options spec)) i (inv_item d (it_path i)) = Some k \<or>
         k = RemoveSourceAfterVerification"
        unfolding one_way_draft_iff[OF wf(2)] by blast
      then show ?thesis by (auto simp: transfer_kind_Some)
    qed
    moreover have "pa_kind x = RemoveDestination" if "x \<in> set ?cleanups" for x
      using that by (auto simp: cleanup_drafts_def split: if_splits)
    ultimately show ?thesis by (rule disjoint)
  qed
  ultimately have "distinct (map action_key (?moves @ ?cleanups))"
    by (simp only: map_append distinct_append set_map simp_thms)
  moreover have "map action_key (built (one_way_actions spec s d)) = map action_key (?moves @ ?cleanups)"
    by (rule trans[OF action_keys_strip]) (rule arg_cong[OF conjunct1[OF one_way_actions_drafts]])
  ultimately show ?thesis by (rule ssubst[rotated])
qed

lemma mirror_paths_sorted:
  "sorted (map pa_path (built (mirror_actions a b))) \<and> distinct (map pa_path (built (mirror_actions a b)))"
proof -
  let ?qs = "btree_set (map fst (items_by_path a) @ map fst (items_by_path b))"
  have one: "map pa_path (mirror_drafts a b q) = (if mirror_drafts a b q = [] then [] else [q])" for q
    by (auto simp: mirror_drafts_def split: option.splits)
  have "map pa_path (concat (map (mirror_drafts a b) qs)) = filter (\<lambda>q. mirror_drafts a b q \<noteq> []) qs" for qs
    by (induction qs) (simp_all add: one)
  then have "map pa_path (map strip (built (mirror_actions a b))) = filter (\<lambda>q. mirror_drafts a b q \<noteq> []) ?qs"
    by (simp only: mirror_actions_drafts)
  then have "map pa_path (built (mirror_actions a b)) = filter (\<lambda>q. mirror_drafts a b q \<noteq> []) ?qs"
    by (simp add: comp_def)
  then show ?thesis by (simp add: sorted_filter[where f = id, simplified])
qed

lemma planned_ids: "map pa_id (planned_actions spec s d) = [1..<length (planned_actions spec s d) + 1]"
  using one_way_actions_drafts[of spec s d] mirror_actions_drafts[of s d]
  by (auto simp: planned_actions_def numbered_def)

subsection \<open>Summaries\<close>

definition of_kind :: "plan_action_kind \<Rightarrow> plan_action list \<Rightarrow> plan_action list" where
  "of_kind k as = filter (\<lambda>a. pa_kind a = k) as"

definition bytes_of :: "plan_action_kind \<Rightarrow> plan_action list \<Rightarrow> u64" where
  "bytes_of k as = sum_list (map (\<lambda>a. size_or_default (pa_size a)) (of_kind k as))"

lemma foldl_count_action:
  "foldl count_action s as =
     s\<lparr>copy_count := copy_count s + length (of_kind CopyToDestination as),
       overwrite_count := overwrite_count s + length (of_kind OverwriteDestination as),
       destination_removal_count := destination_removal_count s + length (of_kind RemoveDestination as),
       source_removal_count := source_removal_count s + length (of_kind RemoveSourceAfterVerification as),
       copy_bytes := copy_bytes s + bytes_of CopyToDestination as,
       overwrite_bytes := overwrite_bytes s + bytes_of OverwriteDestination as,
       destination_removal_bytes := destination_removal_bytes s + bytes_of RemoveDestination as,
       source_removal_bytes := source_removal_bytes s + bytes_of RemoveSourceAfterVerification as\<rparr>"
proof (induction as arbitrary: s)
  case (Cons a as)
  show ?case
    by (simp add: Cons.IH) (cases "pa_kind a"; simp add: count_action_def of_kind_def bytes_of_def add.assoc)
qed (simp add: of_kind_def bytes_of_def)

lemma of_kind_lengths:
  "length (of_kind CopyToDestination as) + length (of_kind OverwriteDestination as) +
   length (of_kind RemoveDestination as) + length (of_kind RemoveSourceAfterVerification as) = length as"
proof (induction as)
  case (Cons a as)
  then show ?case by (cases "pa_kind a") (simp_all add: of_kind_def)
qed (simp add: of_kind_def)

lemma bytes_of_nat:
  "bytes_of k as = of_nat (sum_list (map (\<lambda>a. unat (size_or_default (pa_size a))) (of_kind k as)))"
proof -
  have "sum_list (map f xs) = of_nat (sum_list (map (\<lambda>x. unat (f x)) xs))" for f :: "plan_action \<Rightarrow> u64" and xs
    by (induction xs) simp_all
  then show ?thesis by (simp add: bytes_of_def)
qed

lemma plan_summary_Ok:
  assumes "validate_plan p = Ok u"
  shows "\<exists>c i e. plan_summary_of p = foldl count_action (empty_summary c i e) (plan_actions p)"
  using assms by (auto simp: validate_plan_Ok mirror_summary_for_def summary_for_def Let_def)

subsection \<open>Properties\<close>

text \<open>C12: Planning two well-formed inventories never fails: the plan it builds passes its own
  validation in either mode, its actions are numbered 1, 2, 3 in order, and no action touches an
  item that is excluded or unsupported on the peer it is read from.\<close>

theorem every_built_plan_is_valid:
  assumes "inventory_wf s" and "inventory_wf d"
  shows "\<exists>p. build_plan spec s d = Ok p \<and> validate_plan p = Ok () \<and>
    map pa_id (plan_actions p) = [1..<length (plan_actions p) + 1] \<and>
    (\<forall>a \<in> set (plan_actions p).
       \<exists>i. is_eligible i \<and> it_path i = pa_path a \<and> pa_size a = data_size i \<and>
         (i \<in> set (inv_items s) \<or> i \<in> set (inv_items d)))"
proof -
  obtain p where p: "build_plan spec s d = Ok p" "validate_plan p = Ok ()"
    "plan_actions p = planned_actions spec s d"
    using build_plan_total[OF assms] by blast
  have "\<exists>i. is_eligible i \<and> it_path i = pa_path a \<and> pa_size a = data_size i \<and>
         (i \<in> set (inv_items s) \<or> i \<in> set (inv_items d))" if a: "a \<in> set (plan_actions p)" for a
  proof (cases "spec_mode spec")
    case OneWay
    with a p(3) have "a \<in> set (built (one_way_actions spec s d))" by (simp add: planned_actions_def)
    from one_way_action_fields[OF assms this] show ?thesis
      by (auto dest!: inv.lookup_Some split: if_splits)
  next
    case Mirror
    with a p(3) have "a \<in> set (built (mirror_actions s d))" by (simp add: planned_actions_def)
    from mirror_action_fields[OF assms this] show ?thesis
      by (auto dest!: inv.lookup_Some split: peer_side.splits)
  qed
  with p show ?thesis by (auto simp: planned_ids)
qed

text \<open>C11: A One-Way plan does exactly what the two inventories ask for: it copies what only the
  source has, overwrites what differs, removes from the source only files and links when Safe
  Delete is on and the destination is not out of scope, and removes from the destination only
  when cleanup is on and the source has no item there at all; each at most once for a location,
  and never for an item that an exclusion put out of scope.\<close>

theorem one_way_plan_is_exact:
  assumes "inventory_wf s" and "inventory_wf d"
    and "spec_mode spec = OneWay" and "build_plan spec s d = Ok p"
  shows "((\<exists>a \<in> set (plan_actions p). pa_path a = q \<and> pa_kind a = k) \<longleftrightarrow> planned spec s d q k) \<and>
    distinct (map action_key (plan_actions p)) \<and>
    (\<forall>a \<in> set (plan_actions p). pa_source_side a = side_of_source (spec_source spec) \<and>
       pa_consequence a = consequence_for (pa_kind a)) \<and>
    (is_removal_kind k \<and> planned spec s d q k \<longrightarrow>
       val_safe_delete (spec_options spec) \<or> val_destination_cleanup (spec_options spec))"
proof -
  have p: "plan_actions p = built (one_way_actions spec s d)"
    using build_plan_actions(1)[OF assms(1,2,4)] assms(3) by (simp add: planned_actions_def)
  show ?thesis
    using one_way_action_iff[OF assms(1,2)] one_way_keys_distinct[OF assms(1,2)]
      one_way_action_fields[OF assms(1,2)]
    by (auto simp: p planned_def is_removal_kind_def)
qed

definition example_item :: "string \<Rightarrow> u64 \<Rightarrow> analysis_outcome \<Rightarrow> inventory_item" where
  "example_item n sz outcome =
     \<lparr>it_path = [Normal n], it_type = RegularFile,
      it_metadata = \<lparr>md_size = sz, md_modified_at = None, md_readonly = False,
        md_permissions = Some 420, md_symlink_target = None\<rparr>,
      it_outcome = outcome, it_fingerprint = Some n\<rparr>"

definition example_inventory :: "string \<Rightarrow> inventory_item list \<Rightarrow> source_inventory" where
  "example_inventory n items = inventory_from_items n [RootDir, Normal n] items"

lemma example_inventory_wf: "distinct (map it_path items) \<Longrightarrow> inventory_wf (example_inventory n items)"
  by (simp add: example_inventory_def inventory_from_items_wf)

lemma example_inv_item:
  "distinct (map it_path items) \<Longrightarrow> i \<in> set items \<Longrightarrow> inv_item (example_inventory n items) (it_path i) = Some i"
  using example_inventory_wf[of items n]
  by (simp add: inv_item_wf_iff) (simp add: example_inventory_def inventory_from_items_def Let_def)

lemma example_spec_plan:
  obtains spec :: process_specification where "spec_mode spec = OneWay" "\<not> val_safe_delete (spec_options spec)"
    "\<not> val_destination_cleanup (spec_options spec)"
  using example_spec by (auto dest!: spec_from_profile_Ok(1)
      simp: validate_options_Ok example_profile_def sync_profile_new_def default_sync_options_def)

theorem every_built_plan_is_valid_witness:
  "\<forall>spec. \<exists>p. build_plan spec (example_inventory ''a'' [example_item ''x'' 5 Included])
        (example_inventory ''b'' []) = Ok p \<and> validate_plan p = Ok ()"
proof
  fix spec :: process_specification
  let ?s = "example_inventory ''a'' [example_item ''x'' 5 Included]" and ?d = "example_inventory ''b'' []"
  have wf: "inventory_wf ?s" "inventory_wf ?d" by (simp_all add: example_inventory_wf)
  from every_built_plan_is_valid[OF wf, of spec] show "\<exists>p. build_plan spec ?s ?d = Ok p \<and> validate_plan p = Ok ()" by blast
qed

theorem one_way_plan_is_exact_witness:
  "\<exists>spec p. build_plan spec (example_inventory ''a'' [example_item ''x'' 5 Included])
        (example_inventory ''b'' []) = Ok p \<and>
     (\<exists>a \<in> set (plan_actions p). pa_path a = [Normal ''x''] \<and> pa_kind a = CopyToDestination)"
proof -
  let ?s = "example_inventory ''a'' [example_item ''x'' 5 Included]" and ?d = "example_inventory ''b'' []"
  have wf: "inventory_wf ?s" "inventory_wf ?d" by (simp_all add: example_inventory_wf)
  obtain spec :: process_specification where spec: "spec_mode spec = OneWay" by (rule example_spec_plan)
  obtain p where p: "build_plan spec ?s ?d = Ok p" using build_plan_total[OF wf] by blast
  have "inv_item ?s [Normal ''x''] = Some (example_item ''x'' 5 Included)"
    using example_inv_item[of "[example_item ''x'' 5 Included]" "example_item ''x'' 5 Included" "''a''"]
    by (simp add: example_item_def)
  moreover have "inv_item ?d [Normal ''x''] = None"
    by (simp add: inv.lookup_None example_inventory_def inventory_from_items_def Let_def)
  ultimately have "planned spec ?s ?d [Normal ''x''] CopyToDestination"
    by (simp add: planned_def is_eligible_def example_item_def)
  with one_way_plan_is_exact[OF wf spec p, of "[Normal ''x'']" CopyToDestination] p show ?thesis by blast
qed

text \<open>A Mirror plan only ever copies: from the side that has an eligible item to the side that
  has no item of that path at all, at most one action per location and in path order; items
  present on both sides are left to the conflict review, and nothing is removed.\<close>

theorem mirror_plan_only_copies_missing_items:
  assumes "inventory_wf a" and "inventory_wf b"
    and "spec_mode spec = Mirror" and "build_plan spec a b = Ok p"
  shows "((\<exists>x \<in> set (plan_actions p). pa_path x = q \<and> pa_source_side x = side) \<longleftrightarrow>
       is_some_and is_eligible (inv_item (case side of PeerA \<Rightarrow> a | PeerB \<Rightarrow> b) q) \<and>
       inv_item (case side of PeerA \<Rightarrow> b | PeerB \<Rightarrow> a) q = None) \<and>
    (\<forall>x \<in> set (plan_actions p). pa_kind x = CopyToDestination) \<and>
    sorted (map pa_path (plan_actions p)) \<and> distinct (map pa_path (plan_actions p)) \<and>
    (\<forall>r. \<not> is_deletion_candidate p r)"
proof -
  have p: "plan_actions p = built (mirror_actions a b)"
    using build_plan_actions(1)[OF assms(1,2,4)] assms(3) by (simp add: planned_actions_def)
  have copy: "pa_kind x = CopyToDestination" if "x \<in> set (plan_actions p)" for x
    using mirror_action_fields[OF assms(1,2)] that by (auto simp: p)
  then have "\<not> is_deletion_candidate p r" for r
    by (auto simp: is_deletion_candidate_def action_for_def is_some_and_iff is_removal_kind_def
        dest!: find_Some_D)
  with copy show ?thesis
    using mirror_action_iff[OF assms(1,2), of q side] mirror_paths_sorted[of a b] by (simp add: p)
qed

theorem mirror_plan_only_copies_missing_items_witness:
  "\<exists>spec p. spec_mode spec = Mirror \<and>
     build_plan spec (example_inventory ''a'' []) (example_inventory ''b'' [example_item ''x'' 5 Included]) = Ok p \<and>
     (\<exists>x \<in> set (plan_actions p). pa_path x = [Normal ''x''] \<and> pa_source_side x = PeerB)"
proof -
  let ?a = "example_inventory ''a'' []" and ?b = "example_inventory ''b'' [example_item ''x'' 5 Included]"
  have wf: "inventory_wf ?a" "inventory_wf ?b" by (simp_all add: example_inventory_wf)
  obtain spec0 :: process_specification where "spec_mode spec0 = OneWay" by (rule example_spec_plan)
  define spec where "spec = spec0\<lparr>spec_mode := Mirror\<rparr>"
  have m: "spec_mode spec = Mirror" by (simp add: spec_def)
  obtain p where p: "build_plan spec ?a ?b = Ok p" using build_plan_total[OF wf] by blast
  have "inv_item ?b [Normal ''x''] = Some (example_item ''x'' 5 Included)"
    using example_inv_item[of "[example_item ''x'' 5 Included]" "example_item ''x'' 5 Included" "''b''"]
    by (simp add: example_item_def)
  moreover have "inv_item ?a [Normal ''x''] = None"
    by (simp add: inv.lookup_None example_inventory_def inventory_from_items_def Let_def)
  ultimately have "\<exists>x \<in> set (plan_actions p). pa_path x = [Normal ''x''] \<and> pa_source_side x = PeerB"
    using mirror_plan_only_copies_missing_items[OF wf m p, of "[Normal ''x'']" PeerB]
    by (simp add: is_eligible_def example_item_def)
  with m p show ?thesis by blast
qed

text \<open>The summary of a valid plan counts every action exactly once under its kind, and its byte
  totals are the sums of the sizes, taken modulo 2^64.\<close>

theorem plan_summary_is_exact:
  assumes "validate_plan p = Ok ()"
  shows "total_action_count (plan_summary_of p) = length (plan_actions p) \<and>
    copy_count (plan_summary_of p) = length (of_kind CopyToDestination (plan_actions p)) \<and>
    overwrite_count (plan_summary_of p) = length (of_kind OverwriteDestination (plan_actions p)) \<and>
    destination_removal_count (plan_summary_of p) = length (of_kind RemoveDestination (plan_actions p)) \<and>
    source_removal_count (plan_summary_of p) = length (of_kind RemoveSourceAfterVerification (plan_actions p)) \<and>
    total_bytes (plan_summary_of p) =
      of_nat (sum_list (map (\<lambda>a. unat (size_or_default (pa_size a)))
        (of_kind CopyToDestination (plan_actions p) @ of_kind OverwriteDestination (plan_actions p))))"
proof -
  obtain c i e where "plan_summary_of p = foldl count_action (empty_summary c i e) (plan_actions p)"
    using plan_summary_Ok[OF assms] by blast
  then show ?thesis
    by (simp add: foldl_count_action empty_summary_def total_action_count_def total_bytes_def
        of_kind_lengths bytes_of_nat)
qed

theorem plan_summary_is_exact_witness:
  "\<forall>spec. \<exists>p. build_plan spec (example_inventory ''a'' [example_item ''x'' 5 Included])
        (example_inventory ''b'' []) = Ok p \<and>
     total_action_count (plan_summary_of p) = length (plan_actions p)"
proof
  fix spec :: process_specification
  let ?s = "example_inventory ''a'' [example_item ''x'' 5 Included]" and ?d = "example_inventory ''b'' []"
  have wf: "inventory_wf ?s" "inventory_wf ?d" by (simp_all add: example_inventory_wf)
  obtain p where "build_plan spec ?s ?d = Ok p" "validate_plan p = Ok ()"
    using build_plan_total[OF wf] by blast
  with plan_summary_is_exact[OF this(2)] show "\<exists>p. build_plan spec ?s ?d = Ok p \<and> total_action_count (plan_summary_of p) = length (plan_actions p)" by blast
qed

end
