(* ===== verification/Analysis.thy ===== *)
theory Analysis
  imports Plan
begin

text \<open>
  Fresh Analysis (\<open>FreshAnalysis\<close> and \<open>AnalysisRevision\<close> of \<open>analysis.rs\<close>):
  collecting both inventories, planning, and the confirmation that analyses again and
  refuses anything that changed in between. The file system is the argument of each analysis;
  a confirmation is given the file system as it is then.
\<close>

subsection \<open>Revisions\<close>

record revision_item =
  rv_path :: path
  rv_type :: item_type
  rv_metadata :: item_metadata
  rv_outcome :: analysis_outcome
  rv_fingerprint :: "sha256 option"

record analysis_revision =
  rev_source :: "revision_item list"
  rev_destination :: "revision_item list"

definition revision_item_of :: "inventory_item \<Rightarrow> revision_item" where
  "revision_item_of i =
     \<lparr>rv_path = it_path i, rv_type = it_type i, rv_metadata = it_metadata i,
      rv_outcome = it_outcome i, rv_fingerprint = it_fingerprint i\<rparr>"

definition revision_from_inventories ::
  "source_inventory \<Rightarrow> source_inventory \<Rightarrow> analysis_revision" where
  "revision_from_inventories s d =
     \<lparr>rev_source = map revision_item_of (inv_items s),
      rev_destination = map revision_item_of (inv_items d)\<rparr>"

definition revision_map ::
  "revision_item list \<Rightarrow> (path \<times> item_type \<times> item_metadata \<times> analysis_outcome) list" where
  "revision_map items = btree_map (map (\<lambda>i. (rv_path i, rv_type i, rv_metadata i, rv_outcome i)) items)"

definition changed_paths_for :: "revision_item list \<Rightarrow> revision_item list \<Rightarrow> path list" where
  "changed_paths_for left right =
     (let l = revision_map left; r = revision_map right in
      btree_set (filter (\<lambda>p. btree_get l p \<noteq> btree_get r p) (map fst l @ map fst r)))"

definition changed_paths :: "analysis_revision \<Rightarrow> analysis_revision \<Rightarrow> path list" where
  "changed_paths a b =
     btree_set
       ((if revision_map (rev_source a) \<noteq> revision_map (rev_source b)
         then changed_paths_for (rev_source a) (rev_source b) else []) @
        (if revision_map (rev_destination a) \<noteq> revision_map (rev_destination b)
         then changed_paths_for (rev_destination a) (rev_destination b) else []))"

subsection \<open>Analysis\<close>

record fresh_analysis =
  fa_profile :: sync_profile
  fa_specification :: process_specification
  fa_source :: source_inventory
  fa_destination :: source_inventory
  fa_plan :: one_way_plan
  fa_revision :: analysis_revision

record confirmed_plan =
  cf_plan :: one_way_plan
  cf_profile :: sync_profile

definition map_spec_error :: "process_spec_error + 'a \<Rightarrow> analysis_error + 'a" where
  "map_spec_error r = (case r of Inl e \<Rightarrow> Err (SpecificationError e) | Inr x \<Rightarrow> Ok x)"

definition analysis_destination_peer :: "file_system \<Rightarrow> sync_profile \<Rightarrow> peer" where
  "analysis_destination_peer fs prof =
     (if prof_mode prof = Mirror then peer_b prof
      else
        let destination = selected_destination prof; root = effective_destination_root prof in
        if \<not> is_ssh destination \<and> fs_is_dir fs root
        then peer_new (peer_label destination) root
        else destination)"

definition from_inventories ::
  "sync_profile \<Rightarrow> process_specification \<Rightarrow> source_inventory \<Rightarrow> source_inventory
    \<Rightarrow> analysis_error + fresh_analysis" where
  "from_inventories prof spec s d =
     result_bind (build_plan spec s d) (\<lambda>plan.
       Ok \<lparr>fa_profile = prof, fa_specification = spec, fa_source = s, fa_destination = d,
           fa_plan = plan, fa_revision = revision_from_inventories s d\<rparr>)"

definition analyze :: "file_system \<Rightarrow> sync_profile \<Rightarrow> analysis_error + fresh_analysis" where
  "analyze fs prof =
     result_bind (map_spec_error (spec_from_profile (fs_is_dir fs) prof)) (\<lambda>spec.
       case List.find is_ssh [peer_a prof, peer_b prof] of
         Some p \<Rightarrow> Err (UnsupportedRemotePeer (peer_label p))
       | None \<Rightarrow>
           let source = (if prof_mode prof = Mirror then peer_a prof else selected_source prof);
               destination = analysis_destination_peer fs prof;
               exclusions = spec_exclusions spec in
           result_bind (collect_inventory fs source exclusions) (\<lambda>s.
           result_bind (collect_inventory fs destination exclusions) (\<lambda>d.
             from_inventories prof spec s d)))"

subsection \<open>Confirmation\<close>

definition confirm_refreshed_unchecked ::
  "fresh_analysis \<Rightarrow> sync_profile \<Rightarrow> fresh_analysis \<Rightarrow> analysis_error + confirmed_plan" where
  "confirm_refreshed_unchecked fa current refreshed =
     (let by_revision = changed_paths (fa_revision fa) (fa_revision refreshed);
          mine = plan_actions (fa_plan fa);
          theirs = plan_actions (fa_plan refreshed);
          changed =
            (if mine \<noteq> theirs
             then remdups_adj (sort (by_revision @ map pa_path mine @ map pa_path theirs))
             else by_revision) in
      if changed \<noteq> [] then Err (StaleAnalysis changed)
      else Ok \<lparr>cf_plan = fa_plan fa, cf_profile = current\<rparr>)"

definition confirm_refreshed ::
  "fresh_analysis \<Rightarrow> sync_profile \<Rightarrow> fresh_analysis \<Rightarrow> analysis_error + confirmed_plan" where
  "confirm_refreshed fa current refreshed =
     (if fa_profile fa \<noteq> current then Err ProfileChanged
      else confirm_refreshed_unchecked fa current refreshed)"

definition confirm ::
  "fresh_analysis \<Rightarrow> file_system \<Rightarrow> sync_profile \<Rightarrow> analysis_error + confirmed_plan" where
  "confirm fa fs current =
     (if fa_profile fa \<noteq> current then Err ProfileChanged
      else result_bind (analyze fs current) (\<lambda>refreshed. confirm_refreshed fa current refreshed))"

definition runtime_profile :: "sync_profile \<Rightarrow> deletion_method \<Rightarrow> sync_profile" where
  "runtime_profile prof dm =
     with_options prof (options_with_deletion_method (prof_options prof) (Some dm))"

definition confirm_with_deletion_method ::
  "fresh_analysis \<Rightarrow> file_system \<Rightarrow> sync_profile \<Rightarrow> deletion_method
    \<Rightarrow> analysis_error + confirmed_plan" where
  "confirm_with_deletion_method fa fs current dm =
     (if runtime_profile (fa_profile fa) dm \<noteq> runtime_profile current dm then Err ProfileChanged
      else result_bind (analyze fs (runtime_profile current dm)) (\<lambda>refreshed.
        confirm_refreshed_unchecked fa (runtime_profile current dm) refreshed))"

subsection \<open>What a confirmation compares\<close>

definition observed :: "source_inventory \<Rightarrow> path \<Rightarrow> (item_type \<times> item_metadata \<times> analysis_outcome) option" where
  "observed iv q = map_option (\<lambda>i. (it_type i, it_metadata i, it_outcome i)) (inv_item iv q)"

lemma revision_map_get:
  assumes "distinct (map it_path items)"
  shows "btree_get (revision_map (map revision_item_of items)) q =
    map_option (\<lambda>i. (it_type i, it_metadata i, it_outcome i)) (List.find (\<lambda>i. it_path i = q) items)"
proof -
  have "map_of (map (\<lambda>i. (it_path i, it_type i, it_metadata i, it_outcome i)) items) q =
      map_option (\<lambda>i. (it_type i, it_metadata i, it_outcome i)) (List.find (\<lambda>i. it_path i = q) items)"
    by (induction items) auto
  then show ?thesis
    using assms by (simp add: revision_map_def btree_get_btree_map comp_def map_of_distinct_rev
        revision_item_of_def)
qed

lemma changed_paths_for_iff:
  "p \<in> set (changed_paths_for l r) \<longleftrightarrow> btree_get (revision_map l) p \<noteq> btree_get (revision_map r) p"
proof
  assume ne: "btree_get (revision_map l) p \<noteq> btree_get (revision_map r) p"
  then have "p \<in> fst ` set (revision_map l) \<or> p \<in> fst ` set (revision_map r)"
    by (metis btree_get_def map_of_eq_None_iff)
  with ne show "p \<in> set (changed_paths_for l r)"
    by (auto simp: changed_paths_for_def Let_def)
qed (auto simp: changed_paths_for_def Let_def)

lemma revision_map_eq_iff:
  "revision_map l = revision_map r \<longleftrightarrow> (\<forall>p. btree_get (revision_map l) p = btree_get (revision_map r) p)"
  unfolding revision_map_def by (rule btree_map_eq_iff)

lemma changed_paths_iff:
  "p \<in> set (changed_paths a b) \<longleftrightarrow>
     btree_get (revision_map (rev_source a)) p \<noteq> btree_get (revision_map (rev_source b)) p \<or>
     btree_get (revision_map (rev_destination a)) p \<noteq> btree_get (revision_map (rev_destination b)) p"
  by (auto simp: changed_paths_def changed_paths_for_iff revision_map_eq_iff)

lemma changed_paths_inventories:
  assumes "inventory_wf s" "inventory_wf d" "inventory_wf s'" "inventory_wf d'"
  shows "p \<in> set (changed_paths (revision_from_inventories s d) (revision_from_inventories s' d')) \<longleftrightarrow>
    observed s p \<noteq> observed s' p \<or> observed d p \<noteq> observed d' p"
  using assms
  by (simp add: changed_paths_iff revision_from_inventories_def revision_map_get
      inventory_wf_distinct observed_def inv_item_def)

lemma confirm_unchecked_Ok:
  "confirm_refreshed_unchecked fa current refreshed = Ok c \<longleftrightarrow>
     changed_paths (fa_revision fa) (fa_revision refreshed) = [] \<and>
     plan_actions (fa_plan fa) = plan_actions (fa_plan refreshed) \<and>
     c = \<lparr>cf_plan = fa_plan fa, cf_profile = current\<rparr>"
proof (cases "plan_actions (fa_plan fa) = plan_actions (fa_plan refreshed)")
  case False
  then have "plan_actions (fa_plan fa) \<noteq> [] \<or> plan_actions (fa_plan refreshed) \<noteq> []" by auto
  then have "remdups_adj (sort (by @ map pa_path (plan_actions (fa_plan fa)) @
      map pa_path (plan_actions (fa_plan refreshed)))) \<noteq> []" for "by" :: "path list"
    by (metis Nil_is_append_conv Nil_is_map_conv remdups_adj_Nil_iff set_empty set_sort)
  with False show ?thesis by (auto simp: confirm_refreshed_unchecked_def Let_def)
qed (auto simp: confirm_refreshed_unchecked_def Let_def)

text \<open>An analysis of well-formed directory trees.\<close>

definition roots_ok :: "file_system \<Rightarrow> bool" where
  "roots_ok fs = (\<forall>p. root_ok fs p)"

lemma analyze_Ok:
  assumes "analyze fs prof = Ok fa"
  obtains spec where "spec_from_profile (fs_is_dir fs) prof = Ok spec"
    "collect_inventory fs (if prof_mode prof = Mirror then peer_a prof else selected_source prof)
       (prof_exclusions prof) = Ok (fa_source fa)"
    "collect_inventory fs (analysis_destination_peer fs prof) (prof_exclusions prof) = Ok (fa_destination fa)"
    "build_plan spec (fa_source fa) (fa_destination fa) = Ok (fa_plan fa)"
    "fa_specification fa = spec" "fa_profile fa = prof"
    "fa_revision fa = revision_from_inventories (fa_source fa) (fa_destination fa)"
    "\<not> is_ssh (peer_a prof)" "\<not> is_ssh (peer_b prof)"
proof -
  obtain spec where spec: "spec_from_profile (fs_is_dir fs) prof = Ok spec"
    using assms by (cases "spec_from_profile (fs_is_dir fs) prof") (auto simp: analyze_def map_spec_error_def)
  with assms have "\<not> is_ssh (peer_a prof)" "\<not> is_ssh (peer_b prof)"
    by (auto simp: analyze_def map_spec_error_def split: if_splits)
  with that[OF spec] assms spec_exclusions_from_profile[OF spec] show thesis
    by (auto simp: analyze_def map_spec_error_def spec from_inventories_def Let_def)
qed

lemma analyze_wf:
  assumes "analyze fs prof = Ok fa" "roots_ok fs"
  shows "inventory_wf (fa_source fa)" "inventory_wf (fa_destination fa)"
  using assms by (auto elim!: analyze_Ok simp: roots_ok_def intro: collect_inventory_wf)


lemma planned_item_eligible:
  assumes wf: "inventory_wf s" "inventory_wf d" and p: "build_plan spec s d = Ok p"
    and a: "a \<in> set (plan_actions p)" and iv: "iv = s \<or> iv = d" and i: "inv_item iv (pa_path a) = Some i"
  shows "is_eligible i"
proof (cases "spec_mode spec")
  case OneWay
  then have "a \<in> set (built (one_way_actions spec s d))"
    using a build_plan_actions(1)[OF wf p] by (simp add: planned_actions_def)
  from one_way_kind_planned[OF wf this] show ?thesis
    using iv i by (cases "pa_kind a") (auto simp: planned_def is_some_and_iff is_none_or_iff)
next
  case Mirror
  then have "a \<in> set (built (mirror_actions s d))"
    using a build_plan_actions(1)[OF wf p] by (simp add: planned_actions_def)
  from mirror_action_fields[OF wf this] show ?thesis
    using iv i by (cases "pa_source_side a") auto
qed

lemma collected_eligible_not_hit:
  assumes c: "collect_inventory fs p exclusions = Ok iv" "root_ok fs (peer_root p)"
    and i: "i \<in> set (inv_items iv)" "is_eligible i" and j: "j \<in> set (inv_items iv)" "prefix (it_path j) (it_path i)"
  shows "\<not> pattern_hit exclusions j"
proof -
  obtain cs items where w: "fs_root fs (peer_root p) = RootDirectory (Some cs)"
    "walked exclusions False [] (sort_by entry_name cs) items"
    "iv = inventory_from_items (peer_label p) (peer_root p) items"
    using collect_inventory_walked[OF c(1)] .
  then have "forest_ok (sort_by entry_name cs)" using c(2) by (simp add: root_ok_def)
  from walked_excluded_iff[OF w(2) this, of i] i j w(3) show ?thesis
    by (auto simp: is_eligible_def)
qed

subsection \<open>Properties\<close>

text \<open>No action of an analysed plan, of either mode, touches anything an exclusion covers: at
  the location of an action every item, on the source and on the destination, is in scope, and
  neither it nor any directory above it matches an exclusion of the profile.\<close>

theorem planned_items_are_in_scope:
  assumes "analyze fs prof = Ok fa" and "roots_ok fs" and "a \<in> set (plan_actions (fa_plan fa))"
    and "iv = fa_source fa \<or> iv = fa_destination fa"
    and "i \<in> set (inv_items iv)" and "it_path i = pa_path a"
  shows "is_eligible i \<and>
    (\<forall>j \<in> set (inv_items iv). prefix (it_path j) (pa_path a) \<longrightarrow> \<not> pattern_hit (prof_exclusions prof) j)"
proof -
  obtain spec where c: "collect_inventory fs (if prof_mode prof = Mirror then peer_a prof else selected_source prof)
       (prof_exclusions prof) = Ok (fa_source fa)"
    "collect_inventory fs (analysis_destination_peer fs prof) (prof_exclusions prof) = Ok (fa_destination fa)"
    "build_plan spec (fa_source fa) (fa_destination fa) = Ok (fa_plan fa)"
    using assms(1) by (rule analyze_Ok)
  note wf = analyze_wf[OF assms(1,2)]
  have "inventory_wf iv" using assms(4) wf by blast
  with assms(5,6) have "inv_item iv (pa_path a) = Some i" by (auto simp: inv_item_wf_iff)
  from planned_item_eligible[OF wf c(3) assms(3,4) this] have e: "is_eligible i" .
  have ok: "root_ok fs q" for q using assms(2) by (simp add: roots_ok_def)
  have "\<not> pattern_hit (prof_exclusions prof) j"
    if "j \<in> set (inv_items iv)" "prefix (it_path j) (it_path i)" for j
    using assms(4) collected_eligible_not_hit[OF c(1) ok, of i j] collected_eligible_not_hit[OF c(2) ok, of i j]
      assms(5) e that by blast
  with e assms(6) show ?thesis by simp
qed

definition example_pair_fs :: file_system where
  "example_pair_fs = \<lparr>fs_is_dir = (\<lambda>_. False),
     fs_root = (\<lambda>p. RootDirectory (Some (if p = peer_root (peer_a example_profile) then example_tree else [])))\<rparr>"

lemma example_pair_roots_ok: "roots_ok example_pair_fs"
  by (simp add: roots_ok_def root_ok_def example_pair_fs_def example_tree_def)

lemma example_pair_analysis:
  "\<exists>fa. analyze example_pair_fs example_profile = Ok fa \<and>
     (\<exists>i \<in> set (inv_items (fa_source fa)). it_path i = [Normal ''d''] \<and>
       (\<exists>a \<in> set (plan_actions (fa_plan fa)). pa_path a = [Normal ''d'']))"
proof -
  obtain spec where spec: "spec_from_profile (\<lambda>_. False) example_profile = Ok spec"
      "spec_mode spec = OneWay"
    using example_spec by blast
  have ex: "prof_exclusions example_profile = []" "peer_a example_profile = selected_source example_profile"
    "\<not> is_ssh (peer_a example_profile)" "\<not> is_ssh (peer_b example_profile)"
    "prof_mode example_profile = OneWay"
    by (simp_all add: example_profile_def sync_profile_new_def selected_source_def is_ssh_def peer_new_def)
  have dest: "analysis_destination_peer example_pair_fs example_profile = peer_b example_profile"
    by (simp add: analysis_destination_peer_def ex(5) example_pair_fs_def Let_def selected_destination_def
        example_profile_def sync_profile_new_def)
  have "peer_root (peer_b example_profile) \<noteq> peer_root (peer_a example_profile)"
    by (simp add: example_profile_def sync_profile_new_def peer_root_def peer_new_def)
  then obtain d where d: "collect_inventory example_pair_fs (peer_b example_profile) [] = Ok d" "inv_items d = []"
    by (simp add: collect_inventory_def example_pair_fs_def walk_directory_def sort_by_def
        inventory_from_items_def Let_def)
  let ?item = "walk_item False [Normal ''d''] Directory (metadata_snapshot example_meta None) None"
  have "sort_by entry_name example_tree = example_tree"
    by (simp add: sort_by_def example_tree_def)
  moreover have "\<exists>below. walk_entries n dir [] False [] example_tree = Ok (?item # below)" for n dir
    by (simp add: example_tree_def example_not_artifact Let_def is_excluded_def sort_by_def)
  ultimately obtain s where s: "collect_inventory example_pair_fs (peer_a example_profile) [] = Ok s"
      "?item \<in> set (inv_items s)"
    by (auto simp: collect_inventory_def example_pair_fs_def walk_directory_def)
      (metis inv_items_from_items list.set_intros(1))
  have wf: "inventory_wf s" "inventory_wf d"
    using collect_inventory_wf[OF s(1)] collect_inventory_wf[OF d(1)] example_pair_roots_ok
    by (simp_all add: roots_ok_def)
  obtain p where p: "build_plan spec s d = Ok p" "plan_actions p = planned_actions spec s d"
    using build_plan_total[OF wf] by blast
  have "planned spec s d [Normal ''d''] CopyToDestination"
    using inv_item_in[OF wf(1) s(2)] d(2)
    by (simp add: planned_def inv.lookup_None is_eligible_def outcome_for_def)
  then obtain a where "a \<in> set (plan_actions p)" "pa_path a = [Normal ''d'']"
    using one_way_action_iff[OF wf, of spec "[Normal ''d'']" CopyToDestination] p(2) spec(2)
    by (auto simp: planned_actions_def)
  moreover have "\<exists>fa. analyze example_pair_fs example_profile = Ok fa \<and> fa_source fa = s \<and> fa_plan fa = p"
    using spec s(1) d(1) p(1) spec_exclusions_from_profile[OF spec(1)] ex dest
    by (simp add: analyze_def map_spec_error_def from_inventories_def Let_def)
      (simp add: example_pair_fs_def)
  moreover have "it_path ?item = [Normal ''d'']" by simp
  ultimately show ?thesis using s(2) by blast
qed

theorem planned_items_are_in_scope_witness:
  "\<exists>fa i. analyze example_pair_fs example_profile = Ok fa \<and> i \<in> set (inv_items (fa_source fa)) \<and>
     it_path i = [Normal ''d''] \<and> is_eligible i"
proof -
  obtain fa i a where fa: "analyze example_pair_fs example_profile = Ok fa"
    "i \<in> set (inv_items (fa_source fa))" "it_path i = [Normal ''d'']"
    "a \<in> set (plan_actions (fa_plan fa))" "pa_path a = [Normal ''d'']"
    using example_pair_analysis by blast
  have "it_path i = pa_path a" using fa(3,5) by simp
  from planned_items_are_in_scope[OF fa(1) example_pair_roots_ok fa(4) disjI1[OF refl] fa(2) this] fa
  show ?thesis by blast
qed



text \<open>
  The revision records the content fingerprint of every item, but the comparison of two
  revisions leaves it out: a file whose content changed while its size and times stayed the
  same is confirmed.
\<close>

lemma content_change_is_confirmed:
  fixes prof :: sync_profile
  assumes "spec_mode spec = OneWay" "\<not> val_safe_delete (spec_options spec)"
    "\<not> val_destination_cleanup (spec_options spec)"
  shows "\<exists>s s' d fa re.
    from_inventories prof spec s d = Ok fa \<and> from_inventories prof spec s' d = Ok re \<and>
    map it_fingerprint (inv_items s) \<noteq> map it_fingerprint (inv_items s') \<and>
    confirm_refreshed fa prof re = Ok \<lparr>cf_plan = fa_plan fa, cf_profile = prof\<rparr>"
proof -
  let ?i = "example_item ''x'' 5 Included"
  let ?j = "?i\<lparr>it_fingerprint := Some ''other''\<rparr>"
  let ?s = "example_inventory ''a'' [?i]" and ?s' = "example_inventory ''a'' [?j]" and ?d = "example_inventory ''b'' []"
  have wf: "inventory_wf ?s" "inventory_wf ?s'" "inventory_wf ?d" by (simp_all add: example_inventory_wf)
  have items: "inv_items ?s = [?i]" "inv_items ?s' = [?j]" "inv_items ?d = []"
    by (simp_all add: example_inventory_def inventory_from_items_def Let_def sort_by_def)
  obtain p where p: "build_plan spec ?s ?d = Ok p" "plan_actions p = planned_actions spec ?s ?d"
    using build_plan_total[OF wf(1,3)] by blast
  obtain q where q: "build_plan spec ?s' ?d = Ok q" "plan_actions q = planned_actions spec ?s' ?d"
    using build_plan_total[OF wf(2,3)] by blast
  have "items_by_path ?d = []" by (simp add: items_by_path_def items btree_map_def)
  then have acts: "planned_actions spec ?s ?d = planned_actions spec ?s' ?d"
    using assms by (simp add: planned_actions_def one_way_actions_def Let_def included_items_def items)
      (simp add: is_eligible_def one_way_step_def btree_get_def transfer_kind_def data_size_def
        example_item_def)
  have rev: "changed_paths (revision_from_inventories ?s ?d) (revision_from_inventories ?s' ?d) = []"
    by (simp add: changed_paths_def revision_from_inventories_def items revision_map_def revision_item_of_def)
  let ?fa = "\<lparr>fa_profile = prof, fa_specification = spec, fa_source = ?s, fa_destination = ?d,
     fa_plan = p, fa_revision = revision_from_inventories ?s ?d\<rparr>"
  let ?re = "\<lparr>fa_profile = prof, fa_specification = spec, fa_source = ?s', fa_destination = ?d,
     fa_plan = q, fa_revision = revision_from_inventories ?s' ?d\<rparr>"
  have "confirm_refreshed ?fa prof ?re = Ok \<lparr>cf_plan = p, cf_profile = prof\<rparr>"
    by (simp add: confirm_refreshed_def confirm_unchecked_Ok rev p(2) q(2) acts)
  moreover have "map it_fingerprint (inv_items ?s) \<noteq> map it_fingerprint (inv_items ?s')"
    unfolding items by (simp add: example_item_def)
  ultimately show ?thesis
    by (intro exI[of _ ?s] exI[of _ ?s'] exI[of _ ?d] exI[of _ ?fa] exI[of _ ?re])
      (simp add: from_inventories_def p(1) q(1))
qed

end
