(* ===== verification/Decisions.thy ===== *)
theory Decisions
  imports Collections
begin

text \<open>
  The interface of a review that collects explicit decisions. Two parts of the program run
  the same loop over the decisions a user made: a decision that does not fit the review is
  refused, a second decision for the same key is refused, and every other one adds an
  action. The locale states that contract once; \<open>Resolution\<close> and
  \<open>MirrorDeletion\<close> interpret it on their own loops.
\<close>

locale decision_loop =
  fixes loop :: "'d list \<Rightarrow> 'k list \<Rightarrow> 'a list \<Rightarrow> 'e + 'k list \<times> 'a list"
    and key :: "'d \<Rightarrow> 'k"
    and act :: "'d \<Rightarrow> 'a"
    and refuse :: "'d \<Rightarrow> 'e option"
    and duplicate :: "'d \<Rightarrow> 'e"
  assumes loop_Nil: "loop [] seen acts = Ok (seen, acts)"
    and loop_Cons: "loop (d # ds) seen acts =
      (case refuse d of
         Some e \<Rightarrow> Err e
       | None \<Rightarrow>
           if key d \<in> set seen then Err (duplicate d)
           else loop ds (key d # seen) (acts @ [act d]))"
begin

lemma loop_Ok_iff:
  "loop ds seen acts = Ok (seen', acts') \<longleftrightarrow>
     (\<forall>d \<in> set ds. refuse d = None) \<and> distinct (map key ds) \<and>
     set (map key ds) \<inter> set seen = {} \<and>
     seen' = rev (map key ds) @ seen \<and> acts' = acts @ map act ds"
proof (induction ds arbitrary: seen acts)
  case (Cons d ds)
  show ?case
  proof (cases "refuse d = None \<and> key d \<notin> set seen")
    case True
    with Cons.IH[of "key d # seen" "acts @ [act d]"] show ?thesis
      by (auto simp: loop_Cons)
  next
    case False
    then show ?thesis by (auto simp: loop_Cons split: option.splits)
  qed
qed (auto simp: loop_Nil)

text \<open>An error is that of the first decision at which the loop stops.\<close>

lemma loop_Err:
  assumes "loop ds seen acts = Err e"
  shows "\<exists>us d vs. ds = us @ d # vs \<and> (\<forall>u \<in> set us. refuse u = None) \<and>
    (refuse d = Some e \<or>
     refuse d = None \<and> key d \<in> key ` set us \<union> set seen \<and> e = duplicate d)"
  using assms
proof (induction ds arbitrary: seen acts)
  case (Cons d ds)
  show ?case
  proof (cases "refuse d")
    case (Some e')
    with Cons.prems show ?thesis by (intro exI[of _ "[]"]) (simp add: loop_Cons)
  next
    case None
    show ?thesis
    proof (cases "key d \<in> set seen")
      case True
      with None Cons.prems show ?thesis
        by (intro exI[of _ "[]"]) (simp add: loop_Cons)
    next
      case False
      with None Cons.prems have "loop ds (key d # seen) (acts @ [act d]) = Err e"
        by (simp add: loop_Cons)
      from Cons.IH[OF this] obtain us x vs where r: "ds = us @ x # vs"
        "\<forall>u \<in> set us. refuse u = None"
        "refuse x = Some e \<or>
         refuse x = None \<and> key x \<in> key ` set us \<union> set (key d # seen) \<and> e = duplicate x"
        by blast
      with None show ?thesis
        by (intro exI[of _ "d # us"] exI[of _ x] exI[of _ vs]) auto
    qed
  qed
qed (simp add: loop_Nil)

end

text \<open>The first expected key that nobody decided, as \<open>difference(..).next()\<close> returns it.\<close>

definition first_missing :: "'k::linorder list \<Rightarrow> 'k list \<Rightarrow> 'k option" where
  "first_missing expected seen = List.find (\<lambda>k. k \<notin> set seen) (btree_set expected)"

lemma first_missing_None [simp]: "first_missing expected seen = None \<longleftrightarrow> set expected \<subseteq> set seen"
  by (auto simp: first_missing_def find_None_iff_all)

lemma first_missing_Some:
  "first_missing expected seen = Some k \<Longrightarrow> k \<in> set expected \<and> k \<notin> set seen"
  by (auto simp: first_missing_def dest: find_Some_D)

lemma find_sorted_least:
  "List.find P xs = Some k \<Longrightarrow> sorted xs \<Longrightarrow> \<forall>l \<in> set xs. P l \<longrightarrow> k \<le> l"
  by (induction xs) (auto split: if_splits)

lemma first_missing_least:
  assumes "first_missing expected seen = Some k"
  shows "k \<in> set expected \<and> k \<notin> set seen \<and> (\<forall>l \<in> set expected. l \<notin> set seen \<longrightarrow> k \<le> l)"
  using first_missing_Some[OF assms] find_sorted_least[OF assms[unfolded first_missing_def]] by simp

end
