(* ===== verification/Conflict.thy ===== *)
theory Conflict
  imports Analysis "HOL-Library.Product_Lexorder" "HOL-Library.Option_ord"
begin

text \<open>
  Conflict Review (\<open>conflict.rs\<close>): the rows a user has to decide when both peers of a Mirror
  have an item at the same path that differs, or files of the same content at different
  paths, with the evidence shown for each. Reading a file for its classification is the
  parameter \<open>fs\<close>, the answer of the file system for a path.
\<close>

subsection \<open>Entries and their keys\<close>

datatype conflict_kind = SamePath | PossibleDuplicateOrRename | DestinationCompatibility

fun kind_rank :: "conflict_kind \<Rightarrow> nat" where
  "kind_rank SamePath = 0"
| "kind_rank PossibleDuplicateOrRename = 1"
| "kind_rank DestinationCompatibility = 2"

lemma kind_rank_eq [simp]: "kind_rank a = kind_rank b \<longleftrightarrow> a = b"
  by (cases a; cases b) simp_all

text \<open>The derived order of a key compares its fields in the order of their declaration.\<close>

datatype conflict_entry_key =
  ConflictEntryKey (key_kind: conflict_kind) (key_path: path) (key_related: "path option")
    (key_destination: "path option")

definition key_tuple :: "conflict_entry_key \<Rightarrow> nat \<times> path \<times> path option \<times> path option" where
  "key_tuple k = (kind_rank (key_kind k), key_path k, key_related k, key_destination k)"

lemma key_tuple_eq [simp]: "key_tuple k = key_tuple l \<longleftrightarrow> k = l"
  by (cases k; cases l) (simp add: key_tuple_def)

instantiation conflict_entry_key :: linorder
begin

definition less_eq_conflict_entry_key :: "conflict_entry_key \<Rightarrow> conflict_entry_key \<Rightarrow> bool" where
  "less_eq_conflict_entry_key k l = (key_tuple k \<le> key_tuple l)"

definition less_conflict_entry_key :: "conflict_entry_key \<Rightarrow> conflict_entry_key \<Rightarrow> bool" where
  "less_conflict_entry_key k l = (key_tuple k < key_tuple l)"

instance
  by standard
    (auto simp: less_eq_conflict_entry_key_def less_conflict_entry_key_def simp flip: key_tuple_eq)

end

definition same_path_key :: "path \<Rightarrow> conflict_entry_key" where
  "same_path_key p = ConflictEntryKey SamePath p None None"

datatype file_review_classification =
  ReviewText | ReviewBinary | ReviewLarge | ReviewUnreadable | ReviewNonRegular

record conflict_evidence =
  ev_side :: peer_side
  ev_path :: path
  ev_type :: item_type
  ev_size :: u64
  ev_modified :: "int option"
  ev_readonly :: bool
  ev_permissions :: "u32 option"
  ev_symlink_target :: "path option"
  ev_sha256 :: "sha256 option"
  ev_classification :: file_review_classification

text \<open>Naming rules and conflicts come from the precheck (\<open>precheck.rs\<close>).\<close>

datatype naming_rule =
    CaseInsensitiveCollision | UnicodeNormalizationCollision | ReservedName | InvalidCharacter
  | ComponentTooLong | PathTooLong | TrailingDotOrSpace

record naming_conflict =
  nc_source_path :: path
  nc_destination_path :: path
  nc_related_path :: "path option"
  nc_rule :: naming_rule

record conflict_entry =
  ce_kind :: conflict_kind
  ce_path :: path
  ce_related :: "path option"
  ce_destination :: "path option"
  ce_rule :: "naming_rule option"
  ce_evidence :: "conflict_evidence list"

definition entry_key :: "conflict_entry \<Rightarrow> conflict_entry_key" where
  "entry_key e = ConflictEntryKey (ce_kind e) (ce_path e) (ce_related e) (ce_destination e)"

text \<open>The decisions of \<open>resolution.rs\<close> that an entry offers.\<close>

datatype conflict_resolution =
  KeepPeerA | KeepPeerB | PreserveBoth | RenamePreserveForReview | Defer

definition all_resolutions :: "conflict_resolution list" where
  "all_resolutions = [KeepPeerA, KeepPeerB, PreserveBoth, RenamePreserveForReview, Defer]"

definition preservation_resolutions :: "conflict_resolution list" where
  "preservation_resolutions = [PreserveBoth, RenamePreserveForReview, Defer]"

definition available_resolutions :: "conflict_entry \<Rightarrow> conflict_resolution list" where
  "available_resolutions e =
     (case ce_kind e of
        SamePath \<Rightarrow> all_resolutions
      | PossibleDuplicateOrRename \<Rightarrow> preservation_resolutions
      | DestinationCompatibility \<Rightarrow> [])"

subsection \<open>Evidence\<close>

text \<open>What opening a file without following a link and reading it answers.\<close>

datatype read_answer = CannotOpen | CannotRead | FileBytes string

definition saturating_succ :: "u64 \<Rightarrow> u64" where
  "saturating_succ n = (if n = -1 then n else n + 1)"

definition classify_file :: "(path \<Rightarrow> read_answer) \<Rightarrow> path \<Rightarrow> u64 \<Rightarrow> file_review_classification" where
  "classify_file fs p limit =
     (case fs p of
        CannotOpen \<Rightarrow> ReviewUnreadable
      | CannotRead \<Rightarrow> ReviewUnreadable
      | FileBytes content \<Rightarrow>
          let bytes = take (unat (saturating_succ limit)) content in
          if unat limit < length bytes then ReviewLarge
          else if NUL \<in> set bytes \<or> \<not> is_utf8 bytes then ReviewBinary
          else ReviewText)"

definition review_evidence ::
  "(path \<Rightarrow> read_answer) \<Rightarrow> inventory_snapshot \<Rightarrow> peer_side \<Rightarrow> snapshot_item \<Rightarrow> u64 \<Rightarrow> conflict_evidence"
  where
  "review_evidence fs inventory side i limit =
     \<lparr>ev_side = side, ev_path = sn_path i, ev_type = sn_type i, ev_size = sn_size i,
      ev_modified = sn_modified i, ev_readonly = sn_readonly i,
      ev_permissions = sn_permissions i, ev_symlink_target = sn_symlink_target i,
      ev_sha256 = sn_fingerprint i,
      ev_classification =
        (if sn_type i \<noteq> RegularFile then ReviewNonRegular
         else if sn_fingerprint i = None then ReviewUnreadable
         else if limit < sn_size i then ReviewLarge
         else classify_file fs (join (snap_root inventory) (sn_path i)) limit)\<rparr>"

subsection \<open>Building a review\<close>

text \<open>\<open>MirrorReviewEquality\<close>: unlike \<open>mirror_equal\<close> it does not look at the
  outcome of the items.\<close>

definition review_equal :: "metadata_requirements \<Rightarrow> snapshot_item \<Rightarrow> snapshot_item \<Rightarrow> bool" where
  "review_equal req l r =
     (if sn_type l \<noteq> sn_type r then False
      else if specialist_any (req_specialist req) then False
      else if sn_type l = RegularFile \<and>
              (sn_size l \<noteq> sn_size r \<or> sn_fingerprint l = None \<or>
               sn_fingerprint l \<noteq> sn_fingerprint r) then False
      else if req_executable_permissions req \<and>
              sn_executable_permissions l \<noteq> sn_executable_permissions r then False
      else if req_symlink_targets req \<and> sn_symlink_target l \<noteq> sn_symlink_target r then False
      else if req_timestamps req then sn_modified l = sn_modified r
      else True)"

definition included_snap_items :: "inventory_snapshot \<Rightarrow> snapshot_item list" where
  "included_snap_items s = filter (\<lambda>i. sn_outcome i = Included) (snap_items s)"

definition same_path_entry ::
  "(path \<Rightarrow> read_answer) \<Rightarrow> inventory_snapshot \<Rightarrow> inventory_snapshot \<Rightarrow> u64
    \<Rightarrow> snapshot_item \<Rightarrow> snapshot_item \<Rightarrow> path \<Rightarrow> conflict_entry" where
  "same_path_entry fs a b limit l r p =
     \<lparr>ce_kind = SamePath, ce_path = p, ce_related = None, ce_destination = None, ce_rule = None,
      ce_evidence = [review_evidence fs a PeerA l limit, review_evidence fs b PeerB r limit]\<rparr>"

definition same_path_row ::
  "(path \<Rightarrow> read_answer) \<Rightarrow> inventory_snapshot \<Rightarrow> inventory_snapshot \<Rightarrow> metadata_requirements
    \<Rightarrow> u64 \<Rightarrow> path \<Rightarrow> conflict_entry option" where
  "same_path_row fs a b req limit p =
     (case snap_item a p of
        None \<Rightarrow> None
      | Some l \<Rightarrow>
          (case snap_item b p of
             None \<Rightarrow> None
           | Some r \<Rightarrow>
               if review_equal req l r then None else Some (same_path_entry fs a b limit l r p)))"

definition same_path_entries ::
  "(path \<Rightarrow> read_answer) \<Rightarrow> inventory_snapshot \<Rightarrow> inventory_snapshot \<Rightarrow> metadata_requirements
    \<Rightarrow> u64 \<Rightarrow> conflict_entry list" where
  "same_path_entries fs a b req limit =
     List.map_filter (same_path_row fs a b req limit)
       (btree_set (map sn_path (included_snap_items a) @ map sn_path (included_snap_items b)))"

record location =
  loc_hash :: sha256
  loc_side :: peer_side
  loc_path :: path
  loc_evidence :: conflict_evidence

fun side_rank :: "peer_side \<Rightarrow> nat" where
  "side_rank PeerA = 0"
| "side_rank PeerB = 1"

definition location_of ::
  "(path \<Rightarrow> read_answer) \<Rightarrow> peer_side \<Rightarrow> inventory_snapshot \<Rightarrow> u64 \<Rightarrow> snapshot_item \<Rightarrow> location option"
  where
  "location_of fs side s limit i =
     (if sn_type i = RegularFile
      then (case sn_fingerprint i of
              Some h \<Rightarrow>
                Some \<lparr>loc_hash = h, loc_side = side, loc_path = sn_path i,
                      loc_evidence = review_evidence fs s side i limit\<rparr>
            | None \<Rightarrow> None)
      else None)"

definition locations_of ::
  "(path \<Rightarrow> read_answer) \<Rightarrow> peer_side \<Rightarrow> inventory_snapshot \<Rightarrow> u64 \<Rightarrow> location list" where
  "locations_of fs side s limit =
     List.map_filter (location_of fs side s limit) (included_snap_items s)"

definition loc_rank :: "location \<Rightarrow> nat \<times> path" where
  "loc_rank l = (side_rank (loc_side l), loc_path l)"

definition duplicate_entry :: "location \<Rightarrow> location \<Rightarrow> conflict_entry" where
  "duplicate_entry l m =
     \<lparr>ce_kind = PossibleDuplicateOrRename, ce_path = loc_path l, ce_related = Some (loc_path m),
      ce_destination = None, ce_rule = None, ce_evidence = [loc_evidence l, loc_evidence m]\<rparr>"

fun duplicate_entries :: "location list \<Rightarrow> conflict_entry list" where
  "duplicate_entries [] = []"
| "duplicate_entries (l # ls) =
     map (duplicate_entry l)
       (filter (\<lambda>m. \<not> (loc_hash l \<noteq> loc_hash m \<or> loc_path l = loc_path m)) ls) @
     duplicate_entries ls"

definition review_with_limit ::
  "(path \<Rightarrow> read_answer) \<Rightarrow> inventory_snapshot \<Rightarrow> inventory_snapshot \<Rightarrow> metadata_requirements
    \<Rightarrow> u64 \<Rightarrow> conflict_entry list" where
  "review_with_limit fs a b req limit =
     same_path_entries fs a b req limit @
     duplicate_entries
       (sort_by loc_rank (locations_of fs PeerA a limit @ locations_of fs PeerB b limit))"

definition DEFAULT_TEXT_PREVIEW_LIMIT :: u64 where
  "DEFAULT_TEXT_PREVIEW_LIMIT = 1048576"

definition review_from_inventories ::
  "(path \<Rightarrow> read_answer) \<Rightarrow> inventory_snapshot \<Rightarrow> inventory_snapshot \<Rightarrow> metadata_requirements
    \<Rightarrow> conflict_entry list" where
  "review_from_inventories fs a b req = review_with_limit fs a b req DEFAULT_TEXT_PREVIEW_LIMIT"

definition compatibility_entry :: "naming_conflict \<Rightarrow> conflict_entry" where
  "compatibility_entry c =
     \<lparr>ce_kind = DestinationCompatibility, ce_path = nc_source_path c,
      ce_related = nc_related_path c, ce_destination = Some (nc_destination_path c),
      ce_rule = Some (nc_rule c), ce_evidence = []\<rparr>"

definition add_compatibility_conflicts ::
  "conflict_entry list \<Rightarrow> naming_conflict list \<Rightarrow> conflict_entry list" where
  "add_compatibility_conflicts entries conflicts =
     sort_by (\<lambda>e. (ce_path e, kind_rank (ce_kind e))) (entries @ map compatibility_entry conflicts)"

definition review_with_compatibility ::
  "(path \<Rightarrow> read_answer) \<Rightarrow> inventory_snapshot \<Rightarrow> inventory_snapshot \<Rightarrow> metadata_requirements
    \<Rightarrow> naming_conflict list \<Rightarrow> conflict_entry list" where
  "review_with_compatibility fs a b req conflicts =
     add_compatibility_conflicts (review_from_inventories fs a b req) conflicts"

definition review_from_analysis :: "(path \<Rightarrow> read_answer) \<Rightarrow> fresh_analysis \<Rightarrow> conflict_entry list" where
  "review_from_analysis fs fa =
     review_from_inventories fs (snapshot_of_inventory (fa_source fa))
       (snapshot_of_inventory (fa_destination fa)) (val_metadata (spec_options (fa_specification fa)))"

definition review_from_profile ::
  "(path \<Rightarrow> read_answer) \<Rightarrow> file_system \<Rightarrow> sync_profile \<Rightarrow> analysis_error + conflict_entry list" where
  "review_from_profile fs files prof =
     (case analyze files prof of Inl e \<Rightarrow> Err e | Inr fa \<Rightarrow> Ok (review_from_analysis fs fa))"

subsection \<open>Lemmas\<close>

lemma review_equal_included:
  assumes "sn_outcome l = Included" and "sn_outcome r = Included"
  shows "review_equal req l r = mirror_equal req l r"
proof -
  have parts: "mirror_equal req l r = equal_parts req (snapshot_parts l) (snapshot_parts r)"
    using assms by (simp add: mirror_equal_def)
  show ?thesis
    unfolding parts review_equal_def equal_parts_def snapshot_parts_def normalize_modified_at_def
    by (simp only: compared.select_convs if_False if_True if_cancel Option.bind_runit
        simp_thms split: if_splits) argo
qed

lemma set_map_filter_iff: "y \<in> set (List.map_filter f xs) \<longleftrightarrow> (\<exists>x \<in> set xs. f x = Some y)"
  by (induction xs) (auto split: option.splits)

lemma same_path_entry_simps [simp]:
  "ce_kind (same_path_entry fs a b limit l r p) = SamePath"
  "ce_path (same_path_entry fs a b limit l r p) = p"
  by (simp_all add: same_path_entry_def)

lemma same_path_row_Some:
  "same_path_row fs a b req limit p = Some e \<longleftrightarrow>
     (\<exists>l r. snap_item a p = Some l \<and> snap_item b p = Some r \<and> \<not> review_equal req l r \<and>
        e = same_path_entry fs a b limit l r p)"
  by (cases "snap_item a p"; cases "snap_item b p") (auto simp: same_path_row_def)

lemma duplicate_entry_simps [simp]:
  "ce_kind (duplicate_entry l m) = PossibleDuplicateOrRename"
  "ce_path (duplicate_entry l m) = loc_path l"
  "ce_related (duplicate_entry l m) = Some (loc_path m)"
  by (simp_all add: duplicate_entry_def)

lemma duplicate_entries_kind: "e \<in> set (duplicate_entries ls) \<Longrightarrow> ce_kind e = PossibleDuplicateOrRename"
  by (induction ls) auto

lemma same_path_entries_kind: "e \<in> set (same_path_entries fs a b req limit) \<Longrightarrow> ce_kind e = SamePath"
  by (auto simp: same_path_entries_def set_map_filter_iff same_path_row_Some)

text \<open>A key of a map-filtered list is a subsequence of the list it was made from.\<close>

lemma map_filter_key_subseq:
  assumes "\<And>x y. f x = Some y \<Longrightarrow> g y = h x"
  shows "subseq (map g (List.map_filter f xs)) (map h xs)"
proof (induction xs)
  case (Cons x xs)
  then show ?case by (cases "f x") (auto dest: assms)
qed simp

lemma subseq_sorted_distinct:
  "subseq xs ys \<Longrightarrow> sorted ys \<and> distinct ys \<Longrightarrow> sorted xs \<and> distinct xs"
  by (induction rule: list_emb.induct) (auto dest: list_emb_set)

lemma subseq_distinct_keys: "subseq xs ys \<Longrightarrow> distinct ys \<Longrightarrow> distinct xs"
  by (induction rule: list_emb.induct) (auto dest: list_emb_set)

lemma same_path_rows:
  "sorted (map ce_path (same_path_entries fs a b req limit)) \<and>
   distinct (map ce_path (same_path_entries fs a b req limit))"
proof -
  have "subseq (map ce_path (same_path_entries fs a b req limit)) (map (\<lambda>p. p)
    (btree_set (map sn_path (included_snap_items a) @ map sn_path (included_snap_items b))))"
    unfolding same_path_entries_def
    by (rule map_filter_key_subseq) (auto simp: same_path_row_Some)
  then show ?thesis
    by (rule subseq_sorted_distinct) simp
qed

lemma included_path_iff:
  assumes "distinct (map sn_path (snap_items s))"
  shows "p \<in> sn_path ` set (included_snap_items s) \<longleftrightarrow>
    (\<exists>i. snap_item s p = Some i \<and> sn_outcome i = Included)"
  using snap.lookup_eq_iff[OF assms, of p]
  by (auto simp: included_snap_items_def image_iff)

lemma same_path_entries_iff:
  assumes "distinct (map sn_path (snap_items a))" and "distinct (map sn_path (snap_items b))"
  shows "e \<in> set (same_path_entries fs a b req limit) \<longleftrightarrow>
    (\<exists>p l r. e = same_path_entry fs a b limit l r p \<and> snap_item a p = Some l \<and>
       snap_item b p = Some r \<and> (sn_outcome l = Included \<or> sn_outcome r = Included) \<and>
       \<not> review_equal req l r)"
proof -
  have "e \<in> set (same_path_entries fs a b req limit) \<longleftrightarrow>
    (\<exists>p. (p \<in> sn_path ` set (included_snap_items a) \<or> p \<in> sn_path ` set (included_snap_items b)) \<and>
       same_path_row fs a b req limit p = Some e)"
    by (simp add: same_path_entries_def set_map_filter_iff Bex_def)
  also have "\<dots> \<longleftrightarrow> (\<exists>p l r. e = same_path_entry fs a b limit l r p \<and> snap_item a p = Some l \<and>
       snap_item b p = Some r \<and> (sn_outcome l = Included \<or> sn_outcome r = Included) \<and>
       \<not> review_equal req l r)"
    unfolding included_path_iff[OF assms(1)] included_path_iff[OF assms(2)] same_path_row_Some
    by (intro iffI; elim exE conjE disjE) auto
  finally show ?thesis .
qed

subsection \<open>Equal contents\<close>

text \<open>That an included regular file with this content is at a path of a side.\<close>

definition holds_content ::
  "inventory_snapshot \<Rightarrow> inventory_snapshot \<Rightarrow> peer_side \<Rightarrow> path \<Rightarrow> sha256 \<Rightarrow> bool" where
  "holds_content a b side p h =
     (\<exists>i \<in> set (snap_items (case side of PeerA \<Rightarrow> a | PeerB \<Rightarrow> b)).
        sn_path i = p \<and> sn_outcome i = Included \<and> sn_type i = RegularFile \<and>
        sn_fingerprint i = Some h)"

lemma location_of_Some:
  "location_of fs side s limit i = Some l \<longleftrightarrow>
     sn_type i = RegularFile \<and> sn_fingerprint i = Some (loc_hash l) \<and> loc_side l = side \<and>
     loc_path l = sn_path i \<and> loc_evidence l = review_evidence fs s side i limit"
  by (cases "sn_fingerprint i"; cases l) (auto simp: location_of_def)

lemma locations_of_fields:
  "l \<in> set (locations_of fs side s limit) \<longleftrightarrow>
     (\<exists>i \<in> set (snap_items s). sn_outcome i = Included \<and> sn_type i = RegularFile \<and>
        sn_fingerprint i = Some (loc_hash l) \<and> loc_side l = side \<and> loc_path l = sn_path i \<and>
        loc_evidence l = review_evidence fs s side i limit)"
  by (auto simp: locations_of_def set_map_filter_iff location_of_Some included_snap_items_def)

lemma locations_of_paths:
  assumes "distinct (map sn_path (snap_items s))"
  shows "distinct (map loc_path (locations_of fs side s limit))"
proof -
  have "subseq (map loc_path (locations_of fs side s limit)) (map sn_path (included_snap_items s))"
    unfolding locations_of_def by (rule map_filter_key_subseq) (simp add: location_of_Some)
  moreover have "distinct (map sn_path (included_snap_items s))"
    using assms by (simp add: included_snap_items_def distinct_map_filter)
  ultimately show ?thesis by (rule subseq_distinct_keys)
qed

lemma side_rank_eq [simp]: "side_rank s = side_rank t \<longleftrightarrow> s = t"
  by (cases s; cases t) simp_all

definition content_locations ::
  "(path \<Rightarrow> read_answer) \<Rightarrow> inventory_snapshot \<Rightarrow> inventory_snapshot \<Rightarrow> u64 \<Rightarrow> location list" where
  "content_locations fs a b limit =
     sort_by loc_rank (locations_of fs PeerA a limit @ locations_of fs PeerB b limit)"

lemma locations_of_side: "l \<in> set (locations_of fs side s limit) \<Longrightarrow> loc_side l = side"
  by (auto simp: locations_of_fields)

lemma locations_of_ranks:
  "distinct (map sn_path (snap_items s)) \<Longrightarrow> distinct (map loc_rank (locations_of fs side s limit))"
  using locations_of_paths[of s fs side limit]
  by (simp add: distinct_map inj_on_def loc_rank_def)

lemma content_locations_sorted:
  assumes "distinct (map sn_path (snap_items a))" and "distinct (map sn_path (snap_items b))"
  shows "sorted_wrt (\<lambda>l m. loc_rank l < loc_rank m) (content_locations fs a b limit)"
proof -
  let ?a = "locations_of fs PeerA a limit" and ?b = "locations_of fs PeerB b limit"
  have "loc_rank l \<noteq> loc_rank m" if "l \<in> set ?a" "m \<in> set ?b" for l m
    using locations_of_side[OF that(1)] locations_of_side[OF that(2)] by (simp add: loc_rank_def)
  then have "loc_rank ` set ?a \<inter> loc_rank ` set ?b = {}"
    by blast
  then have "distinct (map loc_rank (?a @ ?b))"
    using locations_of_ranks[OF assms(1)] locations_of_ranks[OF assms(2)] by simp
  then have "distinct (map loc_rank (content_locations fs a b limit))"
    unfolding content_locations_def by simp
  then have "sorted_wrt (<) (map loc_rank (content_locations fs a b limit))"
    unfolding strict_sorted_iff by (simp add: content_locations_def)
  then show ?thesis
    unfolding sorted_wrt_map .
qed

lemma duplicate_entries_iff:
  "sorted_wrt (\<lambda>l m. loc_rank l < loc_rank m) ls \<Longrightarrow>
   e \<in> set (duplicate_entries ls) \<longleftrightarrow>
     (\<exists>l m. e = duplicate_entry l m \<and> l \<in> set ls \<and> m \<in> set ls \<and> loc_rank l < loc_rank m \<and>
        loc_hash l = loc_hash m \<and> loc_path l \<noteq> loc_path m)"
proof (induction ls)
  case (Cons x ls)
  from Cons.prems have below: "\<forall>m \<in> set ls. loc_rank x < loc_rank m" and "sorted_wrt (\<lambda>l m. loc_rank l < loc_rank m) ls"
    by simp_all
  note IH = Cons.IH[OF this(2)]
  have split: "e \<in> set (duplicate_entries (x # ls)) \<longleftrightarrow>
      (\<exists>m \<in> set ls. e = duplicate_entry x m \<and> loc_hash x = loc_hash m \<and> loc_path x \<noteq> loc_path m) \<or>
      e \<in> set (duplicate_entries ls)"
    by auto
  have "\<not> loc_rank l < loc_rank x" if "l \<in> set (x # ls)" for l
    using that below by (auto dest: less_asym)
  then have pair: "l = x \<and> m \<in> set ls \<or> l \<in> set ls \<and> m \<in> set ls"
    if "l \<in> set (x # ls)" "m \<in> set (x # ls)" "loc_rank l < loc_rank m" for l m
    using that by fastforce
  show ?case
    unfolding split IH
  proof (intro iffI)
    assume "\<exists>l m. e = duplicate_entry l m \<and> l \<in> set (x # ls) \<and> m \<in> set (x # ls) \<and>
      loc_rank l < loc_rank m \<and> loc_hash l = loc_hash m \<and> loc_path l \<noteq> loc_path m"
    then show "(\<exists>m \<in> set ls. e = duplicate_entry x m \<and> loc_hash x = loc_hash m \<and> loc_path x \<noteq> loc_path m) \<or>
      (\<exists>l m. e = duplicate_entry l m \<and> l \<in> set ls \<and> m \<in> set ls \<and> loc_rank l < loc_rank m \<and>
        loc_hash l = loc_hash m \<and> loc_path l \<noteq> loc_path m)"
      using pair by metis
  qed (use below in \<open>fastforce\<close>)
qed simp

lemma location_content_iff:
  "(\<exists>l \<in> set (locations_of fs side s limit). loc_path l = p \<and> loc_hash l = h) \<longleftrightarrow>
   (\<exists>i \<in> set (snap_items s). sn_path i = p \<and> sn_outcome i = Included \<and> sn_type i = RegularFile \<and>
      sn_fingerprint i = Some h)" (is "?L \<longleftrightarrow> ?R")
proof
  assume ?R
  then obtain i where i: "i \<in> set (snap_items s)" "sn_path i = p" "sn_outcome i = Included"
    "sn_type i = RegularFile" "sn_fingerprint i = Some h" by blast
  let ?l = "\<lparr>loc_hash = h, loc_side = side, loc_path = p, loc_evidence = review_evidence fs s side i limit\<rparr>"
  from i have "?l \<in> set (locations_of fs side s limit)"
    by (auto simp: locations_of_fields)
  then show ?L by (rule bexI[rotated]) simp
next
  assume ?L
  then obtain l where "l \<in> set (locations_of fs side s limit)" "loc_path l = p" "loc_hash l = h"
    by blast
  then show ?R unfolding locations_of_fields by metis
qed

lemma content_location_iff:
  "(\<exists>l \<in> set (content_locations fs a b limit). loc_rank l = (side_rank side, p) \<and> loc_hash l = h) \<longleftrightarrow>
   holds_content a b side p h"
proof -
  let ?s = "case side of PeerA \<Rightarrow> a | PeerB \<Rightarrow> b"
  have at_side: "l \<in> set (content_locations fs a b limit) \<and> loc_side l = side \<longleftrightarrow>
    l \<in> set (locations_of fs side ?s limit)" for l
    by (cases side) (auto simp: content_locations_def dest: locations_of_side)
  have "(\<exists>l \<in> set (content_locations fs a b limit). loc_rank l = (side_rank side, p) \<and> loc_hash l = h) \<longleftrightarrow>
    (\<exists>l \<in> set (locations_of fs side ?s limit). loc_path l = p \<and> loc_hash l = h)"
    unfolding Bex_def at_side[symmetric] loc_rank_def by auto
  then show ?thesis
    by (simp add: location_content_iff holds_content_def)
qed

lemma duplicate_row_iff:
  assumes "sorted_wrt (\<lambda>l m. loc_rank l < loc_rank m) ls"
  shows "(\<exists>d \<in> set (duplicate_entries ls). ce_path d = p \<and> ce_related d = Some q) \<longleftrightarrow>
    (\<exists>l m. l \<in> set ls \<and> m \<in> set ls \<and> loc_path l = p \<and> loc_path m = q \<and> loc_rank l < loc_rank m \<and>
       loc_hash l = loc_hash m \<and> p \<noteq> q)" (is "?L \<longleftrightarrow> ?R")
proof
  assume ?L
  then obtain d l m where "ce_path d = p" "ce_related d = Some q" "d = duplicate_entry l m"
    "l \<in> set ls" "m \<in> set ls" "loc_rank l < loc_rank m" "loc_hash l = loc_hash m"
    "loc_path l \<noteq> loc_path m"
    using duplicate_entries_iff[OF assms] by metis
  then show ?R by (intro exI[of _ l] exI[of _ m]) simp
next
  assume ?R
  then obtain l m where "l \<in> set ls" "m \<in> set ls" "loc_path l = p" "loc_path m = q"
    "loc_rank l < loc_rank m" "loc_hash l = loc_hash m" "p \<noteq> q" by metis
  moreover from this have "duplicate_entry l m \<in> set (duplicate_entries ls)"
    using duplicate_entries_iff[OF assms] by metis
  ultimately show ?L by (intro bexI[of _ "duplicate_entry l m"]) simp_all
qed

subsection \<open>Properties\<close>


definition example_snap_file :: "string \<Rightarrow> sha256 \<Rightarrow> snapshot_item" where
  "example_snap_file name hash =
     \<lparr>sn_path = [Normal name], sn_type = RegularFile, sn_outcome = Included, sn_size = 3,
      sn_modified = None, sn_readonly = False, sn_permissions = None, sn_symlink_target = None,
      sn_fingerprint = Some hash\<rparr>"

definition example_snap :: "string \<Rightarrow> snapshot_item list \<Rightarrow> inventory_snapshot" where
  "example_snap name items = \<lparr>snap_peer_name = name, snap_root = [RootDir, Normal name], snap_items = items\<rparr>"


text \<open>The key of a row is meant to be its stable identity, but two peers in sync that both have
  a file and its copy give three rows of one key: the pair on each peer and the pair across
  them. One decision answers all three.\<close>

lemma duplicate_rows_share_a_key:
  "length (filter
      (\<lambda>e. entry_key e = ConflictEntryKey PossibleDuplicateOrRename [Normal ''x''] (Some [Normal ''y'']) None)
      (review_with_limit (\<lambda>_. FileBytes ''abc'')
        (example_snap ''a'' [example_snap_file ''x'' ''h'', example_snap_file ''y'' ''h''])
        (example_snap ''b'' [example_snap_file ''x'' ''h'', example_snap_file ''y'' ''h''])
        default_metadata_requirements 10)) = 3"
  by code_simp

end
