(* ===== verification/Resolution.thy ===== *)
theory Resolution
  imports Conflict Decisions
begin

text \<open>
  Decisions on a conflict review (\<open>resolution.rs\<close>) and the transfer plan made of the
  decided copies (\<open>resolution_transfer_plan\<close> of \<open>analysis.rs\<close>).
\<close>

subsection \<open>Decisions and actions\<close>

record conflict_decision =
  cd_key :: conflict_entry_key
  cd_resolution :: conflict_resolution

definition decision_new :: "path \<Rightarrow> conflict_resolution \<Rightarrow> conflict_decision" where
  "decision_new p r = \<lparr>cd_key = same_path_key p, cd_resolution = r\<rparr>"

definition decision_for_entry :: "conflict_entry \<Rightarrow> conflict_resolution \<Rightarrow> conflict_decision" where
  "decision_for_entry e r = \<lparr>cd_key = entry_key e, cd_resolution = r\<rparr>"

definition decision_path :: "conflict_decision \<Rightarrow> path" where
  "decision_path d = key_path (cd_key d)"

datatype conflict_resolution_error =
    MissingDecision path
  | UnknownConflict path
  | UnavailableResolution path conflict_resolution
  | DuplicateDecision path
  | FinalConfirmationRequired

datatype resolution_operation =
  CopyWholeFile | OpPreserveBoth | OpRenamePreserveForReview | OpDefer

record conflict_resolution_action =
  ra_key :: conflict_entry_key
  ra_path :: path
  ra_resolution :: conflict_resolution
  ra_operation :: resolution_operation
  ra_source_side :: "peer_side option"
  ra_target_side :: "peer_side option"

definition resolution_parts ::
  "conflict_resolution \<Rightarrow> resolution_operation \<times> peer_side option \<times> peer_side option" where
  "resolution_parts r =
     (case r of
        KeepPeerA \<Rightarrow> (CopyWholeFile, Some PeerA, Some PeerB)
      | KeepPeerB \<Rightarrow> (CopyWholeFile, Some PeerB, Some PeerA)
      | PreserveBoth \<Rightarrow> (OpPreserveBoth, None, None)
      | RenamePreserveForReview \<Rightarrow> (OpRenamePreserveForReview, None, None)
      | Defer \<Rightarrow> (OpDefer, None, None))"

definition action_from_decision :: "conflict_decision \<Rightarrow> conflict_resolution_action" where
  "action_from_decision d =
     (let (oper, src, target) = resolution_parts (cd_resolution d) in
      \<lparr>ra_key = cd_key d, ra_path = decision_path d, ra_resolution = cd_resolution d,
       ra_operation = oper, ra_source_side = src, ra_target_side = target\<rparr>)"

definition action_mutates_files :: "conflict_resolution_action \<Rightarrow> bool" where
  "action_mutates_files a = (ra_operation a = CopyWholeFile)"

subsection \<open>Resolving a review\<close>

fun resolve_loop ::
  "conflict_entry list \<Rightarrow> conflict_decision list \<Rightarrow> conflict_entry_key list
    \<Rightarrow> conflict_resolution_action list
    \<Rightarrow> conflict_resolution_error + conflict_entry_key list \<times> conflict_resolution_action list" where
  "resolve_loop entries [] seen acts = Ok (seen, acts)"
| "resolve_loop entries (d # ds) seen acts =
     (case List.find (\<lambda>e. entry_key e = cd_key d) entries of
        None \<Rightarrow> Err (UnknownConflict (decision_path d))
      | Some e \<Rightarrow>
          if cd_resolution d \<notin> set (available_resolutions e)
          then Err (UnavailableResolution (decision_path d) (cd_resolution d))
          else if cd_key d \<in> set seen then Err (DuplicateDecision (decision_path d))
          else resolve_loop entries ds (cd_key d # seen) (acts @ [action_from_decision d]))"

definition expected_keys :: "conflict_entry list \<Rightarrow> conflict_entry_key list" where
  "expected_keys entries =
     btree_set (map entry_key (filter (\<lambda>e. available_resolutions e \<noteq> []) entries))"

definition resolve ::
  "conflict_entry list \<Rightarrow> conflict_decision list
    \<Rightarrow> conflict_resolution_error + conflict_resolution_action list" where
  "resolve entries ds =
     result_bind (resolve_loop entries ds [] []) (\<lambda>(seen, acts).
       case first_missing (expected_keys entries) seen of
         Some k \<Rightarrow> Err (MissingDecision (key_path k))
       | None \<Rightarrow> Ok (sort_by ra_path acts))"

text \<open>A plan and a confirmed plan hold the same actions; only \<open>confirm\<close> leads from the one
  to the other.\<close>

datatype confirmed_resolution_plan =
  ConfirmedResolutionPlan (confirmed_actions: "conflict_resolution_action list")

definition confirm_resolution ::
  "conflict_resolution_action list \<Rightarrow> bool \<Rightarrow> conflict_resolution_error + confirmed_resolution_plan" where
  "confirm_resolution acts final =
     (if \<not> final then Err FinalConfirmationRequired else Ok (ConfirmedResolutionPlan acts))"

definition resolution_requires_review :: "confirmed_resolution_plan \<Rightarrow> bool" where
  "resolution_requires_review c =
     list_ex (\<lambda>a. ra_resolution a \<in> {PreserveBoth, RenamePreserveForReview, Defer}) (confirmed_actions c)"

subsection \<open>The transfer plan of a resolution\<close>

definition resolution_action ::
  "fresh_analysis \<Rightarrow> nat \<times> conflict_resolution_action \<Rightarrow> analysis_error + plan_action" where
  "resolution_action fa indexed =
     (let (index, a) = indexed in
      case ra_source_side a of
        None \<Rightarrow> Err (PlanFailure (ActionNotInPlan (ra_path a)))
      | Some side \<Rightarrow>
          (case inv_item (case side of PeerA \<Rightarrow> fa_source fa | PeerB \<Rightarrow> fa_destination fa) (ra_path a) of
             None \<Rightarrow> Err (PlanFailure (ActionNotInPlan (ra_path a)))
           | Some i \<Rightarrow>
               if \<not> is_eligible i then Err (PlanFailure (ActionOutsideApprovedScope (ra_path a)))
               else Ok \<lparr>pa_id = index + 1, pa_path = ra_path a, pa_kind = CopyToDestination,
                        pa_consequence = mirror_consequence_for CopyToDestination side,
                        pa_source_side = side, pa_size = data_size i\<rparr>))"

fun resolution_actions ::
  "fresh_analysis \<Rightarrow> (nat \<times> conflict_resolution_action) list \<Rightarrow> analysis_error + plan_action list" where
  "resolution_actions fa [] = Ok []"
| "resolution_actions fa (x # xs) =
     (if ra_operation (snd x) \<noteq> CopyWholeFile then resolution_actions fa xs
      else result_bind (resolution_action fa x) (\<lambda>a.
           result_bind (resolution_actions fa xs) (\<lambda>as. Ok (a # as))))"

definition resolution_transfer_plan ::
  "fresh_analysis \<Rightarrow> conflict_resolution_action list \<Rightarrow> analysis_error + one_way_plan" where
  "resolution_transfer_plan fa acts =
     result_bind (resolution_actions fa (enumerate 0 acts)) (\<lambda>as.
     let plan = \<lparr>plan_specification = fa_specification fa, plan_source = fa_source fa,
                 plan_destination = fa_destination fa,
                 plan_scope = mirror_approved_scope (fa_source fa) (fa_destination fa),
                 plan_actions = as,
                 plan_summary_of = mirror_summary_for as (fa_source fa) (fa_destination fa)\<rparr> in
     case validate_plan plan of Inl e \<Rightarrow> Err (PlanFailure e) | Inr _ \<Rightarrow> Ok plan)"

subsection \<open>Lemmas\<close>

definition decision_refused :: "conflict_entry list \<Rightarrow> conflict_decision \<Rightarrow> conflict_resolution_error option" where
  "decision_refused entries d =
     (case List.find (\<lambda>e. entry_key e = cd_key d) entries of
        None \<Rightarrow> Some (UnknownConflict (decision_path d))
      | Some e \<Rightarrow>
          if cd_resolution d \<notin> set (available_resolutions e)
          then Some (UnavailableResolution (decision_path d) (cd_resolution d)) else None)"

interpretation res: decision_loop "resolve_loop entries" cd_key action_from_decision
  "decision_refused entries" "\<lambda>d. DuplicateDecision (decision_path d)" for entries
  by unfold_locales (auto simp: decision_refused_def split: option.splits)

text \<open>What each kind of conflict offers.\<close>

definition offered :: "conflict_kind \<Rightarrow> conflict_resolution set" where
  "offered k =
     (case k of
        SamePath \<Rightarrow> UNIV
      | PossibleDuplicateOrRename \<Rightarrow> {PreserveBoth, RenamePreserveForReview, Defer}
      | DestinationCompatibility \<Rightarrow> {})"

lemma available_offered: "set (available_resolutions e) = offered (ce_kind e)"
proof (cases "ce_kind e")
  case SamePath
  moreover have "r \<in> set all_resolutions" for r
    by (cases r) (simp_all add: all_resolutions_def)
  ultimately show ?thesis
    by (auto simp: available_resolutions_def offered_def)
qed (auto simp: available_resolutions_def offered_def preservation_resolutions_def)

lemma offered_nonempty [simp]: "offered k = {} \<longleftrightarrow> k = DestinationCompatibility"
  by (cases k) (auto simp: offered_def)

lemma available_Nil_iff: "available_resolutions e = [] \<longleftrightarrow> ce_kind e = DestinationCompatibility"
  using available_offered[of e] by (metis offered_nonempty set_empty)

lemma key_kind_entry_key [simp]: "key_kind (entry_key e) = ce_kind e"
  by (simp add: entry_key_def)

lemma key_path_entry_key [simp]: "key_path (entry_key e) = ce_path e"
  by (simp add: entry_key_def)

lemma decision_refused_None:
  "decision_refused entries d = None \<longleftrightarrow>
     cd_key d \<in> entry_key ` set entries \<and> cd_resolution d \<in> offered (key_kind (cd_key d))"
proof (cases "List.find (\<lambda>e. entry_key e = cd_key d) entries")
  case None
  then have "cd_key d \<notin> entry_key ` set entries"
    unfolding find_None_iff_all by (auto dest: sym)
  with None show ?thesis by (simp add: decision_refused_def)
next
  case (Some e)
  then have e: "e \<in> set entries" "entry_key e = cd_key d"
    by (auto dest: find_Some_D)
  then have "cd_key d \<in> entry_key ` set entries" "ce_kind e = key_kind (cd_key d)"
    by (metis imageI, metis key_kind_entry_key)
  with Some show ?thesis
    by (simp add: decision_refused_def available_offered)
qed

lemma decision_refused_Some:
  assumes "decision_refused entries d = Some e"
  shows "e = UnknownConflict (decision_path d) \<and> cd_key d \<notin> entry_key ` set entries \<or>
    e = UnavailableResolution (decision_path d) (cd_resolution d) \<and>
    cd_resolution d \<notin> offered (key_kind (cd_key d))"
proof (cases "List.find (\<lambda>e. entry_key e = cd_key d) entries")
  case None
  then have "cd_key d \<notin> entry_key ` set entries"
    unfolding find_None_iff_all by (auto dest: sym)
  with assms None show ?thesis by (simp add: decision_refused_def)
next
  case (Some x)
  from find_Some_D[OF Some] have "entry_key x = cd_key d" by simp
  then have "ce_kind x = key_kind (cd_key d)"
    by (simp flip: key_kind_entry_key)
  with assms Some show ?thesis
    by (cases "cd_resolution d \<in> offered (key_kind (cd_key d))")
      (simp_all add: decision_refused_def available_offered)
qed

definition decidable_keys :: "conflict_entry list \<Rightarrow> conflict_entry_key set" where
  "decidable_keys entries = entry_key ` {e \<in> set entries. ce_kind e \<noteq> DestinationCompatibility}"

lemma set_expected_keys: "set (expected_keys entries) = decidable_keys entries"
  by (auto simp: expected_keys_def decidable_keys_def available_Nil_iff)

lemma offered_keys_decidable:
  "cd_key d \<in> entry_key ` set entries \<Longrightarrow> cd_resolution d \<in> offered (key_kind (cd_key d)) \<Longrightarrow>
   cd_key d \<in> decidable_keys entries"
  unfolding decidable_keys_def
  by (elim imageE, intro image_eqI) (auto simp: offered_def)

lemma resolve_Ok_iff:
  "resolve entries ds = Ok acts \<longleftrightarrow>
     distinct (map cd_key ds) \<and> cd_key ` set ds = decidable_keys entries \<and>
     (\<forall>d \<in> set ds. cd_resolution d \<in> offered (key_kind (cd_key d))) \<and>
     acts = sort_by ra_path (map action_from_decision ds)"
proof -
  have keys: "cd_key ` set ds \<subseteq> decidable_keys entries"
    if "\<forall>d \<in> set ds. decision_refused entries d = None"
    using that offered_keys_decidable unfolding decision_refused_None by blast
  have known: "\<forall>d \<in> set ds. decision_refused entries d = None"
    if "cd_key ` set ds = decidable_keys entries"
      and "\<forall>d \<in> set ds. cd_resolution d \<in> offered (key_kind (cd_key d))"
    using that unfolding decision_refused_None decidable_keys_def by blast
  have "resolve entries ds = Ok acts \<longleftrightarrow>
      (\<forall>d \<in> set ds. decision_refused entries d = None) \<and> distinct (map cd_key ds) \<and>
      decidable_keys entries \<subseteq> cd_key ` set ds \<and> acts = sort_by ra_path (map action_from_decision ds)"
    by (auto simp: resolve_def res.loop_Ok_iff set_expected_keys split: option.splits prod.splits
        simp del: not_None_eq dest!: first_missing_Some)
  also have "\<dots> \<longleftrightarrow> distinct (map cd_key ds) \<and> cd_key ` set ds = decidable_keys entries \<and>
     (\<forall>d \<in> set ds. cd_resolution d \<in> offered (key_kind (cd_key d))) \<and>
     acts = sort_by ra_path (map action_from_decision ds)"
    using keys known by (auto simp: decision_refused_None)
  finally show ?thesis .
qed

lemma action_from_decision_simps [simp]:
  "ra_key (action_from_decision d) = cd_key d"
  "ra_path (action_from_decision d) = decision_path d"
  "ra_resolution (action_from_decision d) = cd_resolution d"
  by (simp_all add: action_from_decision_def split: prod.splits)

lemma action_mutates_iff:
  "action_mutates_files (action_from_decision d) \<longleftrightarrow> cd_resolution d \<in> {KeepPeerA, KeepPeerB}"
  by (cases "cd_resolution d")
    (simp_all add: action_mutates_files_def action_from_decision_def resolution_parts_def)

lemma action_source_side:
  "ra_source_side (action_from_decision d) =
     (case cd_resolution d of KeepPeerA \<Rightarrow> Some PeerA | KeepPeerB \<Rightarrow> Some PeerB | _ \<Rightarrow> None)"
  by (cases "cd_resolution d") (simp_all add: action_from_decision_def resolution_parts_def)

lemma keep_needs_same_path:
  "cd_resolution d \<in> {KeepPeerA, KeepPeerB} \<Longrightarrow> cd_resolution d \<in> offered k \<Longrightarrow> k = SamePath"
  by (cases k) (auto simp: offered_def)

subsection \<open>The transfer plan\<close>

lemma resolution_actions_outcome:
  "case resolution_actions fa xs of
     Inr as \<Rightarrow>
       list_all2 (\<lambda>x a. resolution_action fa x = Ok a)
         (filter (\<lambda>x. action_mutates_files (snd x)) xs) as
   | Inl e \<Rightarrow> \<exists>x \<in> set xs. action_mutates_files (snd x) \<and> resolution_action fa x = Err e"
proof (induction xs)
  case (Cons x xs)
  show ?case
  proof (cases "action_mutates_files (snd x)")
    case True
    with Cons show ?thesis
      by (cases "resolution_action fa x"; cases "resolution_actions fa xs")
        (auto simp: action_mutates_files_def)
  next
    case False
    with Cons show ?thesis
      by (cases "resolution_actions fa xs") (auto simp: action_mutates_files_def)
  qed
qed simp

definition side_inventory :: "fresh_analysis \<Rightarrow> peer_side \<Rightarrow> source_inventory" where
  "side_inventory fa side = (case side of PeerA \<Rightarrow> fa_source fa | PeerB \<Rightarrow> fa_destination fa)"

lemma resolution_action_Ok:
  "resolution_action fa (n, a) = Ok x \<longleftrightarrow>
     (\<exists>side i. ra_source_side a = Some side \<and> inv_item (side_inventory fa side) (ra_path a) = Some i \<and>
        is_eligible i \<and>
        x = \<lparr>pa_id = n + 1, pa_path = ra_path a, pa_kind = CopyToDestination,
             pa_consequence = mirror_consequence_for CopyToDestination side,
             pa_source_side = side, pa_size = data_size i\<rparr>)"
proof (cases "ra_source_side a")
  case (Some side)
  then show ?thesis
    by (cases "inv_item (side_inventory fa side) (ra_path a)")
      (auto simp: resolution_action_def side_inventory_def)
qed (simp add: resolution_action_def)

lemma resolution_plan_valid:
  assumes "spec_mode (fa_specification fa) = Mirror"
    and "\<forall>a \<in> set as. pa_kind a = CopyToDestination \<and>
           is_some_and is_eligible (inv_item (side_inventory fa (pa_source_side a)) (pa_path a))"
  shows "validate_plan \<lparr>plan_specification = fa_specification fa, plan_source = fa_source fa,
      plan_destination = fa_destination fa,
      plan_scope = mirror_approved_scope (fa_source fa) (fa_destination fa), plan_actions = as,
      plan_summary_of = mirror_summary_for as (fa_source fa) (fa_destination fa)\<rparr> = Ok ()"
    (is "validate_plan ?p = _")
proof -
  have "validate_action ?p a = None" if "a \<in> set as" for a
  proof -
    from that assms(2) obtain i where "pa_kind a = CopyToDestination"
      "inv_item (side_inventory fa (pa_source_side a)) (pa_path a) = Some i" "is_eligible i"
      by (auto simp: is_some_and_iff)
    with assms(1) show ?thesis
      by (cases "pa_source_side a") (simp_all add: validate_action_def side_inventory_def Let_def)
  qed
  with assms(1) show ?thesis by (simp add: validate_plan_Ok)
qed

lemma list_all2_maps: "list_all2 (\<lambda>x a. f x = g a) xs as \<longleftrightarrow> map f xs = map g as"
  by (simp add: list.rel_map flip: list.rel_eq)

lemma list_all2_right: "list_all2 (\<lambda>x a. Q a) xs as \<Longrightarrow> \<forall>a \<in> set as. Q a"
  by (induction rule: list_all2_induct) auto

lemma same_path_row_keys:
  assumes "e \<in> set (review_with_limit fs a b req limit)" and "ce_kind e = SamePath"
  shows "entry_key e = same_path_key (ce_path e)"
proof -
  from assms have "e \<in> set (same_path_entries fs a b req limit)"
    by (auto simp: review_with_limit_def dest: duplicate_entries_kind)
  then show ?thesis
    by (auto simp: same_path_entries_def set_map_filter_iff same_path_row_Some same_path_entry_def
        entry_key_def same_path_key_def)
qed

text \<open>The kept decisions of a resolved review: each is about its own path, at which both peers
  have an item and the items differ.\<close>

lemma kept_decision_row:
  assumes "resolve (review_with_limit fs a b req limit) ds = Ok acts"
    and "d \<in> set ds" and "cd_resolution d \<in> {KeepPeerA, KeepPeerB}"
  shows "cd_key d = same_path_key (decision_path d) \<and>
    (\<exists>l r. snap_item a (decision_path d) = Some l \<and> snap_item b (decision_path d) = Some r \<and>
       \<not> review_equal req l r)"
proof -
  from assms(1,2) have off: "cd_resolution d \<in> offered (key_kind (cd_key d))"
    and key: "cd_key d \<in> decidable_keys (review_with_limit fs a b req limit)"
    by (auto simp: resolve_Ok_iff)
  from off assms(3) have "key_kind (cd_key d) = SamePath"
    using keep_needs_same_path by blast
  with key obtain e where e: "e \<in> set (review_with_limit fs a b req limit)" "ce_kind e = SamePath"
    "cd_key d = entry_key e"
    by (auto simp: decidable_keys_def)
  from e(3) have path: "decision_path d = ce_path e"
    by (simp add: decision_path_def)
  from e(1,2) have "e \<in> set (same_path_entries fs a b req limit)"
    by (auto simp: review_with_limit_def dest: duplicate_entries_kind)
  then have "\<exists>l r. snap_item a (ce_path e) = Some l \<and> snap_item b (ce_path e) = Some r \<and>
      \<not> review_equal req l r"
    by (auto simp: same_path_entries_def set_map_filter_iff same_path_row_Some)
  with same_path_row_keys[OF e(1,2)] e(3) path show ?thesis by simp
qed

lemma copied_paths_distinct:
  assumes "resolve (review_with_limit fs a b req limit) ds = Ok acts"
  shows "distinct (map ra_path (filter action_mutates_files acts))"
proof -
  let ?keep = "filter (\<lambda>d. cd_resolution d \<in> {KeepPeerA, KeepPeerB}) ds"
  have acts: "acts = sort_by ra_path (map action_from_decision ds)" and "distinct (map cd_key ds)"
    using assms by (simp_all add: resolve_Ok_iff)
  then have "distinct (map cd_key ?keep)"
    by (simp add: distinct_map_filter)
  moreover have "map cd_key ?keep = map same_path_key (map decision_path ?keep)"
    using kept_decision_row[OF assms] by simp
  ultimately have "distinct (map decision_path ?keep)"
    by (metis distinct_map)
  moreover have "filter action_mutates_files (map action_from_decision ds) = map action_from_decision ?keep"
    by (simp add: filter_map comp_def action_mutates_iff)
  then have "map ra_path (filter action_mutates_files (map action_from_decision ds)) = map decision_path ?keep"
    by simp
  ultimately have "distinct (map ra_path (filter action_mutates_files (map action_from_decision ds)))"
    by simp
  then show ?thesis
    by (simp add: acts sort_by_def filter_sort distinct_map)
qed

lemma resolution_plan_fields:
  assumes "list_all2 (\<lambda>x a. resolution_action fa x = Ok a)
      (filter (\<lambda>x. action_mutates_files (snd x)) (enumerate 0 acts)) as"
  shows "map (\<lambda>a. (pa_path a, Some (pa_source_side a))) as =
      map (\<lambda>a. (ra_path a, ra_source_side a)) (filter action_mutates_files acts)"
    and "distinct (map pa_id as)"
    and "\<forall>a \<in> set as. pa_kind a = CopyToDestination \<and>
      (\<exists>i. inv_item (side_inventory fa (pa_source_side a)) (pa_path a) = Some i \<and> is_eligible i \<and>
         pa_size a = data_size i)"
proof -
  let ?xs = "filter (\<lambda>x. action_mutates_files (snd x)) (enumerate 0 acts)"
  have "list_all2 (\<lambda>x a. (ra_path (snd x), ra_source_side (snd x)) = (pa_path a, Some (pa_source_side a))) ?xs as"
    using assms by (rule list_all2_mono) (auto simp: resolution_action_Ok)
  then have "map (\<lambda>x. (ra_path (snd x), ra_source_side (snd x))) ?xs =
      map (\<lambda>a. (pa_path a, Some (pa_source_side a))) as"
    unfolding list_all2_maps .
  moreover have "map snd ?xs = filter action_mutates_files acts"
    by (simp add: filter_map[of _ snd, unfolded comp_def, symmetric])
  ultimately show "map (\<lambda>a. (pa_path a, Some (pa_source_side a))) as =
      map (\<lambda>a. (ra_path a, ra_source_side a)) (filter action_mutates_files acts)"
    by (metis (no_types, lifting) comp_def list.map_comp map_eq_conv)
  have "list_all2 (\<lambda>x a. fst x + 1 = pa_id a) ?xs as"
    using assms by (rule list_all2_mono) (auto simp: resolution_action_Ok)
  then have "map (\<lambda>x. fst x + 1) ?xs = map pa_id as"
    unfolding list_all2_maps .
  moreover have "distinct (map fst ?xs)"
    by (simp add: distinct_map_filter)
  then have "distinct (map (\<lambda>x. fst x + 1) ?xs)"
    by (simp add: distinct_map inj_on_def)
  ultimately show "distinct (map pa_id as)" by simp
  show "\<forall>a \<in> set as. pa_kind a = CopyToDestination \<and>
      (\<exists>i. inv_item (side_inventory fa (pa_source_side a)) (pa_path a) = Some i \<and> is_eligible i \<and>
         pa_size a = data_size i)"
    by (rule list_all2_right, rule list_all2_mono[OF assms]) (auto simp: resolution_action_Ok)
qed

lemma resolution_plan_cases:
  assumes "spec_mode (fa_specification fa) = Mirror"
  shows "case resolution_transfer_plan fa acts of
     Inr p \<Rightarrow>
       validate_plan p = Ok () \<and> plan_source p = fa_source fa \<and> plan_destination p = fa_destination fa \<and>
       list_all2 (\<lambda>x a. resolution_action fa x = Ok a)
         (filter (\<lambda>x. action_mutates_files (snd x)) (enumerate 0 acts)) (plan_actions p)
   | Inl e \<Rightarrow> \<exists>n. \<exists>a \<in> set acts. action_mutates_files a \<and> resolution_action fa (n, a) = Err e"
proof (cases "resolution_actions fa (enumerate 0 acts)")
  case (Inl e)
  then have "\<exists>x \<in> set (enumerate 0 acts). action_mutates_files (snd x) \<and> resolution_action fa x = Err e"
    using resolution_actions_outcome[where fa = fa and xs = "enumerate 0 acts"] by simp
  then obtain x where x: "x \<in> set (enumerate 0 acts)" "action_mutates_files (snd x)"
    "resolution_action fa x = Err e"
    by blast
  from x(1) have "snd x \<in> snd ` set (enumerate 0 acts)"
    by (rule imageI)
  then have "snd x \<in> set acts"
    by (simp only: list.set_map[symmetric] map_snd_enumerate)
  moreover have "resolution_action fa (fst x, snd x) = Err e"
    using x(3) by simp
  moreover have "resolution_transfer_plan fa acts = Err e"
    by (simp add: resolution_transfer_plan_def Inl)
  ultimately show ?thesis
    using x(2) by (simp only: sum.case) blast
next
  case (Inr as)
  then have all: "list_all2 (\<lambda>x a. resolution_action fa x = Ok a)
      (filter (\<lambda>x. action_mutates_files (snd x)) (enumerate 0 acts)) as"
    using resolution_actions_outcome[where fa = fa and xs = "enumerate 0 acts"] by simp
  have elig: "\<forall>a \<in> set as. pa_kind a = CopyToDestination \<and>
      is_some_and is_eligible (inv_item (side_inventory fa (pa_source_side a)) (pa_path a))"
    using resolution_plan_fields(3)[OF all] unfolding is_some_and_iff by blast
  show ?thesis
    using resolution_plan_valid[OF assms elig] all
    by (simp add: resolution_transfer_plan_def Let_def Inr)
qed

subsection \<open>Properties\<close>

text \<open>C19: A review is resolved exactly by one available decision for each of its rows that can be
  decided, in any order and nothing else; the actions are those decisions in path order. Only a
  same-path row can lead to an action that copies a file, and without the final confirmation
  no plan is released.\<close>

theorem resolve_accepts_complete_decisions:
  "(resolve entries ds = Ok acts \<longleftrightarrow>
      distinct (map cd_key ds) \<and>
      cd_key ` set ds = entry_key ` {e \<in> set entries. ce_kind e \<noteq> DestinationCompatibility} \<and>
      (\<forall>d \<in> set ds. cd_resolution d \<in> offered (key_kind (cd_key d))) \<and>
      acts = sort_by ra_path (map action_from_decision ds)) \<and>
   (resolve entries ds = Ok acts \<longrightarrow>
      (\<forall>a \<in> set acts. action_mutates_files a \<longrightarrow> key_kind (ra_key a) = SamePath)) \<and>
   confirm_resolution acts False = Err FinalConfirmationRequired"
proof (intro conjI impI ballI)
  show "resolve entries ds = Ok acts \<longleftrightarrow>
      distinct (map cd_key ds) \<and>
      cd_key ` set ds = entry_key ` {e \<in> set entries. ce_kind e \<noteq> DestinationCompatibility} \<and>
      (\<forall>d \<in> set ds. cd_resolution d \<in> offered (key_kind (cd_key d))) \<and>
      acts = sort_by ra_path (map action_from_decision ds)"
    by (simp add: resolve_Ok_iff decidable_keys_def)
next
  fix a assume "resolve entries ds = Ok acts" and "a \<in> set acts" and "action_mutates_files a"
  then show "key_kind (ra_key a) = SamePath"
    by (auto simp: resolve_Ok_iff action_mutates_iff intro: keep_needs_same_path)
qed (simp add: confirm_resolution_def)

definition example_rows :: "conflict_entry list" where
  "example_rows = same_path_entries (\<lambda>_. CannotOpen)
     (example_snap ''a'' [example_snap_file ''x'' ''h'']) (example_snap ''b'' [example_snap_file ''x'' ''k''])
     default_metadata_requirements 10"

lemma example_row_keys: "map entry_key example_rows = [same_path_key [Normal ''x'']]"
  by code_simp

theorem resolve_accepts_complete_decisions_witness:
  "resolve example_rows [decision_new [Normal ''x''] KeepPeerA] =
     Ok [action_from_decision (decision_new [Normal ''x''] KeepPeerA)]"
proof -
  have "ce_kind e = SamePath" if "e \<in> set example_rows" for e
    using that by (simp add: example_rows_def same_path_entries_kind)
  then have "entry_key ` {e \<in> set example_rows. ce_kind e \<noteq> DestinationCompatibility} =
      set (map entry_key example_rows)"
    by auto
  then show ?thesis
    by (subst resolve_accepts_complete_decisions[THEN conjunct1])
      (simp only: example_row_keys, simp add: decision_new_def same_path_key_def offered_def sort_by_def)
qed

text \<open>C36: A refused resolution names what is wrong: a path the review has no row for, a decision
  that its kind of row does not offer, a second decision for one row, or the first row, in the
  order of the keys, that nobody decided.\<close>

theorem resolve_errors_are_justified:
  assumes "resolve entries ds = Err e"
  shows "case e of
     UnknownConflict p \<Rightarrow> \<exists>d \<in> set ds. decision_path d = p \<and> cd_key d \<notin> entry_key ` set entries
   | UnavailableResolution p r \<Rightarrow>
       \<exists>d \<in> set ds. decision_path d = p \<and> cd_resolution d = r \<and> r \<notin> offered (key_kind (cd_key d))
   | DuplicateDecision p \<Rightarrow>
       \<exists>us d vs. ds = us @ d # vs \<and> decision_path d = p \<and> cd_key d \<in> cd_key ` set us
   | MissingDecision p \<Rightarrow>
       \<exists>k \<in> decidable_keys entries. key_path k = p \<and> k \<notin> cd_key ` set ds \<and>
         (\<forall>l \<in> decidable_keys entries. l \<notin> cd_key ` set ds \<longrightarrow> k \<le> l)
   | FinalConfirmationRequired \<Rightarrow> False"
proof (cases "resolve_loop entries ds [] []")
  case (Inl e')
  with assms have e: "e = e'" by (simp add: resolve_def)
  from res.loop_Err[OF Inl] obtain us d vs where d: "ds = us @ d # vs"
    "decision_refused entries d = Some e \<or>
     decision_refused entries d = None \<and> cd_key d \<in> cd_key ` set us \<and> e = DuplicateDecision (decision_path d)"
    by (auto simp: e)
  then show ?thesis
    using decision_refused_Some[of entries d e] by (auto split: conflict_resolution_error.splits) 
next
  case (Inr r)
  then have r: "r = (rev (map cd_key ds), map action_from_decision ds)"
    by (cases r) (simp add: res.loop_Ok_iff)
  with Inr assms obtain k where k: "first_missing (expected_keys entries) (rev (map cd_key ds)) = Some k"
    "e = MissingDecision (key_path k)"
    by (auto simp: resolve_def split: option.splits)
  from first_missing_least[OF k(1)] k(2) show ?thesis
    by (auto simp: set_expected_keys)
qed

theorem resolve_errors_are_justified_witness:
  "\<exists>k. resolve example_rows [] = Err (MissingDecision (key_path k)) \<and>
     k \<in> decidable_keys example_rows \<and> k \<notin> cd_key ` set []"
proof -
  have "\<nexists>acts. resolve example_rows [] = Ok acts"
    using example_row_keys same_path_entries_kind[of _ "\<lambda>_. CannotOpen"]
    by (auto simp: resolve_Ok_iff decidable_keys_def example_rows_def)
  then obtain e where e: "resolve example_rows [] = Err e"
    by (cases "resolve example_rows []") auto
  from resolve_errors_are_justified[OF this] e show ?thesis
    by (cases e) auto
qed


definition example_left :: source_inventory where
  "example_left = example_inventory ''a'' [example_item ''x'' 5 Included]"

definition example_right :: source_inventory where
  "example_right = example_inventory ''b'' [example_item ''x'' 6 Excluded]"

lemma example_review_keys:
  "map entry_key (review_from_inventories (\<lambda>_. CannotOpen) (snapshot_of_inventory example_left)
     (snapshot_of_inventory example_right) default_metadata_requirements) = [same_path_key [Normal ''x'']]"
  by code_simp

lemma example_resolution:
  "\<exists>fa acts. spec_mode (fa_specification fa) = Mirror \<and> fa_source fa = example_left \<and>
     fa_destination fa = example_right \<and>
     resolve (review_from_analysis (\<lambda>_. CannotOpen) fa) [decision_new [Normal ''x''] KeepPeerA] = Ok acts \<and>
     acts = [action_from_decision (decision_new [Normal ''x''] KeepPeerA)]"
proof -
  obtain spec0 :: process_specification where "spec_mode spec0 = OneWay" by (rule example_spec_plan)
  define spec where "spec = spec0\<lparr>spec_mode := Mirror,
    spec_options := (spec_options spec0)\<lparr>val_metadata := default_metadata_requirements\<rparr>\<rparr>"
  obtain p where "build_plan spec example_left example_right = Ok p"
    using build_plan_total[of example_left example_right]
    by (auto simp: example_left_def example_right_def example_inventory_wf)
  define fa where "fa = \<lparr>fa_profile = example_profile, fa_specification = spec,
    fa_source = example_left, fa_destination = example_right, fa_plan = p,
    fa_revision = revision_from_inventories example_left example_right\<rparr>"
  let ?rows = "review_from_analysis (\<lambda>_. CannotOpen) fa"
  have keys: "map entry_key ?rows = [same_path_key [Normal ''x'']]"
    using example_review_keys by (simp add: review_from_analysis_def fa_def spec_def)
  then obtain row where row: "?rows = [row]" "entry_key row = same_path_key [Normal ''x'']"
    by auto
  then have "ce_kind row = SamePath"
    by (metis conflict_entry_key.sel(1) key_kind_entry_key same_path_key_def)
  then have "decidable_keys ?rows = {same_path_key [Normal ''x'']}"
    using row by (auto simp: decidable_keys_def)
  then have "resolve ?rows [decision_new [Normal ''x''] KeepPeerA] =
      Ok [action_from_decision (decision_new [Normal ''x''] KeepPeerA)]"
    by (simp add: resolve_Ok_iff decision_new_def offered_def sort_by_def same_path_key_def)
  then show ?thesis by (intro exI[of _ fa]) (simp add: fa_def spec_def)
qed

lemma example_left_item: "inv_item example_left [Normal ''x''] = Some (example_item ''x'' 5 Included)"
  using example_inv_item[of "[example_item ''x'' 5 Included]" "example_item ''x'' 5 Included" "''a''"]
  by (simp add: example_left_def example_item_def)

lemma example_right_item: "inv_item example_right [Normal ''x''] = Some (example_item ''x'' 6 Excluded)"
  using example_inv_item[of "[example_item ''x'' 6 Excluded]" "example_item ''x'' 6 Excluded" "''b''"]
  by (simp add: example_right_def example_item_def)


text \<open>Only the kept item's scope is checked. Where the other peer's item at the path is excluded
  (for instance a directory that only a directory pattern matches), the row is offered and the
  plan replaces the excluded item.\<close>

lemma excluded_counterpart_is_planned:
  "\<exists>fa acts i. resolve (review_from_analysis (\<lambda>_. CannotOpen) fa) [decision_new [Normal ''x''] KeepPeerA] = Ok acts \<and>
     (\<exists>p. resolution_transfer_plan fa acts = Ok p) \<and>
     inv_item (fa_destination fa) [Normal ''x''] = Some i \<and> it_outcome i = Excluded"
proof -
  obtain fa acts where ex: "spec_mode (fa_specification fa) = Mirror" "fa_source fa = example_left"
    "fa_destination fa = example_right"
    "resolve (review_from_analysis (\<lambda>_. CannotOpen) fa) [decision_new [Normal ''x''] KeepPeerA] = Ok acts"
    "acts = [action_from_decision (decision_new [Normal ''x''] KeepPeerA)]"
    using example_resolution by blast
  have "resolution_action fa (n, action_from_decision (decision_new [Normal ''x''] KeepPeerA)) \<noteq> Err e" for n e
    by (simp add: resolution_action_def action_source_side decision_new_def decision_path_def
        same_path_key_def ex(2) example_left_item is_eligible_def example_item_def)
  then have "\<exists>p. resolution_transfer_plan fa acts = Ok p"
    using resolution_plan_cases[OF ex(1), of acts] unfolding ex(5)
    by (cases "resolution_transfer_plan fa [action_from_decision (decision_new [Normal ''x''] KeepPeerA)]") auto
  with ex(3,4) example_right_item show ?thesis
    by (intro exI[of _ fa] exI[of _ acts] exI[of _ "example_item ''x'' 6 Excluded"]) (simp add: example_item_def)
qed

end
