(* ===== verification/Evidence.thy ===== *)
theory Evidence
  imports Process
begin

text \<open>
  The data of the run journal (\<open>evidence.rs\<close>): what a planned action recorded of its item
  before it ran, what was observed at each boundary, the events and the journal entries they
  add up to, the provenance of a recovered item (\<open>restore.rs\<close>), the storage errors, and
  the text encodings of the enumerations. The encodings share one interface (\<open>codec\<close>).
\<close>

subsection \<open>Storage errors\<close>

datatype run_report_status =
    RepInProgress | RepCompleted | RepFailed | RepCancelled | RepInterrupted | RepBlocked
  | RepCompletedWithReviewRequired | RepRecoveryReview | RepReviewCleared

datatype missed_schedule_decision = Pending | RunNow | NotNow

text \<open>The error of the SQLite library and of the file system is its message.\<close>

datatype storage_error =
    Sqlite string
  | Io string
  | InvalidProfile process_spec_error
  | InvalidProfileName
  | InvalidPeerName
  | DuplicateEndpointPair
  | InvalidAuthorization string
  | InvalidSchedule string
  | ScheduleRequiresAdvanced
  | ConcurrentProfileUpdate
  | ProfileNotFound nat
  | ReportNotFound nat
  | MissedScheduleNotFound nat
  | MissedScheduleAlreadyDecided nat missed_schedule_decision
  | ReportActionNotAllowed nat string run_report_status
  | UnsafeDatabasePath
  | UnsupportedRemotePeer
  | InvalidSnapshot string
  | InvalidEvent string
  | CorruptEvidence string
  | DatabaseBackup string

subsection \<open>Evidence\<close>

record file_identity =
  fid_device :: u64
  fid_inode :: u64

record pre_action_state =
  pre_type :: item_type
  pre_size :: u64
  pre_modified :: "int option"
  pre_identity :: "file_identity option"
  pre_sha256 :: "sha256 option"

record content_proof =
  proof_size :: u64
  proof_sha256 :: sha256

datatype recovery_verification_state = Verified | ReviewRequired | Unverified

record recovery_provenance =
  prov_action :: "nat option"
  prov_peer :: string
  prov_root :: path
  prov_relative :: path
  prov_run :: nat
  prov_removed_at :: int
  prov_method :: deletion_method
  prov_state :: recovery_verification_state
  prov_type :: item_type
  prov_content :: "content_proof option"
  prov_identity :: "file_identity option"
  prov_symlink_target :: "path option"

record recovery_evidence =
  re_observed_at :: int
  re_target :: "path option"
  re_source_present :: bool
  re_destination_present :: bool
  re_recovery_present :: bool
  re_source_size :: "u64 option"
  re_destination_size :: "u64 option"
  re_source_sha256 :: "sha256 option"
  re_destination_sha256 :: "sha256 option"
  re_recovery_size :: "u64 option"
  re_recovery_sha256 :: "sha256 option"
  re_provenance :: "recovery_provenance option"

definition recovery_evidence_new ::
  "int \<Rightarrow> path option \<Rightarrow> bool \<Rightarrow> bool \<Rightarrow> bool \<Rightarrow> u64 option \<Rightarrow> u64 option \<Rightarrow> sha256 option \<Rightarrow> sha256 option
    \<Rightarrow> recovery_evidence" where
  "recovery_evidence_new observed target src dst rec src_size dst_size src_hash dst_hash =
     \<lparr>re_observed_at = observed, re_target = target, re_source_present = src,
      re_destination_present = dst, re_recovery_present = rec, re_source_size = src_size,
      re_destination_size = dst_size, re_source_sha256 = src_hash,
      re_destination_sha256 = dst_hash, re_recovery_size = None, re_recovery_sha256 = None,
      re_provenance = None\<rparr>"

definition with_provenance :: "recovery_evidence \<Rightarrow> recovery_provenance \<Rightarrow> recovery_evidence" where
  "with_provenance e p = e\<lparr>re_provenance := Some p\<rparr>"

definition with_recovery_proof :: "recovery_evidence \<Rightarrow> u64 \<Rightarrow> sha256 option \<Rightarrow> recovery_evidence" where
  "with_recovery_proof e n h = e\<lparr>re_recovery_size := Some n, re_recovery_sha256 := h\<rparr>"

definition is_newer_than :: "recovery_evidence \<Rightarrow> recovery_evidence \<Rightarrow> bool" where
  "is_newer_than e earlier = (re_observed_at earlier < re_observed_at e)"

subsection \<open>Plans, events and entries\<close>

record plan_record =
  pr_action :: nat
  pr_path :: path
  pr_operation :: plan_action_kind
  pr_side :: peer_side
  pr_planned_bytes :: "u64 option"
  pr_pre :: pre_action_state

datatype action_reason =
    TransferFailed | VerificationMismatch | SourceChanged | PermissionDenied
  | CancellationRequested | DeferredForReview | FilesystemUncertain | InterruptedBoundary
  | DestinationUnavailable

datatype recovery_resolution =
    RecoveryCompleted recovery_evidence
  | RecoveryUnresolved action_reason

record removal_result =
  rm_method :: deletion_method
  rm_evidence :: recovery_evidence

datatype journal_event =
    JPlanned plan_record
  | JStarted nat
  | JProgress nat u64
  | JTransferVerified nat recovery_evidence bool
  | JProofBoundary nat deletion_method recovery_evidence bool
  | JRemovalStarted nat deletion_method
  | JRemovalCompleted nat removal_result
  | JCompleted nat
  | JFailed nat action_reason
  | JCancelled nat
  | JInterrupted nat
  | JDeferred nat
  | JUnresolved nat action_reason
  | JRecoveryReview nat action_reason recovery_evidence
  | JRecoveryResolved nat recovery_resolution

fun event_action :: "journal_event \<Rightarrow> nat" where
  "event_action (JPlanned p) = pr_action p"
| "event_action (JStarted a) = a"
| "event_action (JProgress a _) = a"
| "event_action (JTransferVerified a _ _) = a"
| "event_action (JProofBoundary a _ _ _) = a"
| "event_action (JRemovalStarted a _) = a"
| "event_action (JRemovalCompleted a _) = a"
| "event_action (JCompleted a) = a"
| "event_action (JFailed a _) = a"
| "event_action (JCancelled a) = a"
| "event_action (JInterrupted a) = a"
| "event_action (JDeferred a) = a"
| "event_action (JUnresolved a _) = a"
| "event_action (JRecoveryReview a _ _) = a"
| "event_action (JRecoveryResolved a _) = a"

fun event_phase :: "journal_event \<Rightarrow> string" where
  "event_phase (JPlanned _) = ''planned''"
| "event_phase (JStarted _) = ''started''"
| "event_phase (JProgress _ _) = ''progress''"
| "event_phase (JTransferVerified _ _ _) = ''transfer_verified''"
| "event_phase (JProofBoundary _ _ _ _) = ''proof_boundary''"
| "event_phase (JRemovalStarted _ _) = ''removal_started''"
| "event_phase (JRemovalCompleted _ _) = ''removal_completed''"
| "event_phase (JCompleted _) = ''completed''"
| "event_phase (JFailed _ _) = ''failed''"
| "event_phase (JCancelled _) = ''cancelled''"
| "event_phase (JInterrupted _) = ''interrupted''"
| "event_phase (JDeferred _) = ''deferred''"
| "event_phase (JUnresolved _ _) = ''unresolved''"
| "event_phase (JRecoveryReview _ _ _) = ''recovery_review''"
| "event_phase (JRecoveryResolved _ _) = ''recovery_resolved''"

datatype action_outcome =
    ActInProgress | ActCompleted | ActFailed action_reason | ActCancelled | ActInterrupted
  | ActDeferred | ActUnresolved action_reason | ActRecoveryReview action_reason

record action_journal_entry =
  je_plan :: plan_record
  je_last_phase :: string
  je_started :: bool
  je_progress :: "u64 list"
  je_outcome :: action_outcome
  je_transfer :: "recovery_evidence option"
  je_proof :: "recovery_evidence option"
  je_removal :: "removal_result option"
  je_recovery :: "recovery_evidence option"
  je_resolution :: "recovery_evidence option"

abbreviation je_path :: "action_journal_entry \<Rightarrow> path" where
  "je_path e \<equiv> pr_path (je_plan e)"

abbreviation je_operation :: "action_journal_entry \<Rightarrow> plan_action_kind" where
  "je_operation e \<equiv> pr_operation (je_plan e)"

subsection \<open>Provenance\<close>

definition validate_provenance_path :: "path \<Rightarrow> bool" where
  "validate_provenance_path p = (p \<noteq> [] \<and> \<not> is_absolute p \<and> all_normal p)"

definition validate_provenance_root :: "path \<Rightarrow> bool" where
  "validate_provenance_root p = (p \<noteq> [] \<and> is_absolute p)"

text \<open>The white space \<open>str::trim\<close> removes: the characters of the Unicode property
  \<open>White_Space\<close>.\<close>

definition is_whitespace :: "nat \<Rightarrow> bool" where
  "is_whitespace n =
     (9 \<le> n \<and> n \<le> 13 \<or> 8192 \<le> n \<and> n \<le> 8202 \<or>
      n \<in> {32, 133, 160, 5760, 8232, 8233, 8239, 8287, 12288})"

lemma is_whitespace_code [code]:
  "is_whitespace n =
     (let i = int n in 9 \<le> i \<and> i \<le> 13 \<or> 8192 \<le> i \<and> i \<le> 8202 \<or>
      i \<in> {32, 133, 160, 5760, 8232, 8233, 8239, 8287, 12288})"
  by (simp add: is_whitespace_def Let_def)

definition trims_to_empty :: "string \<Rightarrow> bool" where
  "trims_to_empty s = list_all (\<lambda>c. case c of None \<Rightarrow> False | Some n \<Rightarrow> is_whitespace n) (utf8_decode s)"

definition validate_provenance_peer :: "string \<Rightarrow> bool" where
  "validate_provenance_peer p =
     (\<not> trims_to_empty p \<and> \<not> list_ex (\<lambda>c. c = CHR 0x0A \<or> c = CHR 0x0D) p)"

definition provenance_error :: "recovery_provenance \<Rightarrow> string option" where
  "provenance_error p =
     (if \<not> validate_provenance_path (prov_relative p)
      then Some ''original path must be a non-empty normalized relative path''
      else if \<not> validate_provenance_root (prov_root p)
      then Some ''original peer root must be an absolute path''
      else if \<not> validate_provenance_peer (prov_peer p)
      then Some ''recovery peer is missing or malformed''
      else None)"

text \<open>\<open>RecoveryProvenance::from_record_with_details\<close>; the error is the reason of
  \<open>InvalidProvenance\<close>.\<close>

definition provenance_from_record :: "recovery_provenance \<Rightarrow> string + recovery_provenance" where
  "provenance_from_record p = (case provenance_error p of Some r \<Rightarrow> Err r | None \<Rightarrow> Ok p)"

lemma provenance_from_record_Ok [simp]:
  "provenance_from_record p = Ok q \<longleftrightarrow> q = p \<and> provenance_error p = None"
  by (auto simp: provenance_from_record_def split: option.splits)

lemma provenance_error_None:
  "provenance_error p = None \<longleftrightarrow>
     validate_provenance_path (prov_relative p) \<and> validate_provenance_root (prov_root p) \<and>
     validate_provenance_peer (prov_peer p)"
  by (simp add: provenance_error_def)

end
