(* ===== verification/Codec.thy ===== *)
theory Codec
  imports Evidence Resolution
begin

text \<open>
  The text encodings under which \<open>evidence.rs\<close> stores its enumerations. Every pair
  of functions satisfies one of two contracts: reading what was written gives the value back
  (\<open>codec\<close>), and, where the stored form is one word, nothing but the written form
  is accepted (\<open>canonical_codec\<close>). The interpretations discharge both on the
  functions of the code.
\<close>

locale codec =
  fixes enc :: "'a \<Rightarrow> 'c" and dec :: "'c \<Rightarrow> 'e + 'a"
  assumes dec_enc [simp]: "dec (enc x) = Ok x"
begin

lemma enc_inject [simp]: "enc x = enc y \<longleftrightarrow> x = y"
  by (metis dec_enc sum.inject(2))

end

locale canonical_codec = codec +
  assumes dec_canonical: "dec c = Ok x \<Longrightarrow> c = enc x"
begin

lemma dec_Ok_iff: "dec c = Ok x \<longleftrightarrow> c = enc x"
  using dec_canonical by auto

lemma dec_error_iff: "(\<exists>e. dec c = Err e) \<longleftrightarrow> c \<notin> range enc"
  by (metis dec_Ok_iff dec_enc Inl_Inr_False obj_sumE rangeE rangeI)

end

abbreviation corrupt :: "string \<Rightarrow> string \<Rightarrow> storage_error" where
  "corrupt what s \<equiv> CorruptEvidence (what @ s)"

subsection \<open>Conflict resolutions and their outcomes\<close>

fun encode_conflict_resolution :: "conflict_resolution \<Rightarrow> string" where
  "encode_conflict_resolution KeepPeerA = ''keep_peer_a''"
| "encode_conflict_resolution KeepPeerB = ''keep_peer_b''"
| "encode_conflict_resolution PreserveBoth = ''preserve_both''"
| "encode_conflict_resolution RenamePreserveForReview = ''rename_preserve_for_review''"
| "encode_conflict_resolution Defer = ''defer''"

definition decode_conflict_resolution :: "string \<Rightarrow> storage_error + conflict_resolution" where
  "decode_conflict_resolution s =
     (if s = ''keep_peer_a'' then Ok KeepPeerA
      else if s = ''keep_peer_b'' then Ok KeepPeerB
      else if s = ''preserve_both'' then Ok PreserveBoth
      else if s = ''rename_preserve_for_review'' then Ok RenamePreserveForReview
      else if s = ''defer'' then Ok Defer
      else Err (corrupt ''unknown Mirror conflict resolution '' s))"

interpretation conflict_resolution: canonical_codec encode_conflict_resolution decode_conflict_resolution
proof
  fix x show "decode_conflict_resolution (encode_conflict_resolution x) = Ok x"
    by (cases x) (simp_all add: decode_conflict_resolution_def)
next
  fix c x assume "decode_conflict_resolution c = Ok x"
  then show "c = encode_conflict_resolution x"
    by (auto simp: decode_conflict_resolution_def split: if_splits)
qed

fun encode_resolution_operation :: "resolution_operation \<Rightarrow> string" where
  "encode_resolution_operation CopyWholeFile = ''copy_whole_file''"
| "encode_resolution_operation OpPreserveBoth = ''preserve_both''"
| "encode_resolution_operation OpRenamePreserveForReview = ''rename_preserve_for_review''"
| "encode_resolution_operation OpDefer = ''defer''"

definition decode_resolution_operation :: "string \<Rightarrow> storage_error + resolution_operation" where
  "decode_resolution_operation s =
     (if s = ''copy_whole_file'' then Ok CopyWholeFile
      else if s = ''preserve_both'' then Ok OpPreserveBoth
      else if s = ''rename_preserve_for_review'' then Ok OpRenamePreserveForReview
      else if s = ''defer'' then Ok OpDefer
      else Err (corrupt ''unknown Mirror resolution operation '' s))"

interpretation resolution_operation: canonical_codec encode_resolution_operation decode_resolution_operation
proof
  fix x show "decode_resolution_operation (encode_resolution_operation x) = Ok x"
    by (cases x) (simp_all add: decode_resolution_operation_def)
next
  fix c x assume "decode_resolution_operation c = Ok x"
  then show "c = encode_resolution_operation x"
    by (auto simp: decode_resolution_operation_def split: if_splits)
qed

datatype mirror_resolution_review_state = ReviewSettled | ReviewLater

fun encode_mirror_review_state :: "mirror_resolution_review_state \<Rightarrow> string" where
  "encode_mirror_review_state ReviewSettled = ''settled''"
| "encode_mirror_review_state ReviewLater = ''review_later''"

definition decode_mirror_review_state :: "string \<Rightarrow> storage_error + mirror_resolution_review_state" where
  "decode_mirror_review_state s =
     (if s = ''settled'' then Ok ReviewSettled
      else if s = ''review_later'' then Ok ReviewLater
      else Err (corrupt ''unknown Mirror resolution review state '' s))"

interpretation mirror_review_state: canonical_codec encode_mirror_review_state decode_mirror_review_state
proof
  fix x show "decode_mirror_review_state (encode_mirror_review_state x) = Ok x"
    by (cases x) (simp_all add: decode_mirror_review_state_def)
next
  fix c x assume "decode_mirror_review_state c = Ok x"
  then show "c = encode_mirror_review_state x"
    by (auto simp: decode_mirror_review_state_def split: if_splits)
qed

subsection \<open>Profiles and plans\<close>

fun encode_mode :: "sync_mode \<Rightarrow> string" where
  "encode_mode OneWay = ''one_way''"
| "encode_mode Mirror = ''mirror''"

fun encode_source :: "one_way_source \<Rightarrow> string" where
  "encode_source SourcePeerA = ''peer_a''"
| "encode_source SourcePeerB = ''peer_b''"

definition decode_source :: "string \<Rightarrow> storage_error + one_way_source" where
  "decode_source s =
     (if s = ''peer_a'' then Ok SourcePeerA
      else if s = ''peer_b'' then Ok SourcePeerB
      else Err (corrupt ''unknown source '' s))"

interpretation source: canonical_codec encode_source decode_source
proof
  fix x show "decode_source (encode_source x) = Ok x"
    by (cases x) (simp_all add: decode_source_def)
next
  fix c x assume "decode_source c = Ok x"
  then show "c = encode_source x"
    by (auto simp: decode_source_def split: if_splits)
qed

fun encode_partial_transfer_policy :: "partial_transfer_policy \<Rightarrow> string" where
  "encode_partial_transfer_policy Cleanup = ''cleanup''"
| "encode_partial_transfer_policy KeepPartialForResume = ''keep_partial_for_resume''"

definition decode_partial_transfer_policy :: "string \<Rightarrow> storage_error + partial_transfer_policy" where
  "decode_partial_transfer_policy s =
     (if s = ''cleanup'' then Ok Cleanup
      else if s = ''keep_partial_for_resume'' then Ok KeepPartialForResume
      else Err (corrupt ''unsupported partial transfer policy '' s))"

interpretation partial_transfer_policy: canonical_codec encode_partial_transfer_policy decode_partial_transfer_policy
proof
  fix x show "decode_partial_transfer_policy (encode_partial_transfer_policy x) = Ok x"
    by (cases x) (simp_all add: decode_partial_transfer_policy_def)
next
  fix c x assume "decode_partial_transfer_policy c = Ok x"
  then show "c = encode_partial_transfer_policy x"
    by (auto simp: decode_partial_transfer_policy_def split: if_splits)
qed

fun encode_deletion_method :: "deletion_method \<Rightarrow> string" where
  "encode_deletion_method Trash = ''trash''"
| "encode_deletion_method PermanentRemoval = ''permanent_removal''"

definition decode_deletion_method :: "string \<Rightarrow> storage_error + deletion_method" where
  "decode_deletion_method s =
     (if s = ''trash'' then Ok Trash
      else if s = ''permanent_removal'' then Ok PermanentRemoval
      else Err (corrupt ''unknown deletion method '' s))"

interpretation deletion_method: canonical_codec encode_deletion_method decode_deletion_method
proof
  fix x show "decode_deletion_method (encode_deletion_method x) = Ok x"
    by (cases x) (simp_all add: decode_deletion_method_def)
next
  fix c x assume "decode_deletion_method c = Ok x"
  then show "c = encode_deletion_method x"
    by (auto simp: decode_deletion_method_def split: if_splits)
qed

fun encode_operation :: "plan_action_kind \<Rightarrow> string" where
  "encode_operation CopyToDestination = ''copy_to_destination''"
| "encode_operation OverwriteDestination = ''overwrite_destination''"
| "encode_operation RemoveDestination = ''remove_destination''"
| "encode_operation RemoveSourceAfterVerification = ''remove_source_after_verification''"

definition decode_operation :: "string \<Rightarrow> storage_error + plan_action_kind" where
  "decode_operation s =
     (if s = ''copy_to_destination'' then Ok CopyToDestination
      else if s = ''overwrite_destination'' then Ok OverwriteDestination
      else if s = ''remove_destination'' then Ok RemoveDestination
      else if s = ''remove_source_after_verification'' then Ok RemoveSourceAfterVerification
      else Err (corrupt ''unknown operation '' s))"

interpretation operation: canonical_codec encode_operation decode_operation
proof
  fix x show "decode_operation (encode_operation x) = Ok x"
    by (cases x) (simp_all add: decode_operation_def)
next
  fix c x assume "decode_operation c = Ok x"
  then show "c = encode_operation x"
    by (auto simp: decode_operation_def split: if_splits)
qed

fun encode_side :: "peer_side \<Rightarrow> string" where
  "encode_side PeerA = ''peer_a''"
| "encode_side PeerB = ''peer_b''"

definition decode_side :: "string \<Rightarrow> storage_error + peer_side" where
  "decode_side s =
     (if s = ''peer_a'' then Ok PeerA
      else if s = ''peer_b'' then Ok PeerB
      else Err (corrupt ''unknown peer side '' s))"

interpretation side: canonical_codec encode_side decode_side
proof
  fix x show "decode_side (encode_side x) = Ok x"
    by (cases x) (simp_all add: decode_side_def)
next
  fix c x assume "decode_side c = Ok x"
  then show "c = encode_side x"
    by (auto simp: decode_side_def split: if_splits)
qed

fun encode_item_type :: "item_type \<Rightarrow> string" where
  "encode_item_type RegularFile = ''regular_file''"
| "encode_item_type Directory = ''directory''"
| "encode_item_type Symlink = ''symlink''"
| "encode_item_type UnsupportedType = ''unsupported''"

definition decode_item_type :: "string \<Rightarrow> storage_error + item_type" where
  "decode_item_type s =
     (if s = ''regular_file'' then Ok RegularFile
      else if s = ''directory'' then Ok Directory
      else if s = ''symlink'' then Ok Symlink
      else if s = ''unsupported'' then Ok UnsupportedType
      else Err (corrupt ''unknown item type '' s))"

interpretation item_type: canonical_codec encode_item_type decode_item_type
proof
  fix x show "decode_item_type (encode_item_type x) = Ok x"
    by (cases x) (simp_all add: decode_item_type_def)
next
  fix c x assume "decode_item_type c = Ok x"
  then show "c = encode_item_type x"
    by (auto simp: decode_item_type_def split: if_splits)
qed

fun encode_analysis_outcome :: "analysis_outcome \<Rightarrow> string" where
  "encode_analysis_outcome Included = ''included''"
| "encode_analysis_outcome Excluded = ''excluded''"
| "encode_analysis_outcome UnsupportedOutcome = ''unsupported''"

definition decode_analysis_outcome :: "string \<Rightarrow> storage_error + analysis_outcome" where
  "decode_analysis_outcome s =
     (if s = ''included'' then Ok Included
      else if s = ''excluded'' then Ok Excluded
      else if s = ''unsupported'' then Ok UnsupportedOutcome
      else Err (corrupt ''unknown analysis outcome '' s))"

interpretation analysis_outcome: canonical_codec encode_analysis_outcome decode_analysis_outcome
proof
  fix x show "decode_analysis_outcome (encode_analysis_outcome x) = Ok x"
    by (cases x) (simp_all add: decode_analysis_outcome_def)
next
  fix c x assume "decode_analysis_outcome c = Ok x"
  then show "c = encode_analysis_outcome x"
    by (auto simp: decode_analysis_outcome_def split: if_splits)
qed

subsection \<open>Reconciliation\<close>

datatype source_drain_status = NotApplicable | Drained | NotEmpty

fun encode_source_drain_status :: "source_drain_status \<Rightarrow> string" where
  "encode_source_drain_status NotApplicable = ''not_applicable''"
| "encode_source_drain_status Drained = ''drained''"
| "encode_source_drain_status NotEmpty = ''not_empty''"

definition decode_source_drain_status :: "string \<Rightarrow> storage_error + source_drain_status" where
  "decode_source_drain_status s =
     (if s = ''not_applicable'' then Ok NotApplicable
      else if s = ''drained'' then Ok Drained
      else if s = ''not_empty'' then Ok NotEmpty
      else Err (corrupt ''unknown Source Drain status '' s))"

interpretation source_drain_status: canonical_codec encode_source_drain_status decode_source_drain_status
proof
  fix x show "decode_source_drain_status (encode_source_drain_status x) = Ok x"
    by (cases x) (simp_all add: decode_source_drain_status_def)
next
  fix c x assume "decode_source_drain_status c = Ok x"
  then show "c = encode_source_drain_status x"
    by (auto simp: decode_source_drain_status_def split: if_splits)
qed

datatype reconciliation_finding_kind =
    KUnexplained | KExcluded | KNewlyAppeared | KChanged | KFailed | KUnavailable | KUnverifiable

fun encode_finding_kind :: "reconciliation_finding_kind \<Rightarrow> string" where
  "encode_finding_kind KUnexplained = ''unexplained''"
| "encode_finding_kind KExcluded = ''excluded''"
| "encode_finding_kind KNewlyAppeared = ''newly_appeared''"
| "encode_finding_kind KChanged = ''changed''"
| "encode_finding_kind KFailed = ''failed''"
| "encode_finding_kind KUnavailable = ''unavailable''"
| "encode_finding_kind KUnverifiable = ''unverifiable''"

definition decode_finding_kind :: "string \<Rightarrow> storage_error + reconciliation_finding_kind" where
  "decode_finding_kind s =
     (if s = ''unexplained'' then Ok KUnexplained
      else if s = ''excluded'' then Ok KExcluded
      else if s = ''newly_appeared'' then Ok KNewlyAppeared
      else if s = ''changed'' then Ok KChanged
      else if s = ''failed'' then Ok KFailed
      else if s = ''unavailable'' then Ok KUnavailable
      else if s = ''unverifiable'' then Ok KUnverifiable
      else Err (corrupt ''unknown reconciliation finding kind '' s))"

interpretation finding_kind: canonical_codec encode_finding_kind decode_finding_kind
proof
  fix x show "decode_finding_kind (encode_finding_kind x) = Ok x"
    by (cases x) (simp_all add: decode_finding_kind_def)
next
  fix c x assume "decode_finding_kind c = Ok x"
  then show "c = encode_finding_kind x"
    by (auto simp: decode_finding_kind_def split: if_splits)
qed

fun encode_reason :: "action_reason \<Rightarrow> string" where
  "encode_reason TransferFailed = ''transfer_failed''"
| "encode_reason VerificationMismatch = ''verification_mismatch''"
| "encode_reason SourceChanged = ''source_changed''"
| "encode_reason PermissionDenied = ''permission_denied''"
| "encode_reason CancellationRequested = ''cancellation_requested''"
| "encode_reason DeferredForReview = ''deferred_for_review''"
| "encode_reason FilesystemUncertain = ''filesystem_uncertain''"
| "encode_reason InterruptedBoundary = ''interrupted_boundary''"
| "encode_reason DestinationUnavailable = ''destination_unavailable''"

definition decode_reason :: "string \<Rightarrow> storage_error + action_reason" where
  "decode_reason s =
     (if s = ''transfer_failed'' then Ok TransferFailed
      else if s = ''verification_mismatch'' then Ok VerificationMismatch
      else if s = ''source_changed'' then Ok SourceChanged
      else if s = ''permission_denied'' then Ok PermissionDenied
      else if s = ''cancellation_requested'' then Ok CancellationRequested
      else if s = ''deferred_for_review'' then Ok DeferredForReview
      else if s = ''filesystem_uncertain'' then Ok FilesystemUncertain
      else if s = ''interrupted_boundary'' then Ok InterruptedBoundary
      else if s = ''destination_unavailable'' then Ok DestinationUnavailable
      else Err (corrupt ''unknown action reason '' s))"

interpretation reason: canonical_codec encode_reason decode_reason
proof
  fix x show "decode_reason (encode_reason x) = Ok x"
    by (cases x) (simp_all add: decode_reason_def)
next
  fix c x assume "decode_reason c = Ok x"
  then show "c = encode_reason x"
    by (auto simp: decode_reason_def split: if_splits)
qed

text \<open>\<open>ReconciliationReason\<close> and the outcome of a resolved conflict take two columns, the
  second one for the reason of a failure.\<close>

datatype reconciliation_reason =
    RUnexplained | RExcluded | RNewlyAppeared | RChanged | RFailed action_reason
  | RUnavailable | RUnverifiable

fun encode_reconciliation_reason :: "reconciliation_reason \<Rightarrow> string \<times> string option" where
  "encode_reconciliation_reason RUnexplained = (''unexplained'', None)"
| "encode_reconciliation_reason RExcluded = (''excluded'', None)"
| "encode_reconciliation_reason RNewlyAppeared = (''newly_appeared'', None)"
| "encode_reconciliation_reason RChanged = (''changed'', None)"
| "encode_reconciliation_reason (RFailed r) = (''failed'', Some (encode_reason r))"
| "encode_reconciliation_reason RUnavailable = (''unavailable'', None)"
| "encode_reconciliation_reason RUnverifiable = (''unverifiable'', None)"

definition required_reason :: "string \<Rightarrow> string option \<Rightarrow> storage_error + action_reason" where
  "required_reason missing r =
     (case r of None \<Rightarrow> Err (CorruptEvidence missing) | Some t \<Rightarrow> decode_reason t)"

definition decode_reconciliation_reason ::
  "string \<times> string option \<Rightarrow> storage_error + reconciliation_reason" where
  "decode_reconciliation_reason c =
     (case c of (s, r) \<Rightarrow>
        if s = ''unexplained'' then Ok RUnexplained
        else if s = ''excluded'' then Ok RExcluded
        else if s = ''newly_appeared'' then Ok RNewlyAppeared
        else if s = ''changed'' then Ok RChanged
        else if s = ''failed''
        then result_bind (required_reason ''failed reconciliation finding has no action reason'' r)
               (\<lambda>a. Ok (RFailed a))
        else if s = ''unavailable'' then Ok RUnavailable
        else if s = ''unverifiable'' then Ok RUnverifiable
        else Err (corrupt ''unknown reconciliation reason '' s))"

interpretation reconciliation_reason: codec encode_reconciliation_reason decode_reconciliation_reason
proof
  fix x show "decode_reconciliation_reason (encode_reconciliation_reason x) = Ok x"
    by (cases x) (simp_all add: decode_reconciliation_reason_def required_reason_def)
qed

datatype mirror_resolution_outcome =
    ResCompleted | ResDeferred | ResFailed action_reason | ResUnresolved action_reason

fun encode_mirror_resolution_outcome :: "mirror_resolution_outcome \<Rightarrow> string \<times> string option" where
  "encode_mirror_resolution_outcome ResCompleted = (''completed'', None)"
| "encode_mirror_resolution_outcome ResDeferred = (''deferred'', None)"
| "encode_mirror_resolution_outcome (ResFailed r) = (''failed'', Some (encode_reason r))"
| "encode_mirror_resolution_outcome (ResUnresolved r) = (''unresolved'', Some (encode_reason r))"

definition decode_mirror_resolution_outcome ::
  "string \<times> string option \<Rightarrow> storage_error + mirror_resolution_outcome" where
  "decode_mirror_resolution_outcome c =
     (case c of (s, r) \<Rightarrow>
        if s = ''completed'' then Ok ResCompleted
        else if s = ''deferred'' then Ok ResDeferred
        else if s = ''failed''
        then result_bind (required_reason ''failed Mirror resolution has no action reason'' r)
               (\<lambda>a. Ok (ResFailed a))
        else if s = ''unresolved''
        then result_bind (required_reason ''unresolved Mirror resolution has no action reason'' r)
               (\<lambda>a. Ok (ResUnresolved a))
        else Err (corrupt ''unknown Mirror resolution outcome '' s))"

interpretation mirror_outcome: codec encode_mirror_resolution_outcome decode_mirror_resolution_outcome
proof
  fix x show "decode_mirror_resolution_outcome (encode_mirror_resolution_outcome x) = Ok x"
    by (cases x) (simp_all add: decode_mirror_resolution_outcome_def required_reason_def)
qed

subsection \<open>Columns\<close>

definition decode_bool :: "int \<Rightarrow> string \<Rightarrow> storage_error + bool" where
  "decode_bool v field =
     (if v = 0 then Ok False else if v = 1 then Ok True
      else Err (CorruptEvidence (field @ '' is not a boolean'')))"

definition bool_to_int :: "bool \<Rightarrow> int" where
  "bool_to_int b = (if b then 1 else 0)"

interpretation bool_column: canonical_codec bool_to_int "\<lambda>v. decode_bool v field"
proof
  fix b show "decode_bool (bool_to_int b) field = Ok b"
    by (simp add: decode_bool_def bool_to_int_def)
next
  fix v b assume "decode_bool v field = Ok b"
  then show "v = bool_to_int b"
    by (auto simp: decode_bool_def bool_to_int_def split: if_splits)
qed

definition decode_hash :: "string option \<Rightarrow> storage_error + sha256 option" where
  "decode_hash b =
     (case b of None \<Rightarrow> Ok None
      | Some h \<Rightarrow> if length h \<noteq> 32
          then Err (CorruptEvidence ''stored recovery SHA-256 digest has the wrong length'')
          else Ok (Some h))"

definition path_to_blob :: "path \<Rightarrow> string" where
  "path_to_blob p = path_str p"

definition blob_to_path :: "string \<Rightarrow> storage_error + path" where
  "blob_to_path b = Ok (components b)"

text \<open>A \<open>[u8; 32]\<close> digest, where there is one.\<close>

definition hash_wf :: "sha256 option \<Rightarrow> bool" where
  "hash_wf h = is_none_or (\<lambda>b. length b = 32) h"

lemma decode_hash_wf [simp]: "hash_wf h \<Longrightarrow> decode_hash h = Ok h"
  by (auto simp: hash_wf_def decode_hash_def is_none_or_iff split: option.splits)

lemma decode_hash_Ok: "decode_hash h = Ok k \<longleftrightarrow> k = h \<and> hash_wf h"
  by (auto simp: hash_wf_def decode_hash_def is_none_or_iff split: option.splits if_splits)

lemma blob_round_trip [simp]: "path_wf p \<Longrightarrow> blob_to_path (path_to_blob p) = Ok p"
  by (simp add: blob_to_path_def path_to_blob_def components_path_str)

end
