(* ===== verification/Rows.thy ===== *)
theory Rows
  imports Codec
begin

text \<open>
  The rows of the journal table \<open>action_events\<close>: the columns an event is written to
  (\<open>EventFields::from_event\<close>) and the columns a stored row is read back as. A
  \<open>u64\<close> that the code casts with \<open>as i64\<close> is stored as its signed value, one
  that is bound as it is fails beyond \<open>i64::MAX\<close>, and reading a negative integer as
  \<open>u64\<close> fails.
\<close>

subsection \<open>Rows\<close>

text \<open>The columns of \<open>action_events\<close>, in groups: numbers of type \<open>'n\<close>, flags of
  type \<open>'b\<close> and device and inode numbers of type \<open>'d\<close> differ between the
  fields of an event, the stored row and the row read back.\<close>

record ('n, 'd) planned_columns =
  pc_path :: "string option"
  pc_operation :: "string option"
  pc_side :: "string option"
  pc_planned_bytes :: "'n option"
  pc_item_type :: "string option"
  pc_size :: "'n option"
  pc_modified :: "int option"
  pc_device :: "'d option"
  pc_inode :: "'d option"
  pc_sha256 :: "string option"

record ('n, 'b) evidence_columns =
  ec_observed_at :: "int option"
  ec_target :: "string option"
  ec_source_present :: "'b option"
  ec_destination_present :: "'b option"
  ec_recovery_present :: "'b option"
  ec_source_size :: "'n option"
  ec_destination_size :: "'n option"
  ec_source_sha256 :: "string option"
  ec_destination_sha256 :: "string option"
  ec_item_size :: "'n option"
  ec_item_sha256 :: "string option"

record ('n, 'b) proof_columns =
  qc_destination_size :: "'n option"
  qc_destination_sha256 :: "string option"
  qc_metadata_verified :: "'b option"

record 'd provenance_columns =
  vc_peer :: "string option"
  vc_root :: "string option"
  vc_relative :: "string option"
  vc_run :: "int option"
  vc_removed_at :: "int option"
  vc_item_type :: "string option"
  vc_device :: "'d option"
  vc_inode :: "'d option"

record ('n, 'b, 'd) event_columns =
  ev_phase :: string
  ev_planned :: "('n, 'd) planned_columns"
  ev_progress :: "'n option"
  ev_reason :: "string option"
  ev_evidence :: "('n, 'b) evidence_columns"
  ev_resolution :: "string option"
  ev_proof :: "('n, 'b) proof_columns"
  ev_method :: "string option"
  ev_provenance :: "'d provenance_columns"

type_synonym event_fields = "(int, int, u64) event_columns"
type_synonym sql_columns = "(int, int, int) event_columns"
type_synonym stored_columns = "(u64, bool, u64) event_columns"

definition empty_planned :: "('n, 'd) planned_columns" where
  "empty_planned =
     \<lparr>pc_path = None, pc_operation = None, pc_side = None, pc_planned_bytes = None,
      pc_item_type = None, pc_size = None, pc_modified = None, pc_device = None,
      pc_inode = None, pc_sha256 = None\<rparr>"

definition empty_evidence :: "('n, 'b) evidence_columns" where
  "empty_evidence =
     \<lparr>ec_observed_at = None, ec_target = None, ec_source_present = None,
      ec_destination_present = None, ec_recovery_present = None, ec_source_size = None,
      ec_destination_size = None, ec_source_sha256 = None, ec_destination_sha256 = None,
      ec_item_size = None, ec_item_sha256 = None\<rparr>"

definition empty_proof :: "('n, 'b) proof_columns" where
  "empty_proof =
     \<lparr>qc_destination_size = None, qc_destination_sha256 = None, qc_metadata_verified = None\<rparr>"

definition empty_provenance :: "'d provenance_columns" where
  "empty_provenance =
     \<lparr>vc_peer = None, vc_root = None, vc_relative = None, vc_run = None, vc_removed_at = None,
      vc_item_type = None, vc_device = None, vc_inode = None\<rparr>"

definition empty_fields :: "string \<Rightarrow> ('n, 'b, 'd) event_columns" where
  "empty_fields phase =
     \<lparr>ev_phase = phase, ev_planned = empty_planned, ev_progress = None, ev_reason = None,
      ev_evidence = empty_evidence, ev_resolution = None, ev_proof = empty_proof,
      ev_method = None, ev_provenance = empty_provenance\<rparr>"

subsection \<open>The fields of an event\<close>

definition as_i64 :: "u64 \<Rightarrow> int" where
  "as_i64 n = sint n"

definition planned_fields :: "plan_record \<Rightarrow> (int, u64) planned_columns" where
  "planned_fields p =
     \<lparr>pc_path = Some (path_to_blob (pr_path p)),
      pc_operation = Some (encode_operation (pr_operation p)),
      pc_side = Some (encode_side (pr_side p)),
      pc_planned_bytes = map_option as_i64 (pr_planned_bytes p),
      pc_item_type = Some (encode_item_type (pre_type (pr_pre p))),
      pc_size = Some (as_i64 (pre_size (pr_pre p))),
      pc_modified = pre_modified (pr_pre p),
      pc_device = map_option fid_device (pre_identity (pr_pre p)),
      pc_inode = map_option fid_inode (pre_identity (pr_pre p)),
      pc_sha256 = pre_sha256 (pr_pre p)\<rparr>"

definition evidence_fields :: "recovery_evidence \<Rightarrow> (int, int) evidence_columns" where
  "evidence_fields e =
     \<lparr>ec_observed_at = Some (re_observed_at e),
      ec_target = map_option path_to_blob (re_target e),
      ec_source_present = Some (bool_to_int (re_source_present e)),
      ec_destination_present = Some (bool_to_int (re_destination_present e)),
      ec_recovery_present = Some (bool_to_int (re_recovery_present e)),
      ec_source_size = map_option as_i64 (re_source_size e),
      ec_destination_size = map_option as_i64 (re_destination_size e),
      ec_source_sha256 = re_source_sha256 e,
      ec_destination_sha256 = re_destination_sha256 e,
      ec_item_size = map_option as_i64 (re_recovery_size e),
      ec_item_sha256 = re_recovery_sha256 e\<rparr>"

definition provenance_fields :: "recovery_evidence \<Rightarrow> u64 provenance_columns" where
  "provenance_fields e =
     (case re_provenance e of
        None \<Rightarrow> empty_provenance
      | Some p \<Rightarrow>
          \<lparr>vc_peer = Some (prov_peer p),
           vc_root = Some (path_to_blob (prov_root p)),
           vc_relative = Some (path_to_blob (prov_relative p)),
           vc_run = Some (as_i64 (of_nat (prov_run p))),
           vc_removed_at = Some (prov_removed_at p),
           vc_item_type = Some (encode_item_type (prov_type p)),
           vc_device = map_option fid_device (prov_identity p),
           vc_inode = map_option fid_inode (prov_identity p)\<rparr>)"

definition set_recovery_fields :: "event_fields \<Rightarrow> recovery_evidence \<Rightarrow> event_fields" where
  "set_recovery_fields f e =
     f\<lparr>ev_evidence := evidence_fields e, ev_provenance := provenance_fields e\<rparr>"

definition proof_fields :: "recovery_evidence \<Rightarrow> bool \<Rightarrow> (int, int) proof_columns" where
  "proof_fields e verified =
     \<lparr>qc_destination_size = map_option as_i64 (re_destination_size e),
      qc_destination_sha256 = re_destination_sha256 e,
      qc_metadata_verified = Some (bool_to_int verified)\<rparr>"

definition terminal_fields :: "string \<Rightarrow> action_reason \<Rightarrow> event_fields" where
  "terminal_fields phase reason = (empty_fields phase)\<lparr>ev_reason := Some (encode_reason reason)\<rparr>"

fun encode_resolution :: "recovery_resolution \<Rightarrow> string" where
  "encode_resolution (RecoveryCompleted _) = ''completed''"
| "encode_resolution (RecoveryUnresolved r) = ''unresolved:'' @ encode_reason r"

fun from_event :: "journal_event \<Rightarrow> event_fields" where
  "from_event (JPlanned p) = (empty_fields ''planned'')\<lparr>ev_planned := planned_fields p\<rparr>"
| "from_event (JStarted _) = empty_fields ''started''"
| "from_event (JProgress _ n) = (empty_fields ''progress'')\<lparr>ev_progress := Some (as_i64 n)\<rparr>"
| "from_event (JTransferVerified _ e v) =
     set_recovery_fields ((empty_fields ''transfer_verified'')\<lparr>ev_proof := proof_fields e v\<rparr>) e"
| "from_event (JProofBoundary _ m e v) =
     set_recovery_fields
       ((empty_fields ''proof_boundary'')
          \<lparr>ev_method := Some (encode_deletion_method m), ev_proof := proof_fields e v\<rparr>) e"
| "from_event (JRemovalStarted _ m) =
     (empty_fields ''removal_started'')\<lparr>ev_method := Some (encode_deletion_method m)\<rparr>"
| "from_event (JRemovalCompleted _ r) =
     set_recovery_fields
       ((empty_fields ''removal_completed'')
          \<lparr>ev_method := Some (encode_deletion_method (rm_method r))\<rparr>) (rm_evidence r)"
| "from_event (JCompleted _) = empty_fields ''completed''"
| "from_event (JFailed _ r) = terminal_fields ''failed'' r"
| "from_event (JCancelled _) = empty_fields ''cancelled''"
| "from_event (JInterrupted _) = empty_fields ''interrupted''"
| "from_event (JDeferred _) =
     (empty_fields ''deferred'')\<lparr>ev_reason := Some (encode_reason DeferredForReview)\<rparr>"
| "from_event (JUnresolved _ r) = terminal_fields ''unresolved'' r"
| "from_event (JRecoveryReview _ r e) = set_recovery_fields (terminal_fields ''recovery_review'' r) e"
| "from_event (JRecoveryResolved _ res) =
     (let f = (empty_fields ''recovery_resolved'')\<lparr>ev_resolution := Some (encode_resolution res)\<rparr> in
      case res of RecoveryCompleted e \<Rightarrow> set_recovery_fields f e | RecoveryUnresolved _ \<Rightarrow> f)"

subsection \<open>Binding and reading\<close>

definition to_sql_u64 :: "u64 \<Rightarrow> storage_error + int" where
  "to_sql_u64 n =
     (if unat n < 2 ^ 63 then Ok (uint n) else Err (Sqlite ''out of range integral type conversion attempted''))"

definition to_sql_id :: "nat \<Rightarrow> storage_error + int" where
  "to_sql_id n =
     (if n < 2 ^ 63 then Ok (int n) else Err (Sqlite ''out of range integral type conversion attempted''))"

definition from_sql_u64 :: "int \<Rightarrow> storage_error + u64" where
  "from_sql_u64 v = (if v < 0 then Err (Sqlite ''Integer out of range'') else Ok (of_int v))"

definition from_sql_bool :: "int \<Rightarrow> bool" where
  "from_sql_bool v = (v \<noteq> 0)"

text \<open>A fallible conversion of an optional column.\<close>

definition convert :: "('a \<Rightarrow> 'e + 'b) \<Rightarrow> 'a option \<Rightarrow> 'e + 'b option" where
  "convert f x = (case x of None \<Rightarrow> Ok None | Some v \<Rightarrow> result_bind (f v) (\<lambda>w. Ok (Some w)))"

definition bind_columns :: "event_fields \<Rightarrow> storage_error + sql_columns" where
  "bind_columns f =
     result_bind (convert to_sql_u64 (pc_device (ev_planned f))) (\<lambda>d.
     result_bind (convert to_sql_u64 (pc_inode (ev_planned f))) (\<lambda>i.
     result_bind (convert to_sql_u64 (vc_device (ev_provenance f))) (\<lambda>vd.
     result_bind (convert to_sql_u64 (vc_inode (ev_provenance f))) (\<lambda>vi.
     (let p = ev_planned f; v = ev_provenance f in
      Ok \<lparr>ev_phase = ev_phase f,
          ev_planned =
            \<lparr>pc_path = pc_path p, pc_operation = pc_operation p, pc_side = pc_side p,
             pc_planned_bytes = pc_planned_bytes p, pc_item_type = pc_item_type p,
             pc_size = pc_size p, pc_modified = pc_modified p, pc_device = d, pc_inode = i,
             pc_sha256 = pc_sha256 p\<rparr>,
          ev_progress = ev_progress f, ev_reason = ev_reason f, ev_evidence = ev_evidence f,
          ev_resolution = ev_resolution f, ev_proof = ev_proof f, ev_method = ev_method f,
          ev_provenance =
            \<lparr>vc_peer = vc_peer v, vc_root = vc_root v, vc_relative = vc_relative v,
             vc_run = vc_run v, vc_removed_at = vc_removed_at v,
             vc_item_type = vc_item_type v, vc_device = vd, vc_inode = vi\<rparr>\<rparr>)))))"

definition read_planned :: "(int, int) planned_columns \<Rightarrow> storage_error + (u64, u64) planned_columns" where
  "read_planned p =
     result_bind (convert from_sql_u64 (pc_planned_bytes p)) (\<lambda>bytes.
     result_bind (convert from_sql_u64 (pc_size p)) (\<lambda>size.
     result_bind (convert from_sql_u64 (pc_device p)) (\<lambda>device.
     result_bind (convert from_sql_u64 (pc_inode p)) (\<lambda>inode.
      Ok \<lparr>pc_path = pc_path p, pc_operation = pc_operation p, pc_side = pc_side p,
          pc_planned_bytes = bytes, pc_item_type = pc_item_type p, pc_size = size,
          pc_modified = pc_modified p, pc_device = device, pc_inode = inode,
          pc_sha256 = pc_sha256 p\<rparr>))))"

definition read_evidence ::
  "(int, int) evidence_columns \<Rightarrow> u64 option \<Rightarrow> u64 option \<Rightarrow> u64 option \<Rightarrow> (u64, bool) evidence_columns" where
  "read_evidence e source destination item =
     \<lparr>ec_observed_at = ec_observed_at e, ec_target = ec_target e,
      ec_source_present = map_option from_sql_bool (ec_source_present e),
      ec_destination_present = map_option from_sql_bool (ec_destination_present e),
      ec_recovery_present = map_option from_sql_bool (ec_recovery_present e),
      ec_source_size = source, ec_destination_size = destination,
      ec_source_sha256 = ec_source_sha256 e, ec_destination_sha256 = ec_destination_sha256 e,
      ec_item_size = item, ec_item_sha256 = ec_item_sha256 e\<rparr>"

definition read_columns :: "sql_columns \<Rightarrow> storage_error + stored_columns" where
  "read_columns r =
     result_bind (read_planned (ev_planned r)) (\<lambda>planned.
     result_bind (convert from_sql_u64 (ev_progress r)) (\<lambda>progress.
     result_bind (convert from_sql_u64 (ec_source_size (ev_evidence r))) (\<lambda>source.
     result_bind (convert from_sql_u64 (ec_destination_size (ev_evidence r))) (\<lambda>destination.
     result_bind (convert from_sql_u64 (qc_destination_size (ev_proof r))) (\<lambda>proof.
     result_bind (convert from_sql_u64 (vc_device (ev_provenance r))) (\<lambda>device.
     result_bind (convert from_sql_u64 (vc_inode (ev_provenance r))) (\<lambda>inode.
     result_bind (convert from_sql_u64 (ec_item_size (ev_evidence r))) (\<lambda>item.
     (let v = ev_provenance r in
      Ok \<lparr>ev_phase = ev_phase r, ev_planned = planned, ev_progress = progress,
          ev_reason = ev_reason r,
          ev_evidence = read_evidence (ev_evidence r) source destination item,
          ev_resolution = ev_resolution r,
          ev_proof =
            \<lparr>qc_destination_size = proof,
             qc_destination_sha256 = qc_destination_sha256 (ev_proof r),
             qc_metadata_verified = map_option from_sql_bool (qc_metadata_verified (ev_proof r))\<rparr>,
          ev_method = ev_method r,
          ev_provenance =
            \<lparr>vc_peer = vc_peer v, vc_root = vc_root v, vc_relative = vc_relative v,
             vc_run = vc_run v, vc_removed_at = vc_removed_at v,
             vc_item_type = vc_item_type v, vc_device = device, vc_inode = inode\<rparr>\<rparr>)))))))))"

text \<open>The unsigned numbers whose cast to \<open>i64\<close> keeps the value.\<close>

definition fits :: "u64 \<Rightarrow> bool" where
  "fits n = (unat n < 2 ^ 63)"

abbreviation fits_opt :: "u64 option \<Rightarrow> bool" where
  "fits_opt \<equiv> is_none_or fits"

lemma as_i64_fits:
  assumes "fits n"
  shows "as_i64 n = uint n"
proof -
  have "int (unat n) < int (2 ^ 63)"
    unfolding of_nat_less_iff using assms by (simp only: fits_def)
  then have "uint n < 2 ^ 63"
    by (simp only: uint_nat of_nat_power of_nat_numeral)
  moreover have "- (2 ^ 63) \<le> uint n"
    by (rule order_trans[OF _ uint_ge_0]) simp
  ultimately show ?thesis
    unfolding as_i64_def sint_uint by (intro signed_take_bit_int_eq_self) simp_all
qed

end
