(* ===== verification/Replay.thy ===== *)
theory Replay
  imports Rows
begin

text \<open>
  Replaying the journal: \<open>load_journal\<close> reads the rows of a run in the order of their
  actions and sequence numbers and folds \<open>apply_stored_event\<close> over them. Every boundary
  is checked again, whoever wrote the row; a row that does not fit is corrupt evidence.
\<close>

subsection \<open>Decoding evidence\<close>

abbreviation need :: "string \<Rightarrow> 'a option \<Rightarrow> storage_error + 'a" where
  "need msg x \<equiv> ok_or (CorruptEvidence msg) x"

definition stored_identity :: "string \<Rightarrow> u64 option \<Rightarrow> u64 option \<Rightarrow> storage_error + file_identity option" where
  "stored_identity msg device inode =
     (case (device, inode) of
        (Some d, Some i) \<Rightarrow> Ok (Some \<lparr>fid_device = d, fid_inode = i\<rparr>)
      | (None, None) \<Rightarrow> Ok None
      | _ \<Rightarrow> Err (CorruptEvidence msg))"

definition stored_content :: "u64 option \<Rightarrow> sha256 option \<Rightarrow> storage_error + content_proof option" where
  "stored_content bytes hash =
     (case (bytes, hash) of
        (Some n, Some h) \<Rightarrow> Ok (Some \<lparr>proof_size = n, proof_sha256 = h\<rparr>)
      | (None, None) \<Rightarrow> Ok None
      | _ \<Rightarrow> Err (CorruptEvidence ''recovery provenance content proof is incomplete''))"

definition provenance_fields_present :: "u64 provenance_columns \<Rightarrow> bool" where
  "provenance_fields_present v =
     (vc_peer v \<noteq> None \<or> vc_root v \<noteq> None \<or> vc_relative v \<noteq> None \<or> vc_run v \<noteq> None \<or>
      vc_removed_at v \<noteq> None \<or> vc_item_type v \<noteq> None \<or> vc_device v \<noteq> None \<or> vc_inode v \<noteq> None)"

definition run_id_from_sql :: "int \<Rightarrow> storage_error + nat" where
  "run_id_from_sql v =
     (if v < 0 then Err (CorruptEvidence ''recovery provenance run id is invalid'') else Ok (nat v))"

definition decode_recovery_provenance ::
  "nat \<Rightarrow> stored_columns \<Rightarrow> storage_error + recovery_provenance option" where
  "decode_recovery_provenance action row =
     (let v = ev_provenance row in
      if \<not> provenance_fields_present v then Ok None
      else
        result_bind (need ''recovery provenance has no peer'' (vc_peer v)) (\<lambda>peer.
        result_bind (result_bind (need ''recovery provenance has no original root'' (vc_root v))
          blob_to_path) (\<lambda>root.
        result_bind (result_bind (need ''recovery provenance has no relative path'' (vc_relative v))
          blob_to_path) (\<lambda>relative.
        result_bind (need ''recovery provenance has no run id'' (vc_run v)) (\<lambda>run.
        result_bind (need ''recovery provenance has no removal time'' (vc_removed_at v)) (\<lambda>removed.
        result_bind (result_bind (need ''recovery provenance has no item type'' (vc_item_type v))
          decode_item_type) (\<lambda>type.
        result_bind (stored_identity ''recovery provenance identity is incomplete''
          (vc_device v) (vc_inode v)) (\<lambda>identity.
        result_bind (decode_hash (ec_source_sha256 (ev_evidence row))) (\<lambda>hash.
        result_bind (stored_content (ec_source_size (ev_evidence row)) hash) (\<lambda>content.
        result_bind (convert decode_deletion_method (ev_method row)) (\<lambda>method.
        result_bind (run_id_from_sql run) (\<lambda>run_id.
        (case provenance_from_record
               \<lparr>prov_action = Some action, prov_peer = peer, prov_root = root,
                prov_relative = relative, prov_run = run_id, prov_removed_at = removed,
                prov_method = (case method of None \<Rightarrow> Trash | Some m \<Rightarrow> m),
                prov_state = (if ev_phase row = ''removal_completed'' then Verified else ReviewRequired),
                prov_type = type, prov_content = content, prov_identity = identity,
                prov_symlink_target = None\<rparr> of
           Inl reason \<Rightarrow> Err (CorruptEvidence (''invalid recovery provenance: '' @ reason))
         | Inr p \<Rightarrow> Ok (Some p))))))))))))))"

definition with_item_proof ::
  "(u64, bool) evidence_columns \<Rightarrow> recovery_evidence \<Rightarrow> storage_error + recovery_evidence" where
  "with_item_proof c e =
     (case ec_item_size c of
        Some n \<Rightarrow>
          result_bind (decode_hash (ec_item_sha256 c)) (\<lambda>h. Ok (with_recovery_proof e n h))
      | None \<Rightarrow>
          if ec_item_sha256 c \<noteq> None
          then Err (CorruptEvidence ''recovery item content proof is incomplete'')
          else Ok e)"

definition decode_recovery_evidence :: "nat \<Rightarrow> stored_columns \<Rightarrow> storage_error + recovery_evidence" where
  "decode_recovery_evidence action row =
     (let c = ev_evidence row in
      result_bind (need ''recovery review has no observation time'' (ec_observed_at c)) (\<lambda>observed.
      result_bind (need ''recovery review has no source presence evidence'' (ec_source_present c)) (\<lambda>source.
      result_bind (need ''recovery review has no destination presence evidence''
        (ec_destination_present c)) (\<lambda>destination.
      result_bind (need ''recovery review has no recovery presence evidence''
        (ec_recovery_present c)) (\<lambda>recovery.
      result_bind (convert blob_to_path (ec_target c)) (\<lambda>target.
      result_bind (decode_hash (ec_source_sha256 c)) (\<lambda>source_hash.
      result_bind (decode_hash (ec_destination_sha256 c)) (\<lambda>destination_hash.
      result_bind (with_item_proof c
        (recovery_evidence_new observed target source destination recovery
           (ec_source_size c) (ec_destination_size c) source_hash destination_hash)) (\<lambda>e.
      result_bind (decode_recovery_provenance action row) (\<lambda>p.
      Ok (case p of Some q \<Rightarrow> with_provenance e q | None \<Rightarrow> e)))))))))))"

definition decode_resolution ::
  "string \<Rightarrow> nat \<Rightarrow> stored_columns \<Rightarrow> storage_error + recovery_resolution" where
  "decode_resolution resolution action row =
     (if resolution = ''completed''
      then result_bind (decode_recovery_evidence action row) (\<lambda>e. Ok (RecoveryCompleted e))
      else
        result_bind
          (ok_or (corrupt ''unknown recovery resolution '' resolution)
             (strip_prefix ''unresolved:'' resolution)) (\<lambda>reason.
        result_bind (decode_reason reason) (\<lambda>r. Ok (RecoveryUnresolved r))))"

subsection \<open>Checks of a replayed boundary\<close>

definition is_safe_delete :: "action_journal_entry \<Rightarrow> bool" where
  "is_safe_delete e = (je_operation e = RemoveSourceAfterVerification)"

definition transfers :: "plan_action_kind \<Rightarrow> bool" where
  "transfers op =
     (op = CopyToDestination \<or> op = OverwriteDestination \<or> op = RemoveSourceAfterVerification)"

definition content_proof_required :: "action_journal_entry \<Rightarrow> bool" where
  "content_proof_required e = (pre_type (pr_pre (je_plan e)) = RegularFile)"

definition running_phase :: "string \<Rightarrow> bool" where
  "running_phase p = (p = ''started'' \<or> p = ''progress'')"

definition mutating_phase :: "string \<Rightarrow> bool" where
  "mutating_phase p =
     (running_phase p \<or> p = ''transfer_verified'' \<or> p = ''proof_boundary'' \<or> p = ''removal_started'')"

definition replay_allowed :: "action_journal_entry \<Rightarrow> string \<Rightarrow> bool" where
  "replay_allowed e next_phase =
     (let last = je_last_phase e in
      if next_phase = ''started'' then last = ''planned''
      else if next_phase = ''progress'' then running_phase last
      else if next_phase = ''transfer_verified''
      then transfers (je_operation e) \<and> running_phase last \<and> je_transfer e = None
      else if next_phase = ''proof_boundary''
      then (\<not> is_safe_delete e \<and> running_phase last \<or>
            is_safe_delete e \<and> last = ''transfer_verified'' \<and> je_transfer e \<noteq> None) \<and>
           je_proof e = None
      else if next_phase = ''removal_started'' then last = ''proof_boundary'' \<and> je_proof e \<noteq> None
      else if next_phase = ''removal_completed''
      then last = ''removal_started'' \<and> je_proof e \<noteq> None \<and> je_removal e = None
      else if next_phase = ''recovery_review'' then mutating_phase last \<and> je_recovery e = None
      else if next_phase = ''recovery_resolved''
      then last = ''recovery_review'' \<and> je_recovery e \<noteq> None \<and> je_resolution e = None
      else if next_phase = ''cancelled'' \<or> next_phase = ''interrupted''
      then last = ''planned'' \<or> running_phase last
      else if next_phase = ''completed'' \<or> next_phase = ''failed'' \<or> next_phase = ''deferred'' \<or>
              next_phase = ''unresolved''
      then mutating_phase last
      else False)"

definition removal_evidence_valid ::
  "action_journal_entry \<Rightarrow> deletion_method \<Rightarrow> recovery_evidence \<Rightarrow> bool" where
  "removal_evidence_valid e method v =
     (\<not> re_source_present v \<and> re_destination_present v \<and> re_destination_size v \<noteq> None \<and>
      (content_proof_required e \<longrightarrow> re_destination_sha256 v \<noteq> None) \<and>
      (content_proof_required e \<and> re_provenance v \<noteq> None \<longrightarrow>
         re_recovery_size v \<noteq> None \<and> re_recovery_sha256 v \<noteq> None) \<and>
      is_none_or (\<lambda>p. prov_action p = Some (pr_action (je_plan e)) \<and> prov_method p = method \<and>
                      prov_state p = Verified) (re_provenance v) \<and>
      (case method of
         Trash \<Rightarrow> re_recovery_present v \<and> re_target v \<noteq> None
       | PermanentRemoval \<Rightarrow> \<not> re_recovery_present v \<and> re_target v = None))"

definition transfer_evidence_valid :: "action_journal_entry \<Rightarrow> recovery_evidence \<Rightarrow> bool" where
  "transfer_evidence_valid e v =
     (re_source_present v \<and> re_destination_present v \<and> \<not> re_recovery_present v \<and>
      re_target v = None \<and> re_source_size v = Some (pre_size (pr_pre (je_plan e))) \<and>
      (content_proof_required e \<longrightarrow> re_source_sha256 v = pre_sha256 (pr_pre (je_plan e))) \<and>
      re_destination_size v \<noteq> None \<and>
      (content_proof_required e \<longrightarrow> re_destination_sha256 v \<noteq> None))"

definition replayed_method_valid ::
  "action_journal_entry \<Rightarrow> deletion_method \<Rightarrow> string option \<Rightarrow> bool" where
  "replayed_method_valid e method configured =
     (is_safe_delete e \<and> configured = Some (encode_deletion_method method))"

subsection \<open>Applying a boundary\<close>

definition replay_transfer_verified ::
  "nat \<Rightarrow> stored_columns \<Rightarrow> action_journal_entry \<Rightarrow> storage_error + action_journal_entry" where
  "replay_transfer_verified action row e =
     (if \<not> transfers (je_operation e) \<or> qc_metadata_verified (ev_proof row) \<noteq> Some True
      then Err (CorruptEvidence
        ''verified transfer boundary needs a supported action and metadata proof'')
      else
        result_bind (decode_recovery_evidence action row) (\<lambda>v.
        if transfer_evidence_valid e v
        then Ok (e\<lparr>je_transfer := Some v, je_outcome := ActInProgress\<rparr>)
        else Err (CorruptEvidence
          ''verified transfer boundary does not match the frozen source proof'')))"

definition stored_method :: "string \<Rightarrow> stored_columns \<Rightarrow> storage_error + deletion_method" where
  "stored_method missing row =
     result_bind (need missing (ev_method row)) decode_deletion_method"

definition proof_evidence_valid ::
  "action_journal_entry \<Rightarrow> u64 \<Rightarrow> sha256 option \<Rightarrow> recovery_evidence \<Rightarrow> bool" where
  "proof_evidence_valid e proof_bytes proof_hash v =
     (re_source_present v \<and> re_destination_present v \<and> \<not> re_recovery_present v \<and>
      re_target v = None \<and> re_source_size v \<noteq> None \<and>
      (content_proof_required e \<longrightarrow> re_source_sha256 v \<noteq> None) \<and>
      re_destination_size v = Some proof_bytes \<and> re_destination_sha256 v = proof_hash)"

definition method_mismatch :: storage_error where
  "method_mismatch = CorruptEvidence
     ''replayed removal boundary does not match the frozen Safe Delete method''"

definition replay_proof_boundary ::
  "string option \<Rightarrow> nat \<Rightarrow> stored_columns \<Rightarrow> action_journal_entry
    \<Rightarrow> storage_error + action_journal_entry" where
  "replay_proof_boundary configured action row e =
     (if is_safe_delete e \<and> je_transfer e = None
      then Err (CorruptEvidence ''Safe Delete proof boundary has no verified transfer boundary'')
      else
        result_bind (stored_method ''proof boundary has no deletion method'' row) (\<lambda>m.
        if \<not> replayed_method_valid e m configured then Err method_mismatch
        else if qc_metadata_verified (ev_proof row) \<noteq> Some True \<or>
                qc_destination_size (ev_proof row) = None \<or>
                content_proof_required e \<and> qc_destination_sha256 (ev_proof row) = None
        then Err (CorruptEvidence
          ''proof boundary is missing metadata or destination content evidence'')
        else
          result_bind (decode_recovery_evidence action row) (\<lambda>v.
          result_bind (need ''proof boundary has no destination size''
            (qc_destination_size (ev_proof row))) (\<lambda>proof_bytes.
          result_bind (decode_hash (qc_destination_sha256 (ev_proof row))) (\<lambda>proof_hash.
          if content_proof_required e \<and> proof_hash = None
          then Err (CorruptEvidence ''proof boundary has no destination SHA-256'')
          else if proof_evidence_valid e proof_bytes proof_hash v
          then Ok (e\<lparr>je_proof := Some v,
                     je_outcome := ActRecoveryReview InterruptedBoundary\<rparr>)
          else Err (CorruptEvidence
            ''proof boundary has incomplete source or destination evidence''))))))"

definition replay_removal_started ::
  "string option \<Rightarrow> stored_columns \<Rightarrow> action_journal_entry \<Rightarrow> storage_error + action_journal_entry" where
  "replay_removal_started configured row e =
     result_bind (stored_method ''removal start has no deletion method'' row) (\<lambda>m.
     if replayed_method_valid e m configured
     then Ok (e\<lparr>je_outcome := ActRecoveryReview InterruptedBoundary\<rparr>)
     else Err method_mismatch)"

definition matches_proof :: "action_journal_entry \<Rightarrow> recovery_evidence \<Rightarrow> bool" where
  "matches_proof e v =
     is_none_or (\<lambda>p. re_destination_size p = re_destination_size v \<and>
                     re_destination_sha256 p = re_destination_sha256 v) (je_proof e)"

definition replay_removal_completed ::
  "string option \<Rightarrow> nat \<Rightarrow> stored_columns \<Rightarrow> action_journal_entry
    \<Rightarrow> storage_error + action_journal_entry" where
  "replay_removal_completed configured action row e =
     result_bind (need ''removal result has no deletion method'' (ev_method row)) (\<lambda>text.
     result_bind (decode_recovery_evidence action row) (\<lambda>v.
     result_bind (decode_deletion_method text) (\<lambda>m.
     if \<not> replayed_method_valid e m configured then Err method_mismatch
     else if \<not> removal_evidence_valid e m v
     then Err (CorruptEvidence
       ''removal result does not prove source absence and the selected recovery outcome'')
     else if \<not> matches_proof e v
     then Err (CorruptEvidence ''removal result does not match the persisted proof boundary'')
     else Ok (e\<lparr>je_removal := Some \<lparr>rm_method = m, rm_evidence = v\<rparr>,
                je_outcome := ActCompleted\<rparr>))))"

definition replay_recovery_review ::
  "nat \<Rightarrow> stored_columns \<Rightarrow> action_journal_entry \<Rightarrow> storage_error + action_journal_entry" where
  "replay_recovery_review action row e =
     result_bind (decode_recovery_evidence action row) (\<lambda>v.
     result_bind (required_reason ''recovery review boundary has no reason'' (ev_reason row)) (\<lambda>r.
     Ok (e\<lparr>je_recovery := Some v, je_outcome := ActRecoveryReview r\<rparr>)))"

definition replay_recovery_resolved ::
  "nat \<Rightarrow> stored_columns \<Rightarrow> action_journal_entry \<Rightarrow> storage_error + action_journal_entry" where
  "replay_recovery_resolved action row e =
     result_bind (need ''recovery resolution has no outcome'' (ev_resolution row)) (\<lambda>text.
     result_bind (decode_resolution text action row) (\<lambda>res.
     case res of
       RecoveryCompleted v \<Rightarrow>
         if is_safe_delete e
         then Err (CorruptEvidence ''Safe Delete action has an unverified recovery completion'')
         else if \<not> is_none_or (\<lambda>review. is_newer_than v review) (je_recovery e)
         then Err (CorruptEvidence ''recovery resolution evidence is not newer than its review'')
         else Ok (e\<lparr>je_resolution := Some v, je_outcome := ActCompleted\<rparr>)
     | RecoveryUnresolved r \<Rightarrow> Ok (e\<lparr>je_outcome := ActUnresolved r\<rparr>)))"

definition replay_effect ::
  "string option \<Rightarrow> nat \<Rightarrow> stored_columns \<Rightarrow> action_journal_entry
    \<Rightarrow> storage_error + action_journal_entry" where
  "replay_effect configured action row e =
     (let phase = ev_phase row in
      if phase = ''started'' then Ok (e\<lparr>je_started := True\<rparr>)
      else if phase = ''progress''
      then result_bind (need ''progress boundary has no byte count'' (ev_progress row))
             (\<lambda>n. Ok (e\<lparr>je_progress := je_progress e @ [n]\<rparr>))
      else if phase = ''transfer_verified'' then replay_transfer_verified action row e
      else if phase = ''proof_boundary'' then replay_proof_boundary configured action row e
      else if phase = ''removal_started'' then replay_removal_started configured row e
      else if phase = ''removal_completed'' then replay_removal_completed configured action row e
      else if phase = ''completed''
      then if is_safe_delete e
           then Err (CorruptEvidence
             ''Safe Delete action has generic completion without a removal result'')
           else Ok (e\<lparr>je_outcome := ActCompleted\<rparr>)
      else if phase = ''failed''
      then result_bind (required_reason ''failed boundary has no reason'' (ev_reason row))
             (\<lambda>r. Ok (e\<lparr>je_outcome := ActFailed r\<rparr>))
      else if phase = ''cancelled'' then Ok (e\<lparr>je_outcome := ActCancelled\<rparr>)
      else if phase = ''interrupted'' then Ok (e\<lparr>je_outcome := ActInterrupted\<rparr>)
      else if phase = ''deferred'' then Ok (e\<lparr>je_outcome := ActDeferred\<rparr>)
      else if phase = ''unresolved''
      then result_bind (required_reason ''unresolved boundary has no reason'' (ev_reason row))
             (\<lambda>r. Ok (e\<lparr>je_outcome := ActUnresolved r\<rparr>))
      else if phase = ''recovery_review'' then replay_recovery_review action row e
      else if phase = ''recovery_resolved'' then replay_recovery_resolved action row e
      else Err (corrupt ''unknown journal phase '' phase))"

definition replay_boundary ::
  "string option \<Rightarrow> nat \<Rightarrow> stored_columns \<Rightarrow> action_journal_entry
    \<Rightarrow> storage_error + action_journal_entry" where
  "replay_boundary configured action row e =
     (if \<not> replay_allowed e (ev_phase row)
      then Err (CorruptEvidence
        (ev_phase row @ '' cannot follow '' @ je_last_phase e @ '' during journal replay''))
      else
        result_bind (replay_effect configured action row e)
          (\<lambda>f. Ok (f\<lparr>je_last_phase := ev_phase row\<rparr>)))"

text \<open>The first boundary of an action.\<close>

definition entry_of_plan :: "plan_record \<Rightarrow> action_journal_entry" where
  "entry_of_plan p =
     \<lparr>je_plan = p, je_last_phase = ''planned'', je_started = False, je_progress = [],
      je_outcome = ActInProgress, je_transfer = None, je_proof = None, je_removal = None,
      je_recovery = None, je_resolution = None\<rparr>"

definition plan_hash :: "string option \<Rightarrow> storage_error + sha256 option" where
  "plan_hash b =
     (case b of None \<Rightarrow> Ok None
      | Some h \<Rightarrow> if length h = 32 then Ok (Some h)
          else Err (CorruptEvidence ''stored SHA-256 digest has the wrong length''))"

definition decode_plan :: "nat \<Rightarrow> bool \<Rightarrow> stored_columns \<Rightarrow> storage_error + plan_record" where
  "decode_plan action known row =
     (let p = ev_planned row in
      result_bind (result_bind (need ''planned action has no path'' (pc_path p)) blob_to_path) (\<lambda>path.
      result_bind (result_bind (need ''planned action has no operation'' (pc_operation p))
        decode_operation) (\<lambda>operation.
      result_bind (result_bind (need ''planned action has no affected side'' (pc_side p))
        decode_side) (\<lambda>side.
      result_bind (result_bind (need ''planned action has no item type'' (pc_item_type p))
        decode_item_type) (\<lambda>type.
      result_bind (need ''planned action has no size'' (pc_size p)) (\<lambda>bytes.
      result_bind (plan_hash (pc_sha256 p)) (\<lambda>hash.
      if known then Err (CorruptEvidence ''action has more than one planned boundary'')
      else
        result_bind (stored_identity ''stored file identity is incomplete''
          (pc_device p) (pc_inode p)) (\<lambda>identity.
        Ok \<lparr>pr_action = action, pr_path = path, pr_operation = operation, pr_side = side,
            pr_planned_bytes = pc_planned_bytes p,
            pr_pre = \<lparr>pre_type = type, pre_size = bytes, pre_modified = pc_modified p,
                      pre_identity = identity, pre_sha256 = hash\<rparr>\<rparr>))))))))"

text \<open>\<open>BTreeMap::insert\<close> on the ascending list of bindings.\<close>

fun btree_insert :: "'k::linorder \<Rightarrow> 'v \<Rightarrow> ('k \<times> 'v) list \<Rightarrow> ('k \<times> 'v) list" where
  "btree_insert k v [] = [(k, v)]"
| "btree_insert k v ((l, w) # m) =
     (if k < l then (k, v) # (l, w) # m
      else if k = l then (k, v) # m
      else (l, w) # btree_insert k v m)"

type_synonym journal_map = "(nat \<times> action_journal_entry) list"

definition apply_stored_event ::
  "string option \<Rightarrow> journal_map \<Rightarrow> nat \<times> stored_columns \<Rightarrow> storage_error + journal_map" where
  "apply_stored_event configured entries ar =
     (case ar of (action, row) \<Rightarrow>
        if ev_phase row = ''planned''
        then result_bind (decode_plan action (btree_get entries action \<noteq> None) row)
               (\<lambda>p. Ok (btree_insert action (entry_of_plan p) entries))
        else case btree_get entries action of
               None \<Rightarrow> Err (CorruptEvidence ''non-planned boundary has no planned action'')
             | Some e \<Rightarrow>
                 result_bind (replay_boundary configured action row e)
                   (\<lambda>f. Ok (btree_insert action f entries)))"

fun replay_rows ::
  "string option \<Rightarrow> journal_map \<Rightarrow> (nat \<times> stored_columns) list \<Rightarrow> storage_error + journal_map" where
  "replay_rows configured entries [] = Ok entries"
| "replay_rows configured entries (r # rs) =
     result_bind (apply_stored_event configured entries r)
       (\<lambda>m. replay_rows configured m rs)"

subsection \<open>The table and the query\<close>

record journal_row =
  row_action :: int
  row_sequence :: int
  row_columns :: sql_columns

record run_journal =
  rj_deletion_method :: "string option"
  rj_rows :: "journal_row list"

type_synonym evidence_store = "nat \<Rightarrow> run_journal option"

definition read_row :: "journal_row \<Rightarrow> storage_error + nat \<times> stored_columns" where
  "read_row r =
     result_bind (from_sql_u64 (row_action r)) (\<lambda>a.
     result_bind (read_columns (row_columns r)) (\<lambda>c. Ok (unat a, c)))"

text \<open>\<open>ORDER BY action_id, sequence\<close>: a stable sort by the second key, then by the
  first.\<close>

definition load_rows :: "run_journal \<Rightarrow> storage_error + journal_map" where
  "load_rows j =
     result_bind
       (collect_results read_row (sort_by row_action (sort_by row_sequence (rj_rows j))))
       (replay_rows (rj_deletion_method j) [])"

definition load_journal :: "evidence_store \<Rightarrow> nat \<Rightarrow> storage_error + action_journal_entry list" where
  "load_journal db run =
     result_bind (to_sql_id run) (\<lambda>_.
     case db run of
       None \<Rightarrow> Ok []
     | Some j \<Rightarrow> result_bind (load_rows j) (\<lambda>m. Ok (map snd m)))"

end
