(* ===== verification/Append.thy ===== *)
theory Append
  imports Replay
begin

text \<open>
  Writing the journal: \<open>append_event\<close> looks up what the table knows about the action,
  validates the event against it and against the earlier actions of the run, and inserts one
  row. A refused event leaves the table as it was.
\<close>

subsection \<open>Queries\<close>

definition rows_of :: "run_journal \<Rightarrow> nat \<Rightarrow> journal_row list" where
  "rows_of j a = filter (\<lambda>r. row_action r = int a) (rj_rows j)"

definition phase_rows :: "run_journal \<Rightarrow> nat \<Rightarrow> string \<Rightarrow> journal_row list" where
  "phase_rows j a phase = filter (\<lambda>r. ev_phase (row_columns r) = phase) (rows_of j a)"

text \<open>\<open>ORDER BY sequence DESC LIMIT 1\<close>; a query without an order returns the first row.\<close>

definition latest :: "journal_row list \<Rightarrow> journal_row option" where
  "latest rs = (if rs = [] then None else Some (last (sort_by row_sequence rs)))"

definition first_row :: "journal_row list \<Rightarrow> journal_row option" where
  "first_row rs = (case rs of [] \<Rightarrow> None | r # _ \<Rightarrow> Some r)"

definition current_phase :: "run_journal \<Rightarrow> nat \<Rightarrow> string option" where
  "current_phase j a = map_option (\<lambda>r. ev_phase (row_columns r)) (latest (rows_of j a))"

definition planned_columns_of :: "run_journal \<Rightarrow> nat \<Rightarrow> (int, int) planned_columns option" where
  "planned_columns_of j a =
     map_option (\<lambda>r. ev_planned (row_columns r)) (first_row (phase_rows j a ''planned''))"

definition has_plan :: "run_journal \<Rightarrow> nat \<Rightarrow> bool" where
  "has_plan j a = (phase_rows j a ''planned'' \<noteq> [])"

definition planned_operation :: "run_journal \<Rightarrow> nat \<Rightarrow> string option" where
  "planned_operation j a = Option.bind (planned_columns_of j a) pc_operation"

definition planned_item_type :: "run_journal \<Rightarrow> nat \<Rightarrow> string option" where
  "planned_item_type j a = Option.bind (planned_columns_of j a) pc_item_type"

definition next_sequence :: "run_journal \<Rightarrow> nat \<Rightarrow> int" where
  "next_sequence j a = foldr max (map row_sequence (rows_of j a)) (- 1) + 1"

subsection \<open>Validation of one event\<close>

text \<open>A list of checks in order: the error of the first one that refuses.\<close>

fun first_refusal :: "(bool \<times> storage_error) list \<Rightarrow> storage_error option" where
  "first_refusal [] = None"
| "first_refusal ((refused, e) # cs) = (if refused then Some e else first_refusal cs)"

lemma first_refusal_None [simp]: "first_refusal cs = None \<longleftrightarrow> (\<forall>c \<in> set cs. \<not> fst c)"
  by (induction cs rule: first_refusal.induct) auto

definition removing :: "string option \<Rightarrow> bool" where
  "removing op = (op = Some ''remove_source_after_verification'')"

definition is_phase :: "string option \<Rightarrow> (string \<Rightarrow> bool) \<Rightarrow> bool" where
  "is_phase cur P = is_some_and P cur"

text \<open>What a transfer or proof boundary has to show of both sides.\<close>

definition both_sides_proved :: "bool \<Rightarrow> recovery_evidence \<Rightarrow> bool" where
  "both_sides_proved content v =
     (re_source_present v \<and> re_destination_present v \<and> \<not> re_recovery_present v \<and>
      re_target v = None \<and> re_source_size v \<noteq> None \<and>
      (content \<longrightarrow> re_source_sha256 v \<noteq> None) \<and> re_destination_size v \<noteq> None \<and>
      (content \<longrightarrow> re_destination_sha256 v \<noteq> None))"

definition supports_transfer :: "string option \<Rightarrow> bool" where
  "supports_transfer op =
     (op = Some ''copy_to_destination'' \<or> op = Some ''overwrite_destination'' \<or> removing op)"

definition recovery_outcome_shown :: "deletion_method \<Rightarrow> recovery_evidence \<Rightarrow> bool" where
  "recovery_outcome_shown method v =
     (case method of
        Trash \<Rightarrow> re_recovery_present v \<and> re_target v \<noteq> None
      | PermanentRemoval \<Rightarrow> \<not> re_recovery_present v \<and> re_target v = None)"

definition removal_shown :: "bool \<Rightarrow> removal_result \<Rightarrow> bool" where
  "removal_shown content r =
     (let v = rm_evidence r in
      \<not> re_source_present v \<and> re_destination_present v \<and> re_destination_size v \<noteq> None \<and>
      (content \<longrightarrow> re_destination_sha256 v \<noteq> None) \<and> recovery_outcome_shown (rm_method r) v)"

fun event_method :: "journal_event \<Rightarrow> deletion_method option" where
  "event_method (JProofBoundary _ m _ _) = Some m"
| "event_method (JRemovalStarted _ m) = Some m"
| "event_method (JRemovalCompleted _ r) = Some (rm_method r)"
| "event_method _ = None"

fun transfer_refused :: "bool \<Rightarrow> string option \<Rightarrow> string option \<Rightarrow> journal_event \<Rightarrow> bool" where
  "transfer_refused content op cur (JTransferVerified _ v verified) =
     (\<not> supports_transfer op \<or> \<not> verified \<or> \<not> both_sides_proved content v \<or>
      \<not> is_phase cur running_phase)"
| "transfer_refused _ _ _ _ = False"

fun proof_refused :: "bool \<Rightarrow> journal_event \<Rightarrow> bool" where
  "proof_refused content (JProofBoundary _ _ v verified) =
     (\<not> verified \<or> \<not> both_sides_proved content v)"
| "proof_refused _ _ = False"

fun proof_out_of_order :: "string option \<Rightarrow> string option \<Rightarrow> journal_event \<Rightarrow> bool" where
  "proof_out_of_order op cur (JProofBoundary _ _ _ _) =
     (removing op \<and> cur \<noteq> Some ''transfer_verified'')"
| "proof_out_of_order _ _ _ = False"

fun generic_completion :: "string option \<Rightarrow> journal_event \<Rightarrow> bool" where
  "generic_completion op (JCompleted _) = removing op"
| "generic_completion _ _ = False"

fun recovery_completion :: "string option \<Rightarrow> journal_event \<Rightarrow> bool" where
  "recovery_completion op (JRecoveryResolved _ (RecoveryCompleted _)) = removing op"
| "recovery_completion _ _ = False"

definition method_refused :: "string option \<Rightarrow> string option \<Rightarrow> journal_event \<Rightarrow> bool" where
  "method_refused op configured event =
     is_some_and (\<lambda>m. \<not> removing op \<or> configured \<noteq> Some (encode_deletion_method m))
       (event_method event)"

fun removal_refused :: "bool \<Rightarrow> journal_event \<Rightarrow> bool" where
  "removal_refused content (JRemovalCompleted _ r) = (\<not> removal_shown content r)"
| "removal_refused _ _ = False"

definition settled_for_append :: "string \<Rightarrow> bool" where
  "settled_for_append p =
     (p \<in> {''completed'', ''failed'', ''cancelled'', ''interrupted'', ''deferred'', ''unresolved'',
           ''removal_completed''})"

definition phase_follows :: "string \<Rightarrow> string option \<Rightarrow> bool" where
  "phase_follows phase cur =
     (if phase = ''started'' then cur = Some ''planned''
      else if phase = ''progress'' \<or> phase = ''transfer_verified'' then is_phase cur running_phase
      else if phase = ''proof_boundary'' then cur = Some ''transfer_verified''
      else if phase = ''removal_started'' then cur = Some ''proof_boundary''
      else if phase = ''removal_completed'' then cur = Some ''removal_started''
      else if phase = ''recovery_resolved'' then cur = Some ''recovery_review''
      else if phase = ''completed'' \<or> phase = ''failed'' \<or> phase = ''deferred'' \<or>
              phase = ''unresolved'' \<or> phase = ''recovery_review''
      then is_phase cur mutating_phase
      else if phase = ''cancelled'' \<or> phase = ''interrupted''
      then is_phase cur (\<lambda>p. p = ''planned'' \<or> running_phase p)
      else False)"

definition debug_option :: "string option \<Rightarrow> string" where
  "debug_option cur = (case cur of None \<Rightarrow> ''None'' | Some p \<Rightarrow> ''Some('' @ [CHR 0x22] @ p @ [CHR 0x22] @ '')'')"

definition validate_phase :: "journal_event \<Rightarrow> bool \<Rightarrow> string option \<Rightarrow> storage_error option" where
  "validate_phase event known cur =
     (if event_phase event = ''planned''
      then first_refusal
        [(known, InvalidEvent ''an action can have only one planned boundary''),
         (cur \<noteq> None, InvalidEvent ''planned must be the first action boundary'')]
      else first_refusal
        [(\<not> known, InvalidEvent ''an action must be planned before its next boundary''),
         (is_phase cur settled_for_append,
          InvalidEvent ''a settled action cannot receive another boundary''),
         (\<not> phase_follows (event_phase event) cur,
          InvalidEvent (event_phase event @ '' cannot follow '' @ debug_option cur))])"

definition validate_event ::
  "journal_event \<Rightarrow> bool \<Rightarrow> string option \<Rightarrow> string option \<Rightarrow> string option \<Rightarrow> string option
    \<Rightarrow> storage_error option" where
  "validate_event event known cur op item_type configured =
     (let content = (item_type = Some ''regular_file'') in
      case first_refusal
        [(transfer_refused content op cur event,
          InvalidEvent ''verified transfer boundary is incomplete or out of order''),
         (proof_refused content event,
          InvalidEvent ''proof boundary is missing independent destination or metadata evidence''),
         (proof_out_of_order op cur event,
          InvalidEvent ''Safe Delete proof boundary requires a verified transfer boundary''),
         (generic_completion op event,
          InvalidEvent ''source-removal actions must settle through RemovalCompleted''),
         (recovery_completion op event,
          InvalidEvent ''Safe Delete recovery cannot be marked completed without a RemovalCompleted result''),
         (method_refused op configured event,
          InvalidEvent ''removal boundary does not match the frozen Safe Delete method''),
         (removal_refused content event,
          InvalidEvent ''removal result does not prove source absence and the selected recovery outcome'')]
      of Some e \<Rightarrow> Some e | None \<Rightarrow> validate_phase event known cur)"

subsection \<open>Validation against the table\<close>

definition stored_size :: "string \<Rightarrow> int option \<Rightarrow> storage_error + u64" where
  "stored_size msg v =
     ok_or (InvalidEvent msg)
       (Option.bind v (\<lambda>n. if n < 0 then None else Some (of_int n)))"

definition check_ok :: "bool \<Rightarrow> string \<Rightarrow> storage_error + unit" where
  "check_ok b msg = (if b then Ok () else Err (InvalidEvent msg))"

lemma check_ok_simps [simp]:
  "check_ok True msg = Ok ()"
  "check_ok b msg = Ok u \<longleftrightarrow> b"
  by (simp_all add: check_ok_def)

text \<open>Reading \<open>NULL\<close> as a value that is not optional.\<close>

definition not_null :: "'a option \<Rightarrow> storage_error + 'a" where
  "not_null v = ok_or (Sqlite ''Invalid column type Null'') v"

fun validate_transfer_event :: "run_journal \<Rightarrow> nat \<Rightarrow> journal_event \<Rightarrow> storage_error + unit" where
  "validate_transfer_event j a (JTransferVerified _ v _) =
     (case planned_columns_of j a of
        None \<Rightarrow> Err (InvalidEvent ''verified transfer boundary requires a planned action'')
      | Some p \<Rightarrow>
          result_bind (not_null (pc_item_type p)) (\<lambda>type.
          result_bind (stored_size ''planned action has no source size'' (pc_size p)) (\<lambda>n.
          result_bind (decode_hash (pc_sha256 p)) (\<lambda>h.
          result_bind (check_ok (\<not> (type = ''regular_file'' \<and> h = None))
            ''planned action has no source SHA-256'') (\<lambda>_.
          check_ok (re_source_size v = Some n \<and> re_source_sha256 v = h)
            ''verified transfer boundary does not match the planned source'')))))"
| "validate_transfer_event j a _ = Ok ()"

fun validate_removal_result :: "run_journal \<Rightarrow> nat \<Rightarrow> journal_event \<Rightarrow> storage_error + unit" where
  "validate_removal_result j a (JRemovalCompleted _ r) =
     (case latest (phase_rows j a ''proof_boundary'') of
        None \<Rightarrow> Err (InvalidEvent ''removal result requires a persisted proof boundary'')
      | Some row \<Rightarrow>
          result_bind (not_null (planned_item_type j a)) (\<lambda>type.
          result_bind (stored_size ''proof boundary has no destination size''
            (qc_destination_size (ev_proof (row_columns row)))) (\<lambda>n.
          result_bind (decode_hash (qc_destination_sha256 (ev_proof (row_columns row)))) (\<lambda>h.
          result_bind
            (check_ok (\<not> (type = ''regular_file'' \<and> h = None))
              ''proof boundary has no destination SHA-256'') (\<lambda>_.
          check_ok
            (re_destination_size (rm_evidence r) = Some n \<and>
             re_destination_sha256 (rm_evidence r) = h)
            ''removal result does not match the persisted proof boundary'')))))"
| "validate_removal_result j a _ = Ok ()"

definition is_settled_phase :: "string \<Rightarrow> bool" where
  "is_settled_phase p =
     (p \<in> {''completed'', ''failed'', ''cancelled'', ''interrupted'', ''deferred'', ''unresolved'',
           ''removal_completed'', ''recovery_resolved''})"

fun event_advances_action :: "journal_event \<Rightarrow> bool" where
  "event_advances_action (JPlanned _) = False"
| "event_advances_action _ = True"

fun records_no_mutation :: "journal_event \<Rightarrow> bool" where
  "records_no_mutation (JCancelled _) = True"
| "records_no_mutation (JInterrupted _) = True"
| "records_no_mutation _ = False"

text \<open>\<open>GROUP BY\<close> over the earlier actions, each with its latest phase.\<close>

definition prior_actions :: "run_journal \<Rightarrow> nat \<Rightarrow> (nat \<times> string) list" where
  "prior_actions j a =
     List.map_filter (\<lambda>b. map_option (Pair b) (current_phase j b))
       (btree_set (filter (\<lambda>b. b < a) (map (nat \<circ> row_action) (rj_rows j))))"

definition unsettled_prior :: "run_journal \<Rightarrow> nat \<Rightarrow> (nat \<times> string) option" where
  "unsettled_prior j a = List.find (\<lambda>(b, phase). \<not> is_settled_phase phase) (prior_actions j a)"

definition validate_action_order :: "run_journal \<Rightarrow> nat \<Rightarrow> journal_event \<Rightarrow> storage_error + unit" where
  "validate_action_order j a event =
     (if records_no_mutation event \<or> \<not> event_advances_action event then Ok ()
      else case unsettled_prior j a of
             None \<Rightarrow> Ok ()
           | Some (b, phase) \<Rightarrow>
               Err (InvalidEvent (''action '' @ nat_str a @ '' cannot settle before prior action ''
                 @ nat_str b @ '' ('' @ phase @ '')'')))"

fun validate_recovery_resolution :: "run_journal \<Rightarrow> nat \<Rightarrow> journal_event \<Rightarrow> storage_error + unit" where
  "validate_recovery_resolution j a (JRecoveryResolved _ (RecoveryCompleted v)) =
     (case latest (phase_rows j a ''recovery_review'') of
        None \<Rightarrow> Err (InvalidEvent ''completed recovery resolution requires a persisted Recovery Review'')
      | Some row \<Rightarrow>
          result_bind (not_null (ec_observed_at (ev_evidence (row_columns row)))) (\<lambda>review.
          check_ok (\<not> re_observed_at v \<le> review)
            ''completed recovery resolution requires newer filesystem inspection evidence''))"
| "validate_recovery_resolution j a _ = Ok ()"

definition validate_all :: "run_journal \<Rightarrow> nat \<Rightarrow> journal_event \<Rightarrow> storage_error + unit" where
  "validate_all j a event =
     (case validate_event event (has_plan j a) (current_phase j a) (planned_operation j a)
             (planned_item_type j a) (rj_deletion_method j) of
        Some e \<Rightarrow> Err e
      | None \<Rightarrow>
          result_bind (validate_transfer_event j a event) (\<lambda>_.
          result_bind (validate_removal_result j a event) (\<lambda>_.
          result_bind (validate_action_order j a event) (\<lambda>_.
          validate_recovery_resolution j a event))))"

definition append_row :: "run_journal \<Rightarrow> nat \<Rightarrow> journal_event \<Rightarrow> storage_error + run_journal" where
  "append_row j a event =
     result_bind (to_sql_id a) (\<lambda>action.
     result_bind (validate_all j a event) (\<lambda>_.
     result_bind (bind_columns (from_event event)) (\<lambda>columns.
     Ok (j\<lparr>rj_rows := rj_rows j @
             [\<lparr>row_action = action, row_sequence = next_sequence j a, row_columns = columns\<rparr>]\<rparr>))))"

definition append_event :: "evidence_store \<Rightarrow> nat \<Rightarrow> journal_event \<Rightarrow> storage_error + evidence_store" where
  "append_event db run event =
     result_bind (to_sql_id run) (\<lambda>_.
     case db run of
       None \<Rightarrow> Err (InvalidEvent (''run '' @ nat_str run @ '' does not exist''))
     | Some j \<Rightarrow>
         result_bind (append_row j (event_action event) event) (\<lambda>j'. Ok (db(run \<mapsto> j'))))"

end
