(* ===== verification/Journal.thy ===== *)
theory Journal
  imports Append
begin

text \<open>
  What the journal promises. An action moves through its boundaries by the step relation
  \<open>boundary_step\<close>; replaying a stored row is one such step, whoever wrote the row, so
  every entry that loads is reachable by steps from its plan, and invariants of the steps are
  facts about every report.
\<close>

subsection \<open>The life cycle of an action\<close>

text \<open>The boundary named by an event takes the entry \<open>e\<close> of its action to the next
  one.\<close>

definition proof_boundary_valid :: "action_journal_entry \<Rightarrow> recovery_evidence \<Rightarrow> bool" where
  "proof_boundary_valid e v =
     (re_source_present v \<and> re_destination_present v \<and> \<not> re_recovery_present v \<and>
      re_target v = None \<and> re_source_size v \<noteq> None \<and> re_destination_size v \<noteq> None \<and>
      (content_proof_required e \<longrightarrow> re_source_sha256 v \<noteq> None \<and> re_destination_sha256 v \<noteq> None))"

abbreviation at_phase :: "string \<Rightarrow> action_journal_entry \<Rightarrow> action_journal_entry" where
  "at_phase p e \<equiv> e\<lparr>je_last_phase := p\<rparr>"

inductive boundary_step ::
  "string option \<Rightarrow> action_journal_entry \<Rightarrow> journal_event \<Rightarrow> action_journal_entry \<Rightarrow> bool"
  for configured :: "string option" where
  started: "je_last_phase e = ''planned'' \<Longrightarrow>
    boundary_step configured e (JStarted a) (at_phase ''started'' (e\<lparr>je_started := True\<rparr>))"
| progress: "running_phase (je_last_phase e) \<Longrightarrow>
    boundary_step configured e (JProgress a n)
      (at_phase ''progress'' (e\<lparr>je_progress := je_progress e @ [n]\<rparr>))"
| transfer: "transfers (je_operation e) \<Longrightarrow> running_phase (je_last_phase e) \<Longrightarrow>
    je_transfer e = None \<Longrightarrow> transfer_evidence_valid e v \<Longrightarrow>
    boundary_step configured e (JTransferVerified a v True)
      (at_phase ''transfer_verified'' (e\<lparr>je_transfer := Some v, je_outcome := ActInProgress\<rparr>))"
| proof_boundary: "replayed_method_valid e m configured \<Longrightarrow> je_last_phase e = ''transfer_verified'' \<Longrightarrow>
    je_transfer e \<noteq> None \<Longrightarrow> je_proof e = None \<Longrightarrow> proof_boundary_valid e v \<Longrightarrow>
    boundary_step configured e (JProofBoundary a m v True)
      (at_phase ''proof_boundary''
        (e\<lparr>je_proof := Some v, je_outcome := ActRecoveryReview InterruptedBoundary\<rparr>))"
| removal_started: "replayed_method_valid e m configured \<Longrightarrow>
    je_last_phase e = ''proof_boundary'' \<Longrightarrow> je_proof e \<noteq> None \<Longrightarrow>
    boundary_step configured e (JRemovalStarted a m)
      (at_phase ''removal_started'' (e\<lparr>je_outcome := ActRecoveryReview InterruptedBoundary\<rparr>))"
| removal_completed: "replayed_method_valid e (rm_method r) configured \<Longrightarrow>
    je_last_phase e = ''removal_started'' \<Longrightarrow> je_proof e \<noteq> None \<Longrightarrow> je_removal e = None \<Longrightarrow>
    removal_evidence_valid e (rm_method r) (rm_evidence r) \<Longrightarrow> matches_proof e (rm_evidence r) \<Longrightarrow>
    boundary_step configured e (JRemovalCompleted a r)
      (at_phase ''removal_completed'' (e\<lparr>je_removal := Some r, je_outcome := ActCompleted\<rparr>))"
| completed: "\<not> is_safe_delete e \<Longrightarrow> mutating_phase (je_last_phase e) \<Longrightarrow>
    boundary_step configured e (JCompleted a) (at_phase ''completed'' (e\<lparr>je_outcome := ActCompleted\<rparr>))"
| failed: "mutating_phase (je_last_phase e) \<Longrightarrow>
    boundary_step configured e (JFailed a r) (at_phase ''failed'' (e\<lparr>je_outcome := ActFailed r\<rparr>))"
| cancelled: "je_last_phase e = ''planned'' \<or> running_phase (je_last_phase e) \<Longrightarrow>
    boundary_step configured e (JCancelled a) (at_phase ''cancelled'' (e\<lparr>je_outcome := ActCancelled\<rparr>))"
| interrupted: "je_last_phase e = ''planned'' \<or> running_phase (je_last_phase e) \<Longrightarrow>
    boundary_step configured e (JInterrupted a)
      (at_phase ''interrupted'' (e\<lparr>je_outcome := ActInterrupted\<rparr>))"
| deferred: "mutating_phase (je_last_phase e) \<Longrightarrow>
    boundary_step configured e (JDeferred a) (at_phase ''deferred'' (e\<lparr>je_outcome := ActDeferred\<rparr>))"
| unresolved: "mutating_phase (je_last_phase e) \<Longrightarrow>
    boundary_step configured e (JUnresolved a r)
      (at_phase ''unresolved'' (e\<lparr>je_outcome := ActUnresolved r\<rparr>))"
| review: "mutating_phase (je_last_phase e) \<Longrightarrow> je_recovery e = None \<Longrightarrow>
    boundary_step configured e (JRecoveryReview a r v)
      (at_phase ''recovery_review'' (e\<lparr>je_recovery := Some v, je_outcome := ActRecoveryReview r\<rparr>))"
| resolved: "\<not> is_safe_delete e \<Longrightarrow> je_last_phase e = ''recovery_review'' \<Longrightarrow>
    je_recovery e = Some w \<Longrightarrow> je_resolution e = None \<Longrightarrow> is_newer_than v w \<Longrightarrow>
    boundary_step configured e (JRecoveryResolved a (RecoveryCompleted v))
      (at_phase ''recovery_resolved'' (e\<lparr>je_resolution := Some v, je_outcome := ActCompleted\<rparr>))"
| not_resolved: "je_last_phase e = ''recovery_review'' \<Longrightarrow> je_recovery e \<noteq> None \<Longrightarrow>
    je_resolution e = None \<Longrightarrow>
    boundary_step configured e (JRecoveryResolved a (RecoveryUnresolved r))
      (at_phase ''recovery_resolved'' (e\<lparr>je_outcome := ActUnresolved r\<rparr>))"

inductive_simps boundary_step_simps [simp]:
  "boundary_step configured e (JPlanned p) f"
  "boundary_step configured e (JStarted a) f"
  "boundary_step configured e (JProgress a n) f"
  "boundary_step configured e (JTransferVerified a v b) f"
  "boundary_step configured e (JProofBoundary a m v b) f"
  "boundary_step configured e (JRemovalStarted a m) f"
  "boundary_step configured e (JRemovalCompleted a r) f"
  "boundary_step configured e (JCompleted a) f"
  "boundary_step configured e (JFailed a r) f"
  "boundary_step configured e (JCancelled a) f"
  "boundary_step configured e (JInterrupted a) f"
  "boundary_step configured e (JDeferred a) f"
  "boundary_step configured e (JUnresolved a r) f"
  "boundary_step configured e (JRecoveryReview a r v) f"
  "boundary_step configured e (JRecoveryResolved a (RecoveryCompleted v)) f"
  "boundary_step configured e (JRecoveryResolved a (RecoveryUnresolved r)) f"

text \<open>An entry the journal of a run can show for the action \<open>a\<close>.\<close>

inductive journaled :: "string option \<Rightarrow> nat \<Rightarrow> action_journal_entry \<Rightarrow> bool"
  for configured :: "string option" and a :: nat where
  planned: "pr_action p = a \<Longrightarrow> journaled configured a (entry_of_plan p)"
| boundary: "journaled configured a e \<Longrightarrow> event_action ev = a \<Longrightarrow> boundary_step configured e ev f \<Longrightarrow>
    journaled configured a f"

subsection \<open>Replaying is stepping\<close>

lemma running_phase_simps [simp]:
  "running_phase ''started''" "running_phase ''progress''" "\<not> running_phase ''planned''"
  "\<not> running_phase ''transfer_verified''" "\<not> running_phase ''proof_boundary''"
  "\<not> running_phase ''removal_started''" "\<not> running_phase ''removal_completed''"
  "\<not> running_phase ''recovery_review''" "\<not> running_phase ''recovery_resolved''"
  "\<not> running_phase ''completed''" "\<not> running_phase ''failed''" "\<not> running_phase ''cancelled''"
  "\<not> running_phase ''interrupted''" "\<not> running_phase ''deferred''" "\<not> running_phase ''unresolved''"
  by (simp_all add: running_phase_def)

lemma replay_allowed_simps [simp]:
  "replay_allowed e ''started'' = (je_last_phase e = ''planned'')"
  "replay_allowed e ''progress'' = running_phase (je_last_phase e)"
  "replay_allowed e ''transfer_verified'' =
     (transfers (je_operation e) \<and> running_phase (je_last_phase e) \<and> je_transfer e = None)"
  "replay_allowed e ''proof_boundary'' =
     ((\<not> is_safe_delete e \<and> running_phase (je_last_phase e) \<or>
       is_safe_delete e \<and> je_last_phase e = ''transfer_verified'' \<and> je_transfer e \<noteq> None) \<and>
      je_proof e = None)"
  "replay_allowed e ''removal_started'' = (je_last_phase e = ''proof_boundary'' \<and> je_proof e \<noteq> None)"
  "replay_allowed e ''removal_completed'' =
     (je_last_phase e = ''removal_started'' \<and> je_proof e \<noteq> None \<and> je_removal e = None)"
  "replay_allowed e ''recovery_review'' = (mutating_phase (je_last_phase e) \<and> je_recovery e = None)"
  "replay_allowed e ''recovery_resolved'' =
     (je_last_phase e = ''recovery_review'' \<and> je_recovery e \<noteq> None \<and> je_resolution e = None)"
  "replay_allowed e ''cancelled'' = (je_last_phase e = ''planned'' \<or> running_phase (je_last_phase e))"
  "replay_allowed e ''interrupted'' = (je_last_phase e = ''planned'' \<or> running_phase (je_last_phase e))"
  "replay_allowed e ''completed'' = mutating_phase (je_last_phase e)"
  "replay_allowed e ''failed'' = mutating_phase (je_last_phase e)"
  "replay_allowed e ''deferred'' = mutating_phase (je_last_phase e)"
  "replay_allowed e ''unresolved'' = mutating_phase (je_last_phase e)"
  by (simp_all add: replay_allowed_def Let_def)

lemma replay_transfer_Ok:
  "replay_transfer_verified a row e = Ok f \<longleftrightarrow>
     transfers (je_operation e) \<and> qc_metadata_verified (ev_proof row) = Some True \<and>
     (\<exists>v. decode_recovery_evidence a row = Ok v \<and> transfer_evidence_valid e v \<and>
       f = e\<lparr>je_transfer := Some v, je_outcome := ActInProgress\<rparr>)"
  by (auto simp: replay_transfer_verified_def)

lemma replay_proof_Ok:
  "replay_proof_boundary configured a row e = Ok f \<longleftrightarrow>
     (\<exists>m v n. \<not> (is_safe_delete e \<and> je_transfer e = None) \<and>
       stored_method ''proof boundary has no deletion method'' row = Ok m \<and>
       replayed_method_valid e m configured \<and>
       qc_metadata_verified (ev_proof row) = Some True \<and>
       qc_destination_size (ev_proof row) = Some n \<and>
       hash_wf (qc_destination_sha256 (ev_proof row)) \<and>
       (content_proof_required e \<longrightarrow> qc_destination_sha256 (ev_proof row) \<noteq> None) \<and>
       decode_recovery_evidence a row = Ok v \<and>
       proof_evidence_valid e n (qc_destination_sha256 (ev_proof row)) v \<and>
       f = e\<lparr>je_proof := Some v, je_outcome := ActRecoveryReview InterruptedBoundary\<rparr>)"
  unfolding replay_proof_boundary_def by (auto simp: decode_hash_Ok)

lemma replay_removal_Ok:
  "replay_removal_completed configured a row e = Ok f \<longleftrightarrow>
     (\<exists>m v. stored_method ''removal result has no deletion method'' row = Ok m \<and>
       decode_recovery_evidence a row = Ok v \<and> replayed_method_valid e m configured \<and>
       removal_evidence_valid e m v \<and> matches_proof e v \<and>
       f = e\<lparr>je_removal := Some \<lparr>rm_method = m, rm_evidence = v\<rparr>, je_outcome := ActCompleted\<rparr>)"
  by (auto simp: replay_removal_completed_def stored_method_def)

lemma replay_resolved_Ok:
  "replay_recovery_resolved a row e = Ok f \<longleftrightarrow>
     (\<exists>text. ev_resolution row = Some text \<and>
       ((\<exists>v. decode_resolution text a row = Ok (RecoveryCompleted v) \<and> \<not> is_safe_delete e \<and>
          is_none_or (\<lambda>w. is_newer_than v w) (je_recovery e) \<and>
          f = e\<lparr>je_resolution := Some v, je_outcome := ActCompleted\<rparr>) \<or>
        (\<exists>r. decode_resolution text a row = Ok (RecoveryUnresolved r) \<and>
          f = e\<lparr>je_outcome := ActUnresolved r\<rparr>)))"
proof (cases "ev_resolution row")
  case (Some s)
  show ?thesis
  proof (cases "decode_resolution s a row")
    case (Inr res)
    with Some show ?thesis by (cases res) (auto simp: replay_recovery_resolved_def)
  qed (use Some in \<open>simp add: replay_recovery_resolved_def\<close>)
qed (simp add: replay_recovery_resolved_def)

lemma replay_effect_simps [step_simps]:
  "ev_phase row = ''started'' \<Longrightarrow> replay_effect c a row e = Ok (e\<lparr>je_started := True\<rparr>)"
  "ev_phase row = ''progress'' \<Longrightarrow> replay_effect c a row e =
     result_bind (need ''progress boundary has no byte count'' (ev_progress row))
       (\<lambda>n. Ok (e\<lparr>je_progress := je_progress e @ [n]\<rparr>))"
  "ev_phase row = ''transfer_verified'' \<Longrightarrow> replay_effect c a row e = replay_transfer_verified a row e"
  "ev_phase row = ''proof_boundary'' \<Longrightarrow> replay_effect c a row e = replay_proof_boundary c a row e"
  "ev_phase row = ''removal_started'' \<Longrightarrow> replay_effect c a row e = replay_removal_started c row e"
  "ev_phase row = ''removal_completed'' \<Longrightarrow> replay_effect c a row e = replay_removal_completed c a row e"
  "ev_phase row = ''completed'' \<Longrightarrow> replay_effect c a row e =
     (if is_safe_delete e
      then Err (CorruptEvidence ''Safe Delete action has generic completion without a removal result'')
      else Ok (e\<lparr>je_outcome := ActCompleted\<rparr>))"
  "ev_phase row = ''failed'' \<Longrightarrow> replay_effect c a row e =
     result_bind (required_reason ''failed boundary has no reason'' (ev_reason row))
       (\<lambda>r. Ok (e\<lparr>je_outcome := ActFailed r\<rparr>))"
  "ev_phase row = ''cancelled'' \<Longrightarrow> replay_effect c a row e = Ok (e\<lparr>je_outcome := ActCancelled\<rparr>)"
  "ev_phase row = ''interrupted'' \<Longrightarrow> replay_effect c a row e = Ok (e\<lparr>je_outcome := ActInterrupted\<rparr>)"
  "ev_phase row = ''deferred'' \<Longrightarrow> replay_effect c a row e = Ok (e\<lparr>je_outcome := ActDeferred\<rparr>)"
  "ev_phase row = ''unresolved'' \<Longrightarrow> replay_effect c a row e =
     result_bind (required_reason ''unresolved boundary has no reason'' (ev_reason row))
       (\<lambda>r. Ok (e\<lparr>je_outcome := ActUnresolved r\<rparr>))"
  "ev_phase row = ''recovery_review'' \<Longrightarrow> replay_effect c a row e = replay_recovery_review a row e"
  "ev_phase row = ''recovery_resolved'' \<Longrightarrow> replay_effect c a row e = replay_recovery_resolved a row e"
  by (simp_all add: replay_effect_def Let_def)

lemma replay_boundary_Ok:
  "replay_boundary c a row e = Ok f \<longleftrightarrow>
     replay_allowed e (ev_phase row) \<and>
     (\<exists>g. replay_effect c a row e = Ok g \<and> f = at_phase (ev_phase row) g)"
  by (auto simp: replay_boundary_def)

lemma replay_allowed_phase:
  "replay_allowed e p \<Longrightarrow>
     p = ''started'' \<or> p = ''progress'' \<or> p = ''transfer_verified'' \<or> p = ''proof_boundary'' \<or>
     p = ''removal_started'' \<or> p = ''removal_completed'' \<or> p = ''completed'' \<or> p = ''failed'' \<or>
     p = ''cancelled'' \<or> p = ''interrupted'' \<or> p = ''deferred'' \<or> p = ''unresolved'' \<or>
     p = ''recovery_review'' \<or> p = ''recovery_resolved''"
  by (auto simp: replay_allowed_def Let_def split: if_splits)

text \<open>A row that replays is a step of its action.\<close>

definition steps_to ::
  "string option \<Rightarrow> nat \<Rightarrow> stored_columns \<Rightarrow> action_journal_entry \<Rightarrow> action_journal_entry \<Rightarrow> bool" where
  "steps_to c a row e g \<longleftrightarrow>
     (\<exists>ev. event_action ev = a \<and> event_phase ev = ev_phase row \<and>
       boundary_step c e ev (at_phase (ev_phase row) g))"

lemma steps_toI:
  "event_action ev = a \<Longrightarrow> event_phase ev = ev_phase row \<Longrightarrow>
     boundary_step c e ev (at_phase (ev_phase row) g) \<Longrightarrow> steps_to c a row e g"
  by (auto simp: steps_to_def)

lemma replay_started:
  assumes "replay_allowed e (ev_phase row)" "replay_effect c a row e = Ok g"
    "ev_phase row = ''started''"
  shows "steps_to c a row e g"
  by (rule steps_toI[where ev = "JStarted a"]) (use assms in \<open>simp_all add: step_simps split: if_splits\<close>)

lemma replay_completed:
  assumes "replay_allowed e (ev_phase row)" "replay_effect c a row e = Ok g"
    "ev_phase row = ''completed''"
  shows "steps_to c a row e g"
  by (rule steps_toI[where ev = "JCompleted a"]) (use assms in \<open>simp_all add: step_simps split: if_splits\<close>)

lemma replay_cancelled:
  assumes "replay_allowed e (ev_phase row)" "replay_effect c a row e = Ok g"
    "ev_phase row = ''cancelled''"
  shows "steps_to c a row e g"
  by (rule steps_toI[where ev = "JCancelled a"]) (use assms in \<open>simp_all add: step_simps split: if_splits\<close>)

lemma replay_interrupted:
  assumes "replay_allowed e (ev_phase row)" "replay_effect c a row e = Ok g"
    "ev_phase row = ''interrupted''"
  shows "steps_to c a row e g"
  by (rule steps_toI[where ev = "JInterrupted a"]) (use assms in \<open>simp_all add: step_simps split: if_splits\<close>)

lemma replay_deferred:
  assumes "replay_allowed e (ev_phase row)" "replay_effect c a row e = Ok g"
    "ev_phase row = ''deferred''"
  shows "steps_to c a row e g"
  by (rule steps_toI[where ev = "JDeferred a"]) (use assms in \<open>simp_all add: step_simps split: if_splits\<close>)

lemma replay_progress:
  assumes "replay_allowed e (ev_phase row)" "replay_effect c a row e = Ok g"
    "ev_phase row = ''progress''"
  shows "steps_to c a row e g"
proof -
  from assms obtain n where "g = e\<lparr>je_progress := je_progress e @ [n]\<rparr>"
    by (auto simp: step_simps)
  with assms show ?thesis
    by (intro steps_toI[where ev = "JProgress a n"]) simp_all
qed

lemma replay_failed:
  assumes "replay_allowed e (ev_phase row)" "replay_effect c a row e = Ok g"
    "ev_phase row = ''failed''"
  shows "steps_to c a row e g"
proof -
  from assms obtain r where "g = e\<lparr>je_outcome := ActFailed r\<rparr>"
    by (auto simp: step_simps)
  with assms show ?thesis
    by (intro steps_toI[where ev = "JFailed a r"]) simp_all
qed

lemma replay_unresolved:
  assumes "replay_allowed e (ev_phase row)" "replay_effect c a row e = Ok g"
    "ev_phase row = ''unresolved''"
  shows "steps_to c a row e g"
proof -
  from assms obtain r where "g = e\<lparr>je_outcome := ActUnresolved r\<rparr>"
    by (auto simp: step_simps)
  with assms show ?thesis
    by (intro steps_toI[where ev = "JUnresolved a r"]) simp_all
qed

lemma replay_transfer:
  assumes "replay_allowed e (ev_phase row)" "replay_effect c a row e = Ok g"
    "ev_phase row = ''transfer_verified''"
  shows "steps_to c a row e g"
proof -
  from assms obtain v where "transfers (je_operation e)" "transfer_evidence_valid e v"
    "g = e\<lparr>je_transfer := Some v, je_outcome := ActInProgress\<rparr>"
    by (auto simp: step_simps replay_transfer_Ok)
  with assms show ?thesis
    by (intro steps_toI[where ev = "JTransferVerified a v True"]) simp_all
qed

lemma replay_proof:
  assumes "replay_allowed e (ev_phase row)" "replay_effect c a row e = Ok g"
    "ev_phase row = ''proof_boundary''"
  shows "steps_to c a row e g"
proof -
  from assms obtain m v n where r: "replayed_method_valid e m c"
    "proof_evidence_valid e n (qc_destination_sha256 (ev_proof row)) v"
    "content_proof_required e \<longrightarrow> qc_destination_sha256 (ev_proof row) \<noteq> None"
    "g = e\<lparr>je_proof := Some v, je_outcome := ActRecoveryReview InterruptedBoundary\<rparr>"
    by (auto simp: step_simps replay_proof_Ok)
  from r have "proof_boundary_valid e v"
    by (simp add: proof_evidence_valid_def proof_boundary_valid_def)
  with r assms show ?thesis
    by (intro steps_toI[where ev = "JProofBoundary a m v True"])
      (simp_all add: replayed_method_valid_def)
qed

lemma replay_removal_start:
  assumes "replay_allowed e (ev_phase row)" "replay_effect c a row e = Ok g"
    "ev_phase row = ''removal_started''"
  shows "steps_to c a row e g"
proof -
  from assms obtain m where "replayed_method_valid e m c"
    "g = e\<lparr>je_outcome := ActRecoveryReview InterruptedBoundary\<rparr>"
    by (auto simp: step_simps replay_removal_started_def split: if_splits)
  with assms show ?thesis
    by (intro steps_toI[where ev = "JRemovalStarted a m"]) simp_all
qed

lemma replay_removal:
  assumes "replay_allowed e (ev_phase row)" "replay_effect c a row e = Ok g"
    "ev_phase row = ''removal_completed''"
  shows "steps_to c a row e g"
proof -
  from assms obtain m v where "replayed_method_valid e m c" "removal_evidence_valid e m v"
    "matches_proof e v"
    "g = e\<lparr>je_removal := Some \<lparr>rm_method = m, rm_evidence = v\<rparr>, je_outcome := ActCompleted\<rparr>"
    by (auto simp: step_simps replay_removal_Ok)
  with assms show ?thesis
    by (intro steps_toI[where ev = "JRemovalCompleted a \<lparr>rm_method = m, rm_evidence = v\<rparr>"]) simp_all
qed

lemma replay_review:
  assumes "replay_allowed e (ev_phase row)" "replay_effect c a row e = Ok g"
    "ev_phase row = ''recovery_review''"
  shows "steps_to c a row e g"
proof -
  from assms obtain v r where "g = e\<lparr>je_recovery := Some v, je_outcome := ActRecoveryReview r\<rparr>"
    by (auto simp: step_simps replay_recovery_review_def)
  with assms show ?thesis
    by (intro steps_toI[where ev = "JRecoveryReview a r v"]) simp_all
qed

lemma replay_resolved:
  assumes "replay_allowed e (ev_phase row)" "replay_effect c a row e = Ok g"
    "ev_phase row = ''recovery_resolved''"
  shows "steps_to c a row e g"
proof -
  from assms obtain w where w: "je_last_phase e = ''recovery_review''" "je_recovery e = Some w"
    "je_resolution e = None" by auto
  from assms w consider v where "\<not> is_safe_delete e" "is_newer_than v w"
      "g = e\<lparr>je_resolution := Some v, je_outcome := ActCompleted\<rparr>"
    | r where "g = e\<lparr>je_outcome := ActUnresolved r\<rparr>"
    by (auto simp: step_simps replay_resolved_Ok)
  then show ?thesis
  proof cases
    case (1 v)
    with w assms show ?thesis
      by (intro steps_toI[where ev = "JRecoveryResolved a (RecoveryCompleted v)"]) simp_all
  next
    case (2 r)
    with w assms show ?thesis
      by (intro steps_toI[where ev = "JRecoveryResolved a (RecoveryUnresolved r)"]) simp_all
  qed
qed

lemmas replayed_steps =
  replay_started replay_progress replay_transfer replay_proof replay_removal_start replay_removal
  replay_completed replay_failed replay_cancelled replay_interrupted replay_deferred
  replay_unresolved replay_review replay_resolved

lemma replay_is_step:
  assumes "replay_boundary c a row e = Ok f"
  shows "\<exists>ev. event_action ev = a \<and> event_phase ev = ev_phase row \<and> boundary_step c e ev f"
proof -
  from assms obtain g where al: "replay_allowed e (ev_phase row)"
    and g: "replay_effect c a row e = Ok g" and f: "f = at_phase (ev_phase row) g"
    by (auto simp: replay_boundary_Ok)
  from replay_allowed_phase[OF al] have "steps_to c a row e g"
    by (elim disjE) (erule replayed_steps[OF al g])+
  with f show ?thesis by (simp add: steps_to_def)
qed

subsection \<open>Every loaded entry is reachable\<close>

lemma map_of_btree_insert: "map_of (btree_insert k v m) = (map_of m)(k \<mapsto> v)"
  by (induction k v m rule: btree_insert.induct) (auto simp: fun_eq_iff)

lemma btree_get_insert [simp]:
  "btree_get (btree_insert k v m) l = (if l = k then Some v else btree_get m l)"
  by (simp add: btree_get_def map_of_btree_insert)

lemma set_btree_insert: "set (btree_insert k v m) \<subseteq> insert (k, v) (set m)"
  by (induction k v m rule: btree_insert.induct) auto

lemma sorted_btree_insert:
  "sorted (map fst m) \<Longrightarrow> distinct (map fst m) \<Longrightarrow>
     sorted (map fst (btree_insert k v m)) \<and> distinct (map fst (btree_insert k v m))"
proof (induction k v m rule: btree_insert.induct)
  case (2 k v l w m)
  have "\<forall>x \<in> set (btree_insert k v m). fst x = k \<or> x \<in> set m"
    using set_btree_insert[of k v m] by auto
  with 2 show ?case by (fastforce simp: less_le)
qed simp

lemma decode_plan_action: "decode_plan a known row = Ok p \<Longrightarrow> pr_action p = a"
  by (auto simp: decode_plan_def Let_def split: if_splits)

definition journal_map_ok :: "string option \<Rightarrow> journal_map \<Rightarrow> bool" where
  "journal_map_ok c m \<longleftrightarrow> (\<forall>(a, e) \<in> set m. journaled c a e)"

lemma journal_map_okD: "journal_map_ok c m \<Longrightarrow> btree_get m a = Some e \<Longrightarrow> journaled c a e"
  by (auto simp: journal_map_ok_def btree_get_def dest: map_of_SomeD)

lemma journal_map_ok_insert:
  "journal_map_ok c m \<Longrightarrow> journaled c a e \<Longrightarrow> journal_map_ok c (btree_insert a e m)"
  using set_btree_insert[of a e m] by (fastforce simp: journal_map_ok_def)

lemma apply_stored_event_ok:
  assumes "journal_map_ok c m" and "apply_stored_event c m r = Ok m'"
  shows "journal_map_ok c m'"
proof -
  obtain a row where r: "r = (a, row)" by (cases r)
  show ?thesis
  proof (cases "ev_phase row = ''planned''")
    case True
    with assms r obtain p where "pr_action p = a" "m' = btree_insert a (entry_of_plan p) m"
      by (auto simp: apply_stored_event_def dest: decode_plan_action)
    with assms(1) show ?thesis by (auto intro: journal_map_ok_insert journaled.planned)
  next
    case False
    with assms r obtain e f where e: "btree_get m a = Some e" "replay_boundary c a row e = Ok f"
      "m' = btree_insert a f m"
      by (auto simp: apply_stored_event_def split: option.splits)
    from replay_is_step[OF e(2)] journal_map_okD[OF assms(1) e(1)] have "journaled c a f"
      by (auto intro: journaled.boundary)
    with assms(1) e show ?thesis by (simp add: journal_map_ok_insert)
  qed
qed

lemma replay_rows_ok: "journal_map_ok c m \<Longrightarrow> replay_rows c m rs = Ok m' \<Longrightarrow> journal_map_ok c m'"
  by (induction rs arbitrary: m) (auto dest: apply_stored_event_ok)

lemma loaded_is_journaled:
  assumes "load_journal db run = Ok es" and "db run = Some j" and "e \<in> set es"
  shows "journaled (rj_deletion_method j) (pr_action (je_plan e)) e"
proof -
  from assms obtain rows m where "replay_rows (rj_deletion_method j) [] rows = Ok m" "es = map snd m"
    by (auto simp: load_journal_def load_rows_def)
  moreover have "journal_map_ok (rj_deletion_method j) []"
    by (simp add: journal_map_ok_def)
  ultimately have "journal_map_ok (rj_deletion_method j) m"
    by (auto dest: replay_rows_ok)
  with \<open>es = map snd m\<close> assms(3) obtain a where "journaled (rj_deletion_method j) a e"
    by (auto simp: journal_map_ok_def)
  moreover from this have "pr_action (je_plan e) = a"
    by induction (auto simp: entry_of_plan_def elim: boundary_step.cases)
  ultimately show ?thesis by simp
qed

subsection \<open>What an entry proves\<close>

definition entry_ok :: "string option \<Rightarrow> action_journal_entry \<Rightarrow> bool" where
  "entry_ok c e \<longleftrightarrow>
     (\<forall>t. je_transfer e = Some t \<longrightarrow> transfers (je_operation e) \<and> transfer_evidence_valid e t) \<and>
     (\<forall>p. je_proof e = Some p \<longrightarrow>
        is_safe_delete e \<and> je_transfer e \<noteq> None \<and> proof_boundary_valid e p) \<and>
     (\<forall>r. je_removal e = Some r \<longrightarrow>
        je_proof e \<noteq> None \<and> c = Some (encode_deletion_method (rm_method r)) \<and>
        removal_evidence_valid e (rm_method r) (rm_evidence r) \<and> matches_proof e (rm_evidence r)) \<and>
     (\<forall>v. je_resolution e = Some v \<longrightarrow>
        \<not> is_safe_delete e \<and> is_some_and (is_newer_than v) (je_recovery e)) \<and>
     (is_safe_delete e \<and> je_outcome e = ActCompleted \<longrightarrow> je_removal e \<noteq> None)"

lemma entry_checks_update [simp]:
  "is_safe_delete (e\<lparr>je_last_phase := x\<rparr>) = is_safe_delete e"
  "is_safe_delete (e\<lparr>je_started := b\<rparr>) = is_safe_delete e"
  "is_safe_delete (e\<lparr>je_progress := ns\<rparr>) = is_safe_delete e"
  "is_safe_delete (e\<lparr>je_outcome := out\<rparr>) = is_safe_delete e"
  "is_safe_delete (e\<lparr>je_transfer := t\<rparr>) = is_safe_delete e"
  "is_safe_delete (e\<lparr>je_proof := t\<rparr>) = is_safe_delete e"
  "is_safe_delete (e\<lparr>je_removal := r\<rparr>) = is_safe_delete e"
  "is_safe_delete (e\<lparr>je_recovery := t\<rparr>) = is_safe_delete e"
  "is_safe_delete (e\<lparr>je_resolution := t\<rparr>) = is_safe_delete e"
  by (simp_all add: is_safe_delete_def)

lemma same_plan_checks:
  assumes "je_plan f = je_plan e"
  shows "is_safe_delete f = is_safe_delete e"
    and "content_proof_required f = content_proof_required e"
    and "transfer_evidence_valid f = transfer_evidence_valid e"
    and "proof_boundary_valid f = proof_boundary_valid e"
    and "removal_evidence_valid f = removal_evidence_valid e"
  using assms
  by (simp_all add: fun_eq_iff is_safe_delete_def content_proof_required_def
      transfer_evidence_valid_def proof_boundary_valid_def removal_evidence_valid_def)

lemma boundary_step_plan: "boundary_step c e ev f \<Longrightarrow> je_plan f = je_plan e"
  by (induction rule: boundary_step.induct) simp_all

lemma entry_ok_step:
  assumes "boundary_step c e ev f" and "entry_ok c e"
  shows "entry_ok c f"
  using assms same_plan_checks[OF boundary_step_plan[OF assms(1)]]
  by (induction rule: boundary_step.induct)
    (simp_all add: entry_ok_def matches_proof_def replayed_method_valid_def, auto)

lemma entry_ok_journaled: "journaled c a e \<Longrightarrow> entry_ok c e"
  by (induction rule: journaled.induct)
    (auto simp: entry_ok_step, simp add: entry_ok_def entry_of_plan_def)

lemmas loaded_entry_ok = entry_ok_journaled[OF loaded_is_journaled]

end
