(* ===== verification/RoundTrip.thy ===== *)
theory RoundTrip
  imports Journal
begin

text \<open>
  Reading back what was written: the columns of an event that fits the table decode to that
  event again. Only the provenance of a recovered item comes back in a fixed form
  (\<open>canonical_provenance\<close>), because the table has no columns for its action, method,
  state, content proof and link target: they are rebuilt from the row.
\<close>

subsection \<open>Events that fit the table\<close>

definition provenance_storable :: "recovery_evidence \<Rightarrow> recovery_provenance \<Rightarrow> bool" where
  "provenance_storable v p =
     (provenance_error p = None \<and> path_wf (prov_root p) \<and> path_wf (prov_relative p) \<and>
      prov_run p < 2 ^ 63 \<and>
      is_none_or (\<lambda>i. fits (fid_device i) \<and> fits (fid_inode i)) (prov_identity p) \<and>
      (re_source_size v = None) = (re_source_sha256 v = None))"

definition evidence_storable :: "recovery_evidence \<Rightarrow> bool" where
  "evidence_storable v =
     (fits_opt (re_source_size v) \<and> fits_opt (re_destination_size v) \<and>
      fits_opt (re_recovery_size v) \<and>
      hash_wf (re_source_sha256 v) \<and> hash_wf (re_destination_sha256 v) \<and>
      hash_wf (re_recovery_sha256 v) \<and>
      (re_recovery_size v = None \<longrightarrow> re_recovery_sha256 v = None) \<and>
      is_none_or path_wf (re_target v) \<and>
      is_none_or (provenance_storable v) (re_provenance v))"

definition plan_storable :: "plan_record \<Rightarrow> bool" where
  "plan_storable p =
     (path_wf (pr_path p) \<and> fits_opt (pr_planned_bytes p) \<and> fits (pre_size (pr_pre p)) \<and>
      is_none_or (\<lambda>i. fits (fid_device i) \<and> fits (fid_inode i)) (pre_identity (pr_pre p)) \<and>
      hash_wf (pre_sha256 (pr_pre p)))"

fun event_evidence :: "journal_event \<Rightarrow> recovery_evidence option" where
  "event_evidence (JTransferVerified _ v _) = Some v"
| "event_evidence (JProofBoundary _ _ v _) = Some v"
| "event_evidence (JRemovalCompleted _ r) = Some (rm_evidence r)"
| "event_evidence (JRecoveryReview _ _ v) = Some v"
| "event_evidence (JRecoveryResolved _ (RecoveryCompleted v)) = Some v"
| "event_evidence _ = None"

fun event_storable :: "journal_event \<Rightarrow> bool" where
  "event_storable (JPlanned p) = plan_storable p"
| "event_storable (JProgress _ n) = fits n"
| "event_storable ev = is_none_or evidence_storable (event_evidence ev)"

subsection \<open>The form in which evidence comes back\<close>

definition canonical_provenance ::
  "string \<Rightarrow> deletion_method option \<Rightarrow> nat \<Rightarrow> recovery_evidence \<Rightarrow> recovery_provenance \<Rightarrow> recovery_provenance" where
  "canonical_provenance phase method a v p =
     p\<lparr>prov_action := Some a,
       prov_method := (case method of None \<Rightarrow> Trash | Some m \<Rightarrow> m),
       prov_state := (if phase = ''removal_completed'' then Verified else ReviewRequired),
       prov_content :=
         (case (re_source_size v, re_source_sha256 v) of
            (Some n, Some h) \<Rightarrow> Some \<lparr>proof_size = n, proof_sha256 = h\<rparr> | _ \<Rightarrow> None),
       prov_symlink_target := None\<rparr>"

definition canonical_evidence ::
  "string \<Rightarrow> deletion_method option \<Rightarrow> nat \<Rightarrow> recovery_evidence \<Rightarrow> recovery_evidence" where
  "canonical_evidence phase method a v =
     v\<lparr>re_provenance := map_option (canonical_provenance phase method a v) (re_provenance v)\<rparr>"

fun canonical_event :: "journal_event \<Rightarrow> journal_event" where
  "canonical_event (JTransferVerified a v b) =
     JTransferVerified a (canonical_evidence ''transfer_verified'' None a v) b"
| "canonical_event (JProofBoundary a m v b) =
     JProofBoundary a m (canonical_evidence ''proof_boundary'' (Some m) a v) b"
| "canonical_event (JRemovalCompleted a r) =
     JRemovalCompleted a (r\<lparr>rm_evidence :=
       canonical_evidence ''removal_completed'' (Some (rm_method r)) a (rm_evidence r)\<rparr>)"
| "canonical_event (JRecoveryReview a r v) =
     JRecoveryReview a r (canonical_evidence ''recovery_review'' None a v)"
| "canonical_event (JRecoveryResolved a (RecoveryCompleted v)) =
     JRecoveryResolved a (RecoveryCompleted (canonical_evidence ''recovery_resolved'' None a v))"
| "canonical_event ev = ev"

lemma canonical_evidence_same [simp]:
  "re_observed_at (canonical_evidence ph m a v) = re_observed_at v"
  "re_target (canonical_evidence ph m a v) = re_target v"
  "re_source_present (canonical_evidence ph m a v) = re_source_present v"
  "re_destination_present (canonical_evidence ph m a v) = re_destination_present v"
  "re_recovery_present (canonical_evidence ph m a v) = re_recovery_present v"
  "re_source_size (canonical_evidence ph m a v) = re_source_size v"
  "re_destination_size (canonical_evidence ph m a v) = re_destination_size v"
  "re_source_sha256 (canonical_evidence ph m a v) = re_source_sha256 v"
  "re_destination_sha256 (canonical_evidence ph m a v) = re_destination_sha256 v"
  "re_recovery_size (canonical_evidence ph m a v) = re_recovery_size v"
  "re_recovery_sha256 (canonical_evidence ph m a v) = re_recovery_sha256 v"
  "re_provenance (canonical_evidence ph m a v) =
     map_option (canonical_provenance ph m a v) (re_provenance v)"
  by (simp_all add: canonical_evidence_def)

subsection \<open>Numbers\<close>

lemma from_sql_as_i64 [simp]: "fits n \<Longrightarrow> from_sql_u64 (as_i64 n) = Ok n"
  by (simp add: as_i64_fits from_sql_u64_def not_less)

lemma from_sql_uint [simp]: "from_sql_u64 (uint n) = Ok n"
  by (simp add: from_sql_u64_def not_less)

lemma to_sql_u64_Ok [simp]: "to_sql_u64 n = Ok v \<longleftrightarrow> fits n \<and> v = uint n"
  by (auto simp: to_sql_u64_def fits_def)

lemma as_i64_of_nat: "n < 2 ^ 63 \<Longrightarrow> as_i64 (of_nat n) = int n"
  by (subst as_i64_fits) (simp_all add: fits_def unat_of_nat uint_nat)

lemma convert_map:
  "is_none_or P x \<Longrightarrow> (\<And>n. P n \<Longrightarrow> f (g n) = Ok n) \<Longrightarrow> convert f (map_option g x) = Ok x"
  by (cases x) (simp_all add: convert_def)

lemma convert_as_i64 [simp]: "fits_opt x \<Longrightarrow> convert from_sql_u64 (map_option as_i64 x) = Ok x"
  by (rule convert_map[where P = fits]) simp_all

lemma convert_uint [simp]: "convert from_sql_u64 (map_option uint x) = Ok x"
  by (cases x) (simp_all add: convert_def)

lemma convert_simps [simp]:
  "convert f None = Ok None"
  "convert f (Some x) = result_bind (f x) (\<lambda>y. Ok (Some y))"
  by (simp_all add: convert_def)

lemma convert_to_sql [simp]:
  "convert to_sql_u64 x = Ok y \<longleftrightarrow> fits_opt x \<and> y = map_option uint x"
  by (cases x) (auto simp: convert_def)

lemma from_sql_bool_of [simp]: "from_sql_bool (bool_to_int b) = b"
  by (simp add: from_sql_bool_def bool_to_int_def)

lemma is_none_or_map [simp]: "is_none_or P (map_option f x) = is_none_or (P \<circ> f) x"
  by (cases x) simp_all

subsection \<open>Columns read back\<close>

definition evidence_read :: "recovery_evidence \<Rightarrow> (u64, bool) evidence_columns" where
  "evidence_read e =
     \<lparr>ec_observed_at = Some (re_observed_at e),
      ec_target = map_option path_to_blob (re_target e),
      ec_source_present = Some (re_source_present e),
      ec_destination_present = Some (re_destination_present e),
      ec_recovery_present = Some (re_recovery_present e),
      ec_source_size = re_source_size e, ec_destination_size = re_destination_size e,
      ec_source_sha256 = re_source_sha256 e, ec_destination_sha256 = re_destination_sha256 e,
      ec_item_size = re_recovery_size e, ec_item_sha256 = re_recovery_sha256 e\<rparr>"

lemma evidence_read_simps [simp]:
  "ec_observed_at (evidence_read e) = Some (re_observed_at e)"
  "ec_target (evidence_read e) = map_option path_to_blob (re_target e)"
  "ec_source_present (evidence_read e) = Some (re_source_present e)"
  "ec_destination_present (evidence_read e) = Some (re_destination_present e)"
  "ec_recovery_present (evidence_read e) = Some (re_recovery_present e)"
  "ec_source_size (evidence_read e) = re_source_size e"
  "ec_destination_size (evidence_read e) = re_destination_size e"
  "ec_source_sha256 (evidence_read e) = re_source_sha256 e"
  "ec_destination_sha256 (evidence_read e) = re_destination_sha256 e"
  "ec_item_size (evidence_read e) = re_recovery_size e"
  "ec_item_sha256 (evidence_read e) = re_recovery_sha256 e"
  by (simp_all add: evidence_read_def)

lemma read_evidence_fields [simp]:
  "read_evidence (evidence_fields e) (re_source_size e) (re_destination_size e) (re_recovery_size e)
     = evidence_read e"
  by (simp add: read_evidence_def evidence_fields_def evidence_read_def)

lemma decode_provenance_read:
  assumes "ev_provenance row = provenance_fields v" and "ev_evidence row = evidence_read v"
    and "ev_method row = map_option encode_deletion_method m"
    and "evidence_storable v"
  shows "decode_recovery_provenance a row =
    Ok (map_option (canonical_provenance (ev_phase row) m a v) (re_provenance v))"
proof (cases "re_provenance v")
  case None
  with assms show ?thesis
    by (simp add: decode_recovery_provenance_def provenance_fields_def empty_provenance_def
        provenance_fields_present_def)
next
  case (Some p)
  with assms have st: "provenance_storable v p" "hash_wf (re_source_sha256 v)"
    by (simp_all add: evidence_storable_def)
  have content: "stored_content (re_source_size v) (re_source_sha256 v) =
      Ok (prov_content (canonical_provenance (ev_phase row) m a v p))"
    using st by (cases "re_source_size v"; cases "re_source_sha256 v")
      (simp_all add: stored_content_def canonical_provenance_def provenance_storable_def)
  have ident: "stored_identity msg (map_option fid_device (prov_identity p))
      (map_option fid_inode (prov_identity p)) = Ok (prov_identity p)" for msg
    by (cases "prov_identity p") (simp_all add: stored_identity_def)
  have meth: "convert decode_deletion_method (ev_method row) = Ok m"
    using assms(3) by (cases m) (simp_all add: convert_def)
  have run: "run_id_from_sql (as_i64 (of_nat (prov_run p))) = Ok (prov_run p)"
    using st by (simp add: provenance_storable_def as_i64_of_nat run_id_from_sql_def)
  have err: "provenance_error (canonical_provenance (ev_phase row) m a v p) = None"
    using st by (simp add: provenance_storable_def provenance_error_None canonical_provenance_def)
  have wf: "path_wf (prov_root p)" "path_wf (prov_relative p)"
    using st by (simp_all add: provenance_storable_def)
  have rec: "\<lparr>prov_action = Some a, prov_peer = prov_peer p, prov_root = prov_root p,
      prov_relative = prov_relative p, prov_run = prov_run p, prov_removed_at = prov_removed_at p,
      prov_method = (case m of None \<Rightarrow> Trash | Some m \<Rightarrow> m),
      prov_state = (if ev_phase row = ''removal_completed'' then Verified else ReviewRequired),
      prov_type = prov_type p,
      prov_content = prov_content (canonical_provenance (ev_phase row) m a v p),
      prov_identity = prov_identity p, prov_symlink_target = None\<rparr> =
      canonical_provenance (ev_phase row) m a v p"
    by (simp add: canonical_provenance_def)
  show ?thesis
    using assms(1,2) Some wf st content
    by (simp add: decode_recovery_provenance_def provenance_fields_def
        provenance_fields_present_def Let_def ident meth run rec
        provenance_from_record_def err)
qed

lemma decode_evidence_read:
  assumes "ev_provenance row = provenance_fields v" and "ev_evidence row = evidence_read v"
    and "ev_method row = map_option encode_deletion_method m"
    and "evidence_storable v"
  shows "decode_recovery_evidence a row = Ok (canonical_evidence (ev_phase row) m a v)"
proof -
  have target: "convert blob_to_path (map_option path_to_blob (re_target v)) = Ok (re_target v)"
    by (rule convert_map[where P = path_wf]) (use assms(4) in \<open>simp_all add: evidence_storable_def\<close>)
  have item: "with_item_proof (evidence_read v) e =
      Ok (e\<lparr>re_recovery_size := re_recovery_size v, re_recovery_sha256 := re_recovery_sha256 v\<rparr>)"
    if "re_recovery_size e = None" "re_recovery_sha256 e = None" for e
    using assms(4) that
    by (cases "re_recovery_size v")
      (auto simp: with_item_proof_def evidence_storable_def with_recovery_proof_def)
  have h: "hash_wf (re_source_sha256 v)" "hash_wf (re_destination_sha256 v)"
    using assms(4) by (simp_all add: evidence_storable_def)
  show ?thesis
    using h unfolding decode_recovery_evidence_def decode_provenance_read[OF assms] assms(2) Let_def
    by (cases "re_provenance v")
      (simp_all add: item recovery_evidence_new_def target
        canonical_evidence_def with_provenance_def)
qed

definition planned_read :: "plan_record \<Rightarrow> (u64, u64) planned_columns" where
  "planned_read p =
     \<lparr>pc_path = Some (path_to_blob (pr_path p)),
      pc_operation = Some (encode_operation (pr_operation p)),
      pc_side = Some (encode_side (pr_side p)),
      pc_planned_bytes = pr_planned_bytes p,
      pc_item_type = Some (encode_item_type (pre_type (pr_pre p))),
      pc_size = Some (pre_size (pr_pre p)),
      pc_modified = pre_modified (pr_pre p),
      pc_device = map_option fid_device (pre_identity (pr_pre p)),
      pc_inode = map_option fid_inode (pre_identity (pr_pre p)),
      pc_sha256 = pre_sha256 (pr_pre p)\<rparr>"

definition with_evidence :: "stored_columns \<Rightarrow> recovery_evidence \<Rightarrow> stored_columns" where
  "with_evidence f v = f\<lparr>ev_evidence := evidence_read v, ev_provenance := provenance_fields v\<rparr>"

definition proof_read :: "recovery_evidence \<Rightarrow> bool \<Rightarrow> (u64, bool) proof_columns" where
  "proof_read v b =
     \<lparr>qc_destination_size = re_destination_size v,
      qc_destination_sha256 = re_destination_sha256 v, qc_metadata_verified = Some b\<rparr>"

text \<open>The row an event comes back as.\<close>

fun stored_of :: "journal_event \<Rightarrow> stored_columns" where
  "stored_of (JPlanned p) = (empty_fields ''planned'')\<lparr>ev_planned := planned_read p\<rparr>"
| "stored_of (JProgress _ n) = (empty_fields ''progress'')\<lparr>ev_progress := Some n\<rparr>"
| "stored_of (JTransferVerified _ v b) =
     with_evidence ((empty_fields ''transfer_verified'')\<lparr>ev_proof := proof_read v b\<rparr>) v"
| "stored_of (JProofBoundary _ m v b) =
     with_evidence ((empty_fields ''proof_boundary'')
       \<lparr>ev_method := Some (encode_deletion_method m), ev_proof := proof_read v b\<rparr>) v"
| "stored_of (JRemovalStarted _ m) =
     (empty_fields ''removal_started'')\<lparr>ev_method := Some (encode_deletion_method m)\<rparr>"
| "stored_of (JRemovalCompleted _ r) =
     with_evidence ((empty_fields ''removal_completed'')
       \<lparr>ev_method := Some (encode_deletion_method (rm_method r))\<rparr>) (rm_evidence r)"
| "stored_of (JRecoveryReview _ r v) =
     with_evidence ((empty_fields ''recovery_review'')\<lparr>ev_reason := Some (encode_reason r)\<rparr>) v"
| "stored_of (JRecoveryResolved _ res) =
     (let f = (empty_fields ''recovery_resolved'')\<lparr>ev_resolution := Some (encode_resolution res)\<rparr> in
      case res of RecoveryCompleted v \<Rightarrow> with_evidence f v | RecoveryUnresolved _ \<Rightarrow> f)"
| "stored_of ev = (empty_fields (event_phase ev))\<lparr>ev_reason := ev_reason (from_event ev)\<rparr>"

lemma empty_fields_simps [simp]:
  "ev_phase (empty_fields p) = p" "ev_planned (empty_fields p) = empty_planned"
  "ev_progress (empty_fields p) = None" "ev_reason (empty_fields p) = None"
  "ev_evidence (empty_fields p) = empty_evidence" "ev_resolution (empty_fields p) = None"
  "ev_proof (empty_fields p) = empty_proof" "ev_method (empty_fields p) = None"
  "ev_provenance (empty_fields p) = empty_provenance"
  by (simp_all add: empty_fields_def)

lemmas empty_groups =
  empty_planned_def empty_evidence_def empty_proof_def empty_provenance_def empty_fields_def

text \<open>Binding and reading, group by group.\<close>

lemma bind_columns_Ok:
  "bind_columns f = Ok r \<longleftrightarrow>
     fits_opt (pc_device (ev_planned f)) \<and> fits_opt (pc_inode (ev_planned f)) \<and>
     fits_opt (vc_device (ev_provenance f)) \<and> fits_opt (vc_inode (ev_provenance f)) \<and>
     r = \<lparr>ev_phase = ev_phase f,
          ev_planned =
            \<lparr>pc_path = pc_path (ev_planned f), pc_operation = pc_operation (ev_planned f),
             pc_side = pc_side (ev_planned f), pc_planned_bytes = pc_planned_bytes (ev_planned f),
             pc_item_type = pc_item_type (ev_planned f), pc_size = pc_size (ev_planned f),
             pc_modified = pc_modified (ev_planned f),
             pc_device = map_option uint (pc_device (ev_planned f)),
             pc_inode = map_option uint (pc_inode (ev_planned f)),
             pc_sha256 = pc_sha256 (ev_planned f)\<rparr>,
          ev_progress = ev_progress f, ev_reason = ev_reason f, ev_evidence = ev_evidence f,
          ev_resolution = ev_resolution f, ev_proof = ev_proof f, ev_method = ev_method f,
          ev_provenance =
            \<lparr>vc_peer = vc_peer (ev_provenance f), vc_root = vc_root (ev_provenance f),
             vc_relative = vc_relative (ev_provenance f), vc_run = vc_run (ev_provenance f),
             vc_removed_at = vc_removed_at (ev_provenance f),
             vc_item_type = vc_item_type (ev_provenance f),
             vc_device = map_option uint (vc_device (ev_provenance f)),
             vc_inode = map_option uint (vc_inode (ev_provenance f))\<rparr>\<rparr>"
  unfolding bind_columns_def Let_def by auto

lemma read_bound:
  assumes "bind_columns f = Ok r"
    and "read_planned (ev_planned r) = Ok plan"
    and "convert from_sql_u64 (ev_progress f) = Ok progress"
    and "convert from_sql_u64 (ec_source_size (ev_evidence f)) = Ok source"
    and "convert from_sql_u64 (ec_destination_size (ev_evidence f)) = Ok destination"
    and "convert from_sql_u64 (ec_item_size (ev_evidence f)) = Ok item"
    and "convert from_sql_u64 (qc_destination_size (ev_proof f)) = Ok proof_bytes"
  shows "read_columns r =
    Ok \<lparr>ev_phase = ev_phase f, ev_planned = plan, ev_progress = progress, ev_reason = ev_reason f,
        ev_evidence = read_evidence (ev_evidence f) source destination item,
        ev_resolution = ev_resolution f,
        ev_proof = \<lparr>qc_destination_size = proof_bytes,
          qc_destination_sha256 = qc_destination_sha256 (ev_proof f),
          qc_metadata_verified = map_option from_sql_bool (qc_metadata_verified (ev_proof f))\<rparr>,
        ev_method = ev_method f, ev_provenance = ev_provenance f\<rparr>"
  using assms unfolding bind_columns_Ok by (auto simp: read_columns_def Let_def)

lemma read_planned_empty [simp]: "read_planned empty_planned = Ok empty_planned"
  by (simp add: read_planned_def empty_planned_def)

lemma read_evidence_empty [simp]: "read_evidence empty_evidence None None None = empty_evidence"
  by (simp add: read_evidence_def empty_evidence_def)

lemma bound_planned:
  assumes "bind_columns f = Ok r" and "ev_planned f = planned_fields p" and "plan_storable p"
  shows "read_planned (ev_planned r) = Ok (planned_read p)"
  using assms unfolding bind_columns_Ok
  by (simp add: read_planned_def planned_fields_def planned_read_def plan_storable_def del: option.map_comp)

lemma bound_not_planned:
  assumes "bind_columns f = Ok r" and "ev_planned f = empty_planned"
  shows "read_planned (ev_planned r) = Ok empty_planned"
  using assms unfolding bind_columns_Ok by (simp add: read_planned_def empty_planned_def)

lemma evidence_fields_sizes [simp]:
  "ec_source_size (evidence_fields v) = map_option as_i64 (re_source_size v)"
  "ec_destination_size (evidence_fields v) = map_option as_i64 (re_destination_size v)"
  "ec_item_size (evidence_fields v) = map_option as_i64 (re_recovery_size v)"
  by (simp_all add: evidence_fields_def)

lemma evidence_storable_sizes:
  "evidence_storable v \<Longrightarrow>
     fits_opt (re_source_size v) \<and> fits_opt (re_destination_size v) \<and> fits_opt (re_recovery_size v)"
  by (simp add: evidence_storable_def)

text \<open>Fields without evidence, and fields with it.\<close>

lemma read_plain:
  assumes "bind_columns f = Ok r" and "ev_planned f = empty_planned" and "ev_evidence f = empty_evidence"
    and "ev_proof f = empty_proof" and "ev_progress f = map_option as_i64 n" and "fits_opt n"
  shows "read_columns r =
    Ok \<lparr>ev_phase = ev_phase f, ev_planned = empty_planned, ev_progress = n, ev_reason = ev_reason f,
        ev_evidence = empty_evidence, ev_resolution = ev_resolution f, ev_proof = empty_proof,
        ev_method = ev_method f, ev_provenance = ev_provenance f\<rparr>"
  using assms(2-6)
  by (subst read_bound[OF assms(1) bound_not_planned[OF assms(1,2)]])
    (simp_all add: empty_evidence_def empty_proof_def read_evidence_def)

lemma read_with_evidence:
  assumes "bind_columns f = Ok r" and "ev_planned f = empty_planned" and "evidence_storable v"
    and "ev_evidence f = evidence_fields v" and "ev_progress f = None"
    and "ev_proof f = (if proved then proof_fields v b else empty_proof)"
  shows "read_columns r =
    Ok \<lparr>ev_phase = ev_phase f, ev_planned = empty_planned, ev_progress = None,
        ev_reason = ev_reason f, ev_evidence = evidence_read v, ev_resolution = ev_resolution f,
        ev_proof = (if proved then proof_read v b else empty_proof),
        ev_method = ev_method f, ev_provenance = ev_provenance f\<rparr>"
  using assms(3-6) evidence_storable_sizes[OF assms(3)]
  by (subst read_bound[OF assms(1) bound_not_planned[OF assms(1,2)],
        where progress = None and source = "re_source_size v" and
          destination = "re_destination_size v" and item = "re_recovery_size v" and
          proof_bytes = "if proved then re_destination_size v else None"])
    (simp_all add: proof_fields_def proof_read_def empty_proof_def)

lemma set_recovery_fields_simps [simp]:
  "ev_phase (set_recovery_fields f v) = ev_phase f"
  "ev_planned (set_recovery_fields f v) = ev_planned f"
  "ev_progress (set_recovery_fields f v) = ev_progress f"
  "ev_reason (set_recovery_fields f v) = ev_reason f"
  "ev_evidence (set_recovery_fields f v) = evidence_fields v"
  "ev_resolution (set_recovery_fields f v) = ev_resolution f"
  "ev_proof (set_recovery_fields f v) = ev_proof f"
  "ev_method (set_recovery_fields f v) = ev_method f"
  "ev_provenance (set_recovery_fields f v) = provenance_fields v"
  by (simp_all add: set_recovery_fields_def)

lemma terminal_fields_simps [simp]:
  "ev_phase (terminal_fields p r) = p" "ev_planned (terminal_fields p r) = empty_planned"
  "ev_progress (terminal_fields p r) = None"
  "ev_reason (terminal_fields p r) = Some (encode_reason r)"
  "ev_evidence (terminal_fields p r) = empty_evidence"
  "ev_resolution (terminal_fields p r) = None" "ev_proof (terminal_fields p r) = empty_proof"
  "ev_method (terminal_fields p r) = None" "ev_provenance (terminal_fields p r) = empty_provenance"
  by (simp_all add: terminal_fields_def)

text \<open>Every storable event reads back as the row it describes.\<close>

lemma read_stored:
  assumes "bind_columns (from_event ev) = Ok r" and "event_storable ev"
  shows "read_columns r = Ok (stored_of ev)"
proof (cases ev)
  case (JPlanned p)
  with assms have b: "bind_columns ((empty_fields ''planned'')\<lparr>ev_planned := planned_fields p\<rparr>) = Ok r"
    and p: "plan_storable p" by simp_all
  have "read_planned (ev_planned r) = Ok (planned_read p)"
    by (rule bound_planned[OF b _ p]) simp
  from read_bound[OF b this, where progress = None and source = None and destination = None and
      item = None and proof_bytes = None] show ?thesis
    by (simp add: JPlanned empty_groups read_evidence_def)
next
  case (JProgress a n)
  with assms show ?thesis
    by (subst read_plain[OF assms(1), where n = "Some n"]) (simp_all add: empty_fields_def)
next
  case (JTransferVerified a v b)
  with assms show ?thesis
    by (subst read_with_evidence[OF assms(1), where v = v and proved = True and b = b])
      (simp_all add: with_evidence_def empty_fields_def)
next
  case (JProofBoundary a m v b)
  with assms show ?thesis
    by (subst read_with_evidence[OF assms(1), where v = v and proved = True and b = b])
      (simp_all add: with_evidence_def empty_fields_def)
next
  case (JRemovalCompleted a res)
  with assms show ?thesis
    by (subst read_with_evidence[OF assms(1), where v = "rm_evidence res" and proved = False])
      (simp_all add: with_evidence_def empty_fields_def)
next
  case (JRecoveryReview a why v)
  with assms show ?thesis
    by (subst read_with_evidence[OF assms(1), where v = v and proved = False])
      (simp_all add: with_evidence_def empty_fields_def)
next
  case (JRecoveryResolved a res)
  show ?thesis
  proof (cases res)
    case (RecoveryCompleted v)
    with JRecoveryResolved assms show ?thesis
      by (subst read_with_evidence[OF assms(1), where v = v and proved = False])
        (simp_all add: with_evidence_def empty_fields_def Let_def)
  next
    case (RecoveryUnresolved why)
    with JRecoveryResolved show ?thesis
      by (subst read_plain[OF assms(1), where n = None]) (simp_all add: empty_fields_def Let_def)
  qed
qed (use assms in \<open>subst read_plain[OF assms(1), where n = None], simp_all add: empty_fields_def\<close>)+

end
