(* ===== verification/Written.thy ===== *)
theory Written
  imports RoundTrip "HOL-Library.Multiset"
begin

text \<open>
  The journal a run writes is the journal that loads. Accepting an event is the same step the
  replay of its row makes, so that after any sequence of accepted events the journal loads and
  shows, for every action, the entry its events add up to.
\<close>

subsection \<open>The row of an accepted event replays as its step\<close>

lemma with_evidence_simps [simp]:
  "ev_phase (with_evidence f v) = ev_phase f" "ev_reason (with_evidence f v) = ev_reason f"
  "ev_resolution (with_evidence f v) = ev_resolution f" "ev_proof (with_evidence f v) = ev_proof f"
  "ev_method (with_evidence f v) = ev_method f" "ev_progress (with_evidence f v) = ev_progress f"
  by (simp_all add: with_evidence_def)

lemma decode_with_evidence:
  "evidence_storable v \<Longrightarrow> ev_method f = map_option encode_deletion_method m \<Longrightarrow>
     decode_recovery_evidence a (with_evidence f v) = Ok (canonical_evidence (ev_phase f) m a v)"
  by (subst decode_evidence_read[where v = v and m = m]) (simp_all add: with_evidence_def)

lemma proof_read_simps [simp]:
  "qc_destination_size (proof_read v b) = re_destination_size v"
  "qc_destination_sha256 (proof_read v b) = re_destination_sha256 v"
  "qc_metadata_verified (proof_read v b) = Some b"
  by (simp_all add: proof_read_def)

lemma required_reason_encoded [simp]: "required_reason msg (Some (encode_reason r)) = Ok r"
  by (simp add: required_reason_def)

lemma decode_unresolved [simp]:
  "decode_resolution (encode_resolution (RecoveryUnresolved r)) a row = Ok (RecoveryUnresolved r)"
  by (cases r) (simp_all add: decode_resolution_def strip_prefix_def decode_reason_def)

lemma decode_completed [simp]:
  "decode_resolution ''completed'' a row =
     result_bind (decode_recovery_evidence a row) (\<lambda>v. Ok (RecoveryCompleted v))"
  by (simp add: decode_resolution_def)

declare encode_resolution.simps(2) [simp del]

lemma stored_phase [simp]: "ev_phase (stored_of ev) = event_phase ev"
  by (cases ev) (auto simp: Let_def split: recovery_resolution.splits)

lemma replay_stored:
  assumes "boundary_step c e (canonical_event ev) f" and "event_storable ev" and "event_action ev = a"
  shows "replay_boundary c a (stored_of ev) e = Ok f"
proof (cases ev)
  case (JTransferVerified a' v b)
  with assms show ?thesis
    by (auto simp: replay_boundary_Ok step_simps replay_transfer_Ok
        decode_with_evidence[where m = None])
next
  case (JProofBoundary a' m v b)
  with assms obtain n where n: "re_destination_size v = Some n" "hash_wf (re_destination_sha256 v)"
    by (auto simp: proof_boundary_valid_def evidence_storable_def)
  with JProofBoundary assms show ?thesis
    by (auto simp: replay_boundary_Ok step_simps replay_proof_Ok stored_method_def
        replayed_method_valid_def proof_boundary_valid_def proof_evidence_valid_def
        decode_with_evidence[where m = "Some m"])
next
  case (JRemovalStarted a' m)
  with assms show ?thesis
    by (auto simp: replay_boundary_Ok step_simps replay_removal_started_def stored_method_def)
next
  case (JRemovalCompleted a' r)
  with assms show ?thesis
    by (cases r) (auto simp: replay_boundary_Ok step_simps replay_removal_Ok stored_method_def
        decode_with_evidence[where m = "Some (rm_method r)"])
next
  case (JRecoveryReview a' r v)
  with assms show ?thesis
    by (auto simp: replay_boundary_Ok step_simps replay_recovery_review_def
        decode_with_evidence[where m = None])
next
  case (JRecoveryResolved a' res)
  with assms show ?thesis
    by (cases res) (auto simp: replay_boundary_Ok step_simps replay_resolved_Ok Let_def
        decode_with_evidence[where m = None])
qed (use assms in \<open>auto simp: replay_boundary_Ok step_simps\<close>)

lemma plan_read_decodes:
  assumes "plan_storable p" and "pr_action p = a"
  shows "decode_plan a False (stored_of (JPlanned p)) = Ok p"
proof -
  have ident: "stored_identity msg (map_option fid_device (pre_identity (pr_pre p)))
      (map_option fid_inode (pre_identity (pr_pre p))) = Ok (pre_identity (pr_pre p))" for msg
    by (cases "pre_identity (pr_pre p)") (simp_all add: stored_identity_def)
  have hash: "plan_hash (pre_sha256 (pr_pre p)) = Ok (pre_sha256 (pr_pre p))"
    using assms(1) by (cases "pre_sha256 (pr_pre p)") (simp_all add: plan_hash_def plan_storable_def hash_wf_def)
  from assms show ?thesis
    by (simp add: decode_plan_def planned_read_def ident hash plan_storable_def Let_def)
qed

subsection \<open>What the table says about an action\<close>

text \<open>The events of one action so far and the entry they add up to.\<close>

inductive traced :: "string option \<Rightarrow> nat \<Rightarrow> journal_event list \<Rightarrow> action_journal_entry \<Rightarrow> bool"
  for c :: "string option" and a :: nat where
  first: "pr_action p = a \<Longrightarrow> plan_storable p \<Longrightarrow> traced c a [JPlanned p] (entry_of_plan p)"
| more: "traced c a evs e \<Longrightarrow> event_action ev = a \<Longrightarrow> event_storable ev \<Longrightarrow>
    boundary_step c e (canonical_event ev) f \<Longrightarrow> traced c a (evs @ [ev]) f"

definition row_of_event :: "nat \<Rightarrow> journal_event \<Rightarrow> journal_row \<Rightarrow> bool" where
  "row_of_event a ev r \<longleftrightarrow>
     row_action r = int a \<and> bind_columns (from_event ev) = Ok (row_columns r)"

definition rows_written :: "nat \<Rightarrow> journal_event list \<Rightarrow> journal_row list \<Rightarrow> bool" where
  "rows_written a evs rs \<longleftrightarrow>
     list_all2 (row_of_event a) evs rs \<and> map row_sequence rs = map int [0..<length rs]"

lemma from_event_phase [simp]: "ev_phase (from_event ev) = event_phase ev"
  by (cases ev) (auto simp: Let_def split: recovery_resolution.splits)

lemma bound_phase: "bind_columns (from_event ev) = Ok r \<Longrightarrow> ev_phase r = event_phase ev"
  by (simp add: bind_columns_Ok)

lemma list_all2_filter:
  assumes "list_all2 P xs ys" and "\<And>x y. P x y \<Longrightarrow> f x = g y"
  shows "list_all2 P (filter f xs) (filter g ys)"
  using assms(1) by induction (auto dest: assms(2))

lemma list_all2_last: "list_all2 P xs ys \<Longrightarrow> xs \<noteq> [] \<Longrightarrow> P (last xs) (last ys)"
  by (induction rule: list_all2_induct) auto

lemma sorted_int_upt: "sorted (map int [0..<n])"
  by (induction n) (auto simp: sorted_append)

lemma rows_sorted: "rows_written a evs rs \<Longrightarrow> sorted (map row_sequence rs)"
  by (simp add: rows_written_def sorted_int_upt)

lemma sort_by_id: "sorted (map f xs) \<Longrightarrow> sort_by f xs = xs"
  by (simp add: sort_by_def sort_key_id_if_sorted)

lemma sorted_filter_map: "sorted (map f xs) \<Longrightarrow> sorted (map f (filter P xs))"
  by (simp add: sorted_filter)

lemma latest_sorted: "sorted (map row_sequence rs) \<Longrightarrow> latest rs = (if rs = [] then None else Some (last rs))"
  by (simp add: latest_def sort_by_id)

lemma latest_filter_sorted:
  "sorted (map row_sequence rs) \<Longrightarrow>
     latest (filter P rs) = (if filter P rs = [] then None else Some (last (filter P rs)))"
  by (simp add: latest_sorted sorted_filter_map)

lemma traced_nonempty: "traced c a evs e \<Longrightarrow> evs \<noteq> []"
  by (induction rule: traced.induct) simp_all

lemma step_last_phase: "boundary_step c e ev f \<Longrightarrow> je_last_phase f = event_phase ev"
  by (induction rule: boundary_step.induct) simp_all

lemma step_not_planned: "boundary_step c e ev f \<Longrightarrow> event_phase ev \<noteq> ''planned''"
  by (induction rule: boundary_step.induct) simp_all

lemma canonical_phase [simp]: "event_phase (canonical_event ev) = event_phase ev"
  by (induction ev rule: canonical_event.induct) simp_all

lemma canonical_action [simp]: "event_action (canonical_event ev) = event_action ev"
  by (induction ev rule: canonical_event.induct) simp_all

lemma traced_last: "traced c a evs e \<Longrightarrow> event_phase (last evs) = je_last_phase e"
  by (induction rule: traced.induct) (simp_all add: entry_of_plan_def step_last_phase)

lemma traced_plan:
  "traced c a evs e \<Longrightarrow> filter (\<lambda>ev. event_phase ev = ''planned'') evs = [JPlanned (je_plan e)]"
  by (induction rule: traced.induct)
    (auto simp: entry_of_plan_def boundary_step_plan dest: step_not_planned)

lemma traced_journaled: "traced c a evs e \<Longrightarrow> journaled c a e"
proof (induction rule: traced.induct)
  case (more evs e ev f)
  then show ?case by (auto intro: journaled.boundary[where ev = "canonical_event ev"])
qed (rule journaled.planned)

definition proof_recorded :: "nat \<Rightarrow> journal_event list \<Rightarrow> recovery_evidence option \<Rightarrow> bool" where
  "proof_recorded a evs v =
     (let found = filter (\<lambda>ev. event_phase ev = ''proof_boundary'') evs in
      case v of None \<Rightarrow> found = []
      | Some p \<Rightarrow> \<exists>m w b. found = [JProofBoundary a m w b] \<and>
          re_destination_size w = re_destination_size p \<and>
          re_destination_sha256 w = re_destination_sha256 p \<and> evidence_storable w)"

definition review_recorded :: "nat \<Rightarrow> journal_event list \<Rightarrow> recovery_evidence option \<Rightarrow> bool" where
  "review_recorded a evs v =
     (let found = filter (\<lambda>ev. event_phase ev = ''recovery_review'') evs in
      case v of None \<Rightarrow> found = []
      | Some p \<Rightarrow> \<exists>r w. found = [JRecoveryReview a r w] \<and> re_observed_at w = re_observed_at p)"

lemma step_proof_same:
  "boundary_step c e ev f \<Longrightarrow> event_phase ev \<noteq> ''proof_boundary'' \<Longrightarrow> je_proof f = je_proof e"
  by (induction rule: boundary_step.induct) simp_all

lemma step_review_same:
  "boundary_step c e ev f \<Longrightarrow> event_phase ev \<noteq> ''recovery_review'' \<Longrightarrow> je_recovery f = je_recovery e"
  by (induction rule: boundary_step.induct) simp_all

lemma phase_proofD: "event_phase ev = ''proof_boundary'' \<Longrightarrow> \<exists>a m v b. ev = JProofBoundary a m v b"
  by (cases ev) simp_all

lemma phase_reviewD: "event_phase ev = ''recovery_review'' \<Longrightarrow> \<exists>a r v. ev = JRecoveryReview a r v"
  by (cases ev) simp_all

lemma traced_proof: "traced c a evs e \<Longrightarrow> proof_recorded a evs (je_proof e)"
proof (induction rule: traced.induct)
  case (more evs e ev f)
  show ?case
  proof (cases "event_phase ev = ''proof_boundary''")
    case True
    then obtain a' m v b where ev: "ev = JProofBoundary a' m v b" by (blast dest: phase_proofD)
    with more show ?thesis by (auto simp: proof_recorded_def)
  next
    case False
    with more step_proof_same[OF more.hyps(4)] show ?thesis
      by (simp add: proof_recorded_def)
  qed
qed (simp add: proof_recorded_def entry_of_plan_def)

lemma traced_review: "traced c a evs e \<Longrightarrow> review_recorded a evs (je_recovery e)"
proof (induction rule: traced.induct)
  case (more evs e ev f)
  show ?case
  proof (cases "event_phase ev = ''recovery_review''")
    case True
    then obtain a' r v where ev: "ev = JRecoveryReview a' r v" by (blast dest: phase_reviewD)
    with more show ?thesis by (auto simp: review_recorded_def)
  next
    case False
    with more step_review_same[OF more.hyps(4)] show ?thesis
      by (simp add: review_recorded_def)
  qed
qed (simp add: review_recorded_def entry_of_plan_def)

text \<open>What an entry holds at each phase.\<close>

definition phase_shape :: "action_journal_entry \<Rightarrow> bool" where
  "phase_shape e =
     (let last = je_last_phase e in
      (last = ''planned'' \<or> running_phase last \<longrightarrow> je_transfer e = None) \<and>
      (last = ''planned'' \<or> running_phase last \<or> last = ''transfer_verified'' \<longrightarrow> je_proof e = None) \<and>
      (last = ''transfer_verified'' \<longrightarrow> je_transfer e \<noteq> None) \<and>
      (last = ''proof_boundary'' \<or> last = ''removal_started'' \<longrightarrow> je_proof e \<noteq> None) \<and>
      (last = ''planned'' \<or> mutating_phase last \<longrightarrow>
         je_removal e = None \<and> je_recovery e = None \<and> je_resolution e = None) \<and>
      (last = ''recovery_review'' \<longrightarrow> je_recovery e \<noteq> None \<and> je_resolution e = None))"

lemma mutating_phase_simps [simp]:
  "mutating_phase ''started''" "mutating_phase ''progress''" "mutating_phase ''transfer_verified''"
  "mutating_phase ''proof_boundary''" "mutating_phase ''removal_started''"
  "\<not> mutating_phase ''planned''" "\<not> mutating_phase ''removal_completed''"
  "\<not> mutating_phase ''recovery_review''" "\<not> mutating_phase ''recovery_resolved''"
  "\<not> mutating_phase ''completed''" "\<not> mutating_phase ''failed''" "\<not> mutating_phase ''cancelled''"
  "\<not> mutating_phase ''interrupted''" "\<not> mutating_phase ''deferred''" "\<not> mutating_phase ''unresolved''"
  by (simp_all add: mutating_phase_def)

lemma running_mutating: "running_phase p \<Longrightarrow> mutating_phase p"
  by (simp add: mutating_phase_def)

lemma phase_shape_step: "boundary_step c e ev f \<Longrightarrow> phase_shape e \<Longrightarrow> phase_shape f"
  by (induction rule: boundary_step.induct) (auto simp: phase_shape_def Let_def running_mutating)

lemma traced_shape: "traced c a evs e \<Longrightarrow> phase_shape e"
  by (induction rule: traced.induct) (auto intro: phase_shape_step, simp add: phase_shape_def entry_of_plan_def)

subsection \<open>The queries\<close>

definition written :: "run_journal \<Rightarrow> nat \<Rightarrow> journal_event list \<Rightarrow> action_journal_entry \<Rightarrow> bool" where
  "written j a evs e \<longleftrightarrow>
     rows_written a evs (rows_of j a) \<and> traced (rj_deletion_method j) a evs e"

lemma row_of_event_phase: "row_of_event a ev r \<Longrightarrow> ev_phase (row_columns r) = event_phase ev"
  by (simp add: row_of_event_def bound_phase)

lemma written_phase_rows:
  "written j a evs e \<Longrightarrow>
     list_all2 (row_of_event a) (filter (\<lambda>ev. event_phase ev = ph) evs) (phase_rows j a ph)"
  unfolding written_def rows_written_def phase_rows_def
  by (elim conjE, rule list_all2_filter) (auto dest: row_of_event_phase)

lemma written_sorted: "written j a evs e \<Longrightarrow> sorted (map row_sequence (rows_of j a))"
  by (auto simp: written_def intro: rows_sorted)

lemma written_nonempty: "written j a evs e \<Longrightarrow> evs \<noteq> [] \<and> rows_of j a \<noteq> []"
  by (auto simp: written_def rows_written_def dest: traced_nonempty)

lemma written_current_phase:
  assumes "written j a evs e"
  shows "current_phase j a = Some (je_last_phase e)"
proof -
  have "row_of_event a (last evs) (last (rows_of j a))"
    using assms written_nonempty[OF assms] by (auto simp: written_def rows_written_def intro: list_all2_last)
  moreover have "event_phase (last evs) = je_last_phase e"
    using assms by (auto simp: written_def intro: traced_last)
  ultimately show ?thesis
    using latest_sorted[OF written_sorted[OF assms]] written_nonempty[OF assms]
    by (simp add: current_phase_def row_of_event_phase)
qed

lemma written_plan_row:
  assumes "written j a evs e"
  shows "\<exists>r. phase_rows j a ''planned'' = [r] \<and> row_of_event a (JPlanned (je_plan e)) r"
proof -
  have "filter (\<lambda>ev. event_phase ev = ''planned'') evs = [JPlanned (je_plan e)]"
    using assms by (auto simp: written_def intro: traced_plan)
  with written_phase_rows[OF assms, of "''planned''"] show ?thesis
    by (auto simp: list_all2_Cons1)
qed

lemma written_has_plan: "written j a evs e \<Longrightarrow> has_plan j a"
  by (auto simp: has_plan_def dest: written_plan_row)

lemma written_planned_columns:
  assumes "written j a evs e"
  obtains p where "planned_columns_of j a = Some p"
    "pc_operation p = Some (encode_operation (je_operation e))"
    "pc_item_type p = Some (encode_item_type (pre_type (pr_pre (je_plan e))))"
    "pc_size p = Some (as_i64 (pre_size (pr_pre (je_plan e))))"
    "pc_sha256 p = pre_sha256 (pr_pre (je_plan e))"
proof -
  from written_plan_row[OF assms] obtain r where r: "phase_rows j a ''planned'' = [r]"
    "bind_columns (from_event (JPlanned (je_plan e))) = Ok (row_columns r)"
    by (auto simp: row_of_event_def)
  then show ?thesis
    by (intro that[of "ev_planned (row_columns r)"])
      (simp_all add: planned_columns_of_def first_row_def bind_columns_Ok planned_fields_def)
qed

lemma written_planned_strings:
  assumes "written j a evs e"
  shows "planned_operation j a = Some (encode_operation (je_operation e))"
    and "planned_item_type j a = Some (encode_item_type (pre_type (pr_pre (je_plan e))))"
  using assms
  by (auto simp: planned_operation_def planned_item_type_def elim!: written_planned_columns)

lemma written_plan_storable: "written j a evs e \<Longrightarrow> plan_storable (je_plan e)"
proof -
  assume "written j a evs e"
  then have "traced (rj_deletion_method j) a evs e" by (simp add: written_def)
  then show ?thesis
    by (induction rule: traced.induct) (simp_all add: entry_of_plan_def boundary_step_plan)
qed

text \<open>The query strings stand for the plan's values.\<close>

lemma removing_iff [simp]: "removing (Some (encode_operation op)) \<longleftrightarrow> op = RemoveSourceAfterVerification"
  by (cases op) (simp_all add: removing_def)

lemma supports_transfer_iff [simp]: "supports_transfer (Some (encode_operation op)) \<longleftrightarrow> transfers op"
  by (cases op) (simp_all add: supports_transfer_def removing_def transfers_def)

lemma regular_file_iff [simp]: "encode_item_type t = ''regular_file'' \<longleftrightarrow> t = RegularFile"
  by (cases t) simp_all

lemma is_phase_Some [simp]: "is_phase (Some p) P = P p"
  by (simp add: is_phase_def)

lemma phase_follows_simps [simp]:
  "phase_follows ''started'' cur = (cur = Some ''planned'')"
  "phase_follows ''progress'' cur = is_phase cur running_phase"
  "phase_follows ''transfer_verified'' cur = is_phase cur running_phase"
  "phase_follows ''proof_boundary'' cur = (cur = Some ''transfer_verified'')"
  "phase_follows ''removal_started'' cur = (cur = Some ''proof_boundary'')"
  "phase_follows ''removal_completed'' cur = (cur = Some ''removal_started'')"
  "phase_follows ''recovery_resolved'' cur = (cur = Some ''recovery_review'')"
  "phase_follows ''recovery_review'' cur = is_phase cur mutating_phase"
  "phase_follows ''completed'' cur = is_phase cur mutating_phase"
  "phase_follows ''failed'' cur = is_phase cur mutating_phase"
  "phase_follows ''deferred'' cur = is_phase cur mutating_phase"
  "phase_follows ''unresolved'' cur = is_phase cur mutating_phase"
  "phase_follows ''cancelled'' cur = is_phase cur (\<lambda>p. p = ''planned'' \<or> running_phase p)"
  "phase_follows ''interrupted'' cur = is_phase cur (\<lambda>p. p = ''planned'' \<or> running_phase p)"
  by (simp_all add: phase_follows_def)

lemma stored_size_as_i64 [simp]: "fits n \<Longrightarrow> stored_size msg (Some (as_i64 n)) = Ok n"
  by (simp add: stored_size_def as_i64_fits not_less)

lemma not_null_Some [simp]: "not_null (Some x) = Ok x"
  by (simp add: not_null_def)

subsection \<open>Accepting is stepping\<close>

lemma validate_event_None:
  "validate_event ev known cur op it c = None \<longleftrightarrow>
     (let content = (it = Some ''regular_file'') in
      \<not> transfer_refused content op cur ev \<and> \<not> proof_refused content ev \<and>
      \<not> proof_out_of_order op cur ev \<and> \<not> generic_completion op ev \<and>
      \<not> recovery_completion op ev \<and> \<not> method_refused op c ev \<and>
      \<not> removal_refused content ev \<and> validate_phase ev known cur = None)"
  by (simp add: validate_event_def Let_def split: option.splits)

lemma validate_phase_None:
  "validate_phase ev known cur = None \<longleftrightarrow>
     (if event_phase ev = ''planned'' then \<not> known \<and> cur = None
      else known \<and> \<not> is_phase cur settled_for_append \<and> phase_follows (event_phase ev) cur)"
  by (simp add: validate_phase_def)

lemma validate_all_Ok:
  "validate_all j a ev = Ok u \<longleftrightarrow>
     validate_event ev (has_plan j a) (current_phase j a) (planned_operation j a)
       (planned_item_type j a) (rj_deletion_method j) = None \<and>
     validate_transfer_event j a ev = Ok () \<and> validate_removal_result j a ev = Ok () \<and>
     validate_action_order j a ev = Ok () \<and> validate_recovery_resolution j a ev = Ok ()"
  by (auto simp: validate_all_def split: option.splits)

fun removal_provable :: "action_journal_entry \<Rightarrow> journal_event \<Rightarrow> bool" where
  "removal_provable e (JRemovalCompleted _ r) =
     (content_proof_required e \<and> re_provenance (rm_evidence r) \<noteq> None \<longrightarrow>
        re_recovery_size (rm_evidence r) \<noteq> None \<and> re_recovery_sha256 (rm_evidence r) \<noteq> None)"
| "removal_provable e _ = True"

text \<open>What a refused boundary would have said about the entry.\<close>

lemma accepted_phase:
  assumes "written j a evs e" and "validate_all j a ev = Ok u"
  shows "event_phase ev \<noteq> ''planned'' \<and> phase_follows (event_phase ev) (Some (je_last_phase e)) \<and>
    \<not> settled_for_append (je_last_phase e)"
  using assms written_has_plan[OF assms(1)] written_current_phase[OF assms(1)]
  by (auto simp: validate_all_Ok validate_event_None validate_phase_None Let_def split: if_splits)

lemma accepted_checks:
  assumes "written j a evs e" and "validate_all j a ev = Ok u"
  shows "let content = content_proof_required e; op = Some (encode_operation (je_operation e)) in
    \<not> transfer_refused content op (Some (je_last_phase e)) ev \<and> \<not> proof_refused content ev \<and>
    \<not> generic_completion op ev \<and> \<not> recovery_completion op ev \<and>
    \<not> method_refused op (rj_deletion_method j) ev \<and> \<not> removal_refused content ev"
  using assms written_planned_strings[OF assms(1)] written_current_phase[OF assms(1)]
  by (simp add: validate_all_Ok validate_event_None Let_def content_proof_required_def)

lemma accepted_transfer:
  assumes "written j a evs e" and "validate_all j a (JTransferVerified a' v b) = Ok u"
  shows "re_source_size v = Some (pre_size (pr_pre (je_plan e))) \<and>
    re_source_sha256 v = pre_sha256 (pr_pre (je_plan e))"
proof -
  obtain p where p: "planned_columns_of j a = Some p"
    "pc_item_type p = Some (encode_item_type (pre_type (pr_pre (je_plan e))))"
    "pc_size p = Some (as_i64 (pre_size (pr_pre (je_plan e))))"
    "pc_sha256 p = pre_sha256 (pr_pre (je_plan e))"
    by (rule written_planned_columns[OF assms(1)])
  have "fits (pre_size (pr_pre (je_plan e)))" "hash_wf (pre_sha256 (pr_pre (je_plan e)))"
    using written_plan_storable[OF assms(1)] by (simp_all add: plan_storable_def)
  with p assms(2) show ?thesis
    by (simp add: validate_all_Ok)
qed

lemma written_proof_row:
  assumes "written j a evs e" and "je_proof e = Some p"
  obtains r w where "latest (phase_rows j a ''proof_boundary'') = Some r"
    "qc_destination_size (ev_proof (row_columns r)) = map_option as_i64 (re_destination_size w)"
    "qc_destination_sha256 (ev_proof (row_columns r)) = re_destination_sha256 w"
    "re_destination_size w = re_destination_size p" "re_destination_sha256 w = re_destination_sha256 p"
    "evidence_storable w"
proof -
  have "proof_recorded a evs (Some p)"
    using assms traced_proof[of _ a evs e] by (auto simp: written_def)
  then obtain m w b where w: "filter (\<lambda>ev. event_phase ev = ''proof_boundary'') evs = [JProofBoundary a m w b]"
    "re_destination_size w = re_destination_size p" "re_destination_sha256 w = re_destination_sha256 p"
    "evidence_storable w"
    by (auto simp: proof_recorded_def)
  with written_phase_rows[OF assms(1), of "''proof_boundary''"] obtain r where
    r: "phase_rows j a ''proof_boundary'' = [r]" "row_of_event a (JProofBoundary a m w b) r"
    by (auto simp: list_all2_Cons1)
  then have "bind_columns (from_event (JProofBoundary a m w b)) = Ok (row_columns r)"
    by (simp add: row_of_event_def)
  then have "ev_proof (row_columns r) = proof_fields w b"
    by (simp add: bind_columns_Ok)
  with r w show ?thesis
    by (intro that[of r w]) (simp_all add: latest_def sort_by_def proof_fields_def)
qed

lemma accepted_removal:
  assumes "written j a evs e" and "validate_all j a (JRemovalCompleted a' r) = Ok u"
    and "je_proof e = Some p"
  shows "matches_proof e (rm_evidence r)"
proof -
  obtain row w where w: "latest (phase_rows j a ''proof_boundary'') = Some row"
    "qc_destination_size (ev_proof (row_columns row)) = map_option as_i64 (re_destination_size w)"
    "qc_destination_sha256 (ev_proof (row_columns row)) = re_destination_sha256 w"
    "re_destination_size w = re_destination_size p" "re_destination_sha256 w = re_destination_sha256 p"
    "evidence_storable w"
    by (rule written_proof_row[OF assms(1,3)])
  have h: "fits_opt (re_destination_size w)" "hash_wf (re_destination_sha256 w)"
    using w(6) by (simp_all add: evidence_storable_def)
  have ok: "validate_removal_result j a (JRemovalCompleted a' r) = Ok ()"
    using assms(2) by (simp add: validate_all_Ok)
  show ?thesis
  proof (cases "re_destination_size w")
    case None
    with w(1,2) ok show ?thesis by (simp add: stored_size_def)
  next
    case (Some n)
    with h have "fits n" by simp
    with Some w(1-3) h(2) ok have "re_destination_size (rm_evidence r) = Some n"
      "re_destination_sha256 (rm_evidence r) = re_destination_sha256 w"
      by auto
    with Some w(4,5) assms(3) show ?thesis by (simp add: matches_proof_def)
  qed
qed

lemma accepted_resolution:
  assumes "written j a evs e" and "validate_all j a (JRecoveryResolved a' (RecoveryCompleted v)) = Ok u"
    and "je_recovery e = Some w"
  shows "is_newer_than v w"
proof -
  have "review_recorded a evs (Some w)"
    using assms traced_review[of _ a evs e] by (auto simp: written_def)
  then obtain r x where x: "filter (\<lambda>ev. event_phase ev = ''recovery_review'') evs = [JRecoveryReview a r x]"
    "re_observed_at x = re_observed_at w"
    by (auto simp: review_recorded_def)
  with written_phase_rows[OF assms(1), of "''recovery_review''"] obtain row where
    row: "phase_rows j a ''recovery_review'' = [row]" "row_of_event a (JRecoveryReview a r x) row"
    by (auto simp: list_all2_Cons1)
  then have "bind_columns (from_event (JRecoveryReview a r x)) = Ok (row_columns row)"
    by (simp add: row_of_event_def)
  then have "ev_evidence (row_columns row) = evidence_fields x"
    by (simp add: bind_columns_Ok)
  with row x assms show ?thesis
    by (auto simp: validate_all_Ok latest_def sort_by_def is_newer_than_def evidence_fields_def)
qed

text \<open>An accepted event whose removal evidence is complete is a step of its action.\<close>

lemma canonical_checks [simp]:
  "transfer_evidence_valid e (canonical_evidence ph m a v) = transfer_evidence_valid e v"
  "proof_boundary_valid e (canonical_evidence ph m a v) = proof_boundary_valid e v"
  "matches_proof e (canonical_evidence ph m a v) = matches_proof e v"
  "is_newer_than (canonical_evidence ph m a v) w = is_newer_than v w"
  by (simp_all add: transfer_evidence_valid_def proof_boundary_valid_def matches_proof_def
      is_newer_than_def)

lemma canonical_removal_valid:
  assumes "removal_shown (content_proof_required e) r"
    and "removal_provable e (JRemovalCompleted a r)" and "pr_action (je_plan e) = a"
  shows "removal_evidence_valid e (rm_method r)
    (canonical_evidence ''removal_completed'' (Some (rm_method r)) a (rm_evidence r))"
  using assms
  by (cases "re_provenance (rm_evidence r)"; cases "rm_method r")
    (auto simp: removal_evidence_valid_def removal_shown_def recovery_outcome_shown_def
      canonical_provenance_def Let_def)

lemma traced_action: "traced c a evs e \<Longrightarrow> pr_action (je_plan e) = a"
  by (induction rule: traced.induct) (simp_all add: entry_of_plan_def boundary_step_plan)

lemma both_sides_transfer:
  "both_sides_proved (content_proof_required e) v \<Longrightarrow>
     re_source_size v = Some (pre_size (pr_pre (je_plan e))) \<Longrightarrow>
     re_source_sha256 v = pre_sha256 (pr_pre (je_plan e)) \<Longrightarrow> transfer_evidence_valid e v"
  by (simp add: both_sides_proved_def transfer_evidence_valid_def)

lemma both_sides_proof: "both_sides_proved (content_proof_required e) v \<Longrightarrow> proof_boundary_valid e v"
  by (simp add: both_sides_proved_def proof_boundary_valid_def)

lemma accepted_step:
  assumes w: "written j a evs e" and ok: "validate_all j a ev = Ok u"
    and a: "event_action ev = a" and prov: "removal_provable e ev"
  shows "\<exists>f. boundary_step (rj_deletion_method j) e (canonical_event ev) f"
proof -
  note phase = accepted_phase[OF w ok]
  note checks = accepted_checks[OF w ok, unfolded Let_def]
  have shape: "phase_shape e" and act: "pr_action (je_plan e) = a"
    using w by (auto simp: written_def intro: traced_shape traced_action)
  note shape = shape[unfolded phase_shape_def Let_def]
  show ?thesis
  proof (cases ev)
    case (JTransferVerified a' v b)
    with accepted_transfer[OF w ok[unfolded JTransferVerified]] checks phase shape show ?thesis
      by (simp add: both_sides_transfer)
  next
    case (JProofBoundary a' m v b)
    with checks phase shape show ?thesis
      by (simp add: both_sides_proof method_refused_def replayed_method_valid_def is_safe_delete_def)
  next
    case (JRemovalStarted a' m)
    with checks phase shape show ?thesis
      by (simp add: method_refused_def replayed_method_valid_def is_safe_delete_def)
  next
    case (JRemovalCompleted a' r)
    with phase shape obtain p where p: "je_proof e = Some p" "je_removal e = None"
      "je_last_phase e = ''removal_started''" by auto
    with JRemovalCompleted checks prov act a canonical_removal_valid[of e r a]
      accepted_removal[OF w ok[unfolded JRemovalCompleted] p(1)] show ?thesis
      by (simp add: method_refused_def replayed_method_valid_def is_safe_delete_def)
  next
    case (JRecoveryResolved a' res)
    show ?thesis
    proof (cases res)
      case (RecoveryCompleted v)
      with JRecoveryResolved phase shape obtain x where x: "je_recovery e = Some x" by auto
      with RecoveryCompleted JRecoveryResolved phase shape checks
        accepted_resolution[OF w ok[unfolded JRecoveryResolved RecoveryCompleted] x] show ?thesis
        by (simp add: is_safe_delete_def)
    next
      case (RecoveryUnresolved r)
      with JRecoveryResolved phase shape show ?thesis by simp
    qed
  qed (use phase shape checks in \<open>simp_all add: is_safe_delete_def\<close>)
qed

subsection \<open>The log of a run\<close>

text \<open>What an event makes of the entry of its action.\<close>

fun event_effect :: "journal_event \<Rightarrow> action_journal_entry \<Rightarrow> action_journal_entry" where
  "event_effect (JPlanned p) e = entry_of_plan p"
| "event_effect (JStarted _) e = at_phase ''started'' (e\<lparr>je_started := True\<rparr>)"
| "event_effect (JProgress _ n) e =
     at_phase ''progress'' (e\<lparr>je_progress := je_progress e @ [n]\<rparr>)"
| "event_effect (JTransferVerified _ v _) e =
     at_phase ''transfer_verified'' (e\<lparr>je_transfer := Some v, je_outcome := ActInProgress\<rparr>)"
| "event_effect (JProofBoundary _ _ v _) e =
     at_phase ''proof_boundary''
       (e\<lparr>je_proof := Some v, je_outcome := ActRecoveryReview InterruptedBoundary\<rparr>)"
| "event_effect (JRemovalStarted _ _) e =
     at_phase ''removal_started'' (e\<lparr>je_outcome := ActRecoveryReview InterruptedBoundary\<rparr>)"
| "event_effect (JRemovalCompleted _ r) e =
     at_phase ''removal_completed'' (e\<lparr>je_removal := Some r, je_outcome := ActCompleted\<rparr>)"
| "event_effect (JCompleted _) e = at_phase ''completed'' (e\<lparr>je_outcome := ActCompleted\<rparr>)"
| "event_effect (JFailed _ r) e = at_phase ''failed'' (e\<lparr>je_outcome := ActFailed r\<rparr>)"
| "event_effect (JCancelled _) e = at_phase ''cancelled'' (e\<lparr>je_outcome := ActCancelled\<rparr>)"
| "event_effect (JInterrupted _) e = at_phase ''interrupted'' (e\<lparr>je_outcome := ActInterrupted\<rparr>)"
| "event_effect (JDeferred _) e = at_phase ''deferred'' (e\<lparr>je_outcome := ActDeferred\<rparr>)"
| "event_effect (JUnresolved _ r) e = at_phase ''unresolved'' (e\<lparr>je_outcome := ActUnresolved r\<rparr>)"
| "event_effect (JRecoveryReview _ r v) e =
     at_phase ''recovery_review'' (e\<lparr>je_recovery := Some v, je_outcome := ActRecoveryReview r\<rparr>)"
| "event_effect (JRecoveryResolved _ (RecoveryCompleted v)) e =
     at_phase ''recovery_resolved'' (e\<lparr>je_resolution := Some v, je_outcome := ActCompleted\<rparr>)"
| "event_effect (JRecoveryResolved _ (RecoveryUnresolved r)) e =
     at_phase ''recovery_resolved'' (e\<lparr>je_outcome := ActUnresolved r\<rparr>)"

lemma step_effect: "boundary_step c e ev f \<Longrightarrow> f = event_effect ev e"
  by (induction rule: boundary_step.induct) simp_all

definition entry_of_events :: "journal_event list \<Rightarrow> action_journal_entry option" where
  "entry_of_events evs =
     (case evs of
        JPlanned p # rest \<Rightarrow> Some (foldl (\<lambda>e ev. event_effect (canonical_event ev) e) (entry_of_plan p) rest)
      | _ \<Rightarrow> None)"

definition action_log :: "journal_event list \<Rightarrow> nat \<Rightarrow> journal_event list" where
  "action_log log a = filter (\<lambda>ev. event_action ev = a) log"

text \<open>The entry of an action after a log of events.\<close>

definition log_entry :: "journal_event list \<Rightarrow> nat \<Rightarrow> action_journal_entry option" where
  "log_entry log a = entry_of_events (action_log log a)"

lemma traced_starts: "traced c a evs e \<Longrightarrow> \<exists>p rest. evs = JPlanned p # rest"
  by (induction rule: traced.induct) auto

lemma entry_of_events_snoc:
  "entry_of_events evs = Some e \<Longrightarrow>
     entry_of_events (evs @ [ev]) = Some (event_effect (canonical_event ev) e)"
  by (auto simp: entry_of_events_def split: list.splits journal_event.splits)

lemma traced_entry: "traced c a evs e \<Longrightarrow> entry_of_events evs = Some e"
proof (induction rule: traced.induct)
  case (more evs e ev f)
  then show ?case by (auto simp: entry_of_events_snoc dest: step_effect)
qed (simp add: entry_of_events_def)

definition provable_in :: "journal_event list \<Rightarrow> journal_event \<Rightarrow> bool" where
  "provable_in log ev = is_none_or (\<lambda>e. removal_provable e ev) (log_entry log (event_action ev))"

fun replayable :: "journal_event list \<Rightarrow> journal_event list \<Rightarrow> bool" where
  "replayable log [] = True"
| "replayable log (ev # evs) =
     (event_storable ev \<and> provable_in log ev \<and> replayable (log @ [ev]) evs)"

fun append_events ::
  "evidence_store \<Rightarrow> nat \<Rightarrow> journal_event list \<Rightarrow> storage_error + evidence_store" where
  "append_events db run [] = Ok db"
| "append_events db run (ev # evs) =
     result_bind (append_event db run ev) (\<lambda>db'. append_events db' run evs)"

text \<open>A table that holds exactly the rows of a log.\<close>

definition holds :: "run_journal \<Rightarrow> journal_event list \<Rightarrow> bool" where
  "holds j log \<longleftrightarrow>
     (\<forall>a. if action_log log a = [] then rows_of j a = [] else \<exists>e. written j a (action_log log a) e) \<and>
     (\<forall>r \<in> set (rj_rows j). \<exists>a \<in> event_action ` set log. row_action r = int a) \<and>
     (\<forall>ev \<in> set log. event_action ev < 2 ^ 63)"

lemma holds_written: "holds j log \<Longrightarrow> action_log log a \<noteq> [] \<Longrightarrow> \<exists>e. written j a (action_log log a) e"
  by (simp add: holds_def)

lemma holds_entry:
  assumes "holds j log" and "written j a (action_log log a) e"
  shows "log_entry log a = Some e"
  using assms by (auto simp: log_entry_def written_def intro: traced_entry)

lemma next_sequence_written:
  assumes "rows_written a evs (rows_of j a)"
  shows "next_sequence j a = int (length (rows_of j a))"
proof -
  have max_seq: "foldr max (map int [0..<n]) (- 1) = int n - 1" for n
  proof (induction n)
    case (Suc n)
    have "foldr max xs (max x y) = max x (foldr max xs y)" for xs :: "int list" and x y
      by (induction xs) (auto simp: max.left_commute)
    from this[of "map int [0..<n]" "int n" "- 1"] Suc show ?case by simp
  qed simp
  from assms have "map row_sequence (rows_of j a) = map int [0..<length (rows_of j a)]"
    by (simp add: rows_written_def)
  then show ?thesis by (simp add: next_sequence_def max_seq)
qed

lemma append_row_Ok:
  "append_row j a ev = Ok j' \<longleftrightarrow>
     a < 2 ^ 63 \<and> validate_all j a ev = Ok () \<and>
     (\<exists>cols. bind_columns (from_event ev) = Ok cols \<and>
       j' = j\<lparr>rj_rows := rj_rows j @
         [\<lparr>row_action = int a, row_sequence = next_sequence j a, row_columns = cols\<rparr>]\<rparr>)"
  by (auto simp: append_row_def to_sql_id_def)

lemma rows_of_append [simp]:
  "rows_of (j\<lparr>rj_rows := rj_rows j @ [r]\<rparr>) a =
     rows_of j a @ (if row_action r = int a then [r] else [])"
  by (simp add: rows_of_def)

lemma first_event_planned:
  assumes "rows_of j a = []" and "validate_all j a ev = Ok ()"
  shows "event_phase ev = ''planned''"
  using assms
  by (auto simp: validate_all_Ok validate_event_None validate_phase_None has_plan_def
      phase_rows_def Let_def split: if_splits)

lemma phase_plannedD: "event_phase ev = ''planned'' \<Longrightarrow> \<exists>p. ev = JPlanned p"
  by (cases ev) simp_all

lemma action_log_snoc [simp]:
  "action_log (log @ [ev]) a = action_log log a @ (if event_action ev = a then [ev] else [])"
  by (simp add: action_log_def)

lemma append_row_writes:
  assumes h: "holds j log" and a: "event_action ev = a" and ap: "append_row j a ev = Ok j'"
    and st: "event_storable ev" and prov: "provable_in log ev"
  shows "\<exists>e. written j' a (action_log (log @ [ev]) a) e"
proof -
  from ap obtain cols where ok: "validate_all j a ev = Ok ()"
    and cols: "bind_columns (from_event ev) = Ok cols"
    and j': "j' = j\<lparr>rj_rows := rj_rows j @
      [\<lparr>row_action = int a, row_sequence = next_sequence j a, row_columns = cols\<rparr>]\<rparr>"
    by (auto simp: append_row_Ok)
  show ?thesis
  proof (cases "action_log log a = []")
    case True
    with h have empty: "rows_of j a = []" unfolding holds_def by metis
    with ok obtain p where p: "ev = JPlanned p"
      by (blast dest: first_event_planned phase_plannedD)
    with a st have "traced (rj_deletion_method j) a [ev] (entry_of_plan p)"
      by (auto intro: traced.first)
    with True a j' empty cols show ?thesis
      by (auto simp: written_def rows_written_def row_of_event_def next_sequence_def)
  next
    case False
    from holds_written[OF h this] obtain e where w: "written j a (action_log log a) e" ..
    have "removal_provable e ev"
      using prov holds_entry[OF h w] a by (simp add: provable_in_def)
    from accepted_step[OF w ok a this] obtain f where
      f: "boundary_step (rj_deletion_method j) e (canonical_event ev) f" ..
    with w a st have "traced (rj_deletion_method j) a (action_log log a @ [ev]) f"
      by (auto simp: written_def intro: traced.more)
    moreover from w have rw: "rows_written a (action_log log a) (rows_of j a)"
      by (simp add: written_def)
    ultimately show ?thesis
      using a j' cols next_sequence_written[OF rw]
      by (intro exI[of _ f]) (auto simp: written_def rows_written_def row_of_event_def intro!: list_all2_appendI)
  qed
qed

lemma holds_append:
  assumes h: "holds j log" and a: "event_action ev = a" and ap: "append_row j a ev = Ok j'"
    and st: "event_storable ev" and prov: "provable_in log ev"
  shows "holds j' (log @ [ev])"
proof -
  from ap obtain r where j': "j' = j\<lparr>rj_rows := rj_rows j @ [r]\<rparr>" "row_action r = int a" "a < 2 ^ 63"
    by (auto simp: append_row_Ok)
  have other: "written j' b evs e = written j b evs e" "rows_of j' b = rows_of j b" if "b \<noteq> a" for b evs e
    using j' that by (simp_all add: written_def)
  show ?thesis
    unfolding holds_def
  proof (intro conjI allI)
    fix b
    show "if action_log (log @ [ev]) b = [] then rows_of j' b = []
      else \<exists>e. written j' b (action_log (log @ [ev]) b) e"
    proof (cases "b = a")
      case True
      with append_row_writes[OF assms] a show ?thesis by simp
    next
      case False
      with h a other show ?thesis by (auto simp: holds_def)
    qed
  qed (use h j' a in \<open>auto simp: holds_def\<close>)
qed

subsection \<open>Loading what was written\<close>

lemma sort_by_groups:
  assumes "sorted ks" "distinct ks" "f ` set xs \<subseteq> set ks"
  shows "sort_by f xs = concat (map (\<lambda>k. filter (\<lambda>x. f x = k) xs) ks)"
  unfolding sort_by_def
proof (rule properties_for_sort_key)
  have groups: "mset (concat (map (\<lambda>k. filter (\<lambda>x. f x = k) xs) ks)) = filter_mset (\<lambda>x. f x \<in> set ks) (mset xs)"
    using assms(2)
  proof (induction ks)
    case (Cons k ks)
    have "filter_mset (\<lambda>x. f x = k \<or> f x \<in> set ks) (mset xs) =
        filter_mset (\<lambda>x. f x = k) (mset xs) + filter_mset (\<lambda>x. f x \<in> set ks) (mset xs)"
      by (rule multiset_eqI) (use Cons.prems in auto)
    with Cons show ?case by (simp add: mset_filter)
  qed simp
  also have "filter_mset (\<lambda>x. f x \<in> set ks) (mset xs) = mset xs"
    using assms(3) by (auto simp: filter_mset_eq_conv)
  finally show "mset (concat (map (\<lambda>k. filter (\<lambda>x. f x = k) xs) ks)) = mset xs" .
next
  fix y assume y: "y \<in> set (concat (map (\<lambda>k. filter (\<lambda>x. f x = k) xs) ks))"
  then have "f y \<in> set ks" by auto
  with assms(2) show "filter (\<lambda>x. f y = f x) (concat (map (\<lambda>k. filter (\<lambda>x. f x = k) xs) ks)) =
      filter (\<lambda>x. f y = f x) xs"
  proof (induction ks)
    case (Cons k ks)
    have none: "filter (\<lambda>x. f y = f x) (concat (map (\<lambda>k. filter (\<lambda>x. f x = k) xs) ls)) = []"
      if "f y \<notin> set ls" for ls
      using that by (auto simp: filter_empty_conv)
    from Cons none[of ks] show ?case
      by (auto simp: filter_empty_conv intro!: filter_cong)
  qed simp
next
  have "sorted (map f (filter (\<lambda>x. f x = k) xs))" for k
    by (induction xs) auto
  then show "sorted (map f (concat (map (\<lambda>k. filter (\<lambda>x. f x = k) xs) ks)))"
    using assms(1) by (induction ks) (auto simp: sorted_append)
qed

lemma collect_results_append:
  "collect_results f (xs @ ys) =
     result_bind (collect_results f xs) (\<lambda>us. result_bind (collect_results f ys) (\<lambda>vs. Ok (us @ vs)))"
  by (induction xs) (auto simp: result_bind_def split: sum.splits)

lemma collect_results_concat:
  "(\<And>x. x \<in> set xs \<Longrightarrow> collect_results f (g x) = Ok (h x)) \<Longrightarrow>
     collect_results f (concat (map g xs)) = Ok (concat (map h xs))"
  by (induction xs) (simp_all add: collect_results_append)

lemma replay_rows_append:
  "replay_rows c m (rs @ ss) = result_bind (replay_rows c m rs) (\<lambda>n. replay_rows c n ss)"
  by (induction rs arbitrary: m) (auto simp: result_bind_def split: sum.splits)

lemma read_group:
  assumes "list_all2 (row_of_event a) evs rs" and "list_all event_storable evs" and "a < 2 ^ 63"
  shows "collect_results read_row rs = Ok (map (\<lambda>ev. (a, stored_of ev)) evs)"
  using assms(1,2)
proof induction
  case (Cons ev evs r rs)
  then have "read_row r = Ok (a, stored_of ev)"
    using assms(3) by (simp add: read_row_def row_of_event_def read_stored from_sql_u64_def unat_of_nat)
  with Cons show ?case by simp
qed simp

lemma traced_storable: "traced c a evs e \<Longrightarrow> list_all event_storable evs"
  by (induction rule: traced.induct) simp_all

lemma btree_insert_twice [simp]: "btree_insert k v (btree_insert k w m) = btree_insert k v m"
  by (induction k w m rule: btree_insert.induct) auto

lemma replay_group:
  assumes "traced c a evs e" and "btree_get m a = None"
  shows "replay_rows c m (map (\<lambda>ev. (a, stored_of ev)) evs) = Ok (btree_insert a e m)"
  using assms(1)
proof (induction rule: traced.induct)
  case (first p)
  with assms(2) plan_read_decodes[of p a] show ?case
    by (simp add: apply_stored_event_def)
next
  case (more evs e ev f)
  have "event_phase ev \<noteq> ''planned''"
    using step_not_planned[OF more.hyps(4)] by simp
  with more replay_stored[OF more.hyps(4,3,2)] show ?case
    by (simp add: replay_rows_append apply_stored_event_def)
qed

lemma btree_insert_last:
  "\<forall>(l, w) \<in> set m. l < k \<Longrightarrow> btree_insert k v m = m @ [(k, v)]"
  by (induction k v m rule: btree_insert.induct) auto

lemma btree_get_fresh: "\<forall>(l, w) \<in> set m. l < (k :: nat) \<Longrightarrow> btree_get m k = None"
  by (auto simp: btree_get_def map_of_eq_None_iff)

lemma replay_groups:
  assumes "sorted as" "distinct as" "\<And>a. a \<in> set as \<Longrightarrow> traced c a (g a) (h a)"
    "\<forall>(l, w) \<in> set m. \<forall>a \<in> set as. l < a"
  shows "replay_rows c m (concat (map (\<lambda>a. map (\<lambda>ev. (a, stored_of ev)) (g a)) as)) =
    Ok (m @ map (\<lambda>a. (a, h a)) as)"
  using assms
proof (induction as arbitrary: m)
  case (Cons a as)
  have fresh: "\<forall>(l, w) \<in> set m. l < a" using Cons.prems(4) by auto
  have "replay_rows c (m @ [(a, h a)]) (concat (map (\<lambda>a. map (\<lambda>ev. (a, stored_of ev)) (g a)) as)) =
      Ok ((m @ [(a, h a)]) @ map (\<lambda>a. (a, h a)) as)"
    by (rule Cons.IH) (use Cons.prems in \<open>auto simp: less_le\<close>)
  with Cons.prems(3)[of a] fresh show ?case
    by (simp add: replay_rows_append replay_group[where e = "h a"] btree_get_fresh btree_insert_last)
qed simp

lemma action_log_Nil_iff: "action_log log a = [] \<longleftrightarrow> a \<notin> event_action ` set log"
  by (auto simp: action_log_def filter_empty_conv)

lemma sort_keeps_groups:
  assumes "holds j log"
  shows "filter (\<lambda>r. row_action r = int a) (sort_by row_sequence (rj_rows j)) = rows_of j a"
proof -
  have "filter (\<lambda>r. row_action r = int a) (sort_by row_sequence (rj_rows j)) =
      sort_by row_sequence (rows_of j a)"
    by (simp add: sort_by_def rows_of_def filter_sort)
  also have "\<dots> = rows_of j a"
  proof (cases "action_log log a = []")
    case True
    with assms have "rows_of j a = []" unfolding holds_def by metis
    then show ?thesis by (simp add: sort_by_def)
  next
    case False
    from holds_written[OF assms this] show ?thesis
      by (auto intro: sort_by_id written_sorted)
  qed
  finally show ?thesis .
qed

lemma holds_loads:
  assumes "holds j log"
  shows "load_rows j =
    Ok (map (\<lambda>a. (a, the (log_entry log a))) (btree_set (map event_action log)))"
proof -
  let ?as = "btree_set (map event_action log)"
  let ?rows = "sort_by row_sequence (rj_rows j)"
  have each: "\<exists>e. written j a (action_log log a) e \<and> log_entry log a = Some e" if "a \<in> set ?as" for a
    using that holds_written[OF assms, of a] holds_entry[OF assms, of a]
    by (auto simp: action_log_Nil_iff)
  have "sort_by row_action ?rows =
      concat (map (\<lambda>k. filter (\<lambda>r. row_action r = k) ?rows) (map int ?as))"
  proof (rule sort_by_groups)
    show "sorted (map int ?as)"
      using sorted_btree_set[of "map event_action log"] by (simp add: sorted_map sorted_wrt_map)
    show "distinct (map int ?as)" by (simp add: distinct_map inj_on_def)
    show "row_action ` set ?rows \<subseteq> set (map int ?as)"
      using assms by (auto simp: holds_def)
  qed
  also have "\<dots> = concat (map (rows_of j) ?as)"
    by (simp add: sort_keeps_groups[OF assms] comp_def)
  finally have sorted: "sort_by row_action ?rows = concat (map (rows_of j) ?as)" .
  have "collect_results read_row (rows_of j a) = Ok (map (\<lambda>ev. (a, stored_of ev)) (action_log log a))"
    if "a \<in> set ?as" for a
  proof -
    from each[OF that] obtain e where "written j a (action_log log a) e" by blast
    moreover have "a < 2 ^ 63" using that assms by (auto simp: holds_def)
    ultimately show ?thesis
      by (auto simp: written_def rows_written_def intro: read_group traced_storable)
  qed
  then have read: "collect_results read_row (concat (map (rows_of j) ?as)) =
      Ok (concat (map (\<lambda>a. map (\<lambda>ev. (a, stored_of ev)) (action_log log a)) ?as))"
    by (rule collect_results_concat)
  have "replay_rows (rj_deletion_method j) []
      (concat (map (\<lambda>a. map (\<lambda>ev. (a, stored_of ev)) (action_log log a)) ?as)) =
      Ok ([] @ map (\<lambda>a. (a, the (log_entry log a))) ?as)"
    by (rule replay_groups) (use each in \<open>fastforce simp: written_def\<close>)+
  with sorted read show ?thesis by (simp add: load_rows_def)
qed

end
