(* ===== verification/RunJournal.thy ===== *)
theory RunJournal
  imports Written
begin

text \<open>
  The properties of the run journal as its callers rely on them: what was accepted loads, a
  completed Safe Delete is backed by its evidence, actions advance in their order, a settled
  action stays as it is, and an unsettled one can always be settled.
\<close>

subsection \<open>Runs of accepted events\<close>

lemma append_event_Ok:
  "append_event db run ev = Ok db' \<longleftrightarrow>
     run < 2 ^ 63 \<and> (\<exists>j j'. db run = Some j \<and> append_row j (event_action ev) ev = Ok j' \<and>
       db' = db(run \<mapsto> j'))"
  by (auto simp: append_event_def to_sql_id_def split: option.splits)

lemma append_event_holds:
  assumes "append_event db run ev = Ok db'" and "db run = Some j" and "holds j log"
    and "event_storable ev" and "provable_in log ev"
  shows "\<exists>j'. db' run = Some j' \<and> holds j' (log @ [ev]) \<and> rj_deletion_method j' = rj_deletion_method j"
proof -
  from assms(1,2) obtain j' where j': "append_row j (event_action ev) ev = Ok j'" "db' run = Some j'"
    by (auto simp: append_event_Ok)
  from holds_append[OF assms(3) refl j'(1) assms(4,5)] j' show ?thesis
    by (auto simp: append_row_Ok)
qed

lemma append_events_holds:
  "append_events db run evs = Ok db' \<Longrightarrow> db run = Some j \<Longrightarrow> holds j log \<Longrightarrow> replayable log evs \<Longrightarrow>
     \<exists>j'. db' run = Some j' \<and> holds j' (log @ evs) \<and> rj_deletion_method j' = rj_deletion_method j"
proof (induction evs arbitrary: db j log)
  case (Cons ev evs)
  then obtain db1 where db1: "append_event db run ev = Ok db1" "append_events db1 run evs = Ok db'"
    by auto
  with append_event_holds[OF db1(1) Cons.prems(2,3)] Cons.prems(4) obtain j1 where
    j1: "db1 run = Some j1" "holds j1 (log @ [ev])" "rj_deletion_method j1 = rj_deletion_method j"
    by auto
  from Cons.IH[OF db1(2) j1(1,2)] Cons.prems(4) j1(3) show ?case by simp
qed simp

definition fresh_journal :: "deletion_method option \<Rightarrow> run_journal" where
  "fresh_journal m = \<lparr>rj_deletion_method = map_option encode_deletion_method m, rj_rows = []\<rparr>"

lemma holds_fresh: "holds (fresh_journal m) []"
  by (simp add: holds_def fresh_journal_def rows_of_def action_log_def)

lemma append_events_run_id: "append_events db run (ev # evs) = Ok db' \<Longrightarrow> run < 2 ^ 63"
  by (auto simp: append_event_Ok)

lemma map_filter_the:
  "(\<And>a. a \<in> set as \<Longrightarrow> f a \<noteq> None) \<Longrightarrow> List.map_filter f as = map (\<lambda>a. the (f a)) as"
  by (induction as) (force simp: List.map_filter_simps)+

lemma holds_log_entry:
  assumes "holds j log" and "a \<in> event_action ` set log"
  shows "\<exists>e. log_entry log a = Some e \<and> written j a (action_log log a) e"
  using assms holds_written[of j log a] holds_entry[of j log a] by (auto simp: action_log_Nil_iff)

lemma log_loads:
  assumes "holds j log" and "db run = Some j" and "run < 2 ^ 63"
  shows "load_journal db run = Ok (List.map_filter (log_entry log) (btree_set (map event_action log)))"
proof -
  have "List.map_filter (log_entry log) (btree_set (map event_action log)) =
      map (\<lambda>a. the (log_entry log a)) (btree_set (map event_action log))"
    by (rule map_filter_the) (use holds_log_entry[OF assms(1)] in force)
  with assms show ?thesis
    by (simp add: load_journal_def to_sql_id_def holds_loads comp_def)
qed

lemma fresh_run_holds:
  "db run = Some (fresh_journal m) \<Longrightarrow> append_events db run evs = Ok db' \<Longrightarrow> replayable [] evs \<Longrightarrow>
     \<exists>j'. db' run = Some j' \<and> holds j' evs \<and> rj_deletion_method j' = rj_deletion_method (fresh_journal m)"
  using append_events_holds[OF _ _ holds_fresh] by fastforce

text \<open>A Safe Delete that runs through all its boundaries, beside an ordinary copy.\<close>

definition example_hash :: "char \<Rightarrow> sha256" where
  "example_hash c = replicate 32 c"

definition example_state :: pre_action_state where
  "example_state =
     \<lparr>pre_type = RegularFile, pre_size = 5, pre_modified = Some 1000,
      pre_identity = Some \<lparr>fid_device = 7, fid_inode = 11\<rparr>,
      pre_sha256 = Some (example_hash CHR ''h'')\<rparr>"

definition example_plan :: "nat \<Rightarrow> string \<Rightarrow> plan_action_kind \<Rightarrow> plan_record" where
  "example_plan a name op =
     \<lparr>pr_action = a, pr_path = [Normal ''docs'', Normal name], pr_operation = op, pr_side = PeerA,
      pr_planned_bytes = Some 5, pr_pre = example_state\<rparr>"

definition example_both :: recovery_evidence where
  "example_both =
     recovery_evidence_new 2000 None True True False (Some 5) (Some 5)
       (Some (example_hash CHR ''h'')) (Some (example_hash CHR ''h''))"

definition example_gone :: recovery_evidence where
  "example_gone =
     recovery_evidence_new 3000 (Some [RootDir, Normal ''trash'', Normal ''a'']) False True True
       None (Some 5) None (Some (example_hash CHR ''h''))"

definition example_events :: "journal_event list" where
  "example_events =
     [JPlanned (example_plan 0 ''a'' RemoveSourceAfterVerification),
      JPlanned (example_plan 1 ''b'' CopyToDestination),
      JStarted 0, JProgress 0 5, JTransferVerified 0 example_both True,
      JProofBoundary 0 Trash example_both True, JRemovalStarted 0 Trash,
      JRemovalCompleted 0 \<lparr>rm_method = Trash, rm_evidence = example_gone\<rparr>,
      JStarted 1, JCompleted 1]"

definition example_store :: evidence_store where
  "example_store = [4 \<mapsto> fresh_journal (Some Trash)]"

definition appended :: "evidence_store \<Rightarrow> nat \<Rightarrow> journal_event list \<Rightarrow> evidence_store" where
  "appended db run evs = (case append_events db run evs of Inl _ \<Rightarrow> db | Inr db' \<Rightarrow> db')"

text \<open>The bounds compared as integers, for evaluation.\<close>

lemma fits_code [code]: "fits n \<longleftrightarrow> uint n < 9223372036854775808"
proof -
  have "uint n = int (unat n)" by simp
  moreover have "(2 :: nat) ^ 63 = 9223372036854775808" by simp
  ultimately show ?thesis unfolding fits_def by linarith
qed

lemma to_sql_u64_code [code]:
  "to_sql_u64 n =
     (if uint n < 9223372036854775808 then Ok (uint n)
      else Err (Sqlite ''out of range integral type conversion attempted''))"
  unfolding to_sql_u64_def fits_def[symmetric] fits_code ..

lemma to_sql_id_code [code]:
  "to_sql_id n =
     (if int n < 9223372036854775808 then Ok (int n)
      else Err (Sqlite ''out of range integral type conversion attempted''))"
proof -
  have "(2 :: nat) ^ 63 = 9223372036854775808" by simp
  then have "n < 2 ^ 63 \<longleftrightarrow> int n < 9223372036854775808" by linarith
  then show ?thesis by (simp only: to_sql_id_def)
qed

lemma example_events_accepted: "append_events example_store 4 example_events = Ok (appended example_store 4 example_events)"
proof -
  have "\<not> (case append_events example_store 4 example_events of Inl _ \<Rightarrow> True | Inr _ \<Rightarrow> False)"
    by code_simp
  then show ?thesis by (simp add: appended_def split: sum.splits)
qed

lemma example_replayable: "replayable [] example_events"
  by code_simp



text \<open>C2: A Safe Delete that a report shows as completed is backed by evidence, whoever wrote the
  rows: a verified transfer of the planned content, a proof of both sides before the removal,
  and a removal result by the configured method that shows the source gone and the destination
  exactly as it was proved.\<close>

theorem completed_safe_delete_is_proved:
  assumes "load_journal db run = Ok es"
    and "db run = Some j"
    and "e \<in> set es"
    and "je_operation e = RemoveSourceAfterVerification"
    and "je_outcome e = ActCompleted"
  shows "\<exists>t p r. je_transfer e = Some t \<and> je_proof e = Some p \<and> je_removal e = Some r \<and>
    transfer_evidence_valid e t \<and> re_source_size t = Some (pre_size (pr_pre (je_plan e))) \<and>
    proof_boundary_valid e p \<and>
    rj_deletion_method j = Some (encode_deletion_method (rm_method r)) \<and>
    \<not> re_source_present (rm_evidence r) \<and> re_destination_present (rm_evidence r) \<and>
    re_destination_size (rm_evidence r) = re_destination_size p \<and>
    re_destination_sha256 (rm_evidence r) = re_destination_sha256 p"
proof -
  note ok = loaded_entry_ok[OF assms(1-3), unfolded entry_ok_def]
  have "is_safe_delete e" using assms(4) by (simp add: is_safe_delete_def)
  with ok assms(5) obtain r p t where r: "je_removal e = Some r" "je_proof e = Some p"
    "je_transfer e = Some t" by blast
  with ok show ?thesis
    by (auto simp: matches_proof_def removal_evidence_valid_def transfer_evidence_valid_def)
qed

definition example_entry :: action_journal_entry where
  "example_entry = the (log_entry example_events 0)"

lemma example_loads:
  "load_journal (appended example_store 4 example_events) 4 =
     Ok [example_entry, the (log_entry example_events 1)]"
proof -
  have "\<exists>j. appended example_store 4 example_events 4 = Some j \<and> holds j example_events"
    using fresh_run_holds[OF _ example_events_accepted example_replayable]
    by (auto simp: example_store_def)
  then have "load_journal (appended example_store 4 example_events) 4 =
      Ok (List.map_filter (log_entry example_events) (btree_set (map event_action example_events)))"
    by (auto intro: log_loads)
  moreover have "btree_set (map event_action example_events) = [0, 1]" by code_simp
  moreover have "log_entry example_events 0 \<noteq> None" "log_entry example_events 1 \<noteq> None" by code_simp+
  ultimately show ?thesis by (auto simp: List.map_filter_simps example_entry_def)
qed

lemma completed_safe_delete_is_proved_witness:
  "\<exists>t p r. je_transfer example_entry = Some t \<and> je_proof example_entry = Some p \<and>
     je_removal example_entry = Some r \<and> re_source_size t = Some 5 \<and>
     re_destination_size (rm_evidence r) = re_destination_size p"
proof -
  obtain j where j: "appended example_store 4 example_events 4 = Some j"
    using fresh_run_holds[OF _ example_events_accepted example_replayable] by (auto simp: example_store_def)
  have op: "je_operation example_entry = RemoveSourceAfterVerification"
    and out: "je_outcome example_entry = ActCompleted"
    and size: "pre_size (pr_pre (je_plan example_entry)) = 5"
    by code_simp+
  from completed_safe_delete_is_proved[OF example_loads j _ op out] size show ?thesis
    by auto
qed

subsection \<open>Order and finality\<close>

lemma current_phase_row:
  "current_phase j b = Some ph \<Longrightarrow> \<exists>r \<in> set (rj_rows j). row_action r = int b"
  by (auto simp: current_phase_def latest_def rows_of_def filter_empty_conv split: if_splits)

lemma unsettled_prior_None:
  "unsettled_prior j a = None \<longleftrightarrow>
     (\<forall>b ph. b < a \<longrightarrow> current_phase j b = Some ph \<longrightarrow> is_settled_phase ph)"
proof -
  have "(b, ph) \<in> set (prior_actions j a) \<longleftrightarrow> b < a \<and> current_phase j b = Some ph" for b ph
    using current_phase_row[of j b ph]
    by (force simp: prior_actions_def List.map_filter_def image_iff)
  then show ?thesis by (auto simp: unsettled_prior_def find_None_iff_all)
qed

text \<open>C5: Work on an action starts only when every earlier action of the run is settled: an
  accepted boundary other than a plan, a cancellation or an interruption finds all earlier
  actions in a settled phase.\<close>

theorem actions_settle_in_order:
  assumes "append_event db run ev = Ok db'"
    and "db run = Some j"
    and "event_advances_action ev"
    and "\<not> records_no_mutation ev"
    and "b < event_action ev"
    and "current_phase j b = Some ph"
  shows "is_settled_phase ph"
proof -
  from assms(1,2) have "validate_action_order j (event_action ev) ev = Ok ()"
    by (auto simp: append_event_Ok append_row_Ok validate_all_Ok)
  with assms(3,4) have "unsettled_prior j (event_action ev) = None"
    by (simp add: validate_action_order_def split: option.splits prod.splits)
  with assms(5,6) show ?thesis by (simp add: unsettled_prior_None)
qed

definition example_half :: evidence_store where
  "example_half = appended example_store 4 (take 8 example_events)"

lemma example_half_accepts:
  "append_event example_half 4 (JStarted 1) = Ok (appended example_half 4 [JStarted 1])"
proof -
  have "\<not> (case append_events example_half 4 [JStarted 1] of Inl _ \<Rightarrow> True | Inr _ \<Rightarrow> False)"
    by code_simp
  then show ?thesis by (auto simp: appended_def result_bind_def split: sum.splits)
qed

definition phase_in :: "evidence_store \<Rightarrow> nat \<Rightarrow> nat \<Rightarrow> string option" where
  "phase_in db run a = Option.bind (db run) (\<lambda>j. current_phase j a)"

lemma actions_settle_in_order_witness: "is_settled_phase ''removal_completed''"
proof -
  have "phase_in example_half 4 0 = Some ''removal_completed''" by code_simp
  then obtain j where "example_half 4 = Some j" "current_phase j 0 = Some ''removal_completed''"
    by (auto simp: phase_in_def bind_eq_Some_conv)
  from actions_settle_in_order[OF example_half_accepts this(1) _ _ _ this(2)] show ?thesis by simp
qed

text \<open>A settled action refuses every further boundary.\<close>

lemma settled_refuses:
  assumes "current_phase j a = Some ph" and "is_settled_phase ph"
  shows "validate_all j a ev \<noteq> Ok u"
proof
  assume "validate_all j a ev = Ok u"
  then have "validate_phase ev (has_plan j a) (Some ph) = None"
    using assms(1) by (simp add: validate_all_Ok validate_event_None Let_def)
  then have "event_phase ev \<noteq> ''planned''" "phase_follows (event_phase ev) (Some ph)"
    by (auto simp: validate_phase_None split: if_splits)
  with assms(2) show False
    by (cases ev) (auto simp: is_settled_phase_def)
qed

lemma settled_rows_kept:
  assumes "append_row j b ev = Ok j'" and "current_phase j a = Some ph" and "is_settled_phase ph"
  shows "rows_of j' a = rows_of j a"
proof -
  from assms(1) have "validate_all j b ev = Ok ()" by (auto simp: append_row_Ok)
  with settled_refuses[OF assms(2,3)] have "b \<noteq> a" by auto
  with assms(1) show ?thesis by (auto simp: append_row_Ok)
qed

text \<open>A settled action is final: whatever is appended to the run afterwards, its rows stay as
  they are.\<close>

theorem settled_actions_are_final:
  assumes "append_events db run evs = Ok db'"
    and "db run = Some j"
    and "current_phase j a = Some ph"
    and "is_settled_phase ph"
  shows "\<exists>j'. db' run = Some j' \<and> rows_of j' a = rows_of j a"
  using assms
proof (induction evs arbitrary: db j)
  case (Cons ev evs)
  then obtain j1 where j1: "append_row j (event_action ev) ev = Ok j1"
    "append_events (db(run \<mapsto> j1)) run evs = Ok db'"
    by (auto simp: append_event_Ok)
  have same: "rows_of j1 a = rows_of j a"
    by (rule settled_rows_kept[OF j1(1) Cons.prems(3,4)])
  then have "current_phase j1 a = Some ph"
    using Cons.prems(3) by (simp add: current_phase_def)
  from Cons.IH[OF j1(2) _ this Cons.prems(4)] same show ?case by simp
qed simp

lemma settled_actions_are_final_witness:
  "\<exists>j j'. example_half 4 = Some j \<and> appended example_half 4 [JStarted 1] 4 = Some j' \<and>
     rows_of j' 0 = rows_of j 0"
proof -
  have "phase_in example_half 4 0 = Some ''removal_completed''" by code_simp
  then obtain j where j: "example_half 4 = Some j" "current_phase j 0 = Some ''removal_completed''"
    by (auto simp: phase_in_def bind_eq_Some_conv)
  have "append_events example_half 4 [JStarted 1] = Ok (appended example_half 4 [JStarted 1])"
    using example_half_accepts by simp
  from settled_actions_are_final[OF this j] j(1) show ?thesis
    by (auto simp: is_settled_phase_def)
qed

subsection \<open>Every run can be closed\<close>

definition settled_in :: "run_journal \<Rightarrow> nat \<Rightarrow> bool" where
  "settled_in j a = is_some_and is_settled_phase (current_phase j a)"

text \<open>The boundary that settles an action from each of its phases.\<close>

definition closing_event :: "nat \<Rightarrow> string \<Rightarrow> journal_event" where
  "closing_event a ph =
     (if ph = ''recovery_review'' then JRecoveryResolved a (RecoveryUnresolved InterruptedBoundary)
      else if mutating_phase ph then JFailed a InterruptedBoundary
      else JInterrupted a)"

lemma closing_event_simps [simp]:
  "event_action (closing_event a ph) = a" "event_storable (closing_event a ph)"
  "provable_in log (closing_event a ph)" "is_settled_phase (event_phase (closing_event a ph))"
  "bind_columns (from_event (closing_event a ph)) \<noteq> Inl err"
  by (auto simp: closing_event_def provable_in_def is_none_or_iff is_settled_phase_def
      bind_columns_def empty_planned_def empty_provenance_def Let_def)

lemma journaled_phase:
  assumes "journaled c a e"
  shows "je_last_phase e = ''planned'' \<or> je_last_phase e = ''recovery_review'' \<or>
    mutating_phase (je_last_phase e) \<or> is_settled_phase (je_last_phase e)"
  using assms
proof cases
  case planned
  then show ?thesis by (simp add: entry_of_plan_def)
next
  case (boundary e' ev)
  from boundary(3) show ?thesis
    by cases (simp_all add: is_settled_phase_def)
qed

lemma closing_accepted:
  assumes w: "written j a evs e" and u: "\<not> is_settled_phase (je_last_phase e)"
    and prior: "unsettled_prior j a = None"
  shows "validate_all j a (closing_event a (je_last_phase e)) = Ok ()"
proof -
  have ph: "je_last_phase e = ''planned'' \<or> je_last_phase e = ''recovery_review'' \<or>
      mutating_phase (je_last_phase e)"
    using w u by (auto simp: written_def dest: traced_journaled journaled_phase)
  from u have ns: "\<not> settled_for_append (je_last_phase e)"
    by (auto simp: settled_for_append_def is_settled_phase_def)
  from ph ns show ?thesis
    using written_has_plan[OF w] written_current_phase[OF w] prior
    by (auto simp: closing_event_def validate_all_Ok validate_event_None validate_phase_None
        validate_action_order_def method_refused_def Let_def)
qed

lemma settle_one:
  assumes h: "holds j log" and a: "a \<in> event_action ` set log" and u: "\<not> settled_in j a"
    and prior: "\<forall>b \<in> event_action ` set log. b < a \<longrightarrow> settled_in j b"
  shows "\<exists>ev j'. append_row j a ev = Ok j' \<and> event_action ev = a \<and> event_storable ev \<and>
    provable_in log ev \<and> settled_in j' a \<and> (\<forall>b. b \<noteq> a \<longrightarrow> settled_in j' b = settled_in j b)"
proof -
  from holds_log_entry[OF h a] obtain e where w: "written j a (action_log log a) e" by blast
  have "unsettled_prior j a = None"
    unfolding unsettled_prior_None
  proof (intro allI impI)
    fix b ph assume b: "b < a" "current_phase j b = Some ph"
    from current_phase_row[OF b(2)] h have "b \<in> event_action ` set log"
      by (force simp: holds_def)
    with prior b show "is_settled_phase ph" by (auto simp: settled_in_def)
  qed
  moreover have "\<not> is_settled_phase (je_last_phase e)"
    using u written_current_phase[OF w] by (simp add: settled_in_def)
  ultimately have ok: "validate_all j a (closing_event a (je_last_phase e)) = Ok ()"
    using closing_accepted[OF w] by blast
  let ?ev = "closing_event a (je_last_phase e)"
  obtain cols where cols: "bind_columns (from_event ?ev) = Ok cols"
    using closing_event_simps(5)[of a "je_last_phase e"] by (cases "bind_columns (from_event ?ev)") auto
  have "a < 2 ^ 63" using a h by (auto simp: holds_def)
  with ok cols obtain j' where j': "append_row j a ?ev = Ok j'" by (auto simp: append_row_Ok)
  have "settled_in j' a"
  proof -
    from append_row_writes[OF h _ j' closing_event_simps(2,3)] obtain f where
      f: "written j' a (action_log (log @ [?ev]) a) f" by auto
    then have "je_last_phase f = event_phase ?ev"
      using traced_last[of _ a "action_log (log @ [?ev]) a" f] by (auto simp: written_def)
    with written_current_phase[OF f] show ?thesis by (simp add: settled_in_def)
  qed
  moreover have "settled_in j' b = settled_in j b" if "b \<noteq> a" for b
    using j' that by (auto simp: append_row_Ok settled_in_def current_phase_def)
  ultimately show ?thesis using j' closing_event_simps(1-3) by blast
qed

lemma settle_all:
  assumes "holds j log" and "db run = Some j" and "run < 2 ^ 63"
  shows "\<exists>more db' j'. append_events db run more = Ok db' \<and> db' run = Some j' \<and>
    (\<forall>a \<in> event_action ` set log. settled_in j' a)"
  using assms
proof (induction "card {a \<in> event_action ` set log. \<not> settled_in j a}" arbitrary: db j log
    rule: less_induct)
  case less
  let ?U = "\<lambda>j. {a \<in> event_action ` set log. \<not> settled_in j a}"
  show ?case
  proof (cases "?U j = {}")
    case True
    then have "\<forall>a \<in> event_action ` set log. settled_in j a" by blast
    with less.prems(2) show ?thesis by (intro exI[of _ "[]"] exI[of _ db] exI[of _ j]) simp
  next
    case False
    define a where "a = (LEAST a. a \<in> ?U j)"
    from False have a: "a \<in> ?U j" unfolding a_def by (metis LeastI_ex ex_in_conv)
    then have aU: "a \<in> event_action ` set log" "\<not> settled_in j a" by blast+
    have "b \<notin> ?U j" if "b < a" for b
      using not_less_Least[of b "\<lambda>a. a \<in> ?U j"] that unfolding a_def by blast
    then have "\<forall>b \<in> event_action ` set log. b < a \<longrightarrow> settled_in j b" by blast
    from settle_one[OF less.prems(1) aU this] obtain ev j1 where
      ev: "append_row j a ev = Ok j1" "event_action ev = a" "event_storable ev"
        "provable_in log ev" "settled_in j1 a" "\<forall>b. b \<noteq> a \<longrightarrow> settled_in j1 b = settled_in j b"
      by (elim exE conjE)
    have h1: "holds j1 (log @ [ev])"
      by (rule holds_append[OF less.prems(1) ev(2,1,3,4)])
    have same: "event_action ` set (log @ [ev]) = event_action ` set log"
      using aU(1) ev(2) by (simp add: insert_absorb)
    have "?U j1 \<subseteq> ?U j - {a}"
    proof
      fix x assume x: "x \<in> ?U j1"
      with ev(5) have "x \<noteq> a" by blast
      with x ev(6) show "x \<in> ?U j - {a}" by simp
    qed
    with a have "?U j1 \<subset> ?U j" by blast
    then have "card {a \<in> event_action ` set (log @ [ev]). \<not> settled_in j1 a} < card (?U j)"
      unfolding same by (rule psubset_card_mono[rotated]) simp
    from less.hyps[OF this h1 _ less.prems(3), of "db(run \<mapsto> j1)"] obtain more db' j' where
      m: "append_events (db(run \<mapsto> j1)) run more = Ok db'" "db' run = Some j'"
        "\<forall>a \<in> event_action ` set log. settled_in j' a"
      unfolding same fun_upd_same by blast
    have "append_event db run ev = Ok (db(run \<mapsto> j1))"
      using less.prems(2,3) ev(1,2) by (auto simp: append_event_Ok)
    with m show ?thesis by (intro exI[of _ "ev # more"] exI[of _ db'] exI[of _ j']) simp
  qed
qed



subsection \<open>An accepted event that makes a run unreadable\<close>

text \<open>The replay asks for a recovery size and digest as soon as the removal of a regular file
  carries provenance; the validation of the append does not. Such a result is accepted, and
  from then on the journal of the run does not load.\<close>

definition unproved_removal :: recovery_evidence where
  "unproved_removal = with_provenance example_gone
     \<lparr>prov_action = Some 0, prov_peer = ''A'', prov_root = [RootDir, Normal ''a''],
      prov_relative = [Normal ''docs'', Normal ''a''], prov_run = 4, prov_removed_at = 3000,
      prov_method = Trash, prov_state = Verified, prov_type = RegularFile, prov_content = None,
      prov_identity = None, prov_symlink_target = None\<rparr>"

definition unreadable_events :: "journal_event list" where
  "unreadable_events =
     take 7 example_events @ [JRemovalCompleted 0 \<lparr>rm_method = Trash, rm_evidence = unproved_removal\<rparr>]"

lemma accepted_removal_may_not_load:
  "append_events example_store 4 unreadable_events = Ok (appended example_store 4 unreadable_events)"
  "load_journal (appended example_store 4 unreadable_events) 4 =
     Err (CorruptEvidence ''removal result does not prove source absence and the selected recovery outcome'')"
proof -
  have "\<not> (case append_events example_store 4 unreadable_events of Inl _ \<Rightarrow> True | Inr _ \<Rightarrow> False)"
    by code_simp
  then show "append_events example_store 4 unreadable_events = Ok (appended example_store 4 unreadable_events)"
    by (simp add: appended_def split: sum.splits)
  show "load_journal (appended example_store 4 unreadable_events) 4 =
     Err (CorruptEvidence ''removal result does not prove source absence and the selected recovery outcome'')"
    by code_simp
qed

end
