(* ===== verification/Baseline.thy ===== *)
theory Baseline
  imports Codec
begin

text \<open>
  The Mirror baseline (\<open>baseline.rs\<close>): what both peers held when a run settled, the
  comparison of later inventories with it, and the merge of a newer baseline into it.
\<close>

subsection \<open>The findings of a reconciliation\<close>

record reconciliation_finding =
  rf_path :: path
  rf_reason :: reconciliation_reason

record completion_reconciliation =
  cr_drain :: source_drain_status
  cr_findings :: "reconciliation_finding list"

definition reconciliation_requires_review :: "completion_reconciliation \<Rightarrow> bool" where
  "reconciliation_requires_review r = (cr_findings r \<noteq> [])"

subsection \<open>States and items\<close>

record baseline_state =
  bs_type :: item_type
  bs_size :: u64
  bs_modified :: "int option"
  bs_readonly :: bool
  bs_executable :: "u32 option"
  bs_symlink_target :: "path option"
  bs_fingerprint :: "sha256 option"

definition state_of_snapshot :: "snapshot_item \<Rightarrow> baseline_state" where
  "state_of_snapshot i =
     \<lparr>bs_type = sn_type i, bs_size = sn_size i, bs_modified = sn_modified i,
      bs_readonly = sn_readonly i, bs_executable = sn_executable_permissions i,
      bs_symlink_target = sn_symlink_target i, bs_fingerprint = sn_fingerprint i\<rparr>"

definition state_parts :: "baseline_state \<Rightarrow> compared" where
  "state_parts s =
     \<lparr>cp_type = bs_type s, cp_size = bs_size s,
      cp_modified = normalize_modified_at Some (bs_modified s), cp_executable = bs_executable s,
      cp_symlink = bs_symlink_target s, cp_content = bs_fingerprint s\<rparr>"

definition state_equal :: "metadata_requirements \<Rightarrow> baseline_state \<Rightarrow> baseline_state \<Rightarrow> bool" where
  "state_equal req s t = equal_parts req (state_parts s) (state_parts t)"

definition state_equal_inventory ::
  "metadata_requirements \<Rightarrow> baseline_state \<Rightarrow> snapshot_item \<Rightarrow> bool" where
  "state_equal_inventory req s i = state_equal req s (state_of_snapshot i)"

record baseline_item =
  bi_path :: path
  bi_peer_a :: "baseline_state option"
  bi_peer_b :: "baseline_state option"

datatype baseline_item_status = Unchanged | NewItem | ChangedItem | AbsentItem

record baseline_comparison =
  bc_path :: path
  bc_peer_a :: baseline_item_status
  bc_peer_b :: baseline_item_status

record sync_baseline =
  bl_profile_name :: string
  bl_peer_a_name :: string
  bl_peer_a_root :: path
  bl_peer_b_name :: string
  bl_peer_b_root :: path
  bl_metadata :: metadata_requirements
  bl_items :: "baseline_item list"

definition baseline_lookup :: "sync_baseline \<Rightarrow> path \<Rightarrow> baseline_item option" where
  "baseline_lookup b p = List.find (\<lambda>i. bi_path i = p) (bl_items b)"

subsection \<open>Building a baseline\<close>

definition snap_included :: "inventory_snapshot \<Rightarrow> snapshot_item list" where
  "snap_included s = filter (\<lambda>i. sn_outcome i = Included) (snap_items s)"

text \<open>The state a peer leaves in the map: the last included item of a path wins.\<close>

definition included_state :: "inventory_snapshot \<Rightarrow> path \<Rightarrow> baseline_state option" where
  "included_state s p =
     map_option state_of_snapshot (List.find (\<lambda>i. sn_path i = p) (rev (snap_included s)))"

definition baseline_paths :: "inventory_snapshot \<Rightarrow> inventory_snapshot \<Rightarrow> path list" where
  "baseline_paths a b = btree_set (map sn_path (snap_included a @ snap_included b))"

definition baseline_from_inventories ::
  "string \<Rightarrow> inventory_snapshot \<Rightarrow> inventory_snapshot \<Rightarrow> metadata_requirements \<Rightarrow> sync_baseline" where
  "baseline_from_inventories profile a b req =
     \<lparr>bl_profile_name = profile, bl_peer_a_name = snap_peer_name a, bl_peer_a_root = snap_root a,
      bl_peer_b_name = snap_peer_name b, bl_peer_b_root = snap_root b, bl_metadata = req,
      bl_items = map (\<lambda>p. \<lparr>bi_path = p, bi_peer_a = included_state a p, bi_peer_b = included_state b p\<rparr>)
        (baseline_paths a b)\<rparr>"

definition journal_blocked :: "action_journal_entry list \<Rightarrow> path \<Rightarrow> bool" where
  "journal_blocked journal p =
     list_ex (\<lambda>e. je_path e = p \<and> je_outcome e \<noteq> ActCompleted) journal"

definition settled_pair ::
  "inventory_snapshot \<Rightarrow> inventory_snapshot \<Rightarrow> action_journal_entry list
    \<Rightarrow> completion_reconciliation \<Rightarrow> metadata_requirements \<Rightarrow> path
    \<Rightarrow> (snapshot_item \<times> snapshot_item) option" where
  "settled_pair a b journal reconciliation req p =
     (if p \<in> set (map rf_path (cr_findings reconciliation)) \<or> journal_blocked journal p then None
      else case (snap_item a p, snap_item b p) of
             (Some l, Some r) \<Rightarrow> if mirror_equal req l r then Some (l, r) else None
           | _ \<Rightarrow> None)"

definition settled_pairs ::
  "inventory_snapshot \<Rightarrow> inventory_snapshot \<Rightarrow> action_journal_entry list
    \<Rightarrow> completion_reconciliation \<Rightarrow> metadata_requirements \<Rightarrow> (snapshot_item \<times> snapshot_item) list" where
  "settled_pairs a b journal reconciliation req =
     List.map_filter (settled_pair a b journal reconciliation req)
       (btree_set (map sn_path (snap_items a) @ map sn_path (snap_items b)))"

definition baseline_from_reconciled ::
  "string \<Rightarrow> inventory_snapshot \<Rightarrow> inventory_snapshot \<Rightarrow> action_journal_entry list
    \<Rightarrow> completion_reconciliation \<Rightarrow> metadata_requirements \<Rightarrow> sync_baseline" where
  "baseline_from_reconciled profile a b journal reconciliation req =
     (let settled = settled_pairs a b journal reconciliation req in
      baseline_from_inventories profile (a\<lparr>snap_items := map fst settled\<rparr>)
        (b\<lparr>snap_items := map snd settled\<rparr>) req)"

subsection \<open>Comparing and merging\<close>

definition compare_side ::
  "baseline_state option \<Rightarrow> snapshot_item option \<Rightarrow> metadata_requirements \<Rightarrow> baseline_item_status" where
  "compare_side baseline current req =
     (case (baseline, current) of
        (None, None) \<Rightarrow> Unchanged
      | (None, Some _) \<Rightarrow> NewItem
      | (Some _, None) \<Rightarrow> AbsentItem
      | (Some s, Some i) \<Rightarrow> if state_equal req s (state_of_snapshot i) then Unchanged else ChangedItem)"

definition current_map :: "snapshot_item list \<Rightarrow> (path \<times> snapshot_item) list" where
  "current_map items = btree_map (map (\<lambda>i. (sn_path i, i)) items)"

definition baseline_compare ::
  "sync_baseline \<Rightarrow> inventory_snapshot \<Rightarrow> inventory_snapshot \<Rightarrow> baseline_comparison list" where
  "baseline_compare bl a b =
     (let current_a = current_map (snap_included a); current_b = current_map (snap_included b);
          paths = btree_set (map bi_path (bl_items bl) @ map fst current_a @ map fst current_b) in
      map (\<lambda>p.
        \<lparr>bc_path = p,
         bc_peer_a = compare_side (Option.bind (baseline_lookup bl p) bi_peer_a)
           (btree_get current_a p) (bl_metadata bl),
         bc_peer_b = compare_side (Option.bind (baseline_lookup bl p) bi_peer_b)
           (btree_get current_b p) (bl_metadata bl)\<rparr>) paths)"

definition merge_settled :: "sync_baseline \<Rightarrow> sync_baseline \<Rightarrow> sync_baseline" where
  "merge_settled bl updates =
     (if bl_profile_name bl \<noteq> bl_profile_name updates \<or> bl_peer_a_name bl \<noteq> bl_peer_a_name updates \<or>
         bl_peer_a_root bl \<noteq> bl_peer_a_root updates \<or> bl_peer_b_name bl \<noteq> bl_peer_b_name updates \<or>
         bl_peer_b_root bl \<noteq> bl_peer_b_root updates
      then updates
      else bl\<lparr>bl_metadata := bl_metadata updates,
              bl_items := map snd (btree_map (map (\<lambda>i. (bi_path i, i)) (bl_items bl @ bl_items updates)))\<rparr>)"

subsection \<open>Settled pairs\<close>

lemma find_map_filter_key:
  assumes "\<And>p x. g p = Some x \<Longrightarrow> key x = p"
  shows "List.find (\<lambda>x. key x = p) (rev (List.map_filter g ps)) = (if p \<in> set ps then g p else None)"
proof -
  have mem: "x \<in> set (List.map_filter g ps) \<and> key x = p \<longleftrightarrow> p \<in> set ps \<and> g p = Some x" for x
  proof
    assume "x \<in> set (List.map_filter g ps) \<and> key x = p"
    then obtain q where "q \<in> set ps" "g q = Some x" "key x = p" by (auto simp: List.map_filter_def)
    with assms show "p \<in> set ps \<and> g p = Some x" by metis
  next
    assume "p \<in> set ps \<and> g p = Some x"
    with assms show "x \<in> set (List.map_filter g ps) \<and> key x = p" by (force simp: List.map_filter_def)
  qed
  show ?thesis
  proof (cases "List.find (\<lambda>x. key x = p) (rev (List.map_filter g ps))")
    case None
    then have "\<forall>x \<in> set (List.map_filter g ps). key x \<noteq> p" by (simp add: find_None_iff)
    with mem show ?thesis using None by (cases "g p") auto
  next
    case (Some x)
    then have "x \<in> set (List.map_filter g ps) \<and> key x = p" by (auto dest: find_Some_D)
    with mem Some show ?thesis by simp
  qed
qed

lemma settled_pair_Some:
  "settled_pair a b journal rec req p = Some x \<longleftrightarrow>
     (\<forall>f \<in> set (cr_findings rec). rf_path f \<noteq> p) \<and> \<not> journal_blocked journal p \<and>
     snap_item a p = Some (fst x) \<and> snap_item b p = Some (snd x) \<and> mirror_equal req (fst x) (snd x)"
  by (cases x) (auto simp: settled_pair_def image_iff split: option.splits if_splits)

lemma snap_item_path: "snap_item s p = Some i \<Longrightarrow> sn_path i = p \<and> i \<in> set (snap_items s)"
  by (auto simp: snap_item_def dest: find_Some_D)

lemma settled_pair_paths:
  "settled_pair a b journal rec req p = Some x \<Longrightarrow> sn_path (fst x) = p \<and> sn_path (snd x) = p"
  using snap_item_path[of a p "fst x"] snap_item_path[of b p "snd x"] by (simp add: settled_pair_Some)

lemma settled_pair_included:
  "settled_pair a b journal rec req p = Some x \<Longrightarrow>
     sn_outcome (fst x) = Included \<and> sn_outcome (snd x) = Included"
  by (simp add: settled_pair_Some mirror_equal_def split: if_splits)

lemma find_map_key: "List.find (\<lambda>y. key y = p) (map f xs) = map_option f (List.find (\<lambda>x. key (f x) = p) xs)"
  by (induction xs) simp_all

lemma settled_snap_included:
  assumes "set xs \<subseteq> {i. sn_outcome i = Included}"
  shows "snap_included (a\<lparr>snap_items := xs\<rparr>) = xs"
  using assms by (auto simp: snap_included_def filter_id_conv)

lemma set_settled_pairs:
  "x \<in> set (settled_pairs a b journal rec req) \<Longrightarrow>
     settled_pair a b journal rec req (sn_path (fst x)) = Some x"
  using settled_pair_paths[of a b journal rec req]
  by (fastforce simp: settled_pairs_def List.map_filter_def)

lemma find_settled:
  "List.find (\<lambda>x. sn_path (fst x) = p) (rev (settled_pairs a b journal rec req)) =
    settled_pair a b journal rec req p"
proof -
  have "p \<in> set (btree_set (map sn_path (snap_items a) @ map sn_path (snap_items b)))"
    if "settled_pair a b journal rec req p = Some x" for x
    using that by (auto simp: settled_pair_Some dest!: snap_item_path)
  then have none: "settled_pair a b journal rec req p = None"
    if "p \<notin> set (btree_set (map sn_path (snap_items a) @ map sn_path (snap_items b)))"
    using that by (cases "settled_pair a b journal rec req p") (simp_all only: simp_thms, blast)
  show ?thesis
    unfolding settled_pairs_def
    by (subst find_map_filter_key[of _ "\<lambda>x. sn_path (fst x)"])
      (use none in \<open>auto dest: settled_pair_paths\<close>)
qed


subsection \<open>What a baseline records\<close>

interpretation bl: keyed_store bl_items bi_path baseline_lookup
  by unfold_locales (simp add: baseline_lookup_def)

lemma find_self: "List.find (\<lambda>q. q = p) ps = (if p \<in> set ps then Some p else None)"
  by (induction ps) auto

lemma lookup_from_inventories:
  "baseline_lookup (baseline_from_inventories profile a b req) p =
     (if p \<in> sn_path ` set (snap_included a @ snap_included b)
      then Some \<lparr>bi_path = p, bi_peer_a = included_state a p, bi_peer_b = included_state b p\<rparr>
      else None)"
  by (simp add: baseline_lookup_def baseline_from_inventories_def find_map_key find_self baseline_paths_def
      image_Un)

lemma included_state_settled:
  fixes a b journal rec req
  defines "pairs \<equiv> settled_pairs a b journal rec req"
  shows "included_state (a\<lparr>snap_items := map fst pairs\<rparr>) p =
      map_option (state_of_snapshot \<circ> fst) (settled_pair a b journal rec req p)"
    and "included_state (b\<lparr>snap_items := map snd pairs\<rparr>) p =
      map_option (state_of_snapshot \<circ> snd) (settled_pair a b journal rec req p)"
    and "snap_included (a\<lparr>snap_items := map fst pairs\<rparr>) = map fst pairs"
    and "snap_included (b\<lparr>snap_items := map snd pairs\<rparr>) = map snd pairs"
proof -
  have out: "set (map fst pairs) \<subseteq> {i. sn_outcome i = Included}"
    "set (map snd pairs) \<subseteq> {i. sn_outcome i = Included}"
    by (auto simp: pairs_def dest!: set_settled_pairs settled_pair_included)
  show inc: "snap_included (a\<lparr>snap_items := map fst pairs\<rparr>) = map fst pairs"
    "snap_included (b\<lparr>snap_items := map snd pairs\<rparr>) = map snd pairs"
    using out by (intro settled_snap_included; blast)+
  have eq: "List.find (\<lambda>x. sn_path (snd x) = p) (rev pairs) = List.find (\<lambda>x. sn_path (fst x) = p) (rev pairs)"
    by (rule find_cong) (auto simp: pairs_def dest!: set_settled_pairs settled_pair_paths)
  show "included_state (a\<lparr>snap_items := map fst pairs\<rparr>) p =
      map_option (state_of_snapshot \<circ> fst) (settled_pair a b journal rec req p)"
    unfolding included_state_def inc
    by (simp add: rev_map find_map_key comp_def pairs_def option.map_comp
        flip: find_settled)
  show "included_state (b\<lparr>snap_items := map snd pairs\<rparr>) p =
      map_option (state_of_snapshot \<circ> snd) (settled_pair a b journal rec req p)"
    unfolding included_state_def inc
    by (simp add: rev_map find_map_key eq comp_def option.map_comp)
      (simp add: pairs_def find_settled)
qed

lemma lookup_from_reconciled:
  "baseline_lookup (baseline_from_reconciled profile a b journal rec req) p =
     map_option (\<lambda>(l, r). \<lparr>bi_path = p, bi_peer_a = Some (state_of_snapshot l),
       bi_peer_b = Some (state_of_snapshot r)\<rparr>) (settled_pair a b journal rec req p)"
proof -
  let ?pairs = "settled_pairs a b journal rec req"
  have included: "p \<in> sn_path ` set (map fst ?pairs @ map snd ?pairs) \<longleftrightarrow>
      settled_pair a b journal rec req p \<noteq> None"
  proof -
    have "p \<in> sn_path ` set (map fst ?pairs @ map snd ?pairs) \<longleftrightarrow> (\<exists>x \<in> set ?pairs. sn_path (fst x) = p)"
    proof -
      have "sn_path (snd x) = sn_path (fst x)" if "x \<in> set ?pairs" for x
        using settled_pair_paths[OF set_settled_pairs[OF that]] by simp
      then have "(\<lambda>x. sn_path (snd x)) ` set ?pairs = (\<lambda>x. sn_path (fst x)) ` set ?pairs"
        by (rule image_cong[OF refl])
      then show ?thesis by (simp add: image_Un image_image) (simp add: image_iff eq_commute[of p])
    qed
    also have "\<dots> \<longleftrightarrow> List.find (\<lambda>x. sn_path (fst x) = p) (rev ?pairs) \<noteq> None"
      by (simp only: find_None_iff set_rev) blast
    finally show ?thesis by (simp only: find_settled)
  qed
  show ?thesis
    unfolding baseline_from_reconciled_def Let_def lookup_from_inventories included_state_settled included
    by (cases "settled_pair a b journal rec req p") auto
qed

text \<open>the baseline written after a reconciliation holds exactly the paths that both frozen
  inventories have, as equal included items, with no finding and no unsettled journal entry
  on them; each records what both peers held.\<close>

theorem settled_baseline_exact:
  "baseline_lookup (baseline_from_reconciled profile a b journal rec req) p = Some item \<longleftrightarrow>
     (\<exists>l r. snap_item a p = Some l \<and> snap_item b p = Some r \<and> mirror_equal req l r \<and>
        p \<notin> rf_path ` set (cr_findings rec) \<and> \<not> journal_blocked journal p \<and>
        item = \<lparr>bi_path = p, bi_peer_a = Some (state_of_snapshot l),
                bi_peer_b = Some (state_of_snapshot r)\<rparr>)"
  by (auto simp: lookup_from_reconciled settled_pair_Some)

subsection \<open>Comparing an unchanged peer\<close>

definition comparable_item :: "metadata_requirements \<Rightarrow> snapshot_item \<Rightarrow> bool" where
  "comparable_item req i =
     (\<not> specialist_any (req_specialist req) \<and>
      (sn_type i = RegularFile \<longrightarrow> sn_fingerprint i \<noteq> None))"

lemma state_equal_self:
  "state_equal req (state_of_snapshot i) (state_of_snapshot i) = comparable_item req i"
  by (simp add: state_equal_def equal_parts_self comparable_item_def state_parts_def state_of_snapshot_def)

lemma mirror_equal_comparable:
  "mirror_equal req l r \<Longrightarrow> state_equal req (state_of_snapshot l) (state_of_snapshot r)"
  by (simp add: mirror_equal_def state_equal_def state_parts_def state_of_snapshot_def snapshot_parts_def
      split: if_splits)

text \<open>A \<open>BTreeMap\<close> of the current items and the baseline pick the same item of a path.\<close>

lemma find_rev_map_of: "map_of (rev (map (\<lambda>i. (key i, i)) xs)) p = List.find (\<lambda>i. key i = p) (rev xs)"
proof -
  have "map_of (map (\<lambda>i. (key i, i)) ys) p = List.find (\<lambda>i. key i = p) ys" for ys
    by (induction ys) auto
  then show ?thesis by (simp add: rev_map)
qed

lemma current_map_get: "btree_get (current_map is) p = List.find (\<lambda>i. sn_path i = p) (rev is)"
  by (simp add: current_map_def btree_get_btree_map find_rev_map_of)

lemma compare_unchanged:
  assumes "\<forall>i \<in> set (snap_included s). comparable_item req i"
  shows "compare_side (included_state s p) (btree_get (current_map (snap_included s)) p) req = Unchanged"
proof (cases "List.find (\<lambda>i. sn_path i = p) (rev (snap_included s))")
  case (Some i)
  then have "i \<in> set (snap_included s)" by (auto dest: find_Some_D)
  with assms Some show ?thesis
    by (simp add: compare_side_def included_state_def current_map_get state_equal_self)
qed (simp add: compare_side_def included_state_def current_map_get)

lemma baseline_compare_fresh:
  assumes "\<forall>i \<in> set (snap_included a @ snap_included b). comparable_item req i"
    and "c \<in> set (baseline_compare (baseline_from_inventories profile a b req) a b)"
  shows "bc_peer_a c = Unchanged \<and> bc_peer_b c = Unchanged"
proof -
  let ?bl = "baseline_from_inventories profile a b req"
  have side: "Option.bind (baseline_lookup ?bl p) bi_peer_a = included_state a p"
    "Option.bind (baseline_lookup ?bl p) bi_peer_b = included_state b p" for p
    by (auto simp: lookup_from_inventories included_state_def find_None_iff)
  have "bl_metadata ?bl = req" by (simp add: baseline_from_inventories_def)
  with assms show ?thesis
    by (auto simp: baseline_compare_def Let_def side intro!: compare_unchanged)
qed

subsection \<open>Merging\<close>

definition baseline_wf :: "sync_baseline \<Rightarrow> bool" where
  "baseline_wf bl = (sorted (map bi_path (bl_items bl)) \<and> distinct (map bi_path (bl_items bl)))"

definition same_scope :: "sync_baseline \<Rightarrow> sync_baseline \<Rightarrow> bool" where
  "same_scope x y =
     (bl_profile_name x = bl_profile_name y \<and> bl_peer_a_name x = bl_peer_a_name y \<and>
      bl_peer_a_root x = bl_peer_a_root y \<and> bl_peer_b_name x = bl_peer_b_name y \<and>
      bl_peer_b_root x = bl_peer_b_root y)"

lemma baseline_from_inventories_wf: "baseline_wf (baseline_from_inventories profile a b req)"
  by (simp add: baseline_wf_def baseline_from_inventories_def baseline_paths_def comp_def)

lemma baseline_from_reconciled_wf: "baseline_wf (baseline_from_reconciled profile a b journal rec req)"
  by (simp add: baseline_from_reconciled_def Let_def baseline_from_inventories_wf)

text \<open>The values of such a \<open>BTreeMap\<close> carry their keys, in key order.\<close>

lemma values_btree_map:
  fixes key :: "'v \<Rightarrow> 'k::linorder" and xs :: "'v list"
  defines "m \<equiv> \<lambda>xs. map snd (btree_map (map (\<lambda>i. (key i, i)) xs))"
  shows "map key (m xs) = btree_set (map key xs)"
    and "List.find (\<lambda>i. key i = p) (m xs) = List.find (\<lambda>i. key i = p) (rev xs)"
proof -
  have get: "map_of (rev (map (\<lambda>i. (key i, i)) xs)) k = List.find (\<lambda>i. key i = k) (rev xs)" for k
    by (rule find_rev_map_of)
  have ex: "\<exists>i. List.find (\<lambda>i. key i = k) (rev xs) = Some i \<and> key i = k" if "k \<in> key ` set xs" for k
    using that by (cases "List.find (\<lambda>i. key i = k) (rev xs)") (auto simp: find_None_iff dest: find_Some_D)
  have m: "m xs = map (\<lambda>k. the (List.find (\<lambda>i. key i = k) (rev xs))) (btree_set (map key xs))"
    by (simp add: m_def btree_map_def get comp_def)
  show "map key (m xs) = btree_set (map key xs)"
    unfolding m map_map by (rule map_idI) (use ex in force)
  have "List.find (\<lambda>i. key i = p) (map (\<lambda>k. the (List.find (\<lambda>i. key i = k) (rev xs))) ks) =
      (if p \<in> set ks then List.find (\<lambda>i. key i = p) (rev xs) else None)"
    if "set ks \<subseteq> key ` set xs" for ks
    using that
  proof (induction ks)
    case (Cons k ks)
    with ex[of k] show ?case by auto
  qed simp
  from this[of "btree_set (map key xs)"] show "List.find (\<lambda>i. key i = p) (m xs) = List.find (\<lambda>i. key i = p) (rev xs)"
    by (auto simp: m find_None_iff2)
qed

lemma find_append: "List.find P (xs @ ys) = (case List.find P xs of Some x \<Rightarrow> Some x | None \<Rightarrow> List.find P ys)"
  by (induction xs) auto

lemma find_rev_distinct:
  "distinct (map key xs) \<Longrightarrow> List.find (\<lambda>i. key i = p) (rev xs) = List.find (\<lambda>i. key i = p) xs"
proof (induction xs)
  case (Cons x xs)
  then show ?case
    by (auto simp: find_append find_None_iff find_None_iff2 split: option.splits dest!: find_Some_D)
qed simp

definition merged_items :: "baseline_item list \<Rightarrow> baseline_item list \<Rightarrow> baseline_item list" where
  "merged_items xs ys = map snd (btree_map (map (\<lambda>i. (bi_path i, i)) (xs @ ys)))"

lemma merge_settled_merged:
  "merge_settled bl u =
     (if same_scope bl u
      then bl\<lparr>bl_metadata := bl_metadata u, bl_items := merged_items (bl_items bl) (bl_items u)\<rparr>
      else u)"
  by (simp add: merge_settled_def same_scope_def merged_items_def)

lemma merged_items_paths: "map bi_path (merged_items xs ys) = btree_set (map bi_path (xs @ ys))"
  by (simp only: merged_items_def values_btree_map)

lemma merged_items_find:
  "List.find (\<lambda>i. bi_path i = p) (merged_items xs ys) = List.find (\<lambda>i. bi_path i = p) (rev ys @ rev xs)"
  by (simp only: merged_items_def values_btree_map rev_append)

lemma merge_settled_wf: "baseline_wf u \<Longrightarrow> baseline_wf (merge_settled bl u)"
  by (simp add: merge_settled_merged baseline_wf_def merged_items_paths)

text \<open>merging a settled baseline into an older one of the same profile and peers keeps
  the result sorted without duplicates, lets every path the update holds take the update's
  entry, keeps every other path as it was, and takes the update's comparison rules; an update
  for another scope replaces the baseline.\<close>

theorem merge_settled_overrides:
  assumes "baseline_wf bl" and "baseline_wf u"
  shows "baseline_wf (merge_settled bl u) \<and>
    baseline_lookup (merge_settled bl u) p =
      (case baseline_lookup u p of
         Some i \<Rightarrow> Some i
       | None \<Rightarrow> if same_scope bl u then baseline_lookup bl p else None) \<and>
    bl_metadata (merge_settled bl u) = bl_metadata u"
  using assms
  by (simp add: merge_settled_wf)
    (simp add: merge_settled_merged baseline_lookup_def merged_items_find find_append find_rev_distinct
      baseline_wf_def split: option.splits)

theorem merge_settled_overrides_witness:
  "let state = \<lparr>bs_type = Directory, bs_size = 0, bs_modified = None, bs_readonly = False,
         bs_executable = None, bs_symlink_target = None, bs_fingerprint = None\<rparr>;
       item = (\<lambda>p. \<lparr>bi_path = [Normal p], bi_peer_a = Some state, bi_peer_b = Some state\<rparr>);
       bl = (\<lambda>is. \<lparr>bl_profile_name = ''p'', bl_peer_a_name = ''a'', bl_peer_a_root = [RootDir],
         bl_peer_b_name = ''b'', bl_peer_b_root = [RootDir],
         bl_metadata = default_metadata_requirements, bl_items = is\<rparr>) in
   baseline_lookup (merge_settled (bl [item ''x'', item ''y'']) (bl [item ''y'', item ''z''])) [Normal ''x'']
     = Some (item ''x'')"
proof -
  define state where "state = \<lparr>bs_type = Directory, bs_size = 0, bs_modified = None, bs_readonly = False,
         bs_executable = None, bs_symlink_target = None, bs_fingerprint = None\<rparr>"
  define item where "item p = \<lparr>bi_path = [Normal p], bi_peer_a = Some state, bi_peer_b = Some state\<rparr>" for p
  define bl where "bl is = \<lparr>bl_profile_name = ''p'', bl_peer_a_name = ''a'', bl_peer_a_root = [RootDir],
         bl_peer_b_name = ''b'', bl_peer_b_root = [RootDir],
         bl_metadata = default_metadata_requirements, bl_items = is\<rparr>" for "is"
  have wf: "baseline_wf (bl [item ''x'', item ''y''])" "baseline_wf (bl [item ''y'', item ''z''])"
    by (simp_all add: baseline_wf_def bl_def item_def) (code_simp)+
  have "baseline_lookup (merge_settled (bl [item ''x'', item ''y'']) (bl [item ''y'', item ''z''])) [Normal ''x'']
     = Some (item ''x'')"
    using merge_settled_overrides[OF wf, of "[Normal ''x'']"]
    by (simp add: baseline_lookup_def bl_def item_def same_scope_def)
  then show ?thesis by (simp add: Let_def bl_def item_def state_def)
qed

end
