(* ===== verification/MirrorDeletion.thy ===== *)
theory MirrorDeletion
  imports Baseline Decisions
begin

text \<open>
  Mirror deletions (\<open>mirror_deletion.rs\<close>): the candidates a baseline gives, the decisions
  on them, the confirmed plan and the results of its actions.
\<close>

datatype mirror_deletion_choice = DeleteCounterpart | PreserveRemaining | DeferDeletion

record mirror_deletion_decision =
  dd_path :: path
  dd_choice :: mirror_deletion_choice

record mirror_deletion_evidence =
  de_missing :: baseline_state
  de_remaining :: baseline_state
  de_current :: baseline_state

record mirror_deletion_candidate =
  dc_path :: path
  dc_missing :: peer_side
  dc_affected :: peer_side
  dc_evidence :: mirror_deletion_evidence

datatype mirror_deletion_error =
    MissingDeletionDecision path
  | UnknownCandidate path
  | DuplicateDeletionDecision path
  | FinalDeletionConfirmationRequired

subsection \<open>Candidates\<close>

definition candidate_sides ::
  "metadata_requirements \<Rightarrow> baseline_state \<Rightarrow> baseline_state
    \<Rightarrow> snapshot_item option \<Rightarrow> snapshot_item option
    \<Rightarrow> (peer_side \<times> peer_side \<times> mirror_deletion_evidence) option" where
  "candidate_sides req base_a base_b cur_a cur_b =
     (case (cur_a, cur_b) of
        (None, Some i) \<Rightarrow>
          if sn_outcome i = Included \<and> state_equal_inventory req base_b i
          then Some (PeerA, PeerB,
            \<lparr>de_missing = base_a, de_remaining = base_b, de_current = state_of_snapshot i\<rparr>)
          else None
      | (Some i, None) \<Rightarrow>
          if sn_outcome i = Included \<and> state_equal_inventory req base_a i
          then Some (PeerB, PeerA,
            \<lparr>de_missing = base_b, de_remaining = base_a, de_current = state_of_snapshot i\<rparr>)
          else None
      | _ \<Rightarrow> None)"

definition deletion_candidate ::
  "metadata_requirements \<Rightarrow> (path \<times> snapshot_item) list \<Rightarrow> (path \<times> snapshot_item) list
    \<Rightarrow> baseline_item \<Rightarrow> mirror_deletion_candidate option" where
  "deletion_candidate req current_a current_b item =
     (case (bi_peer_a item, bi_peer_b item) of
        (Some base_a, Some base_b) \<Rightarrow>
          if \<not> state_equal req base_a base_b then None
          else
            map_option (\<lambda>(missing, affected, evidence).
                \<lparr>dc_path = bi_path item, dc_missing = missing, dc_affected = affected,
                 dc_evidence = evidence\<rparr>)
              (candidate_sides req base_a base_b (btree_get current_a (bi_path item))
                 (btree_get current_b (bi_path item)))
      | _ \<Rightarrow> None)"

definition deletion_candidates ::
  "sync_baseline \<Rightarrow> inventory_snapshot \<Rightarrow> inventory_snapshot \<Rightarrow> mirror_deletion_candidate list" where
  "deletion_candidates bl a b =
     List.map_filter
       (deletion_candidate (bl_metadata bl) (current_map (snap_items a)) (current_map (snap_items b)))
       (bl_items bl)"

subsection \<open>Decisions\<close>

record mirror_deletion_action =
  da_candidate :: mirror_deletion_candidate
  da_choice :: mirror_deletion_choice

abbreviation da_path :: "mirror_deletion_action \<Rightarrow> path" where
  "da_path a \<equiv> dc_path (da_candidate a)"

definition candidate_for ::
  "mirror_deletion_candidate list \<Rightarrow> path \<Rightarrow> mirror_deletion_candidate option" where
  "candidate_for cs p = List.find (\<lambda>c. dc_path c = p) cs"

text \<open>\<open>expect\<close> cannot fail where it is reached: the path is one of the candidates' paths.\<close>

definition deletion_action ::
  "mirror_deletion_candidate list \<Rightarrow> mirror_deletion_decision \<Rightarrow> mirror_deletion_action" where
  "deletion_action cs d = \<lparr>da_candidate = the (candidate_for cs (dd_path d)), da_choice = dd_choice d\<rparr>"

fun deletion_loop ::
  "mirror_deletion_candidate list \<Rightarrow> mirror_deletion_decision list \<Rightarrow> path list
    \<Rightarrow> mirror_deletion_action list
    \<Rightarrow> mirror_deletion_error + path list \<times> mirror_deletion_action list" where
  "deletion_loop cs [] seen acts = Ok (seen, acts)"
| "deletion_loop cs (d # ds) seen acts =
     (if dd_path d \<notin> set (map dc_path cs) then Err (UnknownCandidate (dd_path d))
      else if dd_path d \<in> set seen then Err (DuplicateDeletionDecision (dd_path d))
      else deletion_loop cs ds (dd_path d # seen) (acts @ [deletion_action cs d]))"

definition resolve_deletions ::
  "mirror_deletion_candidate list \<Rightarrow> mirror_deletion_decision list
    \<Rightarrow> mirror_deletion_error + mirror_deletion_action list" where
  "resolve_deletions cs ds =
     result_bind (deletion_loop cs ds [] []) (\<lambda>(seen, acts).
       case first_missing (map dc_path cs) seen of
         Some p \<Rightarrow> Err (MissingDeletionDecision p)
       | None \<Rightarrow> Ok (sort_by da_path acts))"

datatype confirmed_deletion_plan =
  ConfirmedDeletionPlan (confirmed_deletions: "mirror_deletion_action list")

definition confirm_deletions ::
  "mirror_deletion_action list \<Rightarrow> bool \<Rightarrow> mirror_deletion_error + confirmed_deletion_plan" where
  "confirm_deletions acts final =
     (if \<not> final then Err FinalDeletionConfirmationRequired else Ok (ConfirmedDeletionPlan acts))"

definition deletion_mutates_files :: "mirror_deletion_action \<Rightarrow> bool" where
  "deletion_mutates_files a = (da_choice a = DeleteCounterpart)"

definition deletion_actions :: "confirmed_deletion_plan \<Rightarrow> mirror_deletion_action list" where
  "deletion_actions c = filter deletion_mutates_files (confirmed_deletions c)"

definition deletions_require_review :: "confirmed_deletion_plan \<Rightarrow> bool" where
  "deletions_require_review c = list_ex (\<lambda>a. \<not> deletion_mutates_files a) (confirmed_deletions c)"

subsection \<open>Results\<close>

datatype mirror_deletion_outcome = DeletionCompleted | FailedPreserved | DeletionDeferred

record mirror_deletion_result =
  dr_path :: path
  dr_affected :: peer_side
  dr_outcome :: mirror_deletion_outcome
  dr_preserves :: bool
  dr_restored :: bool

definition deletion_requires_review :: "mirror_deletion_result \<Rightarrow> bool" where
  "deletion_requires_review r = (\<not> dr_restored r)"

definition failed_preserving_remaining :: "mirror_deletion_action \<Rightarrow> mirror_deletion_result" where
  "failed_preserving_remaining a =
     \<lparr>dr_path = da_path a, dr_affected = dc_affected (da_candidate a), dr_outcome = FailedPreserved,
      dr_preserves = True, dr_restored = False\<rparr>"

definition deletion_completed :: "mirror_deletion_action \<Rightarrow> mirror_deletion_result" where
  "deletion_completed a =
     (if \<not> deletion_mutates_files a
      then \<lparr>dr_path = da_path a, dr_affected = dc_affected (da_candidate a),
            dr_outcome = DeletionDeferred, dr_preserves = True, dr_restored = False\<rparr>
      else \<lparr>dr_path = da_path a, dr_affected = dc_affected (da_candidate a),
            dr_outcome = DeletionCompleted, dr_preserves = False, dr_restored = True\<rparr>)"

subsection \<open>The decisions\<close>

interpretation del: decision_loop "deletion_loop cs" dd_path "deletion_action cs"
    "\<lambda>d. if dd_path d \<notin> set (map dc_path cs) then Some (UnknownCandidate (dd_path d)) else None"
    "\<lambda>d. DuplicateDeletionDecision (dd_path d)" for cs
  by unfold_locales simp_all

lemma candidate_for_Some: "candidate_for cs p = Some c \<Longrightarrow> c \<in> set cs \<and> dc_path c = p"
  by (auto simp: candidate_for_def dest: find_Some_D)

lemma candidate_for_defined: "p \<in> dc_path ` set cs \<Longrightarrow> \<exists>c. candidate_for cs p = Some c"
  by (cases "candidate_for cs p") (auto simp: candidate_for_def find_None_iff)

lemma deletion_action_candidate:
  "dd_path d \<in> dc_path ` set cs \<Longrightarrow>
     da_candidate (deletion_action cs d) \<in> set cs \<and> da_path (deletion_action cs d) = dd_path d"
  using candidate_for_defined[of "dd_path d" cs] by (auto simp: deletion_action_def dest: candidate_for_Some)

lemma resolve_deletions_Ok:
  "resolve_deletions cs ds = Ok acts \<longleftrightarrow>
     dd_path ` set ds = dc_path ` set cs \<and> distinct (map dd_path ds) \<and>
     acts = sort_by da_path (map (deletion_action cs) ds)"
proof -
  have loop: "deletion_loop cs ds [] [] = Ok x \<longleftrightarrow>
      dd_path ` set ds \<subseteq> dc_path ` set cs \<and> distinct (map dd_path ds) \<and>
      x = (rev (map dd_path ds), map (deletion_action cs) ds)" for x
    by (cases x) (auto simp: del.loop_Ok_iff split: if_splits)
  show ?thesis
  proof (cases "deletion_loop cs ds [] []")
    case (Inl e)
    with loop[of "(rev (map dd_path ds), map (deletion_action cs) ds)"]
    show ?thesis by (auto simp: resolve_deletions_def)
  next
    case (Inr x)
    with loop[of x] show ?thesis
      by (auto simp: resolve_deletions_def split: option.splits dest: first_missing_Some)
  qed
qed

subsection \<open>The candidates\<close>

lemma candidate_sides_Some:
  "candidate_sides req base_a base_b cur_a cur_b = Some (missing, affected, v) \<longleftrightarrow>
     (\<exists>i. (missing = PeerA \<and> affected = PeerB \<and> cur_a = None \<and> cur_b = Some i \<and>
            sn_outcome i = Included \<and> state_equal_inventory req base_b i \<and>
            v = \<lparr>de_missing = base_a, de_remaining = base_b, de_current = state_of_snapshot i\<rparr>) \<or>
          (missing = PeerB \<and> affected = PeerA \<and> cur_a = Some i \<and> cur_b = None \<and>
            sn_outcome i = Included \<and> state_equal_inventory req base_a i \<and>
            v = \<lparr>de_missing = base_b, de_remaining = base_a, de_current = state_of_snapshot i\<rparr>))"
  by (auto simp: candidate_sides_def split: option.splits)

text \<open>What an inventory says of a path: nothing, or an included item equal to the baseline.\<close>

definition lacks :: "inventory_snapshot \<Rightarrow> path \<Rightarrow> bool" where
  "lacks s p = (p \<notin> sn_path ` set (snap_items s))"

definition unchanged_since :: "metadata_requirements \<Rightarrow> baseline_state \<Rightarrow> inventory_snapshot \<Rightarrow> path \<Rightarrow> bool" where
  "unchanged_since req base s p =
     (\<exists>i \<in> set (snap_items s). sn_path i = p \<and> sn_outcome i = Included \<and>
        state_equal req base (state_of_snapshot i))"

lemma current_map_None: "btree_get (current_map (snap_items s)) p = None \<longleftrightarrow> lacks s p"
  by (auto simp: current_map_get find_None_iff lacks_def)

lemma current_map_Some:
  "btree_get (current_map (snap_items s)) p = Some i \<Longrightarrow> i \<in> set (snap_items s) \<and> sn_path i = p"
  by (auto simp: current_map_get dest: find_Some_D)

lemma current_map_distinct:
  "distinct (map sn_path (snap_items s)) \<Longrightarrow> btree_get (current_map (snap_items s)) p = snap_item s p"
  by (simp add: current_map_get find_rev_distinct snap_item_def)

lemma deletion_candidate_Some:
  "deletion_candidate req cur_a cur_b item = Some c \<longleftrightarrow>
     (\<exists>base_a base_b. bi_peer_a item = Some base_a \<and> bi_peer_b item = Some base_b \<and>
        state_equal req base_a base_b \<and> dc_path c = bi_path item \<and>
        candidate_sides req base_a base_b (btree_get cur_a (bi_path item)) (btree_get cur_b (bi_path item)) =
          Some (dc_missing c, dc_affected c, dc_evidence c))"
  by (cases c) (auto simp: deletion_candidate_def split: option.splits)

text \<open>One peer of a candidate lacks the path, the other holds what the baseline recorded.\<close>

definition proved_candidate ::
  "sync_baseline \<Rightarrow> inventory_snapshot \<Rightarrow> inventory_snapshot \<Rightarrow> mirror_deletion_candidate \<Rightarrow> bool" where
  "proved_candidate bl a b c =
     (\<exists>item \<in> set (bl_items bl). \<exists>base_a base_b.
        bi_path item = dc_path c \<and> bi_peer_a item = Some base_a \<and> bi_peer_b item = Some base_b \<and>
        state_equal (bl_metadata bl) base_a base_b \<and>
        (dc_missing c = PeerA \<and> dc_affected c = PeerB \<and> lacks a (dc_path c) \<and>
           unchanged_since (bl_metadata bl) base_b b (dc_path c) \<or>
         dc_missing c = PeerB \<and> dc_affected c = PeerA \<and> lacks b (dc_path c) \<and>
           unchanged_since (bl_metadata bl) base_a a (dc_path c)))"

lemma deletion_candidates_proved:
  assumes "c \<in> set (deletion_candidates bl a b)"
  shows "proved_candidate bl a b c"
proof -
  obtain item where item: "item \<in> set (bl_items bl)"
    "deletion_candidate (bl_metadata bl) (current_map (snap_items a)) (current_map (snap_items b)) item = Some c"
    using assms by (auto simp: deletion_candidates_def List.map_filter_def)
  then show ?thesis
    unfolding proved_candidate_def deletion_candidate_Some candidate_sides_Some current_map_None
      state_equal_inventory_def
    by (elim exE conjE disjE)
      (rule bexI[OF _ item(1)]; intro exI conjI; (assumption | simp); (assumption | simp |
        auto simp: unchanged_since_def dest: current_map_Some))+
qed

text \<open>Conversely, a path that one peer lost and the other kept is offered for review.\<close>

lemma proved_path_is_candidate:
  assumes "item \<in> set (bl_items bl)" "bi_peer_a item = Some base_a" "bi_peer_b item = Some base_b"
    and "state_equal (bl_metadata bl) base_a base_b"
    and "lacks a (bi_path item)" "distinct (map sn_path (snap_items b))"
    and "unchanged_since (bl_metadata bl) base_b b (bi_path item)"
  shows "\<exists>c \<in> set (deletion_candidates bl a b). dc_path c = bi_path item \<and> dc_affected c = PeerB"
proof -
  obtain i where i: "i \<in> set (snap_items b)" "sn_path i = bi_path item" "sn_outcome i = Included"
    "state_equal (bl_metadata bl) base_b (state_of_snapshot i)"
    using assms(7) by (auto simp: unchanged_since_def)
  have "snap_item b (bi_path item) = Some i"
    using snap.lookup_distinct[OF assms(6) i(1)] i(2) by simp
  then have get: "btree_get (current_map (snap_items b)) (bi_path item) = Some i"
    "btree_get (current_map (snap_items a)) (bi_path item) = None"
    using assms(5,6) by (simp_all add: current_map_None current_map_distinct)
  define c where "c = \<lparr>dc_path = bi_path item, dc_missing = PeerA, dc_affected = PeerB,
    dc_evidence = \<lparr>de_missing = base_a, de_remaining = base_b, de_current = state_of_snapshot i\<rparr>\<rparr>"
  have "deletion_candidate (bl_metadata bl) (current_map (snap_items a)) (current_map (snap_items b)) item
      = Some c"
    using assms(2-4) i(3,4) get
    by (simp add: deletion_candidate_def candidate_sides_def state_equal_inventory_def c_def)
  with assms(1) have "c \<in> set (deletion_candidates bl a b)"
    by (force simp: deletion_candidates_def List.map_filter_def)
  then show ?thesis by (rule bexI[rotated]) (simp add: c_def)
qed

subsection \<open>What a confirmed plan deletes\<close>

lemma sort_by_set [simp]: "set (sort_by f xs) = set xs"
  by (simp add: sort_by_def)

lemma confirm_deletions_Ok [simp]:
  "confirm_deletions acts final = Ok plan \<longleftrightarrow> final \<and> plan = ConfirmedDeletionPlan acts"
  by (auto simp: confirm_deletions_def)

lemma resolved_action:
  assumes "resolve_deletions cs ds = Ok acts" and "act \<in> set acts"
  shows "da_candidate act \<in> set cs \<and>
    (\<exists>d \<in> set ds. dd_path d = da_path act \<and> dd_choice d = da_choice act)"
proof -
  have acts: "act \<in> deletion_action cs ` set ds" "dd_path ` set ds = dc_path ` set cs"
    using assms by (simp_all add: resolve_deletions_Ok)
  then obtain d where d: "d \<in> set ds" "act = deletion_action cs d" "dd_path d \<in> dc_path ` set cs"
    by blast
  have "da_choice act = dd_choice d" by (simp add: d(2) deletion_action_def)
  with deletion_action_candidate[OF d(3)] d(1,2) show ?thesis by auto
qed

text \<open>C6: a confirmed plan deletes a path only when the user chose to delete it and confirmed
  the plan, the baseline holds the path as equal on both peers, one peer now lacks it and the
  peer it is deleted on still holds an included item equal to what the baseline recorded.\<close>

theorem confirmed_deletion_is_proved:
  assumes "resolve_deletions (deletion_candidates bl a b) ds = Ok acts"
    and "confirm_deletions acts final = Ok plan"
    and "act \<in> set (deletion_actions plan)"
  shows "final \<and> proved_candidate bl a b (da_candidate act) \<and>
    \<lparr>dd_path = da_path act, dd_choice = DeleteCounterpart\<rparr> \<in> set ds"
proof -
  have act: "final" "act \<in> set acts" "da_choice act = DeleteCounterpart"
    using assms(2,3) by (auto simp: deletion_actions_def deletion_mutates_files_def)
  from resolved_action[OF assms(1) act(2)] obtain d where
    d: "da_candidate act \<in> set (deletion_candidates bl a b)" "d \<in> set ds" "dd_path d = da_path act"
      "dd_choice d = DeleteCounterpart"
    using act(3) by auto
  then have "d = \<lparr>dd_path = da_path act, dd_choice = DeleteCounterpart\<rparr>" by (cases d) simp
  with d act(1) deletion_candidates_proved[OF d(1)] show ?thesis by simp
qed

subsection \<open>Results\<close>

lemma restored_iff_deletes:
  "deletion_requires_review (deletion_completed act) \<longleftrightarrow> \<not> deletion_mutates_files act"
  "dr_outcome (deletion_completed act) = DeletionCompleted \<longleftrightarrow> deletion_mutates_files act"
  "deletion_requires_review (failed_preserving_remaining act)"
  by (simp_all add: deletion_requires_review_def deletion_completed_def failed_preserving_remaining_def)

lemma unresolved_decision_requires_review:
  "deletions_require_review plan \<longleftrightarrow> deletion_actions plan \<noteq> confirmed_deletions plan"
  by (auto simp: deletions_require_review_def deletion_actions_def filter_id_conv list_ex_iff
      filter_empty_conv dest: filter_id_conv[THEN iffD1])

definition example_directory :: "string \<Rightarrow> snapshot_item" where
  "example_directory p = \<lparr>sn_path = [Normal p], sn_type = Directory, sn_outcome = Included, sn_size = 0,
     sn_modified = None, sn_readonly = False, sn_permissions = None, sn_symlink_target = None,
     sn_fingerprint = None\<rparr>"

definition example_snapshot :: "string \<Rightarrow> snapshot_item list \<Rightarrow> inventory_snapshot" where
  "example_snapshot name is = \<lparr>snap_peer_name = name, snap_root = [RootDir], snap_items = is\<rparr>"

definition example_baseline :: sync_baseline where
  "example_baseline = baseline_from_inventories ''p'' (example_snapshot ''a'' [example_directory ''x''])
     (example_snapshot ''b'' [example_directory ''x'']) default_metadata_requirements"

text \<open>Peer A lost the directory that both peers had; Peer B still has it.\<close>

lemma example_candidates:
  "deletion_candidates example_baseline (example_snapshot ''a'' []) (example_snapshot ''b'' [example_directory ''x'']) =
     [\<lparr>dc_path = [Normal ''x''], dc_missing = PeerA, dc_affected = PeerB,
       dc_evidence = \<lparr>de_missing = state_of_snapshot (example_directory ''x''),
         de_remaining = state_of_snapshot (example_directory ''x''),
         de_current = state_of_snapshot (example_directory ''x'')\<rparr>\<rparr>]"
  by code_simp

theorem confirmed_deletion_is_proved_witness:
  "let a = example_snapshot ''a'' []; b = example_snapshot ''b'' [example_directory ''x''];
       cs = deletion_candidates example_baseline a b;
       d = \<lparr>dd_path = [Normal ''x''], dd_choice = DeleteCounterpart\<rparr>;
       act = deletion_action cs d in
   deletion_actions (ConfirmedDeletionPlan [act]) = [act] \<and>
   proved_candidate example_baseline a b (da_candidate act)"
proof -
  let ?a = "example_snapshot ''a'' []" and ?b = "example_snapshot ''b'' [example_directory ''x'']"
  let ?cs = "deletion_candidates example_baseline ?a ?b"
  let ?d = "\<lparr>dd_path = [Normal ''x''], dd_choice = DeleteCounterpart\<rparr>"
  let ?act = "deletion_action ?cs ?d"
  have res: "resolve_deletions ?cs [?d] = Ok [?act]"
    by (simp add: resolve_deletions_Ok sort_by_def) (simp add: example_candidates)
  have del: "deletion_actions (ConfirmedDeletionPlan [?act]) = [?act]"
    by (simp add: deletion_actions_def deletion_mutates_files_def deletion_action_def)
  show ?thesis
    using confirmed_deletion_is_proved[OF res, of True "ConfirmedDeletionPlan [?act]" ?act] del
    by (simp add: Let_def)
qed

end
