(* ===== verification/Reconciliation.thy ===== *)
theory Reconciliation
  imports MirrorDeletion
begin

text \<open>
  Completion Reconciliation (\<open>reconciliation.rs\<close>): after a run, the frozen inventories are
  compared with a fresh analysis and with the journal, and every path without a proved, settled
  result becomes a finding.
\<close>

subsection \<open>Matching\<close>

definition source_matches_snapshot ::
  "sync_profile \<Rightarrow> snapshot_item \<Rightarrow> inventory_item \<Rightarrow> bool" where
  "source_matches_snapshot profile expected current =
     (if sn_type expected \<noteq> it_type current \<or> sn_outcome expected \<noteq> it_outcome current \<or>
         sn_size expected \<noteq> md_size (it_metadata current) \<or>
         sn_readonly expected \<noteq> md_readonly (it_metadata current) \<or>
         sn_executable_permissions expected \<noteq> md_executable_permissions (it_metadata current) \<or>
         sn_symlink_target expected \<noteq> md_symlink_target (it_metadata current) \<or>
         sn_fingerprint expected \<noteq> it_fingerprint current
      then False
      else if req_timestamps (opt_metadata (prof_options profile))
      then sn_modified expected = unix_nanos (md_modified_at (it_metadata current))
      else True)"

definition mirror_item_matches :: "sync_profile \<Rightarrow> snapshot_item \<Rightarrow> inventory_item \<Rightarrow> bool" where
  "mirror_item_matches profile expected current =
     mirror_equal (opt_metadata (prof_options profile)) expected (snapshot_of_item current)"

definition removal_evidence_matches :: "snapshot_item \<Rightarrow> recovery_evidence \<Rightarrow> bool" where
  "removal_evidence_matches expected v =
     (re_destination_present v \<and> re_destination_size v = Some (sn_size expected) \<and>
      is_none_or (\<lambda>h. re_destination_sha256 v = Some h) (sn_fingerprint expected))"

definition failure_reason :: "action_reason \<Rightarrow> reconciliation_reason" where
  "failure_reason r = (if r = DestinationUnavailable then RUnavailable else RFailed r)"

fun outcome_reason :: "action_outcome \<Rightarrow> reconciliation_reason option" where
  "outcome_reason (ActFailed r) = Some (failure_reason r)"
| "outcome_reason (ActUnresolved r) = Some (failure_reason r)"
| "outcome_reason (ActRecoveryReview _) = Some RUnverifiable"
| "outcome_reason ActCancelled = Some RUnverifiable"
| "outcome_reason ActInterrupted = Some RUnverifiable"
| "outcome_reason ActDeferred = Some RUnverifiable"
| "outcome_reason ActInProgress = Some RUnverifiable"
| "outcome_reason ActCompleted = None"

fun journal_reason :: "action_journal_entry list \<Rightarrow> reconciliation_reason option" where
  "journal_reason [] = None"
| "journal_reason (e # es) =
     (case outcome_reason (je_outcome e) of Some r \<Rightarrow> Some r | None \<Rightarrow> journal_reason es)"

definition path_journal :: "action_journal_entry list \<Rightarrow> path \<Rightarrow> action_journal_entry list" where
  "path_journal journal p = filter (\<lambda>e. je_path e = p) journal"

definition push_unique ::
  "reconciliation_finding list \<Rightarrow> path \<Rightarrow> reconciliation_reason \<Rightarrow> reconciliation_finding list" where
  "push_unique findings p r =
     (if list_ex (\<lambda>f. rf_path f = p \<and> rf_reason f = r) findings then findings
      else findings @ [\<lparr>rf_path = p, rf_reason = r\<rparr>])"

subsection \<open>One-Way runs\<close>

definition removal_verified :: "action_journal_entry list \<Rightarrow> snapshot_item \<Rightarrow> bool" where
  "removal_verified entries expected =
     list_ex (\<lambda>e. je_operation e = RemoveSourceAfterVerification \<and> je_outcome e = ActCompleted \<and>
       is_some_and (\<lambda>r. removal_evidence_matches expected (rm_evidence r)) (je_removal e)) entries"

text \<open>What the loop reports for one frozen item, if anything.\<close>

definition expected_finding ::
  "sync_profile \<Rightarrow> fresh_analysis \<Rightarrow> action_journal_entry list \<Rightarrow> snapshot_item
    \<Rightarrow> reconciliation_reason option" where
  "expected_finding profile current journal expected =
     (let p = sn_path expected;
          source = inv_item (fa_source current) p;
          destination = inv_item (fa_destination current) p;
          entries = path_journal journal p;
          verified = is_some_and (mirror_item_matches profile expected) destination;
          removed = removal_verified entries expected;
          removal_required = (sn_type expected = RegularFile \<or> sn_type expected = Symlink) in
      if sn_outcome expected = Excluded then Some RExcluded
      else if sn_outcome expected = UnsupportedOutcome then Some RUnverifiable
      else if is_some_and (\<lambda>s. \<not> source_matches_snapshot profile expected s) source
      then Some RChanged
      else case journal_reason entries of
        Some r \<Rightarrow> Some r
      | None \<Rightarrow>
          if source = None \<and> \<not> removed
          then Some (if entries = [] then RUnexplained else RUnverifiable)
          else if opt_safe_delete (prof_options profile)
          then if removal_required \<and> source \<noteq> None \<or> \<not> verified \<or> removal_required \<and> \<not> removed
               then Some RUnverifiable else None
          else if source = None \<or> \<not> verified then Some RUnverifiable else None)"

definition report_finding ::
  "path \<times> reconciliation_reason option \<Rightarrow> reconciliation_finding list \<Rightarrow> reconciliation_finding list" where
  "report_finding x findings =
     (case snd x of None \<Rightarrow> findings | Some r \<Rightarrow> push_unique findings (fst x) r)"

definition appeared_finding :: "path list \<Rightarrow> inventory_item \<Rightarrow> reconciliation_reason option" where
  "appeared_finding expected i =
     (if it_path i \<in> set expected then None
      else Some (if it_outcome i = Excluded then RExcluded else RNewlyAppeared))"

definition cleanup_finding ::
  "path list \<Rightarrow> action_journal_entry list \<Rightarrow> inventory_item \<Rightarrow> reconciliation_reason option" where
  "cleanup_finding expected journal i =
     (if it_outcome i \<noteq> Included \<or> it_path i \<in> set expected then None
      else
        Some
          (if list_ex (\<lambda>e. je_path e = it_path i \<and> je_operation e = RemoveDestination \<and>
                je_outcome e = ActCompleted) journal
           then RUnverifiable
           else (case journal_reason (path_journal journal (it_path i)) of
                   Some r \<Rightarrow> r | None \<Rightarrow> RUnexplained)))"

definition one_way_reports ::
  "sync_profile \<Rightarrow> inventory_snapshot \<Rightarrow> fresh_analysis \<Rightarrow> action_journal_entry list
    \<Rightarrow> (path \<times> reconciliation_reason option) list" where
  "one_way_reports profile inventory current journal =
     (let expected = map sn_path (snap_items inventory) in
      map (\<lambda>i. (sn_path i, expected_finding profile current journal i)) (snap_items inventory) @
      map (\<lambda>i. (it_path i, appeared_finding expected i)) (inv_items (fa_source current)) @
      (if opt_destination_cleanup (prof_options profile)
       then map (\<lambda>i. (it_path i, cleanup_finding expected journal i)) (inv_items (fa_destination current))
       else []))"

definition reconcile ::
  "sync_profile \<Rightarrow> inventory_snapshot \<Rightarrow> fresh_analysis \<Rightarrow> action_journal_entry list
    \<Rightarrow> completion_reconciliation" where
  "reconcile profile inventory current journal =
     (let findings = fold report_finding (one_way_reports profile inventory current journal) [] in
      \<lparr>cr_drain = (if opt_safe_delete (prof_options profile)
                   then if findings = [] then Drained else NotEmpty
                   else NotApplicable),
       cr_findings = findings\<rparr>)"

subsection \<open>Mirror runs\<close>

definition reviewed_resolution ::
  "conflict_resolution_action list \<Rightarrow> path \<Rightarrow> conflict_resolution option" where
  "reviewed_resolution resolutions p =
     map_option ra_resolution (List.find (\<lambda>a. ra_path a = p) resolutions)"

definition deletion_approved :: "mirror_deletion_result list \<Rightarrow> path \<Rightarrow> bool" where
  "deletion_approved deletions p =
     list_ex (\<lambda>d. dr_path d = p \<and> dr_outcome d = DeletionCompleted \<and> \<not> deletion_requires_review d)
       deletions"

definition outcome_is :: "analysis_outcome \<Rightarrow> snapshot_item option \<Rightarrow> bool" where
  "outcome_is out i = is_some_and (\<lambda>s. sn_outcome s = out) i"

definition pair_finding ::
  "sync_profile \<Rightarrow> snapshot_item option \<Rightarrow> snapshot_item option \<Rightarrow> inventory_item option
    \<Rightarrow> inventory_item option \<Rightarrow> reconciliation_reason option" where
  "pair_finding profile expected_a expected_b current_a current_b =
     (case (expected_a, expected_b) of
        (Some ea, Some eb) \<Rightarrow>
          if \<not> (is_some_and (mirror_item_matches profile ea) current_a \<and>
                is_some_and (mirror_item_matches profile eb) current_b) \<or>
             \<not> mirror_equal (opt_metadata (prof_options profile)) ea eb
          then Some RChanged else None
      | (Some ea, None) \<Rightarrow>
          if \<not> is_some_and (mirror_item_matches profile ea) current_a \<or>
             \<not> is_some_and (mirror_item_matches profile ea) current_b
          then Some RUnverifiable else None
      | (None, Some eb) \<Rightarrow>
          if \<not> is_some_and (mirror_item_matches profile eb) current_b \<or>
             \<not> is_some_and (mirror_item_matches profile eb) current_a
          then Some RUnverifiable else None
      | (None, None) \<Rightarrow> None)"

definition mirror_finding ::
  "sync_profile \<Rightarrow> inventory_snapshot \<Rightarrow> inventory_snapshot \<Rightarrow> fresh_analysis
    \<Rightarrow> action_journal_entry list \<Rightarrow> conflict_resolution_action list
    \<Rightarrow> mirror_deletion_result list \<Rightarrow> path \<Rightarrow> reconciliation_reason option" where
  "mirror_finding profile a b current journal resolutions deletions p =
     (let expected_a = (if reviewed_resolution resolutions p = Some KeepPeerB
                        then snap_item b p else snap_item a p);
          expected_b = (if reviewed_resolution resolutions p = Some KeepPeerA
                        then snap_item a p else snap_item b p);
          current_a = inv_item (fa_source current) p;
          current_b = inv_item (fa_destination current) p in
      if deletion_approved deletions p
      then if current_a \<noteq> None \<or> current_b \<noteq> None then Some RChanged else None
      else if outcome_is Excluded expected_a \<or> outcome_is Excluded expected_b then Some RExcluded
      else if outcome_is UnsupportedOutcome expected_a \<or> outcome_is UnsupportedOutcome expected_b
      then Some RUnverifiable
      else case journal_reason (path_journal journal p) of
        Some r \<Rightarrow> Some r
      | None \<Rightarrow> pair_finding profile expected_a expected_b current_a current_b)"

definition mirror_expected_paths :: "inventory_snapshot \<Rightarrow> inventory_snapshot \<Rightarrow> path list" where
  "mirror_expected_paths a b = btree_set (map sn_path (snap_items a) @ map sn_path (snap_items b))"

definition reconcile_mirror_full ::
  "sync_profile \<Rightarrow> inventory_snapshot \<Rightarrow> inventory_snapshot \<Rightarrow> fresh_analysis
    \<Rightarrow> action_journal_entry list \<Rightarrow> conflict_resolution_action list
    \<Rightarrow> mirror_deletion_result list \<Rightarrow> completion_reconciliation" where
  "reconcile_mirror_full profile a b current journal resolutions deletions =
     (let expected = mirror_expected_paths a b in
      \<lparr>cr_drain = NotApplicable,
       cr_findings = fold report_finding
         (map (\<lambda>p. (p, mirror_finding profile a b current journal resolutions deletions p)) expected @
          map (\<lambda>i. (it_path i, appeared_finding expected i))
            (inv_items (fa_source current) @ inv_items (fa_destination current))) []\<rparr>)"

definition reconcile_mirror_with_resolutions ::
  "sync_profile \<Rightarrow> inventory_snapshot \<Rightarrow> inventory_snapshot \<Rightarrow> fresh_analysis
    \<Rightarrow> action_journal_entry list \<Rightarrow> conflict_resolution_action list \<Rightarrow> completion_reconciliation" where
  "reconcile_mirror_with_resolutions profile a b current journal resolutions =
     reconcile_mirror_full profile a b current journal resolutions []"

definition reconcile_mirror ::
  "sync_profile \<Rightarrow> inventory_snapshot \<Rightarrow> inventory_snapshot \<Rightarrow> fresh_analysis
    \<Rightarrow> action_journal_entry list \<Rightarrow> completion_reconciliation" where
  "reconcile_mirror profile a b current journal =
     reconcile_mirror_with_resolutions profile a b current journal []"

definition reconcile_mirror_with_deletions ::
  "sync_profile \<Rightarrow> inventory_snapshot \<Rightarrow> inventory_snapshot \<Rightarrow> fresh_analysis
    \<Rightarrow> action_journal_entry list \<Rightarrow> mirror_deletion_result list \<Rightarrow> completion_reconciliation" where
  "reconcile_mirror_with_deletions profile a b current journal deletions =
     reconcile_mirror_full profile a b current journal [] deletions"

subsection \<open>An analysis that failed\<close>

definition analysis_error_path :: "sync_profile \<Rightarrow> analysis_error \<Rightarrow> path option" where
  "analysis_error_path profile err =
     (let under = (\<lambda>nm p.
            Some (if is_absolute p then p
                  else join (peer_root (if peer_label (peer_a profile) = nm
                                        then peer_a profile else peer_b profile)) p)) in
      case err of
        RootUnavailable _ p \<Rightarrow> Some p
      | RootNotDirectory _ p \<Rightarrow> Some p
      | ReadDirectory peer p \<Rightarrow> under peer p
      | ReadMetadata peer p \<Rightarrow> under peer p
      | ReadFileContents peer p \<Rightarrow> under peer p
      | _ \<Rightarrow> Some (peer_root (selected_destination profile)))"

definition reconcile_unavailable ::
  "sync_profile \<Rightarrow> inventory_snapshot \<Rightarrow> action_journal_entry list \<Rightarrow> analysis_error
    \<Rightarrow> completion_reconciliation" where
  "reconcile_unavailable profile inventory journal err =
     (let affected = (case analysis_error_path profile err of
                        Some p \<Rightarrow> p | None \<Rightarrow> snap_root inventory) in
      \<lparr>cr_drain = (if opt_safe_delete (prof_options profile) then NotEmpty else NotApplicable),
       cr_findings = fold report_finding
         (map (\<lambda>e. (je_path e, journal_reason [e])) journal)
         (push_unique [] affected RUnavailable)\<rparr>)"

subsection \<open>Findings\<close>

lemma fold_report_Nil:
  "fold report_finding xs fs = [] \<longleftrightarrow> fs = [] \<and> (\<forall>x \<in> set xs. snd x = None)"
proof (induction xs arbitrary: fs)
  case (Cons x xs)
  then show ?case by (auto simp: report_finding_def push_unique_def split: option.splits)
qed simp

lemma finding_eq: "(f :: reconciliation_finding) = g \<longleftrightarrow> rf_path f = rf_path g \<and> rf_reason f = rf_reason g"
  by (cases f; cases g) simp

lemma set_fold_report:
  "set (fold report_finding xs fs) =
     set fs \<union> {f. \<exists>r. (rf_path f, Some r) \<in> set xs \<and> rf_reason f = r}"
proof (induction xs arbitrary: fs)
  case (Cons x xs)
  have "set (report_finding x fs) = set fs \<union> {f. x = (rf_path f, Some (rf_reason f))}"
  proof (cases x)
    case (Pair p out)
    show ?thesis
    proof (cases out)
      case (Some r)
      have "{f. x = (rf_path f, Some (rf_reason f))} = {\<lparr>rf_path = p, rf_reason = r\<rparr>}"
        by (auto simp: Pair Some finding_eq)
      moreover have "(\<exists>f \<in> set fs. rf_path f = p \<and> rf_reason f = r) \<longleftrightarrow> \<lparr>rf_path = p, rf_reason = r\<rparr> \<in> set fs"
        by (auto simp: finding_eq Bex_def) (metis finding_eq reconciliation_finding.select_convs(1,2))
      ultimately show ?thesis
        by (auto simp: Pair Some report_finding_def push_unique_def list_ex_iff)
    qed (simp add: Pair report_finding_def)
  qed
  with Cons show ?case by auto
qed simp

lemma distinct_fold_report: "distinct fs \<Longrightarrow> distinct (fold report_finding xs fs)"
proof (induction xs arbitrary: fs)
  case (Cons x xs)
  have "distinct (report_finding x fs)" if "distinct fs"
    using that by (auto simp: report_finding_def push_unique_def list_ex_iff split: option.splits)
  with Cons show ?case by simp
qed simp

lemma cr_findings_reconcile:
  "cr_findings (reconcile profile inventory current journal) =
     fold report_finding (one_way_reports profile inventory current journal) []"
  by (simp add: reconcile_def Let_def)

lemma reconcile_Drained:
  "cr_drain (reconcile profile inventory current journal) = Drained \<longleftrightarrow>
     opt_safe_delete (prof_options profile) \<and>
     cr_findings (reconcile profile inventory current journal) = []"
  by (simp add: reconcile_def Let_def)

lemma journal_reason_None:
  "journal_reason es = None \<longleftrightarrow> (\<forall>e \<in> set es. je_outcome e = ActCompleted)"
proof (induction es)
  case (Cons e es)
  then show ?case by (cases "je_outcome e") auto
qed simp

lemma removal_verified_iff:
  "removal_verified entries i \<longleftrightarrow>
     (\<exists>e r. e \<in> set entries \<and> je_operation e = RemoveSourceAfterVerification \<and>
        je_outcome e = ActCompleted \<and> je_removal e = Some r \<and> removal_evidence_matches i (rm_evidence r))"
  by (auto simp: removal_verified_def list_ex_iff is_some_and_def split: option.splits)

subsection \<open>A drained source\<close>

lemma expected_finding_None:
  "expected_finding profile current journal i = None \<longleftrightarrow>
     (sn_outcome i \<noteq> Excluded \<and> sn_outcome i \<noteq> UnsupportedOutcome \<and>
      \<not> is_some_and (\<lambda>s. \<not> source_matches_snapshot profile i s) (inv_item (fa_source current) (sn_path i)) \<and>
      journal_reason (path_journal journal (sn_path i)) = None \<and>
      (inv_item (fa_source current) (sn_path i) = None \<longrightarrow> removal_verified (path_journal journal (sn_path i)) i) \<and>
      is_some_and (mirror_item_matches profile i) (inv_item (fa_destination current) (sn_path i)) \<and>
      (if opt_safe_delete (prof_options profile)
       then sn_type i = RegularFile \<or> sn_type i = Symlink \<longrightarrow>
         inv_item (fa_source current) (sn_path i) = None \<and> removal_verified (path_journal journal (sn_path i)) i
       else inv_item (fa_source current) (sn_path i) \<noteq> None))"
  by (auto simp: expected_finding_def Let_def split: option.splits)

lemma appeared_finding_None: "appeared_finding ps i = None \<longleftrightarrow> it_path i \<in> set ps"
  by (simp add: appeared_finding_def)

lemma no_one_way_findings:
  assumes "cr_findings (reconcile profile inventory current journal) = []"
  shows "i \<in> set (snap_items inventory) \<Longrightarrow> expected_finding profile current journal i = None"
    and "s \<in> set (inv_items (fa_source current)) \<Longrightarrow> it_path s \<in> sn_path ` set (snap_items inventory)"
  using assms
  by (auto simp: cr_findings_reconcile fold_report_Nil one_way_reports_def Let_def appeared_finding_None
      ball_Un)

text \<open>A completed removal of the item, with evidence of an equal copy at the destination.\<close>

definition removal_proved :: "action_journal_entry list \<Rightarrow> snapshot_item \<Rightarrow> bool" where
  "removal_proved journal i =
     (\<exists>e \<in> set journal. \<exists>r. je_path e = sn_path i \<and> je_operation e = RemoveSourceAfterVerification \<and>
        je_outcome e = ActCompleted \<and> je_removal e = Some r \<and> removal_evidence_matches i (rm_evidence r))"

lemma removal_verified_proved: "removal_verified (path_journal journal (sn_path i)) i = removal_proved journal i"
  by (auto simp: removal_verified_iff removal_proved_def path_journal_def)

definition must_leave :: "item_type \<Rightarrow> bool" where
  "must_leave t = (t = RegularFile \<or> t = Symlink)"

definition copied_and_removed ::
  "sync_profile \<Rightarrow> fresh_analysis \<Rightarrow> action_journal_entry list \<Rightarrow> snapshot_item \<Rightarrow> bool" where
  "copied_and_removed profile current journal i =
     (is_some_and (mirror_item_matches profile i) (inv_item (fa_destination current) (sn_path i)) \<and>
      (must_leave (sn_type i) \<longrightarrow>
         inv_item (fa_source current) (sn_path i) = None \<and> removal_proved journal i))"

text \<open>C7: a run is reported as drained only when no regular file and no symbolic link is left at
  the source, every frozen item has an equal item at the destination, and every frozen file
  and link was removed by a completed removal whose evidence matches the item.\<close>

theorem drained_is_proved:
  assumes "cr_drain (reconcile profile inventory current journal) = Drained"
    and "distinct (map it_path (inv_items (fa_source current)))"
  shows "list_all (\<lambda>s. \<not> must_leave (it_type s)) (inv_items (fa_source current)) \<and>
    list_all (copied_and_removed profile current journal) (snap_items inventory)"
proof (intro conjI, unfold list_all_iff, safe)
  have safe: "opt_safe_delete (prof_options profile)"
    and none: "cr_findings (reconcile profile inventory current journal) = []"
    using assms(1) by (simp_all add: reconcile_Drained)
  show "copied_and_removed profile current journal i" if "i \<in> set (snap_items inventory)" for i
    using no_one_way_findings(1)[OF none that] safe
    by (simp add: expected_finding_None removal_verified_proved copied_and_removed_def must_leave_def)
  fix s assume s: "s \<in> set (inv_items (fa_source current))" and "must_leave (it_type s)"
  from no_one_way_findings(2)[OF none s] obtain i where
    i: "i \<in> set (snap_items inventory)" "sn_path i = it_path s" by auto
  have "inv_item (fa_source current) (sn_path i) = Some s"
    using inv.lookup_distinct[OF assms(2) s] i(2) by simp
  with no_one_way_findings(1)[OF none i(1)] safe have
    "source_matches_snapshot profile i s" "\<not> must_leave (sn_type i)"
    by (auto simp: expected_finding_None must_leave_def)
  then show False using \<open>must_leave (it_type s)\<close> by (simp add: source_matches_snapshot_def split: if_splits)
qed

subsection \<open>A settled Mirror run\<close>

definition keeps_known ::
  "inventory_snapshot \<Rightarrow> inventory_snapshot \<Rightarrow> conflict_resolution_action list \<Rightarrow> bool" where
  "keeps_known a b resolutions =
     list_all (\<lambda>r. ra_resolution r \<in> {KeepPeerA, KeepPeerB} \<longrightarrow>
       snap_item a (ra_path r) \<noteq> None \<and> snap_item b (ra_path r) \<noteq> None) resolutions"

text \<open>The Mirror invariant: at every path both peers hold nothing, or equal items.\<close>

definition mirror_invariant :: "metadata_requirements \<Rightarrow> fresh_analysis \<Rightarrow> path \<Rightarrow> bool" where
  "mirror_invariant req current p =
     (case (inv_item (fa_source current) p, inv_item (fa_destination current) p) of
        (None, None) \<Rightarrow> True
      | (Some x, Some y) \<Rightarrow> mirror_equal req (snapshot_of_item x) (snapshot_of_item y)
      | _ \<Rightarrow> False)"

lemma pair_finding_None:
  assumes "pair_finding profile ea eb (inv_item (fa_source current) p) (inv_item (fa_destination current) p) = None"
    and "ea \<noteq> None \<or> eb \<noteq> None"
  shows "mirror_invariant (opt_metadata (prof_options profile)) current p"
proof -
  let ?eq = "mirror_equal (opt_metadata (prof_options profile))"
  have join: "?eq x y" if "?eq e x" "?eq f y" "?eq e f" for e f x y
    using that mirror.eq_sym mirror.eq_trans by metis
  have self: "?eq x y" if "?eq e x" "?eq e y" for e x y
    using that mirror.eq_sym mirror.eq_trans by metis
  show ?thesis
    using assms
    by (auto simp: pair_finding_def mirror_invariant_def mirror_item_matches_def is_some_and_def
        intro: join self split: option.splits if_splits)
qed

lemma reviewed_resolution_Some:
  "reviewed_resolution resolutions p = Some r \<Longrightarrow>
     \<exists>x \<in> set resolutions. ra_path x = p \<and> ra_resolution x = r"
  by (auto simp: reviewed_resolution_def dest: find_Some_D)

lemma snap_item_None: "snap_item s p = None \<longleftrightarrow> p \<notin> sn_path ` set (snap_items s)"
  by (rule snap.lookup_None)

lemma mirror_finding_None:
  assumes "mirror_finding profile a b current journal resolutions deletions p = None"
    and "keeps_known a b resolutions"
    and "p \<in> set (mirror_expected_paths a b)"
  shows "mirror_invariant (opt_metadata (prof_options profile)) current p"
proof -
  define ea where "ea = (if reviewed_resolution resolutions p = Some KeepPeerB then snap_item b p else snap_item a p)"
  define eb where "eb = (if reviewed_resolution resolutions p = Some KeepPeerA then snap_item a p else snap_item b p)"
  have some: "snap_item a p \<noteq> None \<or> snap_item b p \<noteq> None"
    using assms(3) by (auto simp: mirror_expected_paths_def snap_item_None)
  have known: "snap_item a p \<noteq> None \<and> snap_item b p \<noteq> None"
    if "reviewed_resolution resolutions p = Some r" "r \<in> {KeepPeerA, KeepPeerB}" for r
    using reviewed_resolution_Some[OF that(1)] that(2) assms(2) by (auto simp: keeps_known_def list_all_iff)
  have ex: "ea \<noteq> None \<or> eb \<noteq> None"
    using some known[of KeepPeerA] known[of KeepPeerB] by (auto simp: ea_def eb_def)
  consider (gone) "deletion_approved deletions p"
      "inv_item (fa_source current) p = None" "inv_item (fa_destination current) p = None"
    | (pair) "pair_finding profile ea eb (inv_item (fa_source current) p)
        (inv_item (fa_destination current) p) = None"
    using assms(1)
    by (auto simp: mirror_finding_def Let_def ea_def eb_def split: if_splits option.splits)
  then show ?thesis
  proof cases
    case gone
    then show ?thesis by (simp add: mirror_invariant_def)
  next
    case pair
    then show ?thesis using ex by (rule pair_finding_None)
  qed
qed

lemma settled_mirror:
  assumes "cr_findings (reconcile_mirror_full profile a b current journal resolutions deletions) = []"
    and "keeps_known a b resolutions"
  shows "mirror_invariant (opt_metadata (prof_options profile)) current p"
proof (cases "p \<in> set (mirror_expected_paths a b)")
  case True
  with assms(1) have "mirror_finding profile a b current journal resolutions deletions p = None"
    by (auto simp: reconcile_mirror_full_def Let_def fold_report_Nil ball_Un)
  then show ?thesis using assms(2) True by (rule mirror_finding_None)
next
  case False
  with assms(1) have "inv_item (fa_source current) p = None" "inv_item (fa_destination current) p = None"
    unfolding inv.lookup_None
    by (auto simp: reconcile_mirror_full_def Let_def fold_report_Nil appeared_finding_None ball_Un)
  then show ?thesis by (simp add: mirror_invariant_def)
qed

definition example_fresh :: "source_inventory \<Rightarrow> source_inventory \<Rightarrow> fresh_analysis \<Rightarrow> fresh_analysis" where
  "example_fresh s d fa = fa\<lparr>fa_source := s, fa_destination := d\<rparr>"

definition example_safe_profile :: sync_profile where
  "example_safe_profile = example_profile\<lparr>prof_options := (prof_options example_profile)\<lparr>opt_safe_delete := True\<rparr>\<rparr>"

definition example_x :: inventory_item where
  "example_x =
     \<lparr>it_path = [Normal ''x''], it_type = RegularFile,
      it_metadata = \<lparr>md_size = 3, md_modified_at = None, md_readonly = False,
        md_permissions = None, md_symlink_target = None\<rparr>,
      it_outcome = Included, it_fingerprint = Some ''h''\<rparr>"

lemma example_x_snapshot: "snapshot_of_item example_x = example_snap_file ''x'' ''h''"
  by (simp add: snapshot_of_item_def example_x_def example_snap_file_def unix_nanos_def)

text \<open>A completed Safe Delete of the example file.\<close>

definition example_removed :: action_journal_entry where
  "example_removed =
     \<lparr>je_plan = \<lparr>pr_action = 0, pr_path = [Normal ''x''], pr_operation = RemoveSourceAfterVerification,
        pr_side = PeerA, pr_planned_bytes = Some 3,
        pr_pre = \<lparr>pre_type = RegularFile, pre_size = 3, pre_modified = None, pre_identity = None,
          pre_sha256 = Some ''h''\<rparr>\<rparr>,
      je_last_phase = ''completed'', je_started = True, je_progress = [], je_outcome = ActCompleted,
      je_transfer = None, je_proof = None,
      je_removal = Some \<lparr>rm_method = PermanentRemoval,
        rm_evidence = recovery_evidence_new 9 None False True False None (Some 3) None (Some ''h'')\<rparr>,
      je_recovery = None, je_resolution = None\<rparr>"

lemma example_self:
  "mirror_equal default_metadata_requirements (snapshot_of_item example_x) (snapshot_of_item example_x)"
  by (simp add: mirror_equal_def equal_parts_self example_x_snapshot)
    (simp add: example_snap_file_def snapshot_parts_def default_metadata_requirements_def
      metadata_requirements_new_def specialist_any_def no_specialist_metadata_def)

lemma example_metadata:
  "opt_metadata (prof_options example_profile) = default_metadata_requirements"
  "opt_metadata (prof_options example_safe_profile) = default_metadata_requirements"
  "opt_safe_delete (prof_options example_safe_profile)"
  "\<not> opt_destination_cleanup (prof_options example_safe_profile)"
  by (simp_all add: example_safe_profile_def example_profile_def sync_profile_new_def default_sync_options_def)

lemma example_sources:
  "inv_items (example_inventory n [example_x]) = [example_x]"
  "inv_items (example_inventory n []) = []"
  "inv_item (example_inventory n [example_x]) [Normal ''x''] = Some example_x"
  "inv_item (example_inventory n []) p = None"
  by (simp_all add: example_inventory_def inventory_from_items_def Let_def inv_item_def sort_by_def
      example_x_def)

theorem drained_is_proved_witness:
  "\<exists>current. inv_items (fa_source current) = [] \<and>
     copied_and_removed example_safe_profile current [example_removed] (snapshot_of_item example_x)"
proof -
  obtain fa :: fresh_analysis where True by blast
  let ?cur = "example_fresh (example_inventory ''a'' []) (example_inventory ''b'' [example_x]) fa"
  let ?inv = "snapshot_of_inventory (example_inventory ''a'' [example_x])"
  have items: "snap_items ?inv = [snapshot_of_item example_x]"
    by (simp add: snapshot_of_inventory_def example_sources)
  have x: "sn_path (snapshot_of_item example_x) = [Normal ''x'']" "sn_outcome (snapshot_of_item example_x) = Included"
    "sn_size (snapshot_of_item example_x) = 3" "sn_fingerprint (snapshot_of_item example_x) = Some ''h''"
    by (simp_all add: snapshot_of_item_def example_x_def)
  have removed: "removal_verified (path_journal [example_removed] [Normal ''x'']) (snapshot_of_item example_x)"
    by (simp add: removal_verified_def path_journal_def example_removed_def removal_evidence_matches_def
        recovery_evidence_new_def x is_none_or_def)
  have "expected_finding example_safe_profile ?cur [example_removed] (snapshot_of_item example_x) = None"
    using removed
    by (simp add: expected_finding_None x example_fresh_def example_sources mirror_item_matches_def example_metadata
        example_self) (simp add: path_journal_def example_removed_def)
  then have "cr_findings (reconcile example_safe_profile ?inv ?cur [example_removed]) = []"
    by (simp add: cr_findings_reconcile report_finding_def one_way_reports_def items example_fresh_def
        example_sources example_metadata)
  then have "cr_drain (reconcile example_safe_profile ?inv ?cur [example_removed]) = Drained"
    by (simp add: reconcile_Drained example_metadata)
  from drained_is_proved[OF this] show ?thesis
    by (intro exI[of _ ?cur]) (simp add: items example_fresh_def example_sources)
qed

lemma resolved_keeps_known:
  assumes "resolve (review_with_limit fs a b req limit) ds = Ok acts"
  shows "keeps_known a b acts"
  unfolding keeps_known_def list_all_iff
proof (intro ballI impI)
  fix r assume r: "r \<in> set acts" "ra_resolution r \<in> {KeepPeerA, KeepPeerB}"
  then obtain d where d: "d \<in> set ds" "r = action_from_decision d"
    using assms by (auto simp: resolve_Ok_iff)
  with r(2) kept_decision_row[OF assms d(1)]
  show "snap_item a (ra_path r) \<noteq> None \<and> snap_item b (ra_path r) \<noteq> None" by auto
qed

text \<open>C8: when a Mirror run whose conflicts were all decided in its review is reconciled without
  a finding, both peers now hold nothing or equal items at every path.\<close>

theorem settled_mirror_run_is_mirrored:
  assumes "resolve (review_with_limit fs a b req limit) ds = Ok acts"
    and "cr_findings (reconcile_mirror_full profile a b current journal acts deletions) = []"
  shows "mirror_invariant (opt_metadata (prof_options profile)) current p"
  using assms(2) resolved_keeps_known[OF assms(1)] by (rule settled_mirror)

theorem settled_mirror_run_is_mirrored_witness:
  "\<exists>current acts. acts \<noteq> [] \<and> inv_items (fa_source current) \<noteq> [] \<and>
     cr_findings (reconcile_mirror_full example_profile
       (example_snap ''a'' [snapshot_of_item example_x])
       (example_snap ''b'' [example_snap_file ''x'' ''k'']) current [] acts []) = [] \<and>
     mirror_invariant default_metadata_requirements current [Normal ''x'']"
proof -
  obtain fa :: fresh_analysis where True by blast
  let ?cur = "example_fresh (example_inventory ''a'' [example_x]) (example_inventory ''b'' [example_x]) fa"
  let ?a = "example_snap ''a'' [snapshot_of_item example_x]"
  let ?b = "example_snap ''b'' [example_snap_file ''x'' ''k'']"
  let ?rows = "review_with_limit (\<lambda>_. CannotOpen) ?a ?b default_metadata_requirements 10"
  let ?act = "action_from_decision (decision_new [Normal ''x''] KeepPeerA)"
  have keys: "map entry_key ?rows = [same_path_key [Normal ''x'']]"
    unfolding example_x_snapshot by code_simp
  then obtain row where row: "?rows = [row]" "entry_key row = same_path_key [Normal ''x'']" by auto
  then have "ce_kind row = SamePath"
    by (metis conflict_entry_key.sel(1) key_kind_entry_key same_path_key_def)
  with row have "decidable_keys ?rows = {same_path_key [Normal ''x'']}" by (auto simp: decidable_keys_def)
  then have acts: "resolve ?rows [decision_new [Normal ''x''] KeepPeerA] = Ok [?act]"
    by (simp add: resolve_Ok_iff decision_new_def offered_def sort_by_def same_path_key_def)
  have items: "snap_item ?a [Normal ''x''] = Some (snapshot_of_item example_x)"
    "mirror_expected_paths ?a ?b = [[Normal ''x'']]"
    unfolding example_x_snapshot by code_simp+
  have out: "sn_outcome (snapshot_of_item example_x) = Included" "it_path example_x = [Normal ''x'']"
    by (simp_all add: snapshot_of_item_def example_x_def)
  have "mirror_finding example_profile ?a ?b ?cur [] [?act] [] [Normal ''x''] = None"
    by (simp add: mirror_finding_def Let_def reviewed_resolution_def decision_new_def decision_path_def
        same_path_key_def items example_fresh_def example_sources deletion_approved_def outcome_is_def
        out path_journal_def pair_finding_def mirror_item_matches_def example_self example_metadata)
  then have none: "cr_findings (reconcile_mirror_full example_profile ?a ?b ?cur [] [?act] []) = []"
    by (simp add: reconcile_mirror_full_def Let_def items report_finding_def example_fresh_def example_sources
        appeared_finding_def out)
  with settled_mirror_run_is_mirrored[OF acts none, of "[Normal ''x'']"] show ?thesis
    by (intro exI[of _ ?cur] exI[of _ "[?act]"]) (simp add: example_metadata example_fresh_def example_sources)
qed

text \<open>A reconciliation without a fresh analysis always needs review.\<close>

lemma unavailable_requires_review:
  "reconciliation_requires_review (reconcile_unavailable profile inventory journal err) \<and>
   cr_drain (reconcile_unavailable profile inventory journal err) \<noteq> Drained"
proof -
  have "fold report_finding xs [f] \<noteq> []" for xs f
    by (simp add: fold_report_Nil)
  then show ?thesis
    by (simp add: reconcile_unavailable_def reconciliation_requires_review_def Let_def push_unique_def)
qed

end
