(* ===== verification/Parser.thy ===== *)
theory Parser
  imports Paths
begin

text \<open>
  The incremental parser of the transfer program's output (\<open>parser.rs\<close>): records and
  diagnostics, the limits, the assembly of lines from chunks, the two record formats and the
  escapes of a path. A \<open>usize\<close> is a natural number below \<open>USIZE_LIMIT\<close>; the
  saturating addition is written out.
\<close>

subsection \<open>Records and diagnostics\<close>

record itemized_record =
  ir_code :: string
  ir_path :: path

record progress_record =
  pg_completed_bytes :: u64
  pg_percent :: u8

datatype parse_diagnostic =
    InvalidUtf8 | InvalidItemizedRecord | InvalidEscape | InvalidProgressRecord
  | UnrecognizedRecord | TruncatedRecord | RecordTooLong | OutputTooLarge

datatype parsed_output =
    ItemizedOut itemized_record
  | ProgressOut progress_record
  | DiagnosticOut parse_diagnostic

record parsed_transfer_output =
  po_itemized :: "itemized_record list"
  po_progress :: "progress_record list"
  po_diagnostics :: "parse_diagnostic list"

definition empty_output :: parsed_transfer_output where
  "empty_output = \<lparr>po_itemized = [], po_progress = [], po_diagnostics = []\<rparr>"

definition is_well_formed :: "parsed_transfer_output \<Rightarrow> bool" where
  "is_well_formed out = (po_diagnostics out = [])"

fun push_output :: "parsed_output \<Rightarrow> parsed_transfer_output \<Rightarrow> parsed_transfer_output" where
  "push_output (ItemizedOut r) out = out\<lparr>po_itemized := po_itemized out @ [r]\<rparr>"
| "push_output (ProgressOut r) out = out\<lparr>po_progress := po_progress out @ [r]\<rparr>"
| "push_output (DiagnosticOut d) out = out\<lparr>po_diagnostics := po_diagnostics out @ [d]\<rparr>"

subsection \<open>Escapes\<close>

abbreviation BSLASH :: char where
  "BSLASH \<equiv> CHR 0x5C"

definition byte_at :: "string \<Rightarrow> nat \<Rightarrow> char option" where
  "byte_at s i = (if i < length s then Some (s ! i) else None)"

definition hex_digit :: "char \<Rightarrow> u8 option" where
  "hex_digit c =
     (if 48 \<le> byte c \<and> byte c \<le> 57 then Some (of_nat (byte c - 48))
      else if 97 \<le> byte c \<and> byte c \<le> 102 then Some (of_nat (byte c - 97 + 10))
      else if 65 \<le> byte c \<and> byte c \<le> 70 then Some (of_nat (byte c - 65 + 10))
      else None)"

text \<open>The octal loop: at most three digits; the value is a \<open>u8\<close> with checked arithmetic.\<close>

function octal_loop ::
  "string \<Rightarrow> nat \<Rightarrow> nat \<Rightarrow> nat \<Rightarrow> parse_diagnostic + nat \<times> nat" where
  "octal_loop enc index val digits =
     (if digits < 3 then
        (case byte_at enc (index + digits) of
           None \<Rightarrow> Ok (val, digits)
         | Some d \<Rightarrow>
             if \<not> (48 \<le> byte d \<and> byte d \<le> 55) then Ok (val, digits)
             else if 255 < val * 8 \<or> 255 < val * 8 + (byte d - 48) then Err InvalidEscape
             else octal_loop enc index (val * 8 + (byte d - 48)) (digits + 1))
      else Ok (val, digits))"
  by pat_completeness auto
termination
  by (relation "measure (\<lambda>(_, _, _, digits). 3 - digits)") auto

declare octal_loop.simps [simp del]

text \<open>What follows the backslash before \<open>index\<close>: the decoded byte and how many bytes of
  the input it takes.\<close>

definition hex_escape :: "string \<Rightarrow> nat \<Rightarrow> parse_diagnostic + char \<times> nat" where
  "hex_escape enc index =
     result_bind (ok_or InvalidEscape (byte_at enc (index + 1))) (\<lambda>first.
     result_bind (ok_or InvalidEscape (byte_at enc (index + 2))) (\<lambda>second.
     result_bind (ok_or InvalidEscape (hex_digit first)) (\<lambda>high.
     result_bind (ok_or InvalidEscape (hex_digit second)) (\<lambda>low.
       Ok (char_of (unat (or (push_bit 4 high) low)), 3)))))"

definition escape_at :: "string \<Rightarrow> nat \<Rightarrow> parse_diagnostic + char \<times> nat" where
  "escape_at enc index =
     (case byte_at enc index of
        None \<Rightarrow> Err InvalidEscape
      | Some e \<Rightarrow>
          if e = BSLASH then Ok (BSLASH, 1)
          else if e = CHR ''n'' then Ok (CHR 0x0A, 1)
          else if e = CHR ''r'' then Ok (CHR 0x0D, 1)
          else if e = CHR ''t'' then Ok (CHR 0x09, 1)
          else if e = CHR ''x'' then hex_escape enc index
          else if is_ascii_digit e then
            (case octal_loop enc index 0 0 of
               Inl d \<Rightarrow> Err d
             | Inr (v, digits) \<Rightarrow>
                 if digits = 0 then Err InvalidEscape else Ok (char_of v, digits))
          else Err InvalidEscape)"

text \<open>The decoding loop walks an index through the input.\<close>

function unescape_loop :: "string \<Rightarrow> nat \<Rightarrow> string \<Rightarrow> parse_diagnostic + string" where
  "unescape_loop enc index decoded =
     (if index < length enc then
        (if enc ! index \<noteq> BSLASH then unescape_loop enc (index + 1) (decoded @ [enc ! index])
         else
           (case escape_at enc (index + 1) of
              Inl d \<Rightarrow> Err d
            | Inr (c, n) \<Rightarrow> unescape_loop enc (index + 1 + n) (decoded @ [c])))
      else Ok decoded)"
  by pat_completeness auto
termination
  by (relation "measure (\<lambda>(enc, index, _). length enc - index)") auto

declare unescape_loop.simps [simp del]

text \<open>The decoded bytes of the path.\<close>

definition unescape_path :: "string \<Rightarrow> parse_diagnostic + string" where
  "unescape_path enc =
     result_bind (unescape_loop enc 0 []) (\<lambda>decoded.
       if NUL \<in> set decoded then Err InvalidEscape
       else if \<not> is_utf8 decoded then Err InvalidUtf8
       else Ok decoded)"

subsection \<open>Lines\<close>

definition known_infos :: "string list" where
  "known_infos = [''sending incremental file list'', ''receiving incremental file list'']"

definition known_info_prefixes :: "string list" where
  "known_info_prefixes =
     [''building file list'', ''created directory '', ''sent '', ''total size is '',
      ''delta-transmission enabled'', ''Number of files: '', ''Number of created files: '',
      ''Number of deleted files: '', ''Number of regular files transferred: '',
      ''Total file size: '', ''Total transferred file size: '', ''Literal data: '',
      ''Matched data: '', ''File list size: '', ''File list generation time: '',
      ''File list transfer time: '', ''Total bytes sent: '', ''Total bytes received: '',
      ''sent_bytes='', ''received_bytes='']"

definition is_known_rsync_info :: "string \<Rightarrow> bool" where
  "is_known_rsync_info line =
     (line \<in> set known_infos \<or> list_ex (\<lambda>pre. prefix pre line) known_info_prefixes)"

definition is_update_char :: "char \<Rightarrow> bool" where
  "is_update_char c = (c \<in> set ''><ch.*'')"

definition is_item_type_char :: "char \<Rightarrow> bool" where
  "is_item_type_char c = (c \<in> set ''fdLDS'')"

definition is_attribute_char :: "char \<Rightarrow> bool" where
  "is_attribute_char c = (c \<in> set ''.+cstpogunax?'')"

definition looks_like_itemized_record :: "string \<Rightarrow> bool" where
  "looks_like_itemized_record line =
     ((line \<noteq> [] \<and> is_update_char (hd line)) \<or> prefix ''*deleting'' line)"

definition itemized_code_ok :: "string \<Rightarrow> bool" where
  "itemized_code_ok code =
     (length code = 11 \<and> is_update_char (code ! 0) \<and> is_item_type_char (code ! 1) \<and>
      list_all is_attribute_char (drop 2 code))"

definition split_itemized_line :: "string \<Rightarrow> (string \<times> string) option" where
  "split_itemized_line line =
     (let code = takeWhile (\<lambda>c. \<not> is_ascii_whitespace c) line;
          rest = dropWhile (\<lambda>c. \<not> is_ascii_whitespace c) line in
      if rest = [] then None
      else if \<not> is_utf8 code then None
      else if \<not> itemized_code_ok code then None
      else
        (case dropWhile is_ascii_whitespace rest of
           [] \<Rightarrow> None
         | c # cs \<Rightarrow> Some (code, c # cs)))"

fun split_fields :: "string \<Rightarrow> string \<Rightarrow> string list" where
  "split_fields cur [] = (if cur = [] then [] else [cur])"
| "split_fields cur (c # cs) =
     (if is_ascii_whitespace c then (if cur = [] then split_fields [] cs else cur # split_fields [] cs)
      else split_fields (cur @ [c]) cs)"

definition decimal_value :: "string \<Rightarrow> nat" where
  "decimal_value ds = foldl (\<lambda>n d. 10 * n + (byte d - 48)) 0 ds"

text \<open>\<open>str::parse\<close> of an unsigned type below \<open>bound\<close>: one leading plus sign is
  accepted, an empty digit string and an overflow are errors.\<close>

definition parse_unsigned :: "nat \<Rightarrow> string \<Rightarrow> nat option" where
  "parse_unsigned bound s =
     (let ds = (case s of [] \<Rightarrow> [] | c # cs \<Rightarrow> if c = CHR ''+'' then cs else s) in
      if ds = [] \<or> \<not> list_all is_ascii_digit ds then None
      else if decimal_value ds < bound then Some (decimal_value ds) else None)"

definition parse_progress :: "string \<Rightarrow> progress_record option" where
  "parse_progress line =
     (if \<not> is_utf8 line then None
      else case split_fields [] line of
        [] \<Rightarrow> None
      | f # fs \<Rightarrow>
          (case parse_unsigned (2 ^ 64) (filter (\<lambda>c. c \<noteq> CHR '','') f) of
             None \<Rightarrow> None
           | Some completed \<Rightarrow>
               (case fs of
                  [] \<Rightarrow> None
                | p # _ \<Rightarrow>
                    (case Option.bind (strip_suffix ''%'' p) (parse_unsigned (2 ^ 8)) of
                       None \<Rightarrow> None
                     | Some percent \<Rightarrow>
                         if 100 < percent then None
                         else Some \<lparr>pg_completed_bytes = of_nat completed,
                                    pg_percent = of_nat percent\<rparr>))))"

definition parse_line :: "string \<Rightarrow> parsed_output list" where
  "parse_line raw =
     (let line = (case strip_suffix [CHR 0x0D] raw of Some l \<Rightarrow> l | None \<Rightarrow> raw) in
      if line = [] then []
      else if is_known_rsync_info line then []
      else if looks_like_itemized_record line then
        (case split_itemized_line line of
           Some (code, encoded) \<Rightarrow>
             (case unescape_path encoded of
                Inr p \<Rightarrow>
                  if p \<noteq> [] then [ItemizedOut \<lparr>ir_code = code, ir_path = components p\<rparr>]
                  else [DiagnosticOut InvalidItemizedRecord]
              | Inl d \<Rightarrow> [DiagnosticOut d])
         | None \<Rightarrow> [DiagnosticOut InvalidItemizedRecord])
      else if CHR ''%'' \<in> set line then
        (case parse_progress line of
           Some r \<Rightarrow> [ProgressOut r]
         | None \<Rightarrow> [DiagnosticOut InvalidProgressRecord])
      else [DiagnosticOut UnrecognizedRecord])"

subsection \<open>The parser\<close>

record parser =
  ps_buffer :: string
  ps_discarding :: bool
  ps_max_record_bytes :: nat
  ps_max_output_records :: nat
  ps_max_output_bytes :: nat
  ps_record_count :: nat
  ps_byte_count :: nat
  ps_limit_reached :: bool

definition USIZE_LIMIT :: nat where
  "USIZE_LIMIT = 2 ^ 64"

definition saturating_add :: "nat \<Rightarrow> nat \<Rightarrow> nat" where
  "saturating_add m n = min (m + n) (USIZE_LIMIT - 1)"

definition DEFAULT_MAX_RECORD_BYTES :: nat where
  "DEFAULT_MAX_RECORD_BYTES = 1024 * 1024"

definition DEFAULT_MAX_OUTPUT_RECORDS :: nat where
  "DEFAULT_MAX_OUTPUT_RECORDS = 1000000"

definition DEFAULT_MAX_OUTPUT_BYTES :: nat where
  "DEFAULT_MAX_OUTPUT_BYTES = 64 * 1024 * 1024"

definition parser_with_output_limits :: "nat \<Rightarrow> nat \<Rightarrow> nat \<Rightarrow> parser" where
  "parser_with_output_limits record_bytes records bytes =
     \<lparr>ps_buffer = [], ps_discarding = False, ps_max_record_bytes = max record_bytes 1,
      ps_max_output_records = max records 1, ps_max_output_bytes = max bytes 1,
      ps_record_count = 0, ps_byte_count = 0, ps_limit_reached = False\<rparr>"

definition parser_with_limits :: "nat \<Rightarrow> nat \<Rightarrow> parser" where
  "parser_with_limits record_bytes records =
     parser_with_output_limits record_bytes records DEFAULT_MAX_OUTPUT_BYTES"

definition parser_with_max_record_bytes :: "nat \<Rightarrow> parser" where
  "parser_with_max_record_bytes record_bytes = parser_with_limits record_bytes DEFAULT_MAX_OUTPUT_RECORDS"

definition parser_new :: parser where
  "parser_new =
     \<lparr>ps_buffer = [], ps_discarding = False, ps_max_record_bytes = DEFAULT_MAX_RECORD_BYTES,
      ps_max_output_records = DEFAULT_MAX_OUTPUT_RECORDS,
      ps_max_output_bytes = DEFAULT_MAX_OUTPUT_BYTES,
      ps_record_count = 0, ps_byte_count = 0, ps_limit_reached = False\<rparr>"

fun push_events :: "parser \<Rightarrow> parsed_output list \<Rightarrow> parser \<times> parsed_output list" where
  "push_events p [] = (p, [])"
| "push_events p (e # es) =
     (if ps_max_output_records p \<le> ps_record_count p
      then (p\<lparr>ps_limit_reached := True\<rparr>, [DiagnosticOut OutputTooLarge])
      else
        (let (q, out) = push_events (p\<lparr>ps_record_count := ps_record_count p + 1\<rparr>) es in
         (q, e # out)))"

definition append_line :: "parser \<Rightarrow> string \<Rightarrow> parser \<times> parsed_output list" where
  "append_line p line =
     (if ps_limit_reached p then (p, [])
      else if ps_max_output_bytes p < saturating_add (ps_byte_count p) (length line)
      then (p\<lparr>ps_limit_reached := True\<rparr>, [DiagnosticOut OutputTooLarge])
      else
        (let (q, out) = push_events p (parse_line line) in
         if ps_limit_reached q then (q, out)
         else (q\<lparr>ps_byte_count := saturating_add (ps_byte_count q) (length line)\<rparr>, out)))"

definition feed_byte :: "parser \<Rightarrow> char \<Rightarrow> parser \<times> parsed_output list" where
  "feed_byte p c =
     (if ps_discarding p then
        (if c = CHR 0x0A
         then (p\<lparr>ps_discarding := False\<rparr>, [DiagnosticOut RecordTooLong]) else (p, []))
      else if c = CHR 0x0A then append_line (p\<lparr>ps_buffer := []\<rparr>) (ps_buffer p)
      else
        (let q = p\<lparr>ps_buffer := ps_buffer p @ [c]\<rparr> in
         if ps_max_record_bytes q < length (ps_buffer q)
         then (q\<lparr>ps_buffer := [], ps_discarding := True\<rparr>, []) else (q, [])))"

fun feed :: "parser \<Rightarrow> string \<Rightarrow> parser \<times> parsed_output list" where
  "feed p [] = (p, [])"
| "feed p (c # cs) =
     (let (q, out) = feed_byte p c; (r, rest) = feed q cs in (r, out @ rest))"

definition finish :: "parser \<Rightarrow> parser \<times> parsed_output list" where
  "finish p =
     (if ps_buffer p = [] \<and> \<not> ps_discarding p then (p, [])
      else
        (p\<lparr>ps_buffer := [], ps_discarding := False\<rparr>,
         [DiagnosticOut (if ps_discarding p then RecordTooLong else TruncatedRecord)]))"

fun feed_chunks :: "parser \<Rightarrow> string list \<Rightarrow> parser \<times> parsed_output list" where
  "feed_chunks p [] = (p, [])"
| "feed_chunks p (c # cs) =
     (let (q, out) = feed p c; (r, rest) = feed_chunks q cs in (r, out @ rest))"

definition parse_chunks :: "string list \<Rightarrow> parsed_transfer_output" where
  "parse_chunks chunks =
     (let (p, out) = feed_chunks parser_new chunks; (_, last_out) = finish p in
      fold push_output (out @ last_out) empty_output)"

subsection \<open>Chunks and lines\<close>

lemma feed_append:
  "feed p (xs @ ys) = (let (q, out) = feed p xs; (r, rest) = feed q ys in (r, out @ rest))"
  by (induction xs arbitrary: p) (auto simp: Let_def split: prod.splits)

lemma feed_chunks_concat: "feed_chunks p chunks = feed p (concat chunks)"
  by (induction chunks arbitrary: p) (auto simp: feed_append Let_def split: prod.splits)

definition parse_stream :: "parser \<Rightarrow> string \<Rightarrow> parsed_output list" where
  "parse_stream p bytes = (let (q, out) = feed p bytes in out @ snd (finish q))"

lemma parse_chunks_stream: "parse_chunks chunks = fold push_output (parse_stream parser_new (concat chunks)) empty_output"
  by (simp add: parse_chunks_def parse_stream_def feed_chunks_concat Let_def split: prod.splits)

lemma chunks_do_not_matter: "concat xs = concat ys \<Longrightarrow> parse_chunks xs = parse_chunks ys"
  by (simp add: parse_chunks_stream)

abbreviation NEWLINE :: char where
  "NEWLINE \<equiv> CHR 0x0A"

definition idle :: "parser \<Rightarrow> bool" where
  "idle p = (ps_buffer p = [] \<and> \<not> ps_discarding p)"

lemma push_events_fields:
  "push_events p es = (q, out) \<Longrightarrow>
     ps_buffer q = ps_buffer p \<and> ps_discarding q = ps_discarding p \<and>
     ps_max_record_bytes q = ps_max_record_bytes p \<and>
     ps_max_output_records q = ps_max_output_records p \<and> ps_max_output_bytes q = ps_max_output_bytes p \<and>
     ps_byte_count q = ps_byte_count p"
  by (induction p es arbitrary: q out rule: push_events.induct)
    (auto simp: Let_def split: if_splits prod.splits)

lemma append_line_fields:
  "append_line p l = (q, out) \<Longrightarrow>
     ps_buffer q = ps_buffer p \<and> ps_discarding q = ps_discarding p \<and>
     ps_max_record_bytes q = ps_max_record_bytes p \<and>
     ps_max_output_records q = ps_max_output_records p \<and> ps_max_output_bytes q = ps_max_output_bytes p"
  by (auto simp: append_line_def Let_def dest!: push_events_fields split: if_splits prod.splits)

lemma feed_discarding: "ps_discarding p \<Longrightarrow> NEWLINE \<notin> set l \<Longrightarrow> feed p l = (p, [])"
  by (induction l) (auto simp: feed_byte_def)

lemma feed_text:
  assumes "\<not> ps_discarding p" "length (ps_buffer p) \<le> ps_max_record_bytes p" "NEWLINE \<notin> set l"
  shows "feed p l =
    (if length (ps_buffer p @ l) \<le> ps_max_record_bytes p then p\<lparr>ps_buffer := ps_buffer p @ l\<rparr>
     else p\<lparr>ps_buffer := [], ps_discarding := True\<rparr>, [])"
  using assms
proof (induction l arbitrary: p)
  case (Cons c l)
  let ?q = "p\<lparr>ps_buffer := ps_buffer p @ [c]\<rparr>"
  have "c \<noteq> NEWLINE" using Cons.prems by auto
  show ?case
  proof (cases "length (ps_buffer ?q) \<le> ps_max_record_bytes ?q")
    case True
    with Cons.prems Cons.IH[of ?q] \<open>c \<noteq> NEWLINE\<close> show ?thesis by (simp add: feed_byte_def Let_def)
  next
    case False
    with Cons.prems \<open>c \<noteq> NEWLINE\<close> show ?thesis by (simp add: feed_byte_def Let_def feed_discarding)
  qed
qed simp

text \<open>What one complete line does.\<close>

definition line_out :: "parser \<Rightarrow> string \<Rightarrow> parser \<times> parsed_output list" where
  "line_out p l =
     (if length l \<le> ps_max_record_bytes p then append_line p l else (p, [DiagnosticOut RecordTooLong]))"

lemma feed_line:
  assumes "idle p" "NEWLINE \<notin> set l"
  shows "feed p (l @ [NEWLINE]) = line_out p l"
proof (cases "length l \<le> ps_max_record_bytes p")
  case True
  with assms have "feed p l = (p\<lparr>ps_buffer := l\<rparr>, [])" by (simp add: feed_text idle_def)
  moreover have "p\<lparr>ps_buffer := []\<rparr> = p" "\<not> ps_discarding p" using assms(1) by (simp_all add: idle_def)
  ultimately show ?thesis
    using True by (simp add: feed_append feed_byte_def line_out_def split: prod.splits)
next
  case False
  with assms have "feed p l = (p\<lparr>ps_buffer := [], ps_discarding := True\<rparr>, [])"
    by (simp add: feed_text idle_def)
  moreover have "p\<lparr>ps_buffer := [], ps_discarding := False\<rparr> = p" using assms(1) by (simp add: idle_def)
  ultimately show ?thesis using False by (simp add: feed_append feed_byte_def line_out_def)
qed

lemma line_out_idle: "line_out p l = (q, out) \<Longrightarrow> idle p \<Longrightarrow> idle q \<and> ps_max_record_bytes q = ps_max_record_bytes p"
  by (auto simp: line_out_def idle_def dest!: append_line_fields split: if_splits)

fun parse_lines :: "parser \<Rightarrow> string list \<Rightarrow> parser \<times> parsed_output list" where
  "parse_lines p [] = (p, [])"
| "parse_lines p (l # ls) =
     (let (q, out) = line_out p l; (r, rest) = parse_lines q ls in (r, out @ rest))"

definition tail_out :: "parser \<Rightarrow> string \<Rightarrow> parsed_output list" where
  "tail_out p l =
     (if l = [] then []
      else [DiagnosticOut (if length l \<le> ps_max_record_bytes p then TruncatedRecord else RecordTooLong)])"

lemma stream_tail:
  assumes "idle p" "NEWLINE \<notin> set l"
  shows "parse_stream p l = tail_out p l"
  using assms by (simp add: parse_stream_def feed_text idle_def finish_def tail_out_def)

lemma split_on_Cons_sep: "NEWLINE \<notin> set l \<Longrightarrow> split_on NEWLINE (l @ NEWLINE # bs) = l # split_on NEWLINE bs"
  by (rule split_on_append_sep)

lemma stream_lines:
  "idle p \<Longrightarrow> parse_stream p bytes =
     (let segments = split_on NEWLINE bytes; (q, out) = parse_lines p (butlast segments) in
      out @ tail_out q (last segments))"
proof (induction "length bytes" arbitrary: p bytes rule: less_induct)
  case less
  show ?case
  proof (cases "NEWLINE \<in> set bytes")
    case False
    with less.prems show ?thesis by (simp add: stream_tail split_on_no_sep)
  next
    case True
    then obtain l bs where b: "bytes = l @ NEWLINE # bs" "NEWLINE \<notin> set l"
      by (metis split_list_first)
    obtain q out where q: "line_out p l = (q, out)" by fastforce
    have "feed p bytes = (let (r, rest) = feed q bs in (r, out @ rest))"
      using feed_append[of p "l @ [NEWLINE]" bs] feed_line[OF less.prems b(2)] b(1) q by simp
    then have "parse_stream p bytes = out @ parse_stream q bs"
      by (simp add: parse_stream_def Let_def split: prod.splits)
    moreover have "idle q" using line_out_idle[OF q less.prems] by simp
    ultimately show ?thesis
      using less.hyps[of bs q] b q split_on_nonempty[of NEWLINE bs]
      by (simp add: split_on_Cons_sep Let_def split: prod.splits)
  qed
qed

subsection \<open>Within the limits\<close>

lemma parse_line_one: "length (parse_line l) \<le> 1"
  by (simp add: parse_line_def Let_def split: option.splits sum.splits prod.splits)

definition within_limits :: "parser \<Rightarrow> nat \<Rightarrow> nat \<Rightarrow> bool" where
  "within_limits p bytes lines =
     (\<not> ps_limit_reached p \<and> ps_byte_count p + bytes \<le> ps_max_output_bytes p \<and>
      ps_record_count p + lines \<le> ps_max_output_records p \<and> ps_max_output_bytes p < USIZE_LIMIT)"

lemma append_line_within:
  assumes "within_limits p (length l + bytes) (Suc lines)"
  shows "\<exists>q. append_line p l = (q, parse_line l) \<and> within_limits q bytes lines"
proof -
  have room: "ps_record_count p < ps_max_output_records p" and fine: "\<not> ps_limit_reached p"
    and add: "saturating_add (ps_byte_count p) (length l) = ps_byte_count p + length l"
    and bytes: "ps_byte_count p + length l \<le> ps_max_output_bytes p"
    using assms by (auto simp: within_limits_def saturating_add_def)
  consider "parse_line l = []" | e where "parse_line l = [e]"
    using parse_line_one[of l] by (cases "parse_line l") auto
  then show ?thesis
    by cases (use assms room fine add bytes in \<open>auto simp: append_line_def within_limits_def\<close>)
qed

definition line_report :: "nat \<Rightarrow> string \<Rightarrow> parsed_output list" where
  "line_report limit l = (if length l \<le> limit then parse_line l else [DiagnosticOut RecordTooLong])"

lemma parse_lines_within:
  assumes "within_limits p (sum_list (map length ls)) (length ls)"
  shows "\<exists>q. parse_lines p ls = (q, concat (map (line_report (ps_max_record_bytes p)) ls)) \<and>
    ps_max_record_bytes q = ps_max_record_bytes p"
  using assms
proof (induction ls arbitrary: p)
  case (Cons l ls)
  have "\<exists>q. line_out p l = (q, line_report (ps_max_record_bytes p) l) \<and>
      ps_max_record_bytes q = ps_max_record_bytes p \<and>
      within_limits q (sum_list (map length ls)) (length ls)"
  proof (cases "length l \<le> ps_max_record_bytes p")
    case True
    with append_line_within[of p l "sum_list (map length ls)" "length ls"] Cons.prems show ?thesis
      by (auto simp: line_out_def line_report_def dest: append_line_fields)
  next
    case False
    with Cons.prems show ?thesis by (auto simp: line_out_def line_report_def within_limits_def)
  qed
  then obtain q where q: "line_out p l = (q, line_report (ps_max_record_bytes p) l)"
    "ps_max_record_bytes q = ps_max_record_bytes p" "within_limits q (sum_list (map length ls)) (length ls)"
    by blast
  with Cons.IH[OF q(3)] show ?case by auto
qed simp

lemma split_on_lengths: "sum_list (map length (split_on c s)) + length (split_on c s) = Suc (length s)"
  by (induction s) (auto split: list.splits)

definition line_count :: "string \<Rightarrow> nat" where
  "line_count s = length (filter (\<lambda>c. c = NEWLINE) s)"

lemma split_on_count: "length (split_on NEWLINE s) = Suc (line_count s)"
  by (induction s) (auto simp: line_count_def split: list.splits)

lemma default_bytes_fit: "DEFAULT_MAX_OUTPUT_BYTES < USIZE_LIMIT"
  by (simp add: USIZE_LIMIT_def DEFAULT_MAX_OUTPUT_BYTES_def)

lemma parser_new_fields:
  "idle parser_new" "ps_max_record_bytes parser_new = DEFAULT_MAX_RECORD_BYTES"
  "ps_max_output_records parser_new = DEFAULT_MAX_OUTPUT_RECORDS" "ps_record_count parser_new = 0"
  "within_limits parser_new bytes lines \<longleftrightarrow>
     bytes \<le> DEFAULT_MAX_OUTPUT_BYTES \<and> lines \<le> DEFAULT_MAX_OUTPUT_RECORDS"
  by (simp_all add: idle_def parser_new_def within_limits_def default_bytes_fit)

lemma butlast_lengths:
  "sum_list (map length (butlast (split_on c s))) \<le> length s"
proof -
  have "map length (split_on c s) = map length (butlast (split_on c s)) @ [length (last (split_on c s))]"
    by (metis append_butlast_last_id map_append list.simps(8,9) split_on_nonempty)
  then have "sum_list (map length (split_on c s)) =
      sum_list (map length (butlast (split_on c s))) + length (last (split_on c s))"
    by simp
  moreover have "0 < length (split_on c s)" using split_on_nonempty by simp
  ultimately show ?thesis using split_on_lengths[of c s] by linarith
qed

text \<open>C37: whatever the chunks are, an output within the limits is reported line by line: each
  complete line as its own parse, or as too long, and an unfinished last line as truncated.\<close>

theorem output_is_parsed_line_by_line:
  assumes "length (concat chunks) \<le> DEFAULT_MAX_OUTPUT_BYTES"
    and "line_count (concat chunks) \<le> DEFAULT_MAX_OUTPUT_RECORDS"
  shows "parse_chunks chunks =
    (let segments = split_on NEWLINE (concat chunks) in
     fold push_output
       (concat (map (line_report DEFAULT_MAX_RECORD_BYTES) (butlast segments)) @
        (if last segments = [] then []
         else [DiagnosticOut
           (if length (last segments) \<le> DEFAULT_MAX_RECORD_BYTES then TruncatedRecord else RecordTooLong)]))
       empty_output)"
proof -
  let ?segs = "split_on NEWLINE (concat chunks)"
  have "within_limits parser_new (sum_list (map length (butlast ?segs))) (length (butlast ?segs))"
    unfolding parser_new_fields length_butlast split_on_count
    using assms butlast_lengths[of NEWLINE "concat chunks"] by linarith
  from parse_lines_within[OF this] obtain q where
    q: "parse_lines parser_new (butlast ?segs) =
        (q, concat (map (line_report DEFAULT_MAX_RECORD_BYTES) (butlast ?segs)))"
      "ps_max_record_bytes q = DEFAULT_MAX_RECORD_BYTES"
    unfolding parser_new_fields by blast
  with stream_lines[OF parser_new_fields(1), of "concat chunks"] show ?thesis
    by (simp add: parse_chunks_stream Let_def tail_out_def)
qed

subsection \<open>Every stream\<close>

theorem output_is_parsed_line_by_line_witness:
  "po_itemized (parse_chunks [''>f++++'', ''+++++ a'' @ [NEWLINE], ''x''])
     = [\<lparr>ir_code = ''>f+++++++++'', ir_path = [Normal ''a'']\<rparr>] \<and>
   po_diagnostics (parse_chunks [''>f++++'', ''+++++ a'' @ [NEWLINE], ''x'']) = [TruncatedRecord]"
proof -
  let ?chunks = "[''>f++++'', ''+++++ a'' @ [NEWLINE], ''x'']"
  have small: "length (concat ?chunks) \<le> DEFAULT_MAX_OUTPUT_BYTES"
    "line_count (concat ?chunks) \<le> DEFAULT_MAX_OUTPUT_RECORDS"
    "\<And>l. length l \<le> 20 \<Longrightarrow> length l \<le> DEFAULT_MAX_RECORD_BYTES"
    by (simp_all add: DEFAULT_MAX_OUTPUT_BYTES_def DEFAULT_MAX_OUTPUT_RECORDS_def
        DEFAULT_MAX_RECORD_BYTES_def line_count_def)
  have line: "parse_line ''>f+++++++++ a'' = [ItemizedOut \<lparr>ir_code = ''>f+++++++++'', ir_path = [Normal ''a'']\<rparr>]"
    by code_simp
  have "split_on NEWLINE (concat ?chunks) = [''>f+++++++++ a'', ''x'']" by simp
  with output_is_parsed_line_by_line[OF small(1,2)] line small(3)[of "''>f+++++++++ a''"] small(3)[of "''x''"]
  show ?thesis by (simp add: line_report_def empty_output_def)
qed

definition is_record :: "parsed_output \<Rightarrow> bool" where
  "is_record e = (case e of DiagnosticOut _ \<Rightarrow> False | _ \<Rightarrow> True)"

definition records_of :: "parsed_output list \<Rightarrow> nat" where
  "records_of es = length (filter is_record es)"

lemma records_of_simps [simp]:
  "records_of [] = 0"
  "records_of (xs @ ys) = records_of xs + records_of ys"
  "records_of (e # es) = (if is_record e then 1 else 0) + records_of es"
  "\<not> is_record (DiagnosticOut d)"
  by (simp_all add: records_of_def is_record_def)

text \<open>An operation emits no more records than it counts, and never counts past the limit.\<close>

definition counted :: "parser \<Rightarrow> parser \<times> parsed_output list \<Rightarrow> bool" where
  "counted p r =
     (ps_record_count p + records_of (snd r) \<le> ps_record_count (fst r) \<and>
      ps_max_output_records (fst r) = ps_max_output_records p \<and>
      (ps_record_count p \<le> ps_max_output_records p \<longrightarrow>
         ps_record_count (fst r) \<le> ps_max_output_records p))"

lemma counted_trans:
  assumes "counted p (q, out)" "counted q (r, rest)"
  shows "counted p (r, out @ rest)"
  using assms by (auto simp: counted_def)

lemma counted_push_events: "counted p (push_events p es)"
proof (induction p es rule: push_events.induct)
  case (2 p e es)
  then show ?case
    by (cases "push_events (p\<lparr>ps_record_count := ps_record_count p + 1\<rparr>) es") (auto simp: counted_def)
qed (simp add: counted_def)

lemma counted_append_line: "counted p (append_line p l)"
  using counted_push_events[of p "parse_line l"]
  by (cases "push_events p (parse_line l)") (auto simp: append_line_def Let_def counted_def)

lemma counted_line_out: "counted p (line_out p l)"
  using counted_append_line[of p l] by (simp add: line_out_def) (simp add: counted_def)

lemma counted_parse_lines: "counted p (parse_lines p ls)"
proof (induction ls arbitrary: p)
  case (Cons l ls)
  obtain q out where q: "line_out p l = (q, out)" by fastforce
  obtain r rest where r: "parse_lines q ls = (r, rest)" by fastforce
  from counted_trans[of p q out r rest] counted_line_out[of p l] Cons[of q] q r show ?case by simp
qed (simp add: counted_def)

lemma fold_push_lengths:
  "length (po_itemized (fold push_output es out)) + length (po_progress (fold push_output es out)) =
     length (po_itemized out) + length (po_progress out) + records_of es"
proof (induction es arbitrary: out)
  case (Cons e es)
  then show ?case by (cases e) (simp_all add: is_record_def)
qed simp

lemma fold_push_items:
  "po_itemized (fold push_output es out) = po_itemized out @ List.map_filter (\<lambda>e. case e of ItemizedOut r \<Rightarrow> Some r | _ \<Rightarrow> None) es"
  "po_progress (fold push_output es out) = po_progress out @ List.map_filter (\<lambda>e. case e of ProgressOut r \<Rightarrow> Some r | _ \<Rightarrow> None) es"
proof (induction es arbitrary: out)
  case (Cons e es)
  { case 1 show ?case using Cons.IH by (cases e) (simp_all add: List.map_filter_simps) }
  { case 2 show ?case using Cons.IH by (cases e) (simp_all add: List.map_filter_simps) }
qed (simp_all add: List.map_filter_simps)

subsection \<open>Valid records\<close>

definition output_ok :: "parsed_output \<Rightarrow> bool" where
  "output_ok e =
     (case e of
        ItemizedOut r \<Rightarrow>
          itemized_code_ok (ir_code r) \<and>
          (\<exists>p. p \<noteq> [] \<and> NUL \<notin> set p \<and> is_utf8 p \<and> ir_path r = components p)
      | ProgressOut r \<Rightarrow> pg_percent r \<le> 100
      | DiagnosticOut _ \<Rightarrow> True)"

lemma unescape_path_Ok:
  "unescape_path enc = Ok p \<longleftrightarrow> unescape_loop enc 0 [] = Ok p \<and> NUL \<notin> set p \<and> is_utf8 p"
  by (auto simp: unescape_path_def split: if_splits)

lemma split_itemized_Some:
  assumes "split_itemized_line l = Some (code, enc)"
  shows "itemized_code_ok code"
proof -
  define tw where "tw = takeWhile (\<lambda>c. \<not> is_ascii_whitespace c) l"
  define rest where "rest = dropWhile (\<lambda>c. \<not> is_ascii_whitespace c) l"
  define enc' where "enc' = dropWhile is_ascii_whitespace rest"
  have "Some (code, enc) =
      (if rest = [] then None else if \<not> is_utf8 tw then None else if \<not> itemized_code_ok tw then None
       else case enc' of [] \<Rightarrow> None | c # cs \<Rightarrow> Some (tw, c # cs))"
    using assms by (simp only: split_itemized_line_def Let_def tw_def rest_def enc'_def)
  then show ?thesis by (simp split: if_split_asm list.split_asm)
qed

lemma parse_progress_Some:
  assumes "parse_progress l = Some r"
  shows "\<exists>n. n \<le> 100 \<and> pg_percent r = of_nat n"
  using assms unfolding parse_progress_def
  by (auto split: if_splits list.splits option.splits simp del: bind_eq_Some_conv bind_split)
    (intro exI conjI, erule leI, rule refl)

lemma percent_bound: "n \<le> 100 \<Longrightarrow> (of_nat n :: u8) \<le> 100"
  by (simp add: word_le_nat_alt unat_of_nat)

lemma parse_line_cases:
  assumes "e \<in> set (parse_line raw)"
  shows "(\<exists>d. e = DiagnosticOut d) \<or>
    (\<exists>line code enc p. split_itemized_line line = Some (code, enc) \<and> unescape_path enc = Ok p \<and> p \<noteq> [] \<and>
       e = ItemizedOut \<lparr>ir_code = code, ir_path = components p\<rparr>) \<or>
    (\<exists>line r. parse_progress line = Some r \<and> e = ProgressOut r)"
proof -
  define line where "line = (case strip_suffix [CHR 0x0D] raw of Some l \<Rightarrow> l | None \<Rightarrow> raw)"
  consider "\<exists>d. e = DiagnosticOut d" | code enc p where "split_itemized_line line = Some (code, enc)"
      "unescape_path enc = Ok p" "p \<noteq> []" "e = ItemizedOut \<lparr>ir_code = code, ir_path = components p\<rparr>"
    | r where "parse_progress line = Some r" "e = ProgressOut r"
    using assms unfolding parse_line_def line_def[symmetric] Let_def
    by (cases "split_itemized_line line"; cases "parse_progress line"; cases "unescape_path (snd (the (split_itemized_line line)))")
      (auto split: if_splits)
  then show ?thesis by cases blast+
qed

lemma parse_line_ok:
  assumes "e \<in> set (parse_line l)"
  shows "output_ok e"
  using parse_line_cases[OF assms]
proof (elim disjE exE conjE)
  fix line code enc p
  assume *: "split_itemized_line line = Some (code, enc)" "unescape_path enc = Ok p" "p \<noteq> []"
    "e = ItemizedOut \<lparr>ir_code = code, ir_path = components p\<rparr>"
  then show ?thesis
    using split_itemized_Some[OF *(1)] *(2)[unfolded unescape_path_Ok] by (auto simp: output_ok_def)
next
  fix line r assume "parse_progress line = Some r" "e = ProgressOut r"
  then show ?thesis using parse_progress_Some percent_bound by (fastforce simp: output_ok_def)
qed (simp add: output_ok_def)

lemma push_events_ok: "\<forall>e \<in> set es. output_ok e \<Longrightarrow> \<forall>e \<in> set (snd (push_events p es)). output_ok e"
proof (induction p es rule: push_events.induct)
  case (2 p e es)
  then show ?case
    by (cases "push_events (p\<lparr>ps_record_count := ps_record_count p + 1\<rparr>) es") (auto simp: output_ok_def)
qed simp

lemma append_line_ok: "e \<in> set (snd (append_line p l)) \<Longrightarrow> output_ok e"
  using push_events_ok[of "parse_line l" p] parse_line_ok[of _ l]
  by (auto simp: append_line_def Let_def output_ok_def split: if_splits prod.splits)

lemma line_out_ok: "e \<in> set (snd (line_out p l)) \<Longrightarrow> output_ok e"
  using append_line_ok[of e p l] by (auto simp: line_out_def output_ok_def split: if_splits)

lemma parse_lines_ok: "e \<in> set (snd (parse_lines p ls)) \<Longrightarrow> output_ok e"
proof (induction ls arbitrary: p)
  case (Cons l ls)
  obtain q out where q: "line_out p l = (q, out)" by fastforce
  obtain r rest where r: "parse_lines q ls = (r, rest)" by fastforce
  from Cons.prems Cons.IH[of q] line_out_ok[of e p l] q r show ?case by auto
qed simp

text \<open>C38: whatever bytes arrive, at most the limit of records is kept, every itemized record has a
  well-formed code and the path of a non-empty UTF-8 name without NUL, and every progress
  record is at most 100 percent.\<close>

theorem parsed_records_are_valid:
  "length (po_itemized (parse_chunks chunks)) + length (po_progress (parse_chunks chunks))
      \<le> DEFAULT_MAX_OUTPUT_RECORDS \<and>
   list_all (\<lambda>r. output_ok (ItemizedOut r)) (po_itemized (parse_chunks chunks)) \<and>
   list_all (\<lambda>r. pg_percent r \<le> 100) (po_progress (parse_chunks chunks))"
proof -
  let ?segs = "split_on NEWLINE (concat chunks)"
  obtain q out where q: "parse_lines parser_new (butlast ?segs) = (q, out)" by fastforce
  have stream: "parse_stream parser_new (concat chunks) = out @ tail_out q (last ?segs)"
    using stream_lines[OF parser_new_fields(1), of "concat chunks"] q by (simp add: Let_def)
  have tail: "records_of (tail_out q l) = 0" "e \<in> set (tail_out q l) \<Longrightarrow> output_ok e" for l e
    by (auto simp: tail_out_def output_ok_def split: if_splits)
  have "records_of out \<le> DEFAULT_MAX_OUTPUT_RECORDS"
    using counted_parse_lines[of parser_new "butlast ?segs"] q by (simp add: counted_def parser_new_fields)
  moreover have ok: "output_ok e" if "e \<in> set (parse_stream parser_new (concat chunks))" for e
    using that tail(2) parse_lines_ok[of e parser_new "butlast ?segs"] q by (auto simp: stream)
  have "list_all (\<lambda>r. output_ok (ItemizedOut r)) (po_itemized (parse_chunks chunks))"
    "list_all (\<lambda>r. output_ok (ProgressOut r)) (po_progress (parse_chunks chunks))"
    using ok
    by (auto simp: list_all_iff parse_chunks_stream fold_push_items empty_output_def List.map_filter_def
        split: parsed_output.splits)
  ultimately show ?thesis
    by (simp add: parse_chunks_stream fold_push_lengths stream tail empty_output_def)
      (simp add: output_ok_def)
qed

subsection \<open>Escaped paths read back\<close>

definition named_escape :: "char \<Rightarrow> char \<Rightarrow> bool" where
  "named_escape c n = ((n, c) \<in> {(BSLASH, BSLASH), (CHR ''n'', CHR 0x0A), (CHR ''r'', CHR 0x0D), (CHR ''t'', CHR 0x09)})"

definition octal_digit :: "char \<Rightarrow> bool" where
  "octal_digit d = (48 \<le> byte d \<and> byte d \<le> 55)"

definition octal_value :: "char \<Rightarrow> nat" where
  "octal_value d = byte d - 48"

text \<open>The ways a byte may be written: itself, a named escape, two hexadecimal digits or three
  octal digits.\<close>

definition is_escape :: "char \<Rightarrow> string \<Rightarrow> bool" where
  "is_escape c e =
     ((c \<noteq> BSLASH \<and> e = [c]) \<or>
      (\<exists>n. named_escape c n \<and> e = [BSLASH, n]) \<or>
      (\<exists>h l a b. e = [BSLASH, CHR ''x'', h, l] \<and> hex_digit h = Some a \<and> hex_digit l = Some b \<and>
         byte c = 16 * unat a + unat b) \<or>
      (\<exists>x y z. e = [BSLASH, x, y, z] \<and> octal_digit x \<and> octal_digit y \<and> octal_digit z \<and>
         byte c = 64 * octal_value x + 8 * octal_value y + octal_value z))"

lemma hex_digit_small: "hex_digit d = Some a \<Longrightarrow> unat a < 16"
proof -
  assume "hex_digit d = Some a"
  then obtain n where "a = of_nat n" "n < 16"
    unfolding hex_digit_def
    by (auto split: if_splits simp del: of_nat_diff intro: that[of "byte d - 48"] that[of "byte d - 97 + 10"]
        that[of "byte d - 65 + 10"])
  then show "unat a < 16" by (simp add: unat_of_nat)
qed

lemma nibbles:
  assumes "unat (a :: u8) < 16" "unat (b :: u8) < 16"
  shows "unat (or (push_bit 4 a) b) = 16 * unat a + unat b"
proof -
  have pa: "unat (push_bit 4 a) = 16 * unat a"
    using assms(1) by (simp add: push_bit_eq_mult unat_word_ariths(2))
  have "and (push_bit 4 (unat a)) (unat b) = 0"
  proof (rule bit_eqI)
    fix n
    have "\<not> bit (unat b) n" if "4 \<le> n"
    proof -
      have "unat b < 2 ^ n" using assms(2) power_increasing[OF that, of "2::nat"] by simp
      then show ?thesis by (simp add: bit_iff_odd)
    qed
    then show "bit (and (push_bit 4 (unat a)) (unat b)) n = bit 0 n"
      by (auto simp: bit_and_iff bit_push_bit_iff)
  qed
  then have "or (push_bit 4 (unat a)) (unat b) = push_bit 4 (unat a) + unat b"
    by (simp add: disjunctive_add_eq_or)
  then show ?thesis using pa by (simp add: unsigned_or_eq push_bit_eq_mult mult.commute)
qed

lemma byte_at_append: "byte_at (xs @ c # ys) (length xs) = Some c"
  "byte_at (xs @ ys) (length xs + k) = byte_at ys k"
  by (simp_all add: byte_at_def nth_append)

lemma byte_at_Cons [simp]: "byte_at (c # cs) 0 = Some c" "byte_at (c # cs) (Suc k) = byte_at cs k"
  by (simp_all add: byte_at_def)

lemma byte_bound: "byte c < 256"
  by simp

lemma octal_step:
  assumes "digits < 3" "byte_at enc (index + digits) = Some d" "octal_digit d" "8 * v + octal_value d < 256"
  shows "octal_loop enc index v digits = octal_loop enc index (8 * v + octal_value d) (Suc digits)"
  using assms by (subst octal_loop.simps) (auto simp: octal_digit_def octal_value_def algebra_simps)

lemma octal_three:
  assumes "byte_at enc index = Some x" "byte_at enc (index + 1) = Some y" "byte_at enc (index + 2) = Some z"
    and "octal_digit x" "octal_digit y" "octal_digit z"
    and "64 * octal_value x + 8 * octal_value y + octal_value z < 256"
  shows "octal_loop enc index 0 0 = Ok (64 * octal_value x + 8 * octal_value y + octal_value z, 3)"
proof -
  have "octal_loop enc index 0 0 = octal_loop enc index (octal_value x) 1"
    using octal_step[of 0 enc index x 0] assms(1,4,7) by simp
  also have "\<dots> = octal_loop enc index (8 * octal_value x + octal_value y) 2"
    using octal_step[of 1 enc index y "octal_value x"] assms(2,5,7) by (simp add: numeral_2_eq_2)
  also have "\<dots> = octal_loop enc index (8 * (8 * octal_value x + octal_value y) + octal_value z) 3"
    using octal_step[of 2 enc index z "8 * octal_value x + octal_value y"] assms(3,6,7)
    by (simp add: numeral_3_eq_3 numeral_2_eq_2)
  also have "\<dots> = Ok (64 * octal_value x + 8 * octal_value y + octal_value z, 3)"
    by (subst octal_loop.simps) simp
  finally show ?thesis .
qed

text \<open>One escape is read as its byte, wherever it stands.\<close>

lemma escape_reads:
  assumes "is_escape c e" "e \<noteq> [c] \<or> c = BSLASH"
  shows "\<exists>n. e ! 0 = BSLASH \<and> length e = 1 + n \<and> escape_at (pre @ e @ post) (length pre + 1) = Ok (c, n)"
proof -
  have get: "byte_at (pre @ e @ post) (length pre + k) = byte_at (e @ post) k" for k
    by (rule byte_at_append)
  have get1: "byte_at (pre @ e @ post) (length pre + 1) = byte_at (e @ post) 1"
    "byte_at (pre @ e @ post) (length pre + 1 + 1) = byte_at (e @ post) 2"
    "byte_at (pre @ e @ post) (length pre + 1 + 2) = byte_at (e @ post) 3"
    using get[of 1] get[of 2] get[of 3] by (simp_all add: numeral_3_eq_3 numeral_2_eq_2)
  from assms consider (named) n where "named_escape c n" "e = [BSLASH, n]"
    | (hex) h l a b where "e = [BSLASH, CHR ''x'', h, l]" "hex_digit h = Some a" "hex_digit l = Some b"
        "byte c = 16 * unat a + unat b"
    | (oct) x y z where "e = [BSLASH, x, y, z]" "octal_digit x" "octal_digit y" "octal_digit z"
        "byte c = 64 * octal_value x + 8 * octal_value y + octal_value z"
    unfolding is_escape_def by blast
  then show ?thesis
  proof cases
    case named
    then show ?thesis unfolding escape_at_def get1 by (auto simp: named_escape_def)
  next
    case hex
    have "char_of (unat (or (push_bit 4 a) b)) = c"
      using nibbles[OF hex_digit_small[OF hex(2)] hex_digit_small[OF hex(3)]] hex(4)
      by (metis char_of_char)
    with hex show ?thesis
      unfolding escape_at_def hex_escape_def get1 by (simp add: numeral_3_eq_3 numeral_2_eq_2)
  next
    case oct
    have "octal_loop (pre @ e @ post) (length pre + 1) 0 0 =
        Ok (64 * octal_value x + 8 * octal_value y + octal_value z, 3)"
      by (rule octal_three) (use oct byte_bound[of c] get1 in \<open>simp_all add: numeral_3_eq_3 numeral_2_eq_2\<close>)
    moreover have "is_ascii_digit x" "x \<noteq> BSLASH" "x \<noteq> CHR ''n''" "x \<noteq> CHR ''r''" "x \<noteq> CHR ''t''" "x \<noteq> CHR ''x''"
      using oct(2) by (auto simp: octal_digit_def is_ascii_digit_def)
    moreover have "char_of (64 * octal_value x + 8 * octal_value y + octal_value z) = c"
      using oct(5) by (metis char_of_char)
    ultimately show ?thesis using oct(1) unfolding escape_at_def get1 by simp
  qed
qed

lemma unescape_step:
  assumes "is_escape c e"
  shows "unescape_loop (pre @ e @ post) (length pre) decoded =
    unescape_loop (pre @ e @ post) (length (pre @ e)) (decoded @ [c])"
proof (cases "e = [c] \<and> c \<noteq> BSLASH")
  case True
  then show ?thesis by (subst unescape_loop.simps) (simp add: nth_append)
next
  case False
  with escape_reads[OF assms, of pre post] obtain n where
    n: "e ! 0 = BSLASH" "length e = 1 + n" "escape_at (pre @ e @ post) (length pre + 1) = Ok (c, n)" by blast
  then have "(pre @ e @ post) ! length pre = BSLASH" "length pre < length (pre @ e @ post)"
    by (auto simp: nth_append)
  with n show ?thesis by (subst unescape_loop.simps) (simp add: add.assoc)
qed

lemma unescape_escaped:
  assumes "list_all2 is_escape s es"
  shows "unescape_loop (pre @ concat es) (length pre) decoded = Ok (decoded @ s)"
  using assms
proof (induction arbitrary: pre decoded rule: list_all2_induct)
  case Nil
  then show ?case by (subst unescape_loop.simps) simp
next
  case (Cons c s e es)
  from Cons.IH[of "pre @ e" "decoded @ [c]"] unescape_step[OF Cons.hyps(1), of pre "concat es" decoded]
  show ?case by simp
qed

text \<open>a path escaped in any of the accepted ways reads back as its bytes: named, octal and
  hexadecimal escapes may be mixed freely.\<close>

theorem escaped_path_reads_back:
  assumes "list_all2 is_escape s es" and "is_utf8 s" and "NUL \<notin> set s"
  shows "unescape_path (concat es) = Ok s"
  using unescape_escaped[OF assms(1), of "[]" "[]"] assms(2,3) by (simp add: unescape_path_Ok)

theorem escaped_path_reads_back_witness:
  "unescape_path (concat [''a'', BSLASH # ''n'', BSLASH # ''x0a'', BSLASH # ''101'']) = Ok [CHR ''a'', CHR 0x0A, CHR 0x0A, CHR ''A'']"
proof -
  let ?s = "[CHR ''a'', CHR 0x0A, CHR 0x0A, CHR ''A'']"
  let ?es = "[''a'', BSLASH # ''n'', BSLASH # ''x0a'', BSLASH # ''101'']"
  have "is_escape (CHR ''a'') ''a''" "is_escape (CHR 0x0A) (BSLASH # ''n'')"
    "is_escape (CHR 0x0A) (BSLASH # ''x0a'')" "is_escape (CHR ''A'') (BSLASH # ''101'')"
    by (simp_all add: is_escape_def named_escape_def hex_digit_def octal_digit_def octal_value_def)
  then have "list_all2 is_escape ?s ?es" by simp
  moreover have "is_utf8 ?s" by (rule is_utf8_ascii) simp
  ultimately show ?thesis using escaped_path_reads_back[of ?s ?es] by simp
qed

subsection \<open>Two lines the parser misreads\<close>

text \<open>A file whose name begins with a space is reported under another name, and the deletion
  lines the parser looks for are always refused: their code is not eleven bytes long.\<close>

lemma leading_space_is_lost:
  "parse_line (''>f+++++++++  a'') = parse_line (''>f+++++++++ a'')"
  by code_simp

lemma deletion_line_is_refused:
  "parse_line ''*deleting   old'' = [DiagnosticOut InvalidItemizedRecord]"
  by code_simp

end
