(* ===== verification/RunSnapshot.thy ===== *)
theory RunSnapshot
  imports Rows
begin

text \<open>
  The frozen snapshot of a run (\<open>RunSnapshot\<close> of \<open>evidence.rs\<close>): how it is taken from
  a profile, the row it is stored in, and how it is read back. The tables are a record: the
  rows of \<open>run_snapshots\<close> by their primary key, each with the patterns of
  \<open>snapshot_exclusions\<close> in the order of their ordinals, and the one row of
  \<open>run_id_sequence\<close>. A transaction that fails leaves the tables as they were, so an
  operation returns either an error or its result with the new tables. Whether a path is a
  directory and what the clock says are parameters.
\<close>

subsection \<open>Taking the snapshot\<close>

record run_snapshot_record =
  rs_run_id :: nat
  rs_snapshot_id :: nat
  rs_created_at :: int
  rs_profile :: sync_profile
  rs_options :: validated_options
  rs_authorizations :: authorization_snapshot
  rs_volume_a :: "u64 option"
  rs_volume_b :: "u64 option"

text \<open>\<open>current_unix_seconds\<close>: the error of a clock before the epoch, or the seconds.\<close>

type_synonym clock = "storage_error + int"

definition snapshot_with_volumes ::
  "(path \<Rightarrow> bool) \<Rightarrow> clock \<Rightarrow> nat \<Rightarrow> sync_profile \<Rightarrow> authorization_snapshot
    \<Rightarrow> u64 option \<Rightarrow> u64 option \<Rightarrow> storage_error + run_snapshot_record" where
  "snapshot_with_volumes is_dir clock run prof auths va vb =
     (case spec_from_profile_for_run is_dir prof of
        Err e \<Rightarrow> Err (InvalidProfile e)
      | Ok spec \<Rightarrow>
          if allow_unattended_permanent_removal auths \<and>
             (val_deletion_method (spec_options spec) \<noteq> Some PermanentRemoval \<or>
              \<not> val_safe_delete (spec_options spec))
          then Err (InvalidSnapshot
            ''unattended permanent removal requires Safe Delete with Permanent Removal selected'')
          else result_bind clock (\<lambda>now.
            Ok \<lparr>rs_run_id = run, rs_snapshot_id = run, rs_created_at = now, rs_profile = prof,
                rs_options = spec_options spec, rs_authorizations = auths,
                rs_volume_a = va, rs_volume_b = vb\<rparr>))"

definition snapshot_from_profile ::
  "(path \<Rightarrow> bool) \<Rightarrow> clock \<Rightarrow> nat \<Rightarrow> sync_profile \<Rightarrow> authorization_snapshot
    \<Rightarrow> storage_error + run_snapshot_record" where
  "snapshot_from_profile is_dir clock run prof auths =
     snapshot_with_volumes is_dir clock run prof auths None None"

definition snapshot_volume_identity :: "run_snapshot_record \<Rightarrow> peer_side \<Rightarrow> u64 option" where
  "snapshot_volume_identity s side =
     (case side of PeerA \<Rightarrow> rs_volume_a s | PeerB \<Rightarrow> rs_volume_b s)"

subsection \<open>Rows\<close>

text \<open>The eight columns of a peer.\<close>

record peer_columns =
  pk_name :: string
  pk_kind :: string
  pk_root :: string
  pk_server :: "string option"
  pk_username :: "string option"
  pk_port :: "int option"
  pk_identity :: "string option"
  pk_authentication :: "string option"

definition endpoint_kind :: "peer \<Rightarrow> string" where
  "endpoint_kind p = (if is_ssh p then ''ssh'' else ''local'')"

definition endpoint_server :: "peer \<Rightarrow> string option" where
  "endpoint_server p = map_option server (peer_ssh_peer p)"

definition endpoint_username :: "peer \<Rightarrow> string option" where
  "endpoint_username p = map_option username (peer_ssh_peer p)"

definition endpoint_port :: "peer \<Rightarrow> int option" where
  "endpoint_port p = map_option (\<lambda>ssh. uint (port ssh)) (peer_ssh_peer p)"

definition endpoint_identity :: "peer \<Rightarrow> string option" where
  "endpoint_identity p = map_option path_to_blob (Option.bind (peer_ssh_peer p) identity)"

definition SAVED_PASSWORD :: string where
  "SAVED_PASSWORD = ''saved_password:''"

definition authentication_text :: "ssh_authentication \<Rightarrow> string" where
  "authentication_text a =
     (case a of
        Key \<Rightarrow> ''key''
      | Agent \<Rightarrow> ''agent''
      | InteractivePassword \<Rightarrow> ''interactive_password''
      | SavedPassword r \<Rightarrow> SAVED_PASSWORD @ secret_id r)"

definition endpoint_authentication :: "peer \<Rightarrow> string option" where
  "endpoint_authentication p =
     map_option (\<lambda>ssh. authentication_text (authentication ssh)) (peer_ssh_peer p)"

definition snapshot_peer_columns :: "peer \<Rightarrow> peer_columns" where
  "snapshot_peer_columns p =
     \<lparr>pk_name = peer_label p, pk_kind = endpoint_kind p, pk_root = path_to_blob (peer_root p),
      pk_server = endpoint_server p, pk_username = endpoint_username p,
      pk_port = endpoint_port p, pk_identity = endpoint_identity p,
      pk_authentication = endpoint_authentication p\<rparr>"

text \<open>The columns of the options; the flags are \<open>0\<close> or \<open>1\<close>.\<close>

record option_columns =
  ok_safe_delete :: int
  ok_destination_cleanup :: int
  ok_deletion_method :: "string option"
  ok_file_type :: int
  ok_executable :: int
  ok_symlinks :: int
  ok_timestamps :: int
  ok_ownership :: int
  ok_acls :: int
  ok_xattrs :: int
  ok_partial_policy :: string
  ok_max_attempts :: int
  ok_delay_millis :: int
  ok_bandwidth :: "int option"

definition delay_millis :: "duration \<Rightarrow> nat" where
  "delay_millis d = d div 1000000"

definition snapshot_option_columns :: "validated_options \<Rightarrow> storage_error + option_columns" where
  "snapshot_option_columns opts =
     result_bind (to_sql_u64 (of_nat (delay_millis (initial_delay (val_retry_policy opts))))) (\<lambda>millis.
     result_bind (convert to_sql_u64 (val_bandwidth_limit opts)) (\<lambda>bandwidth.
     (let m = val_metadata opts; s = req_specialist m in
      Ok \<lparr>ok_safe_delete = bool_to_int (val_safe_delete opts),
          ok_destination_cleanup = bool_to_int (val_destination_cleanup opts),
          ok_deletion_method = map_option encode_deletion_method (val_deletion_method opts),
          ok_file_type = bool_to_int (req_file_type m),
          ok_executable = bool_to_int (req_executable_permissions m),
          ok_symlinks = bool_to_int (req_symlink_targets m),
          ok_timestamps = bool_to_int (req_timestamps m),
          ok_ownership = bool_to_int (ownership s),
          ok_acls = bool_to_int (access_control_lists s),
          ok_xattrs = bool_to_int (extended_attributes s),
          ok_partial_policy = encode_partial_transfer_policy (val_partial_transfer_policy opts),
          ok_max_attempts = uint (max_attempts (val_retry_policy opts)),
          ok_delay_millis = millis, ok_bandwidth = bandwidth\<rparr>)))"

record snapshot_row =
  sr_snapshot_id :: int
  sr_profile_name :: string
  sr_peer_a :: peer_columns
  sr_peer_b :: peer_columns
  sr_volume_a :: "string option"
  sr_volume_b :: "string option"
  sr_mode :: string
  sr_source :: string
  sr_options :: option_columns
  sr_destructive :: int
  sr_permanent_removal :: int
  sr_created_at :: int
  sr_exclusions :: "string list"
  sr_blocked_reason :: "string option"
  sr_review_cleared :: int
  sr_source_recorded :: int
  sr_destination_recorded :: int

record run_tables =
  rt_rows :: "(int \<times> snapshot_row) list"
  rt_next_run_id :: int

text \<open>\<open>u64::to_le_bytes\<close> and \<open>u64::from_le_bytes\<close>.\<close>

fun le_bytes :: "nat \<Rightarrow> nat \<Rightarrow> string" where
  "le_bytes 0 _ = []"
| "le_bytes (Suc k) n = char_of (n mod 256) # le_bytes k (n div 256)"

fun from_le_bytes :: "string \<Rightarrow> nat" where
  "from_le_bytes [] = 0"
| "from_le_bytes (c # cs) = byte c + 256 * from_le_bytes cs"

definition volume_identity_to_blob :: "u64 \<Rightarrow> string" where
  "volume_identity_to_blob v = le_bytes 8 (unat v)"

definition decode_volume_identity :: "string option \<Rightarrow> storage_error + u64 option" where
  "decode_volume_identity b =
     (case b of
        None \<Rightarrow> Ok None
      | Some bytes \<Rightarrow>
          if length bytes \<noteq> 8
          then Err (CorruptEvidence ''volume identity must contain an 8-byte device number'')
          else Ok (Some (of_nat (from_le_bytes bytes))))"

definition snapshot_to_row :: "run_snapshot_record \<Rightarrow> storage_error + snapshot_row" where
  "snapshot_to_row s =
     result_bind (to_sql_id (rs_snapshot_id s)) (\<lambda>snapshot_id.
     result_bind (snapshot_option_columns (rs_options s)) (\<lambda>opts.
     (let prof = rs_profile s; auths = rs_authorizations s in
      Ok \<lparr>sr_snapshot_id = snapshot_id, sr_profile_name = prof_name prof,
          sr_peer_a = snapshot_peer_columns (peer_a prof),
          sr_peer_b = snapshot_peer_columns (peer_b prof),
          sr_volume_a = map_option volume_identity_to_blob (rs_volume_a s),
          sr_volume_b = map_option volume_identity_to_blob (rs_volume_b s),
          sr_mode = encode_mode (prof_mode prof), sr_source = encode_source (prof_source prof),
          sr_options = opts,
          sr_destructive = bool_to_int (allow_unattended_destructive auths),
          sr_permanent_removal = bool_to_int (allow_unattended_permanent_removal auths),
          sr_created_at = rs_created_at s, sr_exclusions = prof_exclusions prof,
          sr_blocked_reason = None, sr_review_cleared = 0, sr_source_recorded = 0,
          sr_destination_recorded = 0\<rparr>)))"

subsection \<open>Beginning a run\<close>

definition constraint_failed :: "string \<Rightarrow> storage_error" where
  "constraint_failed what = Sqlite (''UNIQUE constraint failed: '' @ what)"

definition checked_i64_succ :: "int \<Rightarrow> int option" where
  "checked_i64_succ v = (if v + 1 < 2 ^ 63 then Some (v + 1) else None)"

definition begin_run ::
  "'a run_tables_scheme \<Rightarrow> run_snapshot_record \<Rightarrow> storage_error + 'a run_tables_scheme" where
  "begin_run db s =
     result_bind (to_sql_id (rs_run_id s)) (\<lambda>run.
     result_bind (snapshot_to_row s) (\<lambda>row.
     if map_of (rt_rows db) run \<noteq> None
     then Err (constraint_failed ''run_snapshots.run_id'')
     else result_bind
       (ok_or (InvalidSnapshot ''run identifier is out of range'') (checked_i64_succ run))
       (\<lambda>next_run.
          Ok (db\<lparr>rt_rows := rt_rows db @ [(run, row)],
                rt_next_run_id := max (rt_next_run_id db) next_run\<rparr>))))"

definition highest_run :: "'a run_tables_scheme \<Rightarrow> int" where
  "highest_run db = (case rt_rows db of [] \<Rightarrow> 0 | _ \<Rightarrow> Max (set (map fst (rt_rows db))))"

definition allocate_run_id ::
  "'a run_tables_scheme \<Rightarrow> storage_error + nat \<times> 'a run_tables_scheme" where
  "allocate_run_id db =
     result_bind
       (ok_or (InvalidSnapshot ''run identifier is exhausted'') (checked_i64_succ (highest_run db)))
       (\<lambda>above.
     let next_run = max (rt_next_run_id db) above in
     result_bind
       (ok_or (InvalidSnapshot ''run identifier is exhausted'') (checked_i64_succ next_run))
       (\<lambda>following.
     if next_run < 0 then Err (InvalidSnapshot ''run identifier is invalid'')
     else Ok (nat next_run, db\<lparr>rt_next_run_id := following\<rparr>)))"

definition coalesce :: "'a option \<Rightarrow> 'a option \<Rightarrow> 'a option" where
  "coalesce x y = (case x of None \<Rightarrow> y | Some _ \<Rightarrow> x)"

definition run_not_found :: "nat \<Rightarrow> storage_error" where
  "run_not_found run = InvalidEvent (''run '' @ nat_str run @ '' does not exist'')"

definition fill_volumes :: "u64 option \<Rightarrow> u64 option \<Rightarrow> snapshot_row \<Rightarrow> snapshot_row" where
  "fill_volumes va vb row =
     row\<lparr>sr_volume_a := coalesce (sr_volume_a row) (map_option volume_identity_to_blob va),
        sr_volume_b := coalesce (sr_volume_b row) (map_option volume_identity_to_blob vb)\<rparr>"

text \<open>\<open>UPDATE run_snapshots ... WHERE run_id = ?\<close>, which has to change one row.\<close>

definition update_run_row ::
  "'a run_tables_scheme \<Rightarrow> nat \<Rightarrow> int \<Rightarrow> (snapshot_row \<Rightarrow> snapshot_row)
    \<Rightarrow> storage_error + 'a run_tables_scheme" where
  "update_run_row db i run f =
     (if map_of (rt_rows db) run = None then Err (run_not_found i)
      else Ok (db\<lparr>rt_rows :=
        map (\<lambda>(r, row). (r, if r = run then f row else row)) (rt_rows db)\<rparr>))"

definition record_run_volume_identities ::
  "'a run_tables_scheme \<Rightarrow> nat \<Rightarrow> u64 option \<Rightarrow> u64 option
    \<Rightarrow> storage_error + 'a run_tables_scheme" where
  "record_run_volume_identities db i va vb =
     result_bind (to_sql_id i) (\<lambda>run.
     update_run_row db i run (fill_volumes va vb))"

definition set_blocked :: "string \<Rightarrow> snapshot_row \<Rightarrow> snapshot_row" where
  "set_blocked reason row = row\<lparr>sr_blocked_reason := Some reason\<rparr>"

definition mark_blocked ::
  "'a run_tables_scheme \<Rightarrow> nat \<Rightarrow> string \<Rightarrow> storage_error + 'a run_tables_scheme" where
  "mark_blocked db i reason =
     result_bind (to_sql_id i) (\<lambda>run. update_run_row db i run (set_blocked reason))"

subsection \<open>Reading a snapshot back\<close>

text \<open>\<open>row.get\<close> of an unsigned integer of \<open>w\<close> bits.\<close>

definition get_u8 :: "int \<Rightarrow> storage_error + u8" where
  "get_u8 v = (if 0 \<le> v \<and> v < 2 ^ 8 then Ok (of_int v) else Err (Sqlite ''Integer out of range''))"

definition get_u16 :: "int \<Rightarrow> storage_error + u16" where
  "get_u16 v = (if 0 \<le> v \<and> v < 2 ^ 16 then Ok (of_int v) else Err (Sqlite ''Integer out of range''))"

definition get_id :: "int \<Rightarrow> storage_error + nat" where
  "get_id v = (if v < 0 then Err (Sqlite ''Integer out of range'') else Ok (nat v))"

text \<open>\<open>str::trim_start_matches\<close>: the prefix is taken off as often as it is there.\<close>

function trim_start_matches :: "string \<Rightarrow> string \<Rightarrow> string" where
  "trim_start_matches pre s =
     (if pre \<noteq> [] \<and> prefix pre s then trim_start_matches pre (drop (length pre) s) else s)"
  by pat_completeness auto
termination
  by (relation "measure (\<lambda>(pre, s). length s)") (auto simp: prefix_def)

declare trim_start_matches.simps [simp del]

text \<open>\<open>format!\<close> of the errors of a saved secret and of an SSH peer (their \<open>Display\<close>).\<close>

fun secret_error_str :: "secret_reference_error \<Rightarrow> string" where
  "secret_error_str SecretEmpty = ''saved secret reference must not be empty''"
| "secret_error_str SecretInvalid = ''saved secret reference contains unsupported characters''"
| "secret_error_str SecretTooLong = ''saved secret reference is too long''"

fun ssh_peer_error_str :: "ssh_peer_error \<Rightarrow> string" where
  "ssh_peer_error_str EmptyServer = ''SSH server must not be empty''"
| "ssh_peer_error_str InvalidServer = ''SSH server contains unsupported characters''"
| "ssh_peer_error_str EmptyUsername = ''SSH username must not be empty''"
| "ssh_peer_error_str InvalidUsername = ''SSH username contains unsupported characters''"
| "ssh_peer_error_str InvalidPort = ''SSH port must be between 1 and 65535''"
| "ssh_peer_error_str EmptyIdentity = ''SSH identity path must not be empty''"
| "ssh_peer_error_str NulInIdentity = ''SSH identity path contains NUL''"
| "ssh_peer_error_str MissingIdentityForKey =
     ''SSH key authentication requires a selected identity file''"
| "ssh_peer_error_str EmptyRemotePath = ''SSH remote path must not be empty''"
| "ssh_peer_error_str NulInRemotePath = ''SSH remote path contains NUL''"

definition decode_snapshot_authentication :: "string option \<Rightarrow> storage_error + ssh_authentication" where
  "decode_snapshot_authentication a =
     (case a of
        None \<Rightarrow> Err (CorruptEvidence ''SSH snapshot peer has no authentication'')
      | Some v \<Rightarrow>
          if v = ''key'' then Ok Key
          else if v = ''agent'' then Ok Agent
          else if v = ''interactive_password'' then Ok InteractivePassword
          else if prefix SAVED_PASSWORD v
          then (case saved_secret_reference_new (trim_start_matches SAVED_PASSWORD v) of
                  Err e \<Rightarrow> Err (corrupt ''invalid saved SSH secret reference in snapshot: ''
                            (secret_error_str e))
                | Ok r \<Rightarrow> Ok (SavedPassword r))
          else Err (corrupt ''unsupported SSH authentication '' v))"


text \<open>\<open>decode_snapshot_peer\<close>, its port already read as \<open>u16\<close>.\<close>

definition decode_snapshot_peer :: "peer_columns \<Rightarrow> u16 option \<Rightarrow> storage_error + peer" where
  "decode_snapshot_peer c prt =
     result_bind (blob_to_path (pk_root c)) (\<lambda>root.
     if pk_kind c = ''local'' then Ok (peer_new (pk_name c) root)
     else if pk_kind c = ''ssh'' then
       result_bind (ok_or (CorruptEvidence ''SSH snapshot peer has no server'') (pk_server c)) (\<lambda>srv.
       result_bind (ok_or (CorruptEvidence ''SSH snapshot peer has no username'') (pk_username c)) (\<lambda>user.
       result_bind (ok_or (CorruptEvidence ''SSH snapshot peer has no port'') prt) (\<lambda>q.
       result_bind (decode_snapshot_authentication (pk_authentication c)) (\<lambda>auth.
       result_bind (convert blob_to_path (pk_identity c)) (\<lambda>ident.
       (case ssh_peer_new srv user q ident auth (to_string_lossy (path_str root)) of
          Err e \<Rightarrow> Err (corrupt ''invalid SSH peer in run snapshot: '' (ssh_peer_error_str e))
        | Ok ssh \<Rightarrow> Ok (peer_from_ssh (pk_name c) ssh)))))))
     else Err (corrupt ''unsupported snapshot endpoint kind '' (pk_kind c)))"

definition decode_snapshot_mode :: "string \<Rightarrow> storage_error + sync_mode" where
  "decode_snapshot_mode m =
     (if m = ''one_way'' then Ok OneWay else if m = ''mirror'' then Ok Mirror
      else Err (corrupt ''unsupported stored sync mode '' m))"

interpretation snapshot_mode: canonical_codec encode_mode decode_snapshot_mode
proof
  fix x show "decode_snapshot_mode (encode_mode x) = Ok x"
    by (cases x) (simp_all add: decode_snapshot_mode_def)
next
  fix c x assume "decode_snapshot_mode c = Ok x"
  then show "c = encode_mode x"
    by (auto simp: decode_snapshot_mode_def split: if_splits)
qed

text \<open>The columns of a row that \<open>row.get\<close> converts to a narrower type before anything
  is decoded.\<close>

record snapshot_numbers =
  sn_snapshot_id :: nat
  sn_port_a :: "u16 option"
  sn_port_b :: "u16 option"
  sn_attempts :: u8
  sn_delay :: u64
  sn_bandwidth :: "u64 option"

definition read_snapshot_numbers :: "snapshot_row \<Rightarrow> storage_error + snapshot_numbers" where
  "read_snapshot_numbers row =
     result_bind (get_id (sr_snapshot_id row)) (\<lambda>i.
     result_bind (convert get_u16 (pk_port (sr_peer_a row))) (\<lambda>qa.
     result_bind (convert get_u16 (pk_port (sr_peer_b row))) (\<lambda>qb.
     result_bind (get_u8 (ok_max_attempts (sr_options row))) (\<lambda>attempts.
     result_bind (from_sql_u64 (ok_delay_millis (sr_options row))) (\<lambda>delay.
     result_bind (convert from_sql_u64 (ok_bandwidth (sr_options row))) (\<lambda>bandwidth.
      Ok \<lparr>sn_snapshot_id = i, sn_port_a = qa, sn_port_b = qb, sn_attempts = attempts,
          sn_delay = delay, sn_bandwidth = bandwidth\<rparr>))))))"

definition read_snapshot_options ::
  "option_columns \<Rightarrow> snapshot_numbers \<Rightarrow> storage_error + sync_options" where
  "read_snapshot_options c n =
     result_bind (convert decode_deletion_method (ok_deletion_method c)) (\<lambda>dm.
     result_bind (decode_partial_transfer_policy (ok_partial_policy c)) (\<lambda>policy.
      Ok \<lparr>opt_safe_delete = from_sql_bool (ok_safe_delete c),
          opt_destination_cleanup = from_sql_bool (ok_destination_cleanup c),
          opt_deletion_method = dm,
          opt_metadata =
            with_specialist_metadata
              (metadata_requirements_new (from_sql_bool (ok_file_type c))
                 (from_sql_bool (ok_executable c)) (from_sql_bool (ok_symlinks c))
                 (from_sql_bool (ok_timestamps c)))
              \<lparr>ownership = from_sql_bool (ok_ownership c),
               access_control_lists = from_sql_bool (ok_acls c),
               extended_attributes = from_sql_bool (ok_xattrs c)\<rparr>,
          opt_partial_transfer_policy = policy,
          opt_retry_policy =
            \<lparr>max_attempts = sn_attempts n, initial_delay = unat (sn_delay n) * 1000000\<rparr>,
          opt_bandwidth_limit = sn_bandwidth n\<rparr>))"

definition read_snapshot_profile :: "snapshot_row \<Rightarrow> snapshot_numbers \<Rightarrow> storage_error + sync_profile" where
  "read_snapshot_profile row n =
     result_bind (decode_snapshot_peer (sr_peer_a row) (sn_port_a n)) (\<lambda>a.
     result_bind (decode_snapshot_peer (sr_peer_b row) (sn_port_b n)) (\<lambda>b.
     result_bind (decode_snapshot_mode (sr_mode row)) (\<lambda>mode.
     result_bind (decode_source (sr_source row)) (\<lambda>source.
     result_bind (read_snapshot_options (sr_options row) n) (\<lambda>opts.
      Ok (with_exclusions
           (with_options (with_source (with_mode (sync_profile_new (sr_profile_name row) a b) mode)
              source) opts)
           (sr_exclusions row)))))))"

definition snapshot_from_row ::
  "(path \<Rightarrow> bool) \<Rightarrow> clock \<Rightarrow> nat \<Rightarrow> snapshot_row \<Rightarrow> storage_error + run_snapshot_record" where
  "snapshot_from_row is_dir clock i row =
     result_bind (read_snapshot_numbers row) (\<lambda>n.
     result_bind (read_snapshot_profile row n) (\<lambda>prof.
     result_bind (decode_volume_identity (sr_volume_a row)) (\<lambda>va.
     result_bind (decode_volume_identity (sr_volume_b row)) (\<lambda>vb.
     result_bind
       (snapshot_with_volumes is_dir clock i prof
          \<lparr>allow_unattended_destructive = from_sql_bool (sr_destructive row),
           allow_unattended_permanent_removal = from_sql_bool (sr_permanent_removal row)\<rparr> va vb)
       (\<lambda>s. Ok (s\<lparr>rs_snapshot_id := sn_snapshot_id n, rs_created_at := sr_created_at row\<rparr>))))))"

definition load_snapshot ::
  "(path \<Rightarrow> bool) \<Rightarrow> clock \<Rightarrow> 'a run_tables_scheme \<Rightarrow> nat \<Rightarrow> storage_error + run_snapshot_record" where
  "load_snapshot is_dir clock db i =
     result_bind (to_sql_id i) (\<lambda>run.
     (case map_of (rt_rows db) run of
        None \<Rightarrow> Err (run_not_found i)
      | Some row \<Rightarrow> snapshot_from_row is_dir clock i row))"

subsection \<open>Round trips of the columns\<close>

lemma from_le_bytes_le_bytes: "from_le_bytes (le_bytes k n) = n mod 256 ^ k"
proof (induction k arbitrary: n)
  case (Suc k)
  have "n mod 256 + 256 * (n div 256 mod 256 ^ k) = n mod (256 * 256 ^ k)"
    by (simp add: mod_mult2_eq)
  with Suc show ?case by simp
qed simp

lemma length_le_bytes [simp]: "length (le_bytes k n) = k"
  by (induction k arbitrary: n) simp_all

lemma unat_mod_u64: "unat (v :: u64) mod 256 ^ 8 = unat v"
  using unsigned_less[of v, where 'a = nat] by simp

lemma volume_identity_round_trip [simp]:
  "decode_volume_identity (map_option volume_identity_to_blob v) = Ok v"
  by (cases v) (simp_all add: decode_volume_identity_def volume_identity_to_blob_def
      from_le_bytes_le_bytes unat_mod_u64[simplified])

lemma from_sql_bool_to_int [simp]: "from_sql_bool (bool_to_int b) = b"
  by (simp add: from_sql_bool_def bool_to_int_def)

lemma convert_round_trip:
  "(\<And>y. x = Some y \<Longrightarrow> dec (enc y) = Ok y) \<Longrightarrow> convert dec (map_option enc x) = Ok x"
  by (cases x) (simp_all add: convert_def)

lemma get_u16_uint [simp]: "get_u16 (uint q) = Ok q"
  using uint_lt2p[of q] by (simp add: get_u16_def)

lemma get_u8_uint [simp]: "get_u8 (uint q) = Ok q"
  using uint_lt2p[of q] by (simp add: get_u8_def)

lemma to_from_sql_u64: "to_sql_u64 n = Ok v \<Longrightarrow> from_sql_u64 v = Ok n"
  by (auto simp: to_sql_u64_def from_sql_u64_def split: if_splits)

lemma to_sql_u64_get_id: "to_sql_id n = Ok v \<Longrightarrow> get_id v = Ok n"
  by (auto simp: to_sql_id_def get_id_def split: if_splits)

lemma convert_to_from_sql_u64: "convert to_sql_u64 x = Ok v \<Longrightarrow> convert from_sql_u64 v = Ok x"
  by (cases x) (auto simp: convert_def to_from_sql_u64)

subsection \<open>A snapshot is read back as it was taken\<close>

text \<open>What the constructors of a peer guarantee of it: paths the library can produce, an SSH
  peer \<open>SshPeer::new\<close> accepts with a path that came from a \<open>String\<close>, and a
  reference \<open>SavedSecretReference::new\<close> accepts.\<close>

definition authentication_wf :: "ssh_authentication \<Rightarrow> bool" where
  "authentication_wf a =
     (case a of SavedPassword r \<Rightarrow> saved_secret_reference_new (secret_id r) = Ok r | _ \<Rightarrow> True)"

definition peer_storable :: "peer \<Rightarrow> bool" where
  "peer_storable p =
     (case endpoint p of
        Local root \<Rightarrow> path_wf root
      | Ssh ssh \<Rightarrow> ssh_peer_wf ssh \<and> path_wf (remote_path ssh) \<and>
          is_utf8 (path_str (remote_path ssh)) \<and> is_none_or path_wf (identity ssh) \<and>
          authentication_wf (authentication ssh))"

definition whole_millis :: "duration \<Rightarrow> bool" where
  "whole_millis d = (d mod 1000000 = 0)"

definition profile_storable :: "sync_profile \<Rightarrow> bool" where
  "profile_storable prof =
     (peer_storable (peer_a prof) \<and> peer_storable (peer_b prof) \<and>
      whole_millis (initial_delay (opt_retry_policy (prof_options prof))))"

lemma trim_start_once:
  assumes "pre \<noteq> []" "\<not> prefix pre s"
  shows "trim_start_matches pre (pre @ s) = s"
  using assms by (subst trim_start_matches.simps) (simp add: trim_start_matches.simps[of pre s])

lemma secret_no_colon:
  assumes "saved_secret_reference_new i = Ok r"
  shows "r = \<lparr>secret_id = i\<rparr>" "CHR '':'' \<notin> set i"
proof -
  from assms show "r = \<lparr>secret_id = i\<rparr>"
    by (auto simp: saved_secret_reference_new_def split: if_splits)
  from assms have "list_all is_secret_char i"
    by (auto simp: saved_secret_reference_new_def split: if_splits)
  then show "CHR '':'' \<notin> set i"
    by (auto simp: list_all_iff is_secret_char_def dest!: bspec byte_not_special(4))
qed

lemma secret_not_prefixed: "CHR '':'' \<notin> set i \<Longrightarrow> \<not> prefix SAVED_PASSWORD i"
  by (auto simp: SAVED_PASSWORD_def prefix_def)

lemma snapshot_authentication_round_trip [simp]:
  "authentication_wf a \<Longrightarrow> decode_snapshot_authentication (Some (authentication_text a)) = Ok a"
proof (cases a)
  case (SavedPassword r)
  assume "authentication_wf a"
  with SavedPassword have r: "saved_secret_reference_new (secret_id r) = Ok r"
    by (simp add: authentication_wf_def)
  have "trim_start_matches SAVED_PASSWORD (SAVED_PASSWORD @ secret_id r) = secret_id r"
    by (rule trim_start_once) (simp_all add: SAVED_PASSWORD_def[symmetric]
        secret_not_prefixed[OF secret_no_colon(2)[OF r]], simp add: SAVED_PASSWORD_def)
  with SavedPassword r show ?thesis
    by (simp add: decode_snapshot_authentication_def authentication_text_def)
       (simp add: SAVED_PASSWORD_def)
qed (simp_all add: decode_snapshot_authentication_def authentication_text_def)

lemma nul_in_join: "NUL \<in> set (join_with ''/'' ss) \<Longrightarrow> \<exists>s \<in> set ss. NUL \<in> set s"
  by (induction "''/''" ss rule: join_with.induct) auto

lemma nul_in_component_str: "NUL \<in> set (component_str c) \<Longrightarrow> NUL \<in> set (component_name c)"
  by (cases c) (auto simp: component_str_def)

lemma path_str_no_nul: "\<not> path_contains_nul p \<Longrightarrow> NUL \<notin> set (path_str p)"
  by (cases p; cases "hd p")
     (auto simp: path_str_def path_contains_nul_def dest!: nul_in_join nul_in_component_str)

lemma snapshot_peer_round_trip [simp]:
  assumes "peer_storable p"
  shows "decode_snapshot_peer (snapshot_peer_columns p)
    (map_option port (peer_ssh_peer p)) = Ok p"
proof (cases "endpoint p")
  case (Local root)
  with assms show ?thesis
    by (cases p) (simp add: decode_snapshot_peer_def snapshot_peer_columns_def peer_storable_def
        endpoint_kind_def is_ssh_def peer_root_def peer_new_def)
next
  case (Ssh ssh)
  with assms have wf: "ssh_peer_wf ssh" "path_wf (remote_path ssh)"
      "is_utf8 (path_str (remote_path ssh))" "is_none_or path_wf (identity ssh)"
      "authentication_wf (authentication ssh)"
    by (simp_all add: peer_storable_def)
  have i: "convert blob_to_path (map_option path_to_blob (identity ssh)) = Ok (identity ssh)"
    using wf(4) by (cases "identity ssh") (simp_all add: convert_def)
  have n: "ssh_peer_new (server ssh) (username ssh) (port ssh) (identity ssh) (authentication ssh)
      (to_string_lossy (path_str (remote_path ssh))) = Ok ssh"
    using wf by (cases ssh) (simp add: ssh_peer_new_fields to_string_lossy_utf8 components_path_str
        path_str_no_nul ssh_peer_wf_def cong: option.case_cong)
  show ?thesis
    using Ssh wf i n
    by (cases p) (simp add: decode_snapshot_peer_def snapshot_peer_columns_def endpoint_kind_def
        is_ssh_def peer_root_def endpoint_server_def endpoint_username_def endpoint_identity_def
        endpoint_authentication_def peer_ssh_peer_def peer_from_ssh_def)
qed

lemma snapshot_port_round_trip [simp]:
  "convert get_u16 (pk_port (snapshot_peer_columns p)) = Ok (map_option port (peer_ssh_peer p))"
  by (cases "peer_ssh_peer p") (simp_all add: snapshot_peer_columns_def endpoint_port_def convert_def)

text \<open>Validation leaves the options as they are and bounds the delay.\<close>

lemma validated_option_fields:
  assumes "validate_options opts = Ok v"
  shows "v = \<lparr>val_safe_delete = opt_safe_delete opts,
      val_destination_cleanup = opt_destination_cleanup opts,
      val_deletion_method = opt_deletion_method opts, val_metadata = opt_metadata opts,
      val_partial_transfer_policy = opt_partial_transfer_policy opts,
      val_retry_policy = opt_retry_policy opts, val_bandwidth_limit = opt_bandwidth_limit opts\<rparr>"
    "initial_delay (opt_retry_policy opts) \<le> MAX_INITIAL_DELAY"
  using assms by (simp_all add: validate_options_Ok)

lemma spec_for_run_options:
  "spec_from_profile_for_run is_dir prof = Ok spec \<Longrightarrow>
     validate_options (prof_options prof) = Ok (spec_options spec)"
  by (auto simp: spec_from_profile_for_run_def spec_from_profile_def assemble_spec_def Let_def
      split: if_split_asm)

lemma option_columns_round_trip:
  assumes "validate_options opts = Ok v" "snapshot_option_columns v = Ok c"
    "whole_millis (initial_delay (opt_retry_policy opts))"
  obtains delay bandwidth where
    "get_u8 (ok_max_attempts c) = Ok (max_attempts (opt_retry_policy opts))"
    "from_sql_u64 (ok_delay_millis c) = Ok delay"
    "convert from_sql_u64 (ok_bandwidth c) = Ok (opt_bandwidth_limit opts)"
    "\<And>n :: snapshot_numbers. sn_attempts n = max_attempts (opt_retry_policy opts) \<Longrightarrow> sn_delay n = delay \<Longrightarrow>
       sn_bandwidth n = opt_bandwidth_limit opts \<Longrightarrow> read_snapshot_options c n = Ok opts"
proof -
  note v = validated_option_fields[OF assms(1)]
  let ?d = "initial_delay (opt_retry_policy opts)"
  let ?w = "of_nat (delay_millis ?d) :: u64"
  have "delay_millis ?d < 2 ^ 64"
    using v(2) by (simp add: delay_millis_def MAX_INITIAL_DELAY_def NANOS_PER_SECOND_def)
  then have u: "unat ?w * 1000000 = ?d"
    using assms(3) by (simp add: unat_of_nat delay_millis_def whole_millis_def) (metis mod_0_imp_dvd dvd_div_mult_self)
  from assms(2) v(1) obtain millis bandwidth where
    c: "to_sql_u64 ?w = Ok millis" "convert to_sql_u64 (opt_bandwidth_limit opts) = Ok bandwidth"
    and cc: "c = \<lparr>ok_safe_delete = bool_to_int (opt_safe_delete opts),
          ok_destination_cleanup = bool_to_int (opt_destination_cleanup opts),
          ok_deletion_method = map_option encode_deletion_method (opt_deletion_method opts),
          ok_file_type = bool_to_int (req_file_type (opt_metadata opts)),
          ok_executable = bool_to_int (req_executable_permissions (opt_metadata opts)),
          ok_symlinks = bool_to_int (req_symlink_targets (opt_metadata opts)),
          ok_timestamps = bool_to_int (req_timestamps (opt_metadata opts)),
          ok_ownership = bool_to_int (ownership (req_specialist (opt_metadata opts))),
          ok_acls = bool_to_int (access_control_lists (req_specialist (opt_metadata opts))),
          ok_xattrs = bool_to_int (extended_attributes (req_specialist (opt_metadata opts))),
          ok_partial_policy = encode_partial_transfer_policy (opt_partial_transfer_policy opts),
          ok_max_attempts = uint (max_attempts (opt_retry_policy opts)),
          ok_delay_millis = millis, ok_bandwidth = bandwidth\<rparr>"
    by (auto simp: snapshot_option_columns_def Let_def)
  have d: "convert decode_deletion_method (map_option encode_deletion_method (opt_deletion_method opts)) =
      Ok (opt_deletion_method opts)"
    by (rule convert_round_trip) simp
  show thesis
  proof (rule that[of ?w])
    fix n :: snapshot_numbers assume "sn_attempts n = max_attempts (opt_retry_policy opts)" "sn_delay n = ?w"
      "sn_bandwidth n = opt_bandwidth_limit opts"
    then show "read_snapshot_options c n = Ok opts"
      using d u by (cases opts, cases "opt_retry_policy opts", cases "opt_metadata opts",
          cases "req_specialist (opt_metadata opts)")
        (simp add: cc read_snapshot_options_def with_specialist_metadata_def metadata_requirements_new_def)
  qed (simp_all add: cc to_from_sql_u64[OF c(1)] convert_to_from_sql_u64[OF c(2)])
qed

lemma snapshot_with_volumes_Ok:
  "snapshot_with_volumes is_dir clock i prof auths va vb = Ok s \<longleftrightarrow>
     (\<exists>spec now. spec_from_profile_for_run is_dir prof = Ok spec \<and> clock = Ok now \<and>
        (allow_unattended_permanent_removal auths \<longrightarrow>
           val_deletion_method (spec_options spec) = Some PermanentRemoval \<and>
           val_safe_delete (spec_options spec)) \<and>
        s = \<lparr>rs_run_id = i, rs_snapshot_id = i, rs_created_at = now, rs_profile = prof,
             rs_options = spec_options spec, rs_authorizations = auths,
             rs_volume_a = va, rs_volume_b = vb\<rparr>)"
  by (auto simp: snapshot_with_volumes_def split: sum.splits)

lemma begin_run_row:
  assumes "begin_run db s = Ok db'"
  obtains run row where "to_sql_id (rs_run_id s) = Ok run" "snapshot_to_row s = Ok row"
    "map_of (rt_rows db) run = None" "map_of (rt_rows db') run = Some row"
  using assms by (auto simp: begin_run_def map_add_def split: if_split_asm)

lemma snapshot_profile_round_trip:
  assumes "validate_options (prof_options prof) = Ok v" "snapshot_option_columns v = Ok c"
    "profile_storable prof"
    "sr_profile_name row = prof_name prof" "sr_peer_a row = snapshot_peer_columns (peer_a prof)"
    "sr_peer_b row = snapshot_peer_columns (peer_b prof)"
    "sr_mode row = encode_mode (prof_mode prof)" "sr_source row = encode_source (prof_source prof)"
    "sr_options row = c" "sr_exclusions row = prof_exclusions prof"
    "get_id (sr_snapshot_id row) = Ok i"
  obtains n where "read_snapshot_numbers row = Ok n" "sn_snapshot_id n = i"
    "read_snapshot_profile row n = Ok prof"
proof -
  from assms(3) have st: "peer_storable (peer_a prof)" "peer_storable (peer_b prof)"
      "whole_millis (initial_delay (opt_retry_policy (prof_options prof)))"
    by (simp_all add: profile_storable_def)
  from option_columns_round_trip[OF assms(1,2) st(3)] obtain delay where
    o: "get_u8 (ok_max_attempts c) = Ok (max_attempts (opt_retry_policy (prof_options prof)))"
      "from_sql_u64 (ok_delay_millis c) = Ok delay"
      "convert from_sql_u64 (ok_bandwidth c) = Ok (opt_bandwidth_limit (prof_options prof))"
      "\<And>n :: snapshot_numbers. sn_attempts n = max_attempts (opt_retry_policy (prof_options prof)) \<Longrightarrow>
         sn_delay n = delay \<Longrightarrow> sn_bandwidth n = opt_bandwidth_limit (prof_options prof) \<Longrightarrow>
         read_snapshot_options c n = Ok (prof_options prof)"
    by metis
  let ?n = "\<lparr>sn_snapshot_id = i, sn_port_a = map_option port (peer_ssh_peer (peer_a prof)),
      sn_port_b = map_option port (peer_ssh_peer (peer_b prof)),
      sn_attempts = max_attempts (opt_retry_policy (prof_options prof)), sn_delay = delay,
      sn_bandwidth = opt_bandwidth_limit (prof_options prof)\<rparr>"
  show thesis
  proof (rule that[of ?n])
    show "read_snapshot_numbers row = Ok ?n"
      using assms o(1-3) by (simp add: read_snapshot_numbers_def)
    show "read_snapshot_profile row ?n = Ok prof"
      using assms st o(4)[of ?n] by (cases prof) (simp add: read_snapshot_profile_def
          sync_profile_new_def with_mode_def with_source_def with_options_def with_exclusions_def)
  qed simp
qed

lemma begun_snapshot_loads:
  assumes "snapshot_with_volumes is_dir clock i prof auths va vb = Ok s"
    and "profile_storable prof"
    and "begin_run db s = Ok db'"
    and "spec_from_profile_for_run is_dir' prof = Ok spec"
    and "clock' = Ok now"
  shows "load_snapshot is_dir' clock' db' i = Ok s"
proof -
  from assms(1) obtain spec0 now0 where
    s: "s = \<lparr>rs_run_id = i, rs_snapshot_id = i, rs_created_at = now0, rs_profile = prof,
             rs_options = spec_options spec0, rs_authorizations = auths,
             rs_volume_a = va, rs_volume_b = vb\<rparr>"
    and spec0: "spec_from_profile_for_run is_dir prof = Ok spec0"
    and auths: "allow_unattended_permanent_removal auths \<longrightarrow>
           val_deletion_method (spec_options spec0) = Some PermanentRemoval \<and>
           val_safe_delete (spec_options spec0)"
    by (auto simp: snapshot_with_volumes_Ok)
  have same: "spec_options spec = spec_options spec0"
    using spec_for_run_options[OF spec0] spec_for_run_options[OF assms(4)] by simp
  obtain run row where r: "to_sql_id i = Ok run" "snapshot_to_row s = Ok row"
      "map_of (rt_rows db') run = Some row"
    using begin_run_row[OF assms(3)] unfolding s by (metis run_snapshot_record.select_convs(1))
  from r(2) obtain sid c where c: "to_sql_id i = Ok sid" "snapshot_option_columns (spec_options spec0) = Ok c"
    and row: "row = \<lparr>sr_snapshot_id = sid, sr_profile_name = prof_name prof,
          sr_peer_a = snapshot_peer_columns (peer_a prof),
          sr_peer_b = snapshot_peer_columns (peer_b prof),
          sr_volume_a = map_option volume_identity_to_blob va,
          sr_volume_b = map_option volume_identity_to_blob vb,
          sr_mode = encode_mode (prof_mode prof), sr_source = encode_source (prof_source prof),
          sr_options = c,
          sr_destructive = bool_to_int (allow_unattended_destructive auths),
          sr_permanent_removal = bool_to_int (allow_unattended_permanent_removal auths),
          sr_created_at = now0, sr_exclusions = prof_exclusions prof,
          sr_blocked_reason = None, sr_review_cleared = 0, sr_source_recorded = 0,
          sr_destination_recorded = 0\<rparr>"
    by (auto simp: s snapshot_to_row_def Let_def)
  have cols: "sr_profile_name row = prof_name prof" "sr_peer_a row = snapshot_peer_columns (peer_a prof)"
    "sr_peer_b row = snapshot_peer_columns (peer_b prof)"
    "sr_mode row = encode_mode (prof_mode prof)" "sr_source row = encode_source (prof_source prof)"
    "sr_options row = c" "sr_exclusions row = prof_exclusions prof"
    "get_id (sr_snapshot_id row) = Ok i"
    by (simp_all add: row to_sql_u64_get_id[OF c(1)])
  obtain n where n: "read_snapshot_numbers row = Ok n" "sn_snapshot_id n = i"
      "read_snapshot_profile row n = Ok prof"
    by (rule snapshot_profile_round_trip[OF spec_for_run_options[OF spec0] c(2) assms(2) cols])
  have a: "\<lparr>allow_unattended_destructive = from_sql_bool (sr_destructive row),
      allow_unattended_permanent_removal = from_sql_bool (sr_permanent_removal row)\<rparr> = auths"
    by (cases auths) (simp add: row)
  have w: "snapshot_with_volumes is_dir' clock' i prof auths va vb =
      Ok (s\<lparr>rs_created_at := now\<rparr>)"
    using assms(4,5) auths same by (simp add: snapshot_with_volumes_Ok s)
  have v: "decode_volume_identity (sr_volume_a row) = Ok va" "decode_volume_identity (sr_volume_b row) = Ok vb"
    by (simp_all add: row)
  have "snapshot_from_row is_dir' clock' i row =
      Ok (s\<lparr>rs_created_at := now, rs_snapshot_id := i, rs_created_at := sr_created_at row\<rparr>)"
    unfolding snapshot_from_row_def a n(1) result_bind_simps n(3) v w n(2) ..
  also have "s\<lparr>rs_created_at := now, rs_snapshot_id := i, rs_created_at := sr_created_at row\<rparr> = s"
    by (simp add: s row)
  finally show ?thesis
    using r(1,3) by (simp add: load_snapshot_def)
qed


definition example_ssh_profile :: sync_profile where
  "example_ssh_profile =
     (sync_profile_new ''work'' (peer_new ''laptop'' [RootDir, Normal ''a''])
        (peer_from_ssh ''server'' \<lparr>server = ''host'', username = ''user'', port = 22,
           identity = None, authentication = SavedPassword \<lparr>secret_id = ''ref''\<rparr>,
           remote_path = [RootDir, Normal ''b'']\<rparr>))
       \<lparr>prof_exclusions := [''x'']\<rparr>"

definition example_run_snapshot :: run_snapshot_record where
  "example_run_snapshot =
     \<lparr>rs_run_id = 5, rs_snapshot_id = 5, rs_created_at = 7, rs_profile = example_ssh_profile,
      rs_options =
        \<lparr>val_safe_delete = False, val_destination_cleanup = False, val_deletion_method = None,
         val_metadata = default_metadata_requirements, val_partial_transfer_policy = Cleanup,
         val_retry_policy = default_retry_policy, val_bandwidth_limit = None\<rparr>,
      rs_authorizations = default_authorization_snapshot,
      rs_volume_a = Some 300, rs_volume_b = None\<rparr>"

lemma example_spec_options:
  "(case spec_from_profile_for_run (\<lambda>_. d) example_ssh_profile of
      Ok spec \<Rightarrow> spec_options spec = rs_options example_run_snapshot | Err _ \<Rightarrow> False)"
  by (simp add: spec_from_profile_for_run_def spec_from_profile_def example_ssh_profile_def
      sync_profile_new_def Let_def validate_options_def default_sync_options_def
      default_retry_policy_def MAX_ATTEMPTS_def MAX_INITIAL_DELAY_def NANOS_PER_SECOND_def
      word_le_nat_alt is_ssh_def peer_new_def peer_from_ssh_def selected_source_def
      selected_destination_def process_destination_root_def peer_root_def path_contains_nul_def
      side_argument_at_path_def peer_ssh_peer_def ssh_target_from_peer_path_def assemble_spec_def
      validate_peer_path_def validate_exclusion_pattern_def example_run_snapshot_def)

lemma example_spec_ok:
  "\<exists>spec. spec_from_profile_for_run (\<lambda>_. d) example_ssh_profile = Ok spec \<and>
     spec_options spec = rs_options example_run_snapshot"
  using example_spec_options[of d] by (auto split: sum.splits)

lemma example_profile_storable: "profile_storable example_ssh_profile"
  by (simp add: profile_storable_def example_ssh_profile_def sync_profile_new_def peer_storable_def
      peer_new_def peer_from_ssh_def path_wf_def inner_wf_def name_wf_def ssh_peer_wf_def
      is_valid_ssh_server_def is_valid_ssh_username_def path_contains_nul_def path_str_def
      component_str_def is_utf8_ascii authentication_wf_def saved_secret_reference_new_def
      MAX_SECRET_LENGTH_def is_secret_char_def whole_millis_def default_sync_options_def
      default_retry_policy_def is_ascii_alphanumeric_def is_ascii_alphabetic_def
      is_ascii_digit_def SLASH_def prefix_def suffix_def)

lemma example_run_snapshot_taken:
  "snapshot_with_volumes (\<lambda>_. False) (Ok 7) 5 example_ssh_profile default_authorization_snapshot
     (Some 300) None = Ok example_run_snapshot"
  using example_spec_ok[of False]
  by (auto simp: snapshot_with_volumes_Ok default_authorization_snapshot_def example_run_snapshot_def)


end
