(* ===== verification/SchedulerStore.thy ===== *)
theory SchedulerStore
  imports RunSnapshot
begin

text \<open>
  What the scheduler leaves in the database (\<open>evidence.rs\<close>): the log of its events, each
  with the fixed text of its kind, the notification an event becomes, and the notices of missed
  occurrences with the decision of the user. The two tables extend the tables of the runs;
  their keys are \<open>AUTOINCREMENT\<close>, so the largest key ever given is part of the state.
  The partial index that allows one pending notice for a profile never refuses a row, because
  \<open>record_missed_schedule\<close> looks for a pending notice first. The column with the time a
  notice was created is written by SQL and never read; it is left out.
\<close>

subsection \<open>Event kinds\<close>

text \<open>The text \<open>{:?}\<close> prints for a string without escapes.\<close>

definition debug_str :: "string \<Rightarrow> string" where
  "debug_str s = CHR 0x22 # s @ [CHR 0x22]"

datatype scheduler_event_kind =
    SchedClaimed | SchedCompleted | SchedFailed | SchedCancelled
  | SchedInterrupted | SchedPendingReview | SchedReviewCleared | SchedMissed
  | SchedSkippedOverlap | SchedBlockedPreflight | SchedRetry | SchedRetryExhausted

fun encode_event_kind :: "scheduler_event_kind \<Rightarrow> string" where
  "encode_event_kind SchedClaimed = ''scheduled_run_claimed''"
| "encode_event_kind SchedCompleted = ''completed''"
| "encode_event_kind SchedFailed = ''failed''"
| "encode_event_kind SchedCancelled = ''cancelled''"
| "encode_event_kind SchedInterrupted = ''interrupted''"
| "encode_event_kind SchedPendingReview = ''pending_review''"
| "encode_event_kind SchedReviewCleared = ''review_cleared''"
| "encode_event_kind SchedMissed = ''missed''"
| "encode_event_kind SchedSkippedOverlap = ''skipped_overlap''"
| "encode_event_kind SchedBlockedPreflight = ''blocked_preflight''"
| "encode_event_kind SchedRetry = ''retry''"
| "encode_event_kind SchedRetryExhausted = ''retry_exhausted''"

fun event_label :: "scheduler_event_kind \<Rightarrow> string" where
  "event_label SchedClaimed = ''Scheduled Run claimed''"
| "event_label SchedCompleted = ''Scheduled Run completed''"
| "event_label SchedFailed = ''Scheduled Run failed''"
| "event_label SchedCancelled = ''Scheduled Run cancelled''"
| "event_label SchedInterrupted = ''Scheduled Run interrupted''"
| "event_label SchedPendingReview = ''Scheduled Run needs review''"
| "event_label SchedReviewCleared = ''Scheduled Run review cleared''"
| "event_label SchedMissed = ''Scheduled Run missed''"
| "event_label SchedSkippedOverlap = ''Scheduled Run skipped for overlap''"
| "event_label SchedBlockedPreflight = ''Scheduled Run blocked before mutation''"
| "event_label SchedRetry = ''Scheduled Run retried''"
| "event_label SchedRetryExhausted = ''Scheduled Run retries exhausted''"

fun event_reason :: "scheduler_event_kind \<Rightarrow> string" where
  "event_reason SchedClaimed = ''The scheduler claimed this occurrence for execution.''"
| "event_reason SchedCompleted = ''The Scheduled Run completed successfully.''"
| "event_reason SchedFailed = ''The Scheduled Run failed before all approved work completed.''"
| "event_reason SchedCancelled =
     ''The Scheduled Run was cancelled before all approved work completed.''"
| "event_reason SchedInterrupted =
     ''The Scheduled Run was interrupted before all approved work completed.''"
| "event_reason SchedPendingReview =
     ''The Scheduled Run completed with work that remains open for review.''"
| "event_reason SchedReviewCleared =
     ''The Scheduled Run review was explicitly cleared after reconciliation.''"
| "event_reason SchedMissed =
     ''The Scheduled Run did not complete and remains visible for catch-up review.''"
| "event_reason SchedSkippedOverlap =
     ''The Scheduled Run was skipped because an overlapping peer scope is active.''"
| "event_reason SchedBlockedPreflight =
     ''The Scheduled Run was blocked before filesystem mutation by a safety preflight.''"
| "event_reason SchedRetry =
     ''A transient transfer condition caused the Scheduled Run to retry within its bound.''"
| "event_reason SchedRetryExhausted = ''The Scheduled Run exhausted its bounded retry policy.''"

fun event_next_action :: "scheduler_event_kind \<Rightarrow> string" where
  "event_next_action SchedClaimed = ''Open the Run Report after execution settles.''"
| "event_next_action SchedCompleted =
     ''Open the Run Report to review verification and reconciliation evidence.''"
| "event_next_action SchedFailed =
     ''Open the Run Report, resolve the reported failure, and retry after review.''"
| "event_next_action SchedCancelled =
     ''Open the Run Report and review the unfinished actions before retrying.''"
| "event_next_action SchedInterrupted =
     ''Open the Run Report and complete Recovery Review before resuming.''"
| "event_next_action SchedPendingReview =
     ''Open the Run Report and complete the required review before clearing it.''"
| "event_next_action SchedReviewCleared =
     ''Open the Run Report to review the final safety evidence.''"
| "event_next_action SchedMissed =
     ''Choose Run Now for fresh interactive analysis and confirmation, or choose Not Now.''"
| "event_next_action SchedSkippedOverlap =
     ''Open the running sync or wait for the overlapping scope to finish.''"
| "event_next_action SchedBlockedPreflight =
     ''Open the Run Report, resolve the preflight blocker, and retry.''"
| "event_next_action SchedRetry = ''Open the Run Report to review the bounded retry evidence.''"
| "event_next_action SchedRetryExhausted =
     ''Open the Run Report, resolve the cause, and retry after review.''"

definition decode_event_kind :: "string \<Rightarrow> storage_error + scheduler_event_kind" where
  "decode_event_kind s =
     (if s = ''scheduled_run_claimed'' then Ok SchedClaimed
      else if s = ''completed'' then Ok SchedCompleted
      else if s = ''failed'' then Ok SchedFailed
      else if s = ''cancelled'' then Ok SchedCancelled
      else if s = ''interrupted'' then Ok SchedInterrupted
      else if s = ''pending_review'' then Ok SchedPendingReview
      else if s = ''review_cleared'' then Ok SchedReviewCleared
      else if s = ''missed'' then Ok SchedMissed
      else if s = ''skipped_overlap'' then Ok SchedSkippedOverlap
      else if s = ''blocked_preflight'' then Ok SchedBlockedPreflight
      else if s = ''retry'' then Ok SchedRetry
      else if s = ''retry_exhausted'' then Ok SchedRetryExhausted
      else Err (corrupt ''unknown scheduler event kind '' (debug_str s)))"

interpretation event_kind: canonical_codec encode_event_kind decode_event_kind
proof
  fix x show "decode_event_kind (encode_event_kind x) = Ok x"
    by (cases x) (simp_all add: decode_event_kind_def)
next
  fix c x assume "decode_event_kind c = Ok x"
  then show "c = encode_event_kind x"
    by (auto simp: decode_event_kind_def split: if_splits)
qed

fun encode_missed_decision :: "missed_schedule_decision \<Rightarrow> string" where
  "encode_missed_decision Pending = ''pending''"
| "encode_missed_decision RunNow = ''run_now''"
| "encode_missed_decision NotNow = ''not_now''"

definition decode_missed_decision :: "string \<Rightarrow> storage_error + missed_schedule_decision" where
  "decode_missed_decision s =
     (if s = ''pending'' then Ok Pending
      else if s = ''run_now'' then Ok RunNow
      else if s = ''not_now'' then Ok NotNow
      else Err (corrupt ''unknown missed schedule decision '' (debug_str s)))"

interpretation missed_decision: canonical_codec encode_missed_decision decode_missed_decision
proof
  fix x show "decode_missed_decision (encode_missed_decision x) = Ok x"
    by (cases x) (simp_all add: decode_missed_decision_def)
next
  fix c x assume "decode_missed_decision c = Ok x"
  then show "c = encode_missed_decision x"
    by (auto simp: decode_missed_decision_def split: if_splits)
qed

subsection \<open>Tables\<close>

record event_row =
  er_profile :: int
  er_run :: int
  er_kind :: string
  er_reason :: string
  er_next_action :: string
  er_created_at :: int
  er_notice :: "int option"
  er_retry :: "int option"

record notice_row =
  nr_profile :: int
  nr_run :: int
  nr_first :: int
  nr_latest :: int
  nr_reason :: string
  nr_decision :: string
  nr_count :: int

record schedule_tables = run_tables +
  st_events :: "(int \<times> event_row) list"
  st_event_seq :: int
  st_notices :: "(int \<times> notice_row) list"
  st_notice_seq :: int

definition autoincrement :: "int \<Rightarrow> storage_error + int" where
  "autoincrement used =
     (if used + 1 < 2 ^ 63 then Ok (used + 1) else Err (Sqlite ''database or disk is full''))"

text \<open>\<open>CHECK (length(reason) > 0)\<close>: SQLite counts the characters before the first
  NUL.\<close>

definition check_reason :: "string \<Rightarrow> storage_error + unit" where
  "check_reason reason =
     (if reason = [] \<or> hd reason = NUL
      then Err (Sqlite ''CHECK constraint failed: length(reason) > 0'') else Ok ())"

subsection \<open>Events\<close>

record scheduler_event =
  se_id :: nat
  se_profile :: nat
  se_run :: nat
  se_kind :: scheduler_event_kind
  se_reason :: string
  se_next_action :: string
  se_created_at :: int
  se_notice :: "nat option"
  se_retry :: "u32 option"

datatype notification_action = OpenReport nat | StartInteractiveCatchUp nat

record scheduler_notification =
  sn_event :: nat
  sn_profile :: nat
  sn_run :: nat
  sn_kind :: scheduler_event_kind
  sn_title :: string
  sn_reason :: string
  sn_next_action :: string
  sn_action :: notification_action

definition event_notification :: "scheduler_event \<Rightarrow> scheduler_notification" where
  "event_notification e =
     \<lparr>sn_event = se_id e, sn_profile = se_profile e, sn_run = se_run e, sn_kind = se_kind e,
      sn_title = event_label (se_kind e), sn_reason = se_reason e,
      sn_next_action = se_next_action e,
      sn_action =
        (if se_kind e = SchedMissed
         then (case se_notice e of
                 Some n \<Rightarrow> StartInteractiveCatchUp n | None \<Rightarrow> OpenReport (se_run e))
         else OpenReport (se_run e))\<rparr>"

definition id_as_i64 :: "storage_error \<Rightarrow> nat \<Rightarrow> storage_error + int" where
  "id_as_i64 e n = (if n < 2 ^ 63 then Ok (int n) else Err e)"

definition profile_id_as_i64 :: "nat \<Rightarrow> storage_error + int" where
  "profile_id_as_i64 n = id_as_i64 (CorruptEvidence ''profile identifier is out of range'') n"

definition new_event ::
  "int \<Rightarrow> int \<Rightarrow> scheduler_event_kind \<Rightarrow> int \<Rightarrow> int option \<Rightarrow> u32 option \<Rightarrow> event_row" where
  "new_event profile run kind created notice retry =
     \<lparr>er_profile = profile, er_run = run, er_kind = encode_event_kind kind,
      er_reason = event_reason kind, er_next_action = event_next_action kind,
      er_created_at = created, er_notice = notice, er_retry = map_option uint retry\<rparr>"

definition insert_scheduler_event ::
  "'a schedule_tables_scheme \<Rightarrow> nat \<Rightarrow> nat \<Rightarrow> scheduler_event_kind \<Rightarrow> int \<Rightarrow> nat option \<Rightarrow> u32 option
    \<Rightarrow> storage_error + nat \<times> 'a schedule_tables_scheme" where
  "insert_scheduler_event db profile run kind created notice retry =
     result_bind (profile_id_as_i64 profile) (\<lambda>p.
     result_bind
       (id_as_i64 (InvalidEvent ''scheduler run identifier is out of range'') run) (\<lambda>r.
     if created < 0 then Err (InvalidEvent ''scheduler event time must be nonnegative'')
     else
     result_bind
       (convert (id_as_i64 (InvalidEvent ''scheduler notice identifier is out of range'')) notice)
       (\<lambda>n.
     result_bind (autoincrement (st_event_seq db)) (\<lambda>i.
     Ok (nat i, db\<lparr>st_events := st_events db @ [(i, new_event p r kind created n retry)],
                   st_event_seq := i\<rparr>)))))"

definition corrupt_id :: "string \<Rightarrow> int \<Rightarrow> storage_error + nat" where
  "corrupt_id what v = (if v < 0 then Err (CorruptEvidence what) else Ok (nat v))"

definition corrupt_u32 :: "string \<Rightarrow> int \<Rightarrow> storage_error + u32" where
  "corrupt_u32 what v =
     (if 0 \<le> v \<and> v < 2 ^ 32 then Ok (of_int v) else Err (CorruptEvidence what))"

definition decode_scheduler_event :: "int \<times> event_row \<Rightarrow> storage_error + scheduler_event" where
  "decode_scheduler_event entry =
     (case entry of (i, row) \<Rightarrow>
      result_bind (corrupt_id ''scheduler event id is invalid'' i) (\<lambda>event.
      result_bind (corrupt_id ''scheduler profile id is invalid'' (er_profile row)) (\<lambda>profile.
      result_bind (corrupt_id ''scheduler run id is invalid'' (er_run row)) (\<lambda>run.
      result_bind (convert (corrupt_id ''scheduler notice id is invalid'') (er_notice row)) (\<lambda>notice.
      result_bind (convert (corrupt_u32 ''scheduler retry count is invalid'') (er_retry row)) (\<lambda>retry.
      if er_created_at row < 0 \<or> trims_to_empty (er_reason row) \<or> trims_to_empty (er_next_action row)
      then Err (CorruptEvidence ''scheduler event contains invalid text or time'')
      else
      result_bind (decode_event_kind (er_kind row)) (\<lambda>kind.
      if er_reason row \<noteq> event_reason kind \<or> er_next_action row \<noteq> event_next_action kind
      then Err (CorruptEvidence ''scheduler event text does not match its kind'')
      else Ok \<lparr>se_id = event, se_profile = profile, se_run = run, se_kind = kind,
             se_reason = er_reason row, se_next_action = er_next_action row,
             se_created_at = er_created_at row, se_notice = notice, se_retry = retry\<rparr>)))))))"

definition load_scheduler_event ::
  "'a schedule_tables_scheme \<Rightarrow> nat \<Rightarrow> storage_error + scheduler_event option" where
  "load_scheduler_event db i =
     result_bind (id_as_i64 (InvalidEvent ''scheduler event identifier is out of range'') i) (\<lambda>k.
       convert decode_scheduler_event (map_option (\<lambda>row. (k, row)) (map_of (st_events db) k)))"

definition list_scheduler_events ::
  "'a schedule_tables_scheme \<Rightarrow> storage_error + scheduler_event list" where
  "list_scheduler_events db =
     collect_results decode_scheduler_event (sort_key (\<lambda>e. - fst e) (st_events db))"

definition record_scheduler_event ::
  "clock \<Rightarrow> 'a schedule_tables_scheme \<Rightarrow> nat \<Rightarrow> nat \<Rightarrow> scheduler_event_kind
    \<Rightarrow> storage_error + scheduler_event \<times> 'a schedule_tables_scheme" where
  "record_scheduler_event clock db profile run kind =
     result_bind clock (\<lambda>now.
     result_bind (insert_scheduler_event db profile run kind now None None) (\<lambda>(i, db').
     result_bind (load_scheduler_event db' i) (\<lambda>e.
     result_bind (ok_or (CorruptEvidence ''new scheduler event disappeared'') e) (\<lambda>event.
       Ok (event, db')))))"

datatype notification_delivery_error = NotificationUnavailable

text \<open>The sink is a parameter: what it answers for a notification.\<close>

definition deliver_scheduler_notification ::
  "'a schedule_tables_scheme \<Rightarrow> nat \<Rightarrow> (scheduler_notification \<Rightarrow> notification_delivery_error + 's)
    \<Rightarrow> notification_delivery_error + 's" where
  "deliver_scheduler_notification db i sink =
     (case load_scheduler_event db i of
        Ok (Some e) \<Rightarrow> sink (event_notification e)
      | _ \<Rightarrow> Err NotificationUnavailable)"

text \<open>The profile whose schedule claimed a run.\<close>

definition is_claim :: "int \<Rightarrow> event_row \<Rightarrow> bool" where
  "is_claim run row = (er_run row = run \<and> er_kind row = ''scheduled_run_claimed'')"

definition claiming_profile :: "'a schedule_tables_scheme \<Rightarrow> int \<Rightarrow> int option" where
  "claiming_profile db run =
     map_option (\<lambda>e. er_profile (snd e))
       (find (\<lambda>e. is_claim run (snd e)) (sort_key fst (st_events db)))"

definition record_scheduler_retry ::
  "clock \<Rightarrow> 'a schedule_tables_scheme \<Rightarrow> nat \<Rightarrow> u32 \<Rightarrow> bool
    \<Rightarrow> storage_error + 'a schedule_tables_scheme" where
  "record_scheduler_retry clock db run retries exhausted =
     (if retries = 0 then Ok db
      else
      result_bind (id_as_i64 (InvalidEvent ''scheduler run identifier is out of range'') run) (\<lambda>r.
      (case claiming_profile db r of
         None \<Rightarrow> Ok db
       | Some p \<Rightarrow>
           result_bind (corrupt_id ''scheduler profile id is invalid'' p) (\<lambda>profile.
           result_bind clock (\<lambda>now.
           result_bind
             (insert_scheduler_event db profile run
                (if exhausted then SchedRetryExhausted else SchedRetry) now None (Some retries))
             (\<lambda>(i, db'). Ok db'))))))"

definition is_scheduled_run :: "'a schedule_tables_scheme \<Rightarrow> nat \<Rightarrow> storage_error + bool" where
  "is_scheduled_run db run =
     result_bind (to_sql_id run) (\<lambda>r. Ok (list_ex (\<lambda>e. is_claim r (snd e)) (st_events db)))"

subsection \<open>Missed occurrences\<close>

record missed_schedule_notice =
  ms_id :: nat
  ms_profile :: nat
  ms_run :: nat
  ms_first :: int
  ms_latest :: int
  ms_reason :: string
  ms_decision :: missed_schedule_decision
  ms_count :: nat

definition decode_missed_notice :: "int \<times> notice_row \<Rightarrow> storage_error + missed_schedule_notice" where
  "decode_missed_notice entry =
     (case entry of (i, row) \<Rightarrow>
      result_bind (corrupt_id ''missed schedule notice id is invalid'' i) (\<lambda>notice.
      result_bind (corrupt_id ''missed schedule profile id is invalid'' (nr_profile row)) (\<lambda>profile.
      result_bind (corrupt_id ''missed schedule run id is invalid'' (nr_run row)) (\<lambda>run.
      result_bind (corrupt_id ''missed schedule count is invalid'' (nr_count row)) (\<lambda>missed.
      if nr_first row < 0 \<or> nr_latest row < nr_first row \<or> missed = 0 \<or> trims_to_empty (nr_reason row)
      then Err (CorruptEvidence ''missed schedule notice contains invalid values'')
      else
      result_bind (decode_missed_decision (nr_decision row)) (\<lambda>decision.
      Ok \<lparr>ms_id = notice, ms_profile = profile, ms_run = run, ms_first = nr_first row,
          ms_latest = nr_latest row, ms_reason = nr_reason row, ms_decision = decision,
          ms_count = missed\<rparr>))))))"

definition load_notice_by_key ::
  "'a schedule_tables_scheme \<Rightarrow> int \<Rightarrow> storage_error + missed_schedule_notice option" where
  "load_notice_by_key db k =
     convert decode_missed_notice (map_option (\<lambda>row. (k, row)) (map_of (st_notices db) k))"

definition notice_id_as_i64 :: "nat \<Rightarrow> storage_error + int" where
  "notice_id_as_i64 n = id_as_i64 (InvalidEvent ''notice identifier is out of range'') n"

definition load_missed_schedule_notice ::
  "'a schedule_tables_scheme \<Rightarrow> nat \<Rightarrow> storage_error + missed_schedule_notice option" where
  "load_missed_schedule_notice db i = result_bind (notice_id_as_i64 i) (load_notice_by_key db)"

definition is_pending :: "notice_row \<Rightarrow> bool" where
  "is_pending row = (nr_decision row = ''pending'')"

definition list_missed_schedule_notices ::
  "'a schedule_tables_scheme \<Rightarrow> storage_error + missed_schedule_notice list" where
  "list_missed_schedule_notices db =
     collect_results decode_missed_notice
       (sort_key (\<lambda>(i, row). (if is_pending row then 0 else 1 :: int, - nr_latest row, - i))
          (st_notices db))"

definition update_notice ::
  "int \<Rightarrow> (notice_row \<Rightarrow> notice_row) \<Rightarrow> (int \<times> notice_row) list \<Rightarrow> (int \<times> notice_row) list" where
  "update_notice k f ns = map (\<lambda>(i, row). (i, if i = k then f row else row)) ns"

definition coalesce_missed :: "int \<Rightarrow> string \<Rightarrow> notice_row \<Rightarrow> notice_row" where
  "coalesce_missed scheduled reason row =
     row\<lparr>nr_latest := max (nr_latest row) scheduled, nr_reason := reason,
        nr_count := nr_count row + 1\<rparr>"

definition new_notice :: "int \<Rightarrow> int \<Rightarrow> int \<Rightarrow> string \<Rightarrow> notice_row" where
  "new_notice profile run scheduled reason =
     \<lparr>nr_profile = profile, nr_run = run, nr_first = scheduled, nr_latest = scheduled,
      nr_reason = reason, nr_decision = ''pending'', nr_count = 1\<rparr>"

text \<open>The notice an occurrence is filed under: the one that was opened for its run, else the
  pending one of the profile, else a new one.\<close>

definition file_missed ::
  "'a schedule_tables_scheme \<Rightarrow> int \<Rightarrow> int \<Rightarrow> int \<Rightarrow> string
    \<Rightarrow> storage_error + int \<times> 'a schedule_tables_scheme" where
  "file_missed db profile run scheduled reason =
     (case find (\<lambda>n. nr_run (snd n) = run) (st_notices db) of
        Some (i, _) \<Rightarrow> Ok (i, db)
      | None \<Rightarrow>
          (case find (\<lambda>n. nr_profile (snd n) = profile \<and> is_pending (snd n)) (st_notices db) of
             Some (i, _) \<Rightarrow>
               result_bind (check_reason reason) (\<lambda>_.
                 Ok (i, db\<lparr>st_notices :=
                   update_notice i (coalesce_missed scheduled reason) (st_notices db)\<rparr>))
           | None \<Rightarrow>
               result_bind (check_reason reason) (\<lambda>_.
               result_bind (autoincrement (st_notice_seq db)) (\<lambda>i.
                 Ok (i, db\<lparr>st_notices := st_notices db @ [(i, new_notice profile run scheduled reason)],
                          st_notice_seq := i\<rparr>)))))"

definition is_missed_event :: "int \<Rightarrow> event_row \<Rightarrow> bool" where
  "is_missed_event run row = (er_run row = run \<and> er_kind row = ''missed'')"

definition announce_missed ::
  "'a schedule_tables_scheme \<Rightarrow> nat \<Rightarrow> nat \<Rightarrow> int \<Rightarrow> int \<Rightarrow> storage_error + 'a schedule_tables_scheme" where
  "announce_missed db profile run now notice =
     (if list_ex (\<lambda>e. is_missed_event (int run) (snd e)) (st_events db) then Ok db
      else if notice < 0
      then Err (InvalidEvent ''missed schedule notice identifier is out of range'')
      else
        result_bind (insert_scheduler_event db profile run SchedMissed now (Some (nat notice)) None)
          (\<lambda>(e, db'). Ok db'))"

definition record_missed_schedule ::
  "clock \<Rightarrow> 'a schedule_tables_scheme \<Rightarrow> nat \<Rightarrow> nat \<Rightarrow> int \<Rightarrow> string
    \<Rightarrow> storage_error + missed_schedule_notice \<times> 'a schedule_tables_scheme" where
  "record_missed_schedule clock db profile run scheduled reason =
     (if scheduled < 0 \<or> trims_to_empty reason
      then Err (InvalidEvent ''missed schedule notices require a nonnegative time and a reason'')
      else
      result_bind (profile_id_as_i64 profile) (\<lambda>p.
      result_bind
        (id_as_i64 (InvalidEvent ''missed schedule run identifier is out of range'') run) (\<lambda>r.
      result_bind clock (\<lambda>now.
      result_bind (file_missed db p r scheduled reason) (\<lambda>(i, db1).
      result_bind (announce_missed db1 profile run now i) (\<lambda>db2.
      result_bind (load_notice_by_key db2 i) (\<lambda>notice.
      result_bind (ok_or (CorruptEvidence ''new missed schedule notice disappeared'') notice)
        (\<lambda>n. Ok (n, db2)))))))))"

definition mark_missed_schedule_decision ::
  "'a schedule_tables_scheme \<Rightarrow> nat \<Rightarrow> missed_schedule_decision
    \<Rightarrow> storage_error + missed_schedule_notice \<times> 'a schedule_tables_scheme" where
  "mark_missed_schedule_decision db i decision =
     (if decision = Pending
      then Err (InvalidEvent ''a missed schedule decision must be Run Now or Not Now'')
      else
      result_bind (notice_id_as_i64 i) (\<lambda>k.
      result_bind
        (case map_of (st_notices db) k of
           None \<Rightarrow> Err (MissedScheduleNotFound i)
         | Some row \<Rightarrow>
             if is_pending row
             then Ok (db\<lparr>st_notices := update_notice k
                       (\<lambda>r. r\<lparr>nr_decision := encode_missed_decision decision\<rparr>) (st_notices db)\<rparr>)
             else
               result_bind (decode_missed_decision (nr_decision row)) (\<lambda>existing.
                 if existing \<noteq> decision then Err (MissedScheduleAlreadyDecided i existing)
                 else Ok db))
        (\<lambda>db'.
      result_bind (load_missed_schedule_notice db' i) (\<lambda>notice.
      result_bind (ok_or (MissedScheduleNotFound i) notice) (\<lambda>n. Ok (n, db'))))))"

subsection \<open>What the tables always hold\<close>

lemma not_trims_to_empty:
  assumes "byte c < 128" "\<not> is_whitespace (byte c)"
  shows "\<not> trims_to_empty (c # s)"
  using assms by (simp add: trims_to_empty_def utf8_decode_ascii)

lemma event_text_not_blank [simp]:
  "\<not> trims_to_empty (event_reason kind)" "\<not> trims_to_empty (event_next_action kind)"
  by (cases kind; simp add: not_trims_to_empty is_whitespace_def)+

lemma corrupt_id_Ok [simp]: "corrupt_id w v = Ok n \<longleftrightarrow> 0 \<le> v \<and> n = nat v"
  by (auto simp: corrupt_id_def)

lemma id_as_i64_Ok [simp]: "id_as_i64 e n = Ok v \<longleftrightarrow> n < 2 ^ 63 \<and> v = int n"
  by (auto simp: id_as_i64_def)

lemma autoincrement_Ok [simp]: "autoincrement u = Ok i \<longleftrightarrow> i = u + 1 \<and> i < 2 ^ 63"
  by (auto simp: autoincrement_def)

lemma convert_Ok: "convert f x = Ok y \<longleftrightarrow> (x = None \<and> y = None) \<or> (\<exists>v w. x = Some v \<and> f v = Ok w \<and> y = Some w)"
  by (cases x) (auto simp: convert_def)

lemma corrupt_u32_uint [simp]: "corrupt_u32 w (uint (n :: u32)) = Ok n"
  using uint_lt2p[of n] by (simp add: corrupt_u32_def)

definition event_reads :: "int \<times> event_row \<Rightarrow> bool" where
  "event_reads e = (\<exists>v. decode_scheduler_event e = Ok v)"

definition notice_reads :: "int \<times> notice_row \<Rightarrow> bool" where
  "notice_reads e = (\<exists>v. decode_missed_notice e = Ok v)"

lemma notice_reads_iff:
  "notice_reads (i, row) \<longleftrightarrow>
     0 \<le> i \<and> 0 \<le> nr_profile row \<and> 0 \<le> nr_run row \<and> 0 < nr_count row \<and> 0 \<le> nr_first row \<and>
     nr_first row \<le> nr_latest row \<and> \<not> trims_to_empty (nr_reason row) \<and>
     nr_decision row \<in> range encode_missed_decision"
  by (auto simp: notice_reads_def decode_missed_notice_def missed_decision.dec_Ok_iff)

definition pending_profiles :: "(int \<times> notice_row) list \<Rightarrow> int list" where
  "pending_profiles ns = map (\<lambda>n. nr_profile (snd n)) (filter (\<lambda>n. is_pending (snd n)) ns)"

definition keys_below :: "(int \<times> 'r) list \<Rightarrow> int \<Rightarrow> bool" where
  "keys_below rows used = (distinct (map fst rows) \<and> list_all (\<lambda>e. 0 < fst e \<and> fst e \<le> used) rows)"

definition schedule_inv :: "'a schedule_tables_scheme \<Rightarrow> bool" where
  "schedule_inv db =
     (list_all event_reads (st_events db) \<and> keys_below (st_events db) (st_event_seq db) \<and>
      0 \<le> st_event_seq db \<and>
      list_all notice_reads (st_notices db) \<and> keys_below (st_notices db) (st_notice_seq db) \<and>
      0 \<le> st_notice_seq db \<and>
      distinct (map (\<lambda>n. nr_run (snd n)) (st_notices db)) \<and>
      distinct (pending_profiles (st_notices db)))"

lemma keys_below_append:
  "keys_below rows used \<Longrightarrow> 0 \<le> used \<Longrightarrow> keys_below (rows @ [(used + 1, row)]) (used + 1)"
  by (fastforce simp: keys_below_def list_all_iff)

lemma map_fst_update_notice [simp]: "map fst (update_notice k f ns) = map fst ns"
  by (simp add: update_notice_def comp_def case_prod_beta)

lemma keys_below_update [simp]: "keys_below (update_notice k f ns) used = keys_below ns used"
proof -
  have "list_all (\<lambda>e. P (fst e)) (update_notice k f ns) = list_all (\<lambda>e. P (fst e)) ns" for P
    by (simp add: update_notice_def list.pred_map comp_def case_prod_beta)
  from this[of "\<lambda>i. 0 < i \<and> i \<le> used"] show ?thesis by (simp add: keys_below_def)
qed

lemma update_notice_simps [simp]:
  "update_notice k f [] = []"
  "update_notice k f ((i, row) # ns) = (i, if i = k then f row else row) # update_notice k f ns"
  by (simp_all add: update_notice_def)

lemma pending_profiles_simps [simp]:
  "pending_profiles [] = []"
  "pending_profiles ((i, row) # ns) =
     (if is_pending row then nr_profile row # pending_profiles ns else pending_profiles ns)"
  "pending_profiles (ns @ ms) = pending_profiles ns @ pending_profiles ms"
  by (simp_all add: pending_profiles_def)

lemma runs_update_notice:
  "(\<And>r. nr_run (f r) = nr_run r) \<Longrightarrow>
     map (\<lambda>n. nr_run (snd n)) (update_notice k f ns) = map (\<lambda>n. nr_run (snd n)) ns"
  by (simp add: update_notice_def comp_def case_prod_beta)

lemma pending_update_notice:
  assumes "\<And>r. nr_profile (f r) = nr_profile r" "\<And>r. is_pending (f r) = is_pending r"
  shows "pending_profiles (update_notice k f ns) = pending_profiles ns"
  using assms by (induction ns) (auto split: if_split_asm)

lemma pending_settle_notice:
  assumes "\<And>r. nr_profile (f r) = nr_profile r" "\<And>r. \<not> is_pending (f r)"
    "distinct (pending_profiles ns)"
  shows "distinct (pending_profiles (update_notice k f ns))"
proof -
  have sub: "set (pending_profiles (update_notice k f ns)) \<subseteq> set (pending_profiles ns)" for ns
    using assms(1,2) by (induction ns) (auto split: if_split_asm)
  from assms show ?thesis
    by (induction ns) (auto split: if_split_asm dest: subsetD[OF sub])
qed

lemma reads_update_notice:
  assumes "list_all notice_reads ns" "\<And>r. notice_reads (k, r) \<Longrightarrow> notice_reads (k, f r)"
  shows "list_all notice_reads (update_notice k f ns)"
  using assms by (auto simp: update_notice_def list_all_iff)

lemma new_event_reads:
  assumes "0 \<le> i" "0 \<le> p" "0 \<le> r" "0 \<le> t" "is_none_or (\<lambda>n. 0 \<le> n) n"
  shows "event_reads (i, new_event p r kind t n c)"
proof -
  have "convert (corrupt_id w) n = Ok (map_option nat n)" for w
    using assms(5) by (cases n) (simp_all add: convert_def corrupt_id_def)
  moreover have "convert (corrupt_u32 w) (map_option uint c) = Ok c" for w
    by (rule convert_round_trip) simp
  ultimately show ?thesis
    using assms by (simp add: event_reads_def decode_scheduler_event_def new_event_def)
qed

lemma insert_event_Ok:
  assumes "insert_scheduler_event db p r kind t n c = Ok (i, db')"
  obtains m where "db' = db\<lparr>st_events := st_events db @
        [(st_event_seq db + 1, new_event (int p) (int r) kind t m c)],
        st_event_seq := st_event_seq db + 1\<rparr>"
    "i = nat (st_event_seq db + 1)" "0 \<le> t" "m = map_option int n"
  using assms by (auto simp: insert_scheduler_event_def profile_id_as_i64_def convert_Ok
      split: if_split_asm)

lemma insert_event_inv:
  assumes "insert_scheduler_event db p r kind t n c = Ok (i, db')" "schedule_inv db"
  shows "schedule_inv db'" "st_notices db' = st_notices db"
proof -
  from insert_event_Ok[OF assms(1)] obtain m where
    d: "db' = db\<lparr>st_events := st_events db @
        [(st_event_seq db + 1, new_event (int p) (int r) kind t m c)],
        st_event_seq := st_event_seq db + 1\<rparr>" "0 \<le> t" "m = map_option int n" .
  then show "st_notices db' = st_notices db" by simp
  have "event_reads (st_event_seq db + 1, new_event (int p) (int r) kind t m c)"
    using d assms(2) by (intro new_event_reads) (cases n; simp add: schedule_inv_def)+
  with d assms(2) keys_below_append[of "st_events db" "st_event_seq db"]
  show "schedule_inv db'" by (simp add: schedule_inv_def)
qed

subsection \<open>Steps\<close>

text \<open>What the program does to the tables, with every answer of the clock.\<close>

inductive schedule_step :: "'a schedule_tables_scheme \<Rightarrow> 'a schedule_tables_scheme \<Rightarrow> bool" where
  inserted: "insert_scheduler_event db p r kind t n c = Ok (i, db') \<Longrightarrow> schedule_step db db'"
| recorded: "record_scheduler_event clock db p r kind = Ok (e, db') \<Longrightarrow> schedule_step db db'"
| retried: "record_scheduler_retry clock db r retries exhausted = Ok db' \<Longrightarrow> schedule_step db db'"
| missed: "record_missed_schedule clock db p r scheduled reason = Ok (n, db') \<Longrightarrow> schedule_step db db'"
| decided: "mark_missed_schedule_decision db i decision = Ok (n, db') \<Longrightarrow> schedule_step db db'"

lemma announce_missed_Ok:
  "announce_missed db p r now i = Ok db' \<Longrightarrow>
     db' = db \<or> (\<exists>t m e. insert_scheduler_event db p r SchedMissed t m None = Ok (e, db'))"
  by (auto simp: announce_missed_def split: if_split_asm)

lemma record_missed_Ok:
  assumes "record_missed_schedule clock db p r scheduled reason = Ok (n, db')"
  obtains i db1 now where "file_missed db (int p) (int r) scheduled reason = Ok (i, db1)"
    "announce_missed db1 p r now i = Ok db'" "0 \<le> scheduled" "\<not> trims_to_empty reason"
    "load_notice_by_key db' i = Ok (Some n)"
  using assms
  by (auto simp: record_missed_schedule_def profile_id_as_i64_def split: if_split_asm)

lemma file_missed_inv:
  assumes "file_missed db (int p) (int r) scheduled reason = Ok (i, db')" "schedule_inv db"
    "0 \<le> scheduled" "\<not> trims_to_empty reason"
  shows "schedule_inv db'"
proof (cases "find (\<lambda>n. nr_run (snd n) = int r) (st_notices db)")
  case (Some e)
  with assms show ?thesis by (cases e) (simp add: file_missed_def)
next
  case None
  then have fresh: "int r \<notin> set (map (\<lambda>n. nr_run (snd n)) (st_notices db))"
    unfolding find_None_iff by force
  show ?thesis
  proof (cases "find (\<lambda>n. nr_profile (snd n) = int p \<and> is_pending (snd n)) (st_notices db)")
    case (Some e)
    then obtain k row where e: "e = (k, row)" by (cases e)
    let ?f = "coalesce_missed scheduled reason"
    from Some None e assms(1) have d: "db' = db\<lparr>st_notices := update_notice k ?f (st_notices db)\<rparr>"
      by (auto simp: file_missed_def)
    have "list_all notice_reads (update_notice k ?f (st_notices db))"
      using assms by (intro reads_update_notice)
        (auto simp: schedule_inv_def notice_reads_iff coalesce_missed_def)
    moreover have "map (\<lambda>n. nr_run (snd n)) (update_notice k ?f (st_notices db)) =
        map (\<lambda>n. nr_run (snd n)) (st_notices db)"
      by (rule runs_update_notice) (simp add: coalesce_missed_def)
    moreover have "pending_profiles (update_notice k ?f (st_notices db)) = pending_profiles (st_notices db)"
      by (rule pending_update_notice) (simp_all add: coalesce_missed_def is_pending_def)
    ultimately show ?thesis using assms(2) d by (simp add: schedule_inv_def)
  next
    case pending: None
    then have "int p \<notin> set (pending_profiles (st_notices db))"
      by (auto simp: find_None_iff pending_profiles_def)
    moreover from pending None assms(1) have "db' = db\<lparr>st_notices := st_notices db @
        [(st_notice_seq db + 1, new_notice (int p) (int r) scheduled reason)],
        st_notice_seq := st_notice_seq db + 1\<rparr>"
      by (auto simp: file_missed_def)
    moreover have "0 \<le> st_notice_seq db \<Longrightarrow>
        notice_reads (st_notice_seq db + 1, new_notice (int p) (int r) scheduled reason)"
      using assms(3,4) by (auto simp: notice_reads_iff new_notice_def image_def intro: exI[of _ Pending])
    ultimately show ?thesis
      using assms(2) fresh keys_below_append[of "st_notices db" "st_notice_seq db"]
      by (auto simp: schedule_inv_def new_notice_def)
  qed
qed

lemma schedule_step_inv: "schedule_step db db' \<Longrightarrow> schedule_inv db \<Longrightarrow> schedule_inv db'"
proof (induction rule: schedule_step.induct)
  case (inserted db p r kind t n c i db')
  then show ?case by (rule insert_event_inv)
next
  case (recorded clock db p r kind e db')
  then obtain t i where "insert_scheduler_event db p r kind t None None = Ok (i, db')"
    by (auto simp: record_scheduler_event_def)
  then show ?case using recorded.prems by (rule insert_event_inv)
next
  case (retried clock db r retries exhausted db')
  then show ?case
    by (auto simp: record_scheduler_retry_def split: if_split_asm option.splits
        dest: insert_event_inv)
next
  case (missed clock db p r scheduled reason n db')
  obtain i db1 now where f: "file_missed db (int p) (int r) scheduled reason = Ok (i, db1)"
    and i: "announce_missed db1 p r now i = Ok db'"
    and r: "0 \<le> scheduled" "\<not> trims_to_empty reason"
    by (rule record_missed_Ok[OF missed.hyps])
  from file_missed_inv[OF f missed.prems r] announce_missed_Ok[OF i] show ?case by (blast intro: insert_event_inv(1))
next
  case (decided db i decision n db')
  let ?f = "\<lambda>r. r\<lparr>nr_decision := encode_missed_decision decision\<rparr>"
  from decided.hyps consider "db' = db"
    | k where "db' = db\<lparr>st_notices := update_notice k ?f (st_notices db)\<rparr>" "decision \<noteq> Pending"
    by (auto simp: mark_missed_schedule_decision_def split: if_split_asm option.splits)
  then show ?case
  proof cases
    case (2 k)
    have "\<not> is_pending (?f r)" for r
      using 2(2) by (cases decision) (simp_all add: is_pending_def)
    then have "distinct (pending_profiles (update_notice k ?f (st_notices db)))"
      using decided.prems by (intro pending_settle_notice) (simp_all add: schedule_inv_def)
    moreover have "map (\<lambda>n. nr_run (snd n)) (update_notice k ?f (st_notices db)) =
        map (\<lambda>n. nr_run (snd n)) (st_notices db)"
      by (rule runs_update_notice) simp
    moreover have "list_all notice_reads (update_notice k ?f (st_notices db))"
      using decided.prems by (intro reads_update_notice) (auto simp: schedule_inv_def notice_reads_iff)
    ultimately show ?thesis using decided.prems 2(1) by (simp add: schedule_inv_def)
  qed (use decided.prems in simp)
qed

lemma schedule_steps_inv: "schedule_step\<^sup>*\<^sup>* db db' \<Longrightarrow> schedule_inv db \<Longrightarrow> schedule_inv db'"
  by (induction rule: rtranclp_induct) (auto intro: schedule_step_inv)

subsection \<open>Settled notices\<close>

definition settled_at :: "'a schedule_tables_scheme \<Rightarrow> int \<Rightarrow> notice_row \<Rightarrow> bool" where
  "settled_at db k row = (map_of (st_notices db) k = Some row \<and> \<not> is_pending row)"

lemma map_of_update_notice: "map_of (update_notice j f ns) k =
    map_option (\<lambda>row. if k = j then f row else row) (map_of ns k)"
  by (induction ns) (auto split: prod.splits)

lemma insert_event_settled:
  "insert_scheduler_event db p r kind t n c = Ok (i, db') \<Longrightarrow> settled_at db k row \<Longrightarrow> settled_at db' k row"
  by (erule insert_event_Ok) (simp add: settled_at_def)

lemma file_missed_settled:
  assumes "file_missed db p r scheduled reason = Ok (i, db')" "settled_at db k row" "schedule_inv db"
  shows "settled_at db' k row"
proof -
  have other: "k \<noteq> j" if "find P (st_notices db) = Some (j, row')" "is_pending row'" for P j row'
  proof
    assume "k = j"
    moreover from that(1) have "(j, row') \<in> set (st_notices db)"
      by (auto simp: find_Some_iff intro: nth_mem dest: sym)
    then have "map_of (st_notices db) j = Some row'"
      using assms(3) by (simp add: schedule_inv_def keys_below_def)
    ultimately show False using assms(2) that(2) by (simp add: settled_at_def)
  qed
  have pend: "is_pending row'" if "find (\<lambda>n. nr_profile (snd n) = p \<and> is_pending (snd n)) (st_notices db) = Some (j, row')" for j row'
    using that by (auto simp: find_Some_iff dest: sym)
  have ne: "k \<noteq> j" if "find (\<lambda>n. nr_profile (snd n) = p \<and> is_pending (snd n)) (st_notices db) = Some (j, row')" for j row'
    using other[OF that pend[OF that]] .
  from assms(1,2) show ?thesis
    by (auto simp: file_missed_def settled_at_def map_of_update_notice map_add_def
        split: option.splits dest!: ne)
qed

lemma mark_Ok:
  assumes "mark_missed_schedule_decision db i decision = Ok (n, db')"
  obtains row where "decision \<noteq> Pending" "i < 2 ^ 63" "map_of (st_notices db) (int i) = Some row"
    "load_missed_schedule_notice db' i = Ok (Some n)"
    "is_pending row \<and> db' = db\<lparr>st_notices := update_notice (int i)
        (\<lambda>r. r\<lparr>nr_decision := encode_missed_decision decision\<rparr>) (st_notices db)\<rparr> \<or>
     \<not> is_pending row \<and> nr_decision row = encode_missed_decision decision \<and> db' = db"
proof (cases "map_of (st_notices db) (int i)")
  case None
  with assms show thesis
    by (auto simp: mark_missed_schedule_decision_def notice_id_as_i64_def split: if_split_asm)
next
  case (Some row)
  with assms show thesis
    by (intro that[of row])
      (auto simp: mark_missed_schedule_decision_def notice_id_as_i64_def missed_decision.dec_Ok_iff
        split: if_split_asm)
qed

lemma schedule_step_settled:
  "schedule_step db db' \<Longrightarrow> settled_at db k row \<Longrightarrow> schedule_inv db \<Longrightarrow> settled_at db' k row"
proof (induction rule: schedule_step.induct)
  case (inserted db p r kind t n c i db')
  then show ?case by (blast intro: insert_event_settled)
next
  case (recorded clock db p r kind e db')
  then obtain t i where "insert_scheduler_event db p r kind t None None = Ok (i, db')"
    by (auto simp: record_scheduler_event_def)
  then show ?case using recorded.prems by (blast intro: insert_event_settled)
next
  case (retried clock db r retries exhausted db')
  then have "db' = db \<or> (\<exists>p kind t i. insert_scheduler_event db p r kind t None (Some retries) = Ok (i, db'))"
    by (auto simp: record_scheduler_retry_def split: if_split_asm option.splits)
  then show ?case using retried.prems by (blast intro: insert_event_settled)
next
  case (missed clock db p r scheduled reason n db')
  obtain i db1 now where f: "file_missed db (int p) (int r) scheduled reason = Ok (i, db1)"
    and i: "announce_missed db1 p r now i = Ok db'"
    by (rule record_missed_Ok[OF missed.hyps])
  from file_missed_settled[OF f missed.prems] announce_missed_Ok[OF i] show ?case by (blast intro: insert_event_settled)
next
  case (decided db i decision n db')
  obtain row0 where r0: "map_of (st_notices db) (int i) = Some row0"
      "is_pending row0 \<and> db' = db\<lparr>st_notices := update_notice (int i)
         (\<lambda>r. r\<lparr>nr_decision := encode_missed_decision decision\<rparr>) (st_notices db)\<rparr> \<or>
       \<not> is_pending row0 \<and> nr_decision row0 = encode_missed_decision decision \<and> db' = db"
    by (rule mark_Ok[OF decided.hyps])
  then show ?case
    using decided.prems(1) by (auto simp: settled_at_def map_of_update_notice)
qed

lemma mark_settles:
  assumes "mark_missed_schedule_decision db i decision = Ok (n, db')"
  obtains row where "settled_at db' (int i) row" "decode_missed_notice (int i, row) = Ok n"
    "i < 2 ^ 63" "ms_decision n = decision" "decision \<noteq> Pending"
    "nr_decision row = encode_missed_decision decision"
proof -
  have e: "encode_missed_decision decision \<noteq> ''pending''" if "decision \<noteq> Pending"
    using that by (cases decision) simp_all
  obtain row0 where r0: "decision \<noteq> Pending" "i < 2 ^ 63"
      "map_of (st_notices db) (int i) = Some row0"
      "load_missed_schedule_notice db' i = Ok (Some n)"
      "is_pending row0 \<and> db' = db\<lparr>st_notices := update_notice (int i)
         (\<lambda>r. r\<lparr>nr_decision := encode_missed_decision decision\<rparr>) (st_notices db)\<rparr> \<or>
       \<not> is_pending row0 \<and> nr_decision row0 = encode_missed_decision decision \<and> db' = db"
    by (rule mark_Ok[OF assms])
  then obtain row where r: "decision \<noteq> Pending" "i < 2 ^ 63"
      "map_of (st_notices db') (int i) = Some row" "decode_missed_notice (int i, row) = Ok n"
      "nr_decision row = encode_missed_decision decision"
    by (auto simp: load_missed_schedule_notice_def notice_id_as_i64_def load_notice_by_key_def
        convert_def map_of_update_notice)
  moreover from r(4,5) have "ms_decision n = decision"
    by (auto simp: decode_missed_notice_def split: if_split_asm)
  ultimately show thesis using that[of row] e by (simp add: settled_at_def is_pending_def)
qed

definition empty_schedule_tables :: schedule_tables where
  "empty_schedule_tables =
     \<lparr>rt_rows = [], rt_next_run_id = 1, st_events = [], st_event_seq = 0, st_notices = [],
      st_notice_seq = 0\<rparr>"

lemma empty_schedule_inv [simp]: "schedule_inv empty_schedule_tables"
  by (simp add: schedule_inv_def empty_schedule_tables_def keys_below_def)

subsection \<open>Properties\<close>

text \<open>C34: Whatever the scheduler records and the user decides, a profile never has two pending
  notices, a run never opens two, and every event and every notice that was stored can be
  listed.\<close>

theorem scheduler_records_stay_readable:
  assumes "schedule_step\<^sup>*\<^sup>* empty_schedule_tables db"
  shows "distinct (pending_profiles (st_notices db)) \<and>
    distinct (map (\<lambda>n. nr_run (snd n)) (st_notices db)) \<and>
    (\<exists>notices. list_missed_schedule_notices db = Ok notices \<and> length notices = length (st_notices db)) \<and>
    (\<exists>events. list_scheduler_events db = Ok events \<and> length events = length (st_events db))"
proof -
  have len: "length ys = length xs" if "collect_results f xs = Ok ys" for f :: "'a \<Rightarrow> 'e + 'b" and xs ys
    using that by (induction xs arbitrary: ys) auto
  have all: "list_all P (sort_key f xs) = list_all P xs" for P f and xs :: "'a list"
    by (simp add: list_all_iff)
  have inv: "schedule_inv db"
    using schedule_steps_inv[OF assms] by simp
  have "\<exists>notices. list_missed_schedule_notices db = Ok notices"
    unfolding list_missed_schedule_notices_def
    by (rule collect_results_Ok) (use inv in \<open>simp add: all schedule_inv_def notice_reads_def[abs_def]\<close>)
  moreover have "\<exists>events. list_scheduler_events db = Ok events"
    unfolding list_scheduler_events_def
    by (rule collect_results_Ok) (use inv in \<open>simp add: all schedule_inv_def event_reads_def[abs_def]\<close>)
  ultimately obtain notices events where "list_missed_schedule_notices db = Ok notices"
      "list_scheduler_events db = Ok events" by blast
  moreover from this have "length notices = length (st_notices db)" "length events = length (st_events db)"
    unfolding list_missed_schedule_notices_def list_scheduler_events_def by (auto dest: len)
  moreover have "distinct (pending_profiles (st_notices db))"
      "distinct (map (\<lambda>n. nr_run (snd n)) (st_notices db))"
    using inv by (simp_all add: schedule_inv_def)
  ultimately show ?thesis by blast
qed

text \<open>C33: A notice the user has decided keeps that decision and all its contents, whatever is
  recorded or decided afterwards.\<close>

theorem decided_notice_is_final:
  assumes "schedule_step\<^sup>*\<^sup>* empty_schedule_tables db"
    and "mark_missed_schedule_decision db i decision = Ok (n, db1)"
    and "schedule_step\<^sup>*\<^sup>* db1 db2"
  shows "load_missed_schedule_notice db2 i = Ok (Some n) \<and> ms_decision n = decision \<and> decision \<noteq> Pending"
proof -
  obtain row where row: "settled_at db1 (int i) row" "decode_missed_notice (int i, row) = Ok n"
      "i < 2 ^ 63" "ms_decision n = decision" "decision \<noteq> Pending"
    using mark_settles[OF assms(2)] by metis
  have "schedule_inv db1"
    using schedule_steps_inv[OF assms(1)] schedule_step.decided[OF assms(2)] by (simp add: schedule_step_inv)
  with assms(3) row(1) have "settled_at db2 (int i) row \<and> schedule_inv db2"
    by (induction rule: rtranclp_induct) (auto intro: schedule_step_settled schedule_step_inv)
  with row show ?thesis
    by (simp add: load_missed_schedule_notice_def notice_id_as_i64_def load_notice_by_key_def
        settled_at_def convert_def)
qed

text \<open>Choosing Run Now for a notice that was already answered with Run Now succeeds again.\<close>

lemma run_now_can_be_chosen_again:
  assumes "mark_missed_schedule_decision db i RunNow = Ok (n, db1)"
  shows "mark_missed_schedule_decision db1 i RunNow = Ok (n, db1)"
proof -
  obtain row where row: "settled_at db1 (int i) row" "decode_missed_notice (int i, row) = Ok n"
      "i < 2 ^ 63" "nr_decision row = encode_missed_decision RunNow"
    using mark_settles[OF assms] by metis
  have "decode_missed_decision (nr_decision row) = Ok RunNow"
    unfolding row(4) by (rule missed_decision.dec_enc)
  moreover have "notice_id_as_i64 i = Ok (int i)"
    using row(3) unfolding notice_id_as_i64_def id_as_i64_Ok by simp
  moreover have "load_missed_schedule_notice db1 i = Ok (Some n)"
    using row calculation(2) by (simp add: load_missed_schedule_notice_def load_notice_by_key_def
        settled_at_def convert_def)
  ultimately show ?thesis
    using row(1) by (simp add: mark_missed_schedule_decision_def settled_at_def)
qed

text \<open>A run that was coalesced into an open notice is counted again when it is recorded again,
  while the run that opened the notice is not.\<close>

definition miss_again :: "int \<Rightarrow> storage_error + int \<times> schedule_tables \<Rightarrow> storage_error + int \<times> schedule_tables" where
  "miss_again run r = result_bind r (\<lambda>(_, db). file_missed db 1 run 40 ''late'')"

definition example_missed :: "int list \<Rightarrow> int option" where
  "example_missed runs =
     (case fold miss_again runs (Ok (0, empty_schedule_tables)) of
        Ok (i, db) \<Rightarrow> map_option nr_count (map_of (st_notices db) i) | Err _ \<Rightarrow> None)"

lemma coalesced_run_is_counted_again:
  "example_missed [7] = Some 1" "example_missed [7, 7] = Some 1"
  "example_missed [7, 8] = Some 2" "example_missed [7, 8, 8] = Some 3"
  by (simp_all add: example_missed_def miss_again_def file_missed_def empty_schedule_tables_def
      check_reason_def autoincrement_def new_notice_def is_pending_def coalesce_missed_def)

lemma example_not_blank: "\<not> trims_to_empty ''late''"
  by (simp add: not_trims_to_empty is_whitespace_def)

definition example_notice :: missed_schedule_notice where
  "example_notice =
     \<lparr>ms_id = 1, ms_profile = 1, ms_run = 7, ms_first = 40, ms_latest = 40, ms_reason = ''late'',
      ms_decision = Pending, ms_count = 1\<rparr>"

definition example_noticed :: schedule_tables where
  "example_noticed =
     empty_schedule_tables
       \<lparr>st_notices := [(1, new_notice 1 7 40 ''late'')], st_notice_seq := 1,
        st_events := [(1, new_event 1 7 SchedMissed 50 (Some 1) None)], st_event_seq := 1\<rparr>"

lemma example_noticed_step:
  "record_missed_schedule (Ok 50) empty_schedule_tables 1 7 40 ''late'' = Ok (example_notice, example_noticed)"
  by (simp add: record_missed_schedule_def profile_id_as_i64_def id_as_i64_def example_not_blank
      file_missed_def check_reason_def autoincrement_def empty_schedule_tables_def announce_missed_def
      insert_scheduler_event_def convert_def load_notice_by_key_def decode_missed_notice_def
      corrupt_id_def new_notice_def decode_missed_decision_def example_notice_def example_noticed_def)

theorem scheduler_records_stay_readable_witness:
  "distinct (pending_profiles (st_notices example_noticed)) \<and>
   (\<exists>notices. list_missed_schedule_notices example_noticed = Ok notices \<and> length notices = 1)"
proof -
  have "schedule_step\<^sup>*\<^sup>* empty_schedule_tables example_noticed"
    using schedule_step.missed[OF example_noticed_step] by blast
  from scheduler_records_stay_readable[OF this] show ?thesis
    by (simp add: example_noticed_def)
qed

theorem decided_notice_is_final_witness:
  "load_missed_schedule_notice
     (snd (projr (mark_missed_schedule_decision example_noticed 1 NotNow))) 1 =
   Ok (Some (example_notice\<lparr>ms_decision := NotNow\<rparr>))"
proof -
  have "schedule_step\<^sup>*\<^sup>* empty_schedule_tables example_noticed"
    using schedule_step.missed[OF example_noticed_step] by blast
  moreover obtain db where m: "mark_missed_schedule_decision example_noticed 1 NotNow =
      Ok (example_notice\<lparr>ms_decision := NotNow\<rparr>, db)"
    by (simp add: mark_missed_schedule_decision_def notice_id_as_i64_def id_as_i64_def
        example_noticed_def new_notice_def is_pending_def load_missed_schedule_notice_def
        load_notice_by_key_def convert_def decode_missed_notice_def corrupt_id_def example_not_blank
        decode_missed_decision_def example_notice_def empty_schedule_tables_def)
  ultimately show ?thesis
    using decided_notice_is_final[of example_noticed 1 NotNow _ db db] by simp
qed

end
