(* ===== verification/ProfileRows.thy ===== *)
theory ProfileRows
  imports SchedulerStore
begin

text \<open>
  The stored form of profiles, schedules and application settings (\<open>storage.rs\<close>): the
  texts of the enumerations, the validation of names, schedules and authorizations, the columns
  a profile is written to and the checks under which it is read back. The exclusion patterns
  and the schedule of a profile are rows of tables of their own that are deleted with it; here
  they are fields of its row.
\<close>

subsection \<open>Application settings\<close>

datatype theme_preference = ThemeSystem | ThemeLight | ThemeDark

record application_settings =
  set_mode :: application_mode
  set_theme :: theme_preference
  set_hide_to_tray :: bool

definition settings_new :: "application_mode \<Rightarrow> theme_preference \<Rightarrow> application_settings" where
  "settings_new mode theme = \<lparr>set_mode = mode, set_theme = theme, set_hide_to_tray = True\<rparr>"

definition with_hide_to_tray :: "application_settings \<Rightarrow> bool \<Rightarrow> application_settings" where
  "with_hide_to_tray s enabled = s\<lparr>set_hide_to_tray := enabled\<rparr>"

definition default_settings :: application_settings where
  "default_settings = settings_new Simple ThemeSystem"

fun encode_application_mode :: "application_mode \<Rightarrow> string" where
  "encode_application_mode Simple = ''simple''"
| "encode_application_mode Advanced = ''advanced''"

definition corrupt_settings :: storage_error where
  "corrupt_settings = CorruptEvidence ''corrupt application settings''"

definition decode_application_mode :: "string \<Rightarrow> storage_error + application_mode" where
  "decode_application_mode s =
     (if s = ''simple'' then Ok Simple else if s = ''advanced'' then Ok Advanced
      else Err corrupt_settings)"

interpretation application_mode: canonical_codec encode_application_mode decode_application_mode
proof
  fix x show "decode_application_mode (encode_application_mode x) = Ok x"
    by (cases x) (simp_all add: decode_application_mode_def)
next
  fix c x assume "decode_application_mode c = Ok x"
  then show "c = encode_application_mode x"
    by (auto simp: decode_application_mode_def split: if_splits)
qed

fun encode_theme_preference :: "theme_preference \<Rightarrow> string" where
  "encode_theme_preference ThemeSystem = ''system''"
| "encode_theme_preference ThemeLight = ''light''"
| "encode_theme_preference ThemeDark = ''dark''"

definition decode_theme_preference :: "string \<Rightarrow> storage_error + theme_preference" where
  "decode_theme_preference s =
     (if s = ''system'' then Ok ThemeSystem else if s = ''light'' then Ok ThemeLight
      else if s = ''dark'' then Ok ThemeDark else Err corrupt_settings)"

interpretation theme_preference: canonical_codec encode_theme_preference decode_theme_preference
proof
  fix x show "decode_theme_preference (encode_theme_preference x) = Ok x"
    by (cases x) (simp_all add: decode_theme_preference_def)
next
  fix c x assume "decode_theme_preference c = Ok x"
  then show "c = encode_theme_preference x"
    by (auto simp: decode_theme_preference_def split: if_splits)
qed

definition encode_bool_text :: "bool \<Rightarrow> string" where
  "encode_bool_text b = (if b then ''true'' else ''false'')"

definition decode_bool_text :: "string \<Rightarrow> string \<Rightarrow> storage_error + bool" where
  "decode_bool_text s field =
     (if s = ''true'' then Ok True else if s = ''false'' then Ok False
      else Err (corrupt ''corrupt application setting '' field))"

interpretation bool_text: canonical_codec encode_bool_text "\<lambda>s. decode_bool_text s field"
proof
  fix b show "decode_bool_text (encode_bool_text b) field = Ok b"
    by (simp add: decode_bool_text_def encode_bool_text_def)
next
  fix s b assume "decode_bool_text s field = Ok b"
  then show "s = encode_bool_text b"
    by (auto simp: decode_bool_text_def encode_bool_text_def split: if_splits)
qed

text \<open>The table \<open>application_settings\<close>: a value for each key.\<close>

type_synonym settings_table = "string \<rightharpoonup> string"

definition UI_MODE :: string where "UI_MODE = ''ui_mode''"
definition THEME :: string where "THEME = ''theme''"
definition HIDE_TO_TRAY :: string where "HIDE_TO_TRAY = ''hide_to_tray_on_close''"

definition load_settings :: "settings_table \<Rightarrow> storage_error + application_settings" where
  "load_settings t =
     result_bind (convert decode_application_mode (t UI_MODE)) (\<lambda>mode.
     result_bind (convert decode_theme_preference (t THEME)) (\<lambda>theme.
     result_bind (convert (\<lambda>v. decode_bool_text v HIDE_TO_TRAY) (t HIDE_TO_TRAY)) (\<lambda>hide.
     Ok (with_hide_to_tray
          (settings_new (case mode of None \<Rightarrow> Simple | Some m \<Rightarrow> m)
             (case theme of None \<Rightarrow> ThemeSystem | Some th \<Rightarrow> th))
          (case hide of None \<Rightarrow> True | Some h \<Rightarrow> h)))))"

definition save_settings :: "settings_table \<Rightarrow> application_settings \<Rightarrow> settings_table" where
  "save_settings t s =
     t(UI_MODE \<mapsto> encode_application_mode (set_mode s),
       THEME \<mapsto> encode_theme_preference (set_theme s),
       HIDE_TO_TRAY \<mapsto> encode_bool_text (set_hide_to_tray s))"

lemma settings_round_trip: "load_settings (save_settings t s) = Ok s"
  by (cases s) (simp add: load_settings_def save_settings_def convert_def UI_MODE_def THEME_def
      HIDE_TO_TRAY_def settings_new_def with_hide_to_tray_def)

lemma default_settings_loaded: "load_settings Map.empty = Ok default_settings"
  by (simp add: load_settings_def convert_def default_settings_def settings_new_def
      with_hide_to_tray_def)

subsection \<open>What an analysis was started with\<close>

record analysis_configuration =
  ac_profile :: sync_profile
  ac_mode :: application_mode
  ac_authorizations :: authorization_snapshot
  ac_schedule_enabled :: bool

definition configuration_matches ::
  "analysis_configuration \<Rightarrow> sync_profile \<Rightarrow> application_mode \<Rightarrow> authorization_snapshot \<Rightarrow> bool
    \<Rightarrow> bool" where
  "configuration_matches c prof mode auths enabled =
     (ac_profile c = prof \<and> ac_mode c = mode \<and> ac_authorizations c = auths \<and>
      ac_schedule_enabled c = enabled)"

subsection \<open>Schedules\<close>

record schedule_definition =
  sd_interval :: u32
  sd_timezone :: string
  sd_enabled :: bool
  sd_next_run :: "int option"

definition validate_schedule :: "schedule_definition \<Rightarrow> storage_error + unit" where
  "validate_schedule s =
     (if \<not> (1 \<le> sd_interval s \<and> sd_interval s \<le> 10080)
      then Err (InvalidSchedule ''interval must be between 1 minute and 7 days'')
      else if trims_to_empty (sd_timezone s) \<or> 128 < length (sd_timezone s) \<or> NUL \<in> set (sd_timezone s)
      then Err (InvalidSchedule ''timezone must be a nonempty value of at most 128 characters'')
      else if is_some_and (\<lambda>v. v < 0) (sd_next_run s)
      then Err (InvalidSchedule ''next run must be a nonnegative Unix timestamp'')
      else if \<not> sd_enabled s \<and> sd_next_run s \<noteq> None
      then Err (InvalidSchedule ''a disabled schedule cannot have a next run'')
      else Ok ())"

definition schedule_new_with_next_run_at ::
  "u32 \<Rightarrow> string \<Rightarrow> bool \<Rightarrow> int option \<Rightarrow> storage_error + schedule_definition" where
  "schedule_new_with_next_run_at interval timezone enabled next_run =
     (let s = \<lparr>sd_interval = interval, sd_timezone = timezone, sd_enabled = enabled,
               sd_next_run = next_run\<rparr>
      in result_bind (validate_schedule s) (\<lambda>_. Ok s))"

definition schedule_new :: "u32 \<Rightarrow> string \<Rightarrow> bool \<Rightarrow> storage_error + schedule_definition" where
  "schedule_new interval timezone enabled =
     (let s = \<lparr>sd_interval = interval, sd_timezone = timezone, sd_enabled = enabled,
               sd_next_run = None\<rparr>
      in result_bind (validate_schedule s) (\<lambda>_. Ok s))"

definition schedule_with_enabled :: "schedule_definition \<Rightarrow> bool \<Rightarrow> schedule_definition" where
  "schedule_with_enabled s enabled =
     (let s' = s\<lparr>sd_enabled := enabled\<rparr> in if enabled then s' else s'\<lparr>sd_next_run := None\<rparr>)"

definition schedule_with_next_run_at :: "schedule_definition \<Rightarrow> int option \<Rightarrow> schedule_definition" where
  "schedule_with_next_run_at s next_run = s\<lparr>sd_next_run := next_run\<rparr>"

lemma validate_schedule_Ok:
  "validate_schedule s = Ok u \<longleftrightarrow>
     1 \<le> sd_interval s \<and> sd_interval s \<le> 10080 \<and> \<not> trims_to_empty (sd_timezone s) \<and>
     length (sd_timezone s) \<le> 128 \<and> NUL \<notin> set (sd_timezone s) \<and>
     is_none_or (\<lambda>v. 0 \<le> v) (sd_next_run s) \<and> (sd_next_run s \<noteq> None \<longrightarrow> sd_enabled s)"
  by (cases "sd_next_run s") (auto simp: validate_schedule_def)

subsection \<open>Profiles\<close>

record persisted_profile =
  pp_id :: nat
  pp_profile :: sync_profile
  pp_schedule_enabled :: bool
  pp_schedule :: "schedule_definition option"
  pp_revision :: nat
  pp_authorizations :: authorization_snapshot

definition name_ok :: "string \<Rightarrow> bool" where
  "name_ok s = (\<not> trims_to_empty s \<and> length s \<le> 255 \<and> NUL \<notin> set s)"

definition validate_profile :: "(path \<Rightarrow> bool) \<Rightarrow> sync_profile \<Rightarrow> storage_error + unit" where
  "validate_profile is_dir prof =
     (if \<not> name_ok (prof_name prof) then Err InvalidProfileName
      else if \<not> name_ok (peer_label (peer_a prof)) \<or> \<not> name_ok (peer_label (peer_b prof))
      then Err InvalidPeerName
      else (case spec_from_profile is_dir prof of
              Err e \<Rightarrow> Err (InvalidProfile e) | Ok _ \<Rightarrow> Ok ()))"

definition validate_authorizations ::
  "sync_profile \<Rightarrow> authorization_snapshot \<Rightarrow> storage_error + unit" where
  "validate_authorizations prof auths =
     (let opts = prof_options prof in
      if allow_unattended_destructive auths \<and> \<not> opt_safe_delete opts \<and> \<not> opt_destination_cleanup opts
      then Err (InvalidAuthorization
        ''unattended destructive authorization requires Safe Delete or Destination Cleanup'')
      else if allow_unattended_permanent_removal auths \<and>
              (\<not> opt_safe_delete opts \<or> opt_deletion_method opts \<noteq> Some PermanentRemoval)
      then Err (InvalidAuthorization
        ''unattended Permanent Removal requires Safe Delete with Permanent Removal selected'')
      else Ok ())"

definition unattended_authorization_scope_changed :: "sync_profile \<Rightarrow> sync_profile \<Rightarrow> bool" where
  "unattended_authorization_scope_changed before after =
     (peer_a before \<noteq> peer_a after \<or> peer_b before \<noteq> peer_b after \<or>
      prof_mode before \<noteq> prof_mode after \<or> prof_source before \<noteq> prof_source after \<or>
      prof_options before \<noteq> prof_options after \<or> prof_exclusions before \<noteq> prof_exclusions after)"

subsection \<open>Columns\<close>

record profile_values =
  pv_name :: string
  pv_mode :: string
  pv_source :: string
  pv_peer_a :: peer_columns
  pv_peer_b :: peer_columns
  pv_options :: option_columns

record schedule_row =
  sw_interval :: int
  sw_timezone :: string
  sw_enabled :: int
  sw_next_run :: "int option"

record profile_row = profile_values +
  rw_schedule_enabled :: int
  rw_destructive :: int
  rw_permanent_removal :: int
  rw_revision :: int
  rw_exclusions :: "string list"
  rw_schedule :: "schedule_row option"

definition persisted_peer :: "peer \<Rightarrow> peer_columns" where
  "persisted_peer p =
     (case endpoint p of
        Local root \<Rightarrow>
          \<lparr>pk_name = peer_label p, pk_kind = ''local'', pk_root = path_to_blob root,
           pk_server = None, pk_username = None, pk_port = None, pk_identity = None,
           pk_authentication = None\<rparr>
      | Ssh ssh \<Rightarrow>
          \<lparr>pk_name = peer_label p, pk_kind = ''ssh'', pk_root = path_to_blob (remote_path ssh),
           pk_server = Some (server ssh), pk_username = Some (username ssh),
           pk_port = Some (uint (port ssh)),
           pk_identity = map_option path_to_blob (identity ssh),
           pk_authentication = Some (authentication_text (authentication ssh))\<rparr>)"

definition clamp_i64 :: "nat \<Rightarrow> int" where
  "clamp_i64 n = (if n < 2 ^ 63 then int n else 2 ^ 63 - 1)"

definition values_from_profile :: "sync_profile \<Rightarrow> profile_values" where
  "values_from_profile prof =
     (let opts = prof_options prof; m = opt_metadata opts; sp = req_specialist m in
      \<lparr>pv_name = prof_name prof, pv_mode = encode_mode (prof_mode prof),
       pv_source = encode_source (prof_source prof),
       pv_peer_a = persisted_peer (peer_a prof), pv_peer_b = persisted_peer (peer_b prof),
       pv_options =
         \<lparr>ok_safe_delete = bool_to_int (opt_safe_delete opts),
          ok_destination_cleanup = bool_to_int (opt_destination_cleanup opts),
          ok_deletion_method = map_option encode_deletion_method (opt_deletion_method opts),
          ok_file_type = bool_to_int (req_file_type m),
          ok_executable = bool_to_int (req_executable_permissions m),
          ok_symlinks = bool_to_int (req_symlink_targets m),
          ok_timestamps = bool_to_int (req_timestamps m),
          ok_ownership = bool_to_int (ownership sp),
          ok_acls = bool_to_int (access_control_lists sp),
          ok_xattrs = bool_to_int (extended_attributes sp),
          ok_partial_policy = encode_partial_transfer_policy (opt_partial_transfer_policy opts),
          ok_max_attempts = uint (max_attempts (opt_retry_policy opts)),
          ok_delay_millis = clamp_i64 (delay_millis (initial_delay (opt_retry_policy opts))),
          ok_bandwidth = map_option (\<lambda>v. clamp_i64 (unat v)) (opt_bandwidth_limit opts)\<rparr>\<rparr>)"

definition corrupt_profile :: storage_error where
  "corrupt_profile = CorruptEvidence ''corrupt Sync Profile record''"

definition decode_profile_bool :: "int \<Rightarrow> storage_error + bool" where
  "decode_profile_bool v =
     (if v = 0 then Ok False else if v = 1 then Ok True else Err corrupt_profile)"

interpretation profile_bool: canonical_codec bool_to_int decode_profile_bool
proof
  fix b show "decode_profile_bool (bool_to_int b) = Ok b"
    by (simp add: decode_profile_bool_def bool_to_int_def)
next
  fix v b assume "decode_profile_bool v = Ok b"
  then show "v = bool_to_int b"
    by (auto simp: decode_profile_bool_def bool_to_int_def split: if_splits)
qed

definition decode_profile_mode :: "string \<Rightarrow> storage_error + sync_mode" where
  "decode_profile_mode s =
     (if s = ''one_way'' then Ok OneWay else if s = ''mirror'' then Ok Mirror
      else Err corrupt_profile)"

interpretation profile_mode: canonical_codec encode_mode decode_profile_mode
proof
  fix x show "decode_profile_mode (encode_mode x) = Ok x"
    by (cases x) (simp_all add: decode_profile_mode_def)
next
  fix c x assume "decode_profile_mode c = Ok x"
  then show "c = encode_mode x"
    by (auto simp: decode_profile_mode_def split: if_splits)
qed

definition decode_profile_source :: "string \<Rightarrow> storage_error + one_way_source" where
  "decode_profile_source s =
     (if s = ''peer_a'' then Ok SourcePeerA else if s = ''peer_b'' then Ok SourcePeerB
      else Err corrupt_profile)"

interpretation profile_source: canonical_codec encode_source decode_profile_source
proof
  fix x show "decode_profile_source (encode_source x) = Ok x"
    by (cases x) (simp_all add: decode_profile_source_def)
next
  fix c x assume "decode_profile_source c = Ok x"
  then show "c = encode_source x"
    by (auto simp: decode_profile_source_def split: if_splits)
qed

definition decode_profile_deletion_method :: "string \<Rightarrow> storage_error + deletion_method" where
  "decode_profile_deletion_method s =
     (if s = ''trash'' then Ok Trash else if s = ''permanent_removal'' then Ok PermanentRemoval
      else Err corrupt_profile)"

interpretation profile_deletion: canonical_codec encode_deletion_method decode_profile_deletion_method
proof
  fix x show "decode_profile_deletion_method (encode_deletion_method x) = Ok x"
    by (cases x) (simp_all add: decode_profile_deletion_method_def)
next
  fix c x assume "decode_profile_deletion_method c = Ok x"
  then show "c = encode_deletion_method x"
    by (auto simp: decode_profile_deletion_method_def split: if_splits)
qed

definition decode_profile_partial_policy :: "string \<Rightarrow> storage_error + partial_transfer_policy" where
  "decode_profile_partial_policy s =
     (if s = ''cleanup'' then Ok Cleanup
      else if s = ''keep_partial_for_resume'' then Ok KeepPartialForResume
      else Err corrupt_profile)"

interpretation profile_partial: canonical_codec encode_partial_transfer_policy decode_profile_partial_policy
proof
  fix x show "decode_profile_partial_policy (encode_partial_transfer_policy x) = Ok x"
    by (cases x) (simp_all add: decode_profile_partial_policy_def)
next
  fix c x assume "decode_profile_partial_policy c = Ok x"
  then show "c = encode_partial_transfer_policy x"
    by (auto simp: decode_profile_partial_policy_def split: if_splits)
qed

subsection \<open>Reading a profile\<close>

text \<open>\<open>map_err(|_| corrupt_profile())\<close>.\<close>

definition else_corrupt :: "'e + 'a \<Rightarrow> storage_error + 'a" where
  "else_corrupt r = (case r of Err _ \<Rightarrow> Err corrupt_profile | Ok x \<Rightarrow> Ok x)"

lemma else_corrupt_simps [simp]:
  "else_corrupt (Ok x) = Ok x" "else_corrupt (Err e) = Err corrupt_profile"
  by (simp_all add: else_corrupt_def)

definition decode_authentication :: "string option \<Rightarrow> storage_error + ssh_authentication" where
  "decode_authentication a =
     (case a of
        None \<Rightarrow> Err corrupt_profile
      | Some v \<Rightarrow>
          if v = ''key'' then Ok Key
          else if v = ''agent'' then Ok Agent
          else if v = ''interactive_password'' then Ok InteractivePassword
          else (case strip_prefix SAVED_PASSWORD v of
                  None \<Rightarrow> Err corrupt_profile
                | Some reference \<Rightarrow>
                    result_bind (else_corrupt (saved_secret_reference_new reference))
                      (\<lambda>r. Ok (SavedPassword r))))"

definition decode_peer :: "peer_columns \<Rightarrow> storage_error + peer" where
  "decode_peer c =
     result_bind (blob_to_path (pk_root c)) (\<lambda>root.
     if pk_kind c = ''local'' then
       if pk_server c \<noteq> None \<or> pk_username c \<noteq> None \<or> pk_port c \<noteq> None \<or>
          pk_identity c \<noteq> None \<or> pk_authentication c \<noteq> None
       then Err corrupt_profile
       else Ok (peer_new (pk_name c) root)
     else if pk_kind c = ''ssh'' then
       result_bind (ok_or corrupt_profile (pk_server c)) (\<lambda>srv.
       result_bind (ok_or corrupt_profile (pk_username c)) (\<lambda>user.
       result_bind (ok_or corrupt_profile (pk_port c)) (\<lambda>q.
       result_bind (else_corrupt (get_u16 q)) (\<lambda>prt.
       result_bind (decode_authentication (pk_authentication c)) (\<lambda>auth.
       if \<not> is_utf8 (path_str root) then Err corrupt_profile
       else
       result_bind (convert blob_to_path (pk_identity c)) (\<lambda>ident.
       else_corrupt (peer_ssh (pk_name c) srv user prt ident auth (path_str root))))))))
     else Err corrupt_profile)"

definition decode_u64 :: "int \<Rightarrow> storage_error + u64" where
  "decode_u64 v = else_corrupt (from_sql_u64 v)"

definition decode_options :: "option_columns \<Rightarrow> storage_error + sync_options" where
  "decode_options c =
     result_bind (decode_profile_bool (ok_safe_delete c)) (\<lambda>safe.
     result_bind (decode_profile_bool (ok_destination_cleanup c)) (\<lambda>cleanup.
     result_bind (convert decode_profile_deletion_method (ok_deletion_method c)) (\<lambda>dm.
     result_bind (decode_profile_bool (ok_file_type c)) (\<lambda>ft.
     result_bind (decode_profile_bool (ok_executable c)) (\<lambda>ex.
     result_bind (decode_profile_bool (ok_symlinks c)) (\<lambda>sl.
     result_bind (decode_profile_bool (ok_timestamps c)) (\<lambda>ts.
     result_bind (decode_profile_bool (ok_ownership c)) (\<lambda>ow.
     result_bind (decode_profile_bool (ok_acls c)) (\<lambda>acl.
     result_bind (decode_profile_bool (ok_xattrs c)) (\<lambda>xa.
     result_bind (decode_profile_partial_policy (ok_partial_policy c)) (\<lambda>policy.
     result_bind (else_corrupt (get_u8 (ok_max_attempts c))) (\<lambda>attempts.
     result_bind (decode_u64 (ok_delay_millis c)) (\<lambda>millis.
     result_bind (convert decode_u64 (ok_bandwidth c)) (\<lambda>bandwidth.
      Ok \<lparr>opt_safe_delete = safe, opt_destination_cleanup = cleanup, opt_deletion_method = dm,
          opt_metadata = with_specialist_metadata (metadata_requirements_new ft ex sl ts)
            \<lparr>ownership = ow, access_control_lists = acl, extended_attributes = xa\<rparr>,
          opt_partial_transfer_policy = policy,
          opt_retry_policy = \<lparr>max_attempts = attempts, initial_delay = unat millis * 1000000\<rparr>,
          opt_bandwidth_limit = bandwidth\<rparr>))))))))))))))"

definition into_profile ::
  "(path \<Rightarrow> bool) \<Rightarrow> 'a profile_values_scheme \<Rightarrow> string list \<Rightarrow> storage_error + sync_profile" where
  "into_profile is_dir row exclusions =
     result_bind (decode_peer (pv_peer_a row)) (\<lambda>a.
     result_bind (decode_peer (pv_peer_b row)) (\<lambda>b.
     result_bind (decode_profile_mode (pv_mode row)) (\<lambda>mode.
     result_bind (decode_profile_source (pv_source row)) (\<lambda>source.
     result_bind (decode_options (pv_options row)) (\<lambda>opts.
     let prof = with_exclusions
           (with_options (with_source (with_mode (sync_profile_new (pv_name row) a b) mode) source)
              opts) exclusions in
     result_bind (validate_profile is_dir prof) (\<lambda>_. Ok prof))))))"

definition schedule_from_row :: "schedule_row \<Rightarrow> storage_error + schedule_definition" where
  "schedule_from_row r =
     result_bind
       (if 0 \<le> sw_interval r \<and> sw_interval r < 2 ^ 32 then Ok (of_int (sw_interval r))
        else Err (InvalidSchedule ''invalid interval'')) (\<lambda>interval.
     result_bind (decode_profile_bool (sw_enabled r)) (\<lambda>enabled.
     schedule_new_with_next_run_at interval (sw_timezone r) enabled (sw_next_run r)))"

definition materialize_profile ::
  "(path \<Rightarrow> bool) \<Rightarrow> int \<Rightarrow> profile_row \<Rightarrow> storage_error + persisted_profile" where
  "materialize_profile is_dir i row =
     result_bind (corrupt_id ''invalid profile identifier'' i) (\<lambda>key.
     result_bind (decode_profile_bool (rw_schedule_enabled row)) (\<lambda>enabled.
     result_bind (convert schedule_from_row (rw_schedule row)) (\<lambda>schedule.
     if is_some_and sd_enabled schedule \<noteq> enabled
     then Err (CorruptEvidence ''profile schedule enabled state differs from its definition'')
     else
     result_bind (decode_profile_bool (rw_destructive row)) (\<lambda>destructive.
     result_bind (decode_profile_bool (rw_permanent_removal row)) (\<lambda>removal.
     let auths = \<lparr>allow_unattended_destructive = destructive,
                  allow_unattended_permanent_removal = removal\<rparr> in
     result_bind (corrupt_id ''invalid profile revision'' (rw_revision row)) (\<lambda>revision.
     result_bind (into_profile is_dir row (rw_exclusions row)) (\<lambda>prof.
     result_bind (validate_authorizations prof auths) (\<lambda>_.
     Ok \<lparr>pp_id = key, pp_profile = prof, pp_schedule_enabled = enabled, pp_schedule = schedule,
         pp_revision = revision, pp_authorizations = auths\<rparr>))))))))"

subsection \<open>A stored profile is read back\<close>

lemma persisted_peer_columns: "persisted_peer p = snapshot_peer_columns p"
  by (cases "endpoint p") (simp_all add: persisted_peer_def snapshot_peer_columns_def
      endpoint_kind_def is_ssh_def peer_root_def endpoint_server_def endpoint_username_def
      endpoint_port_def endpoint_identity_def endpoint_authentication_def peer_ssh_peer_def)

lemma authentication_round_trip [simp]:
  "authentication_wf a \<Longrightarrow> decode_authentication (Some (authentication_text a)) = Ok a"
proof (cases a)
  case (SavedPassword r)
  assume "authentication_wf a"
  with SavedPassword have "saved_secret_reference_new (secret_id r) = Ok r"
    by (simp add: authentication_wf_def)
  with SavedPassword show ?thesis
    by (simp add: decode_authentication_def authentication_text_def) (simp add: SAVED_PASSWORD_def)
qed (simp_all add: decode_authentication_def authentication_text_def)

lemma decode_peer_round_trip [simp]:
  assumes "peer_storable p"
  shows "decode_peer (persisted_peer p) = Ok p"
proof (cases "endpoint p")
  case (Local root)
  with assms show ?thesis
    by (cases p) (simp add: decode_peer_def persisted_peer_def peer_storable_def peer_new_def)
next
  case (Ssh ssh)
  with assms have wf: "ssh_peer_wf ssh" "path_wf (remote_path ssh)"
      "is_utf8 (path_str (remote_path ssh))" "is_none_or path_wf (identity ssh)"
      "authentication_wf (authentication ssh)"
    by (simp_all add: peer_storable_def)
  have i: "convert blob_to_path (map_option path_to_blob (identity ssh)) = Ok (identity ssh)"
    using wf(4) by (cases "identity ssh") (simp_all add: convert_def)
  have n: "peer_ssh (peer_label p) (server ssh) (username ssh) (port ssh) (identity ssh)
      (authentication ssh) (path_str (remote_path ssh)) = Ok p"
    using wf Ssh by (cases ssh; cases p) (simp add: peer_ssh_def ssh_peer_new_fields
        components_path_str path_str_no_nul ssh_peer_wf_def cong: option.case_cong)
  show ?thesis
    using Ssh wf i n by (simp add: decode_peer_def persisted_peer_def)
qed

lemma clamp_i64_small: "n < 2 ^ 63 \<Longrightarrow> clamp_i64 n = int n"
  by (simp add: clamp_i64_def)

lemma decode_u64_clamped: "unat (n :: u64) < 2 ^ 63 \<Longrightarrow> decode_u64 (clamp_i64 (unat n)) = Ok n"
  by (simp add: decode_u64_def clamp_i64_def from_sql_u64_def)

lemma decode_options_round_trip:
  assumes "validate_options (prof_options prof) = Ok v"
    "whole_millis (initial_delay (opt_retry_policy (prof_options prof)))"
  shows "decode_options (pv_options (values_from_profile prof)) = Ok (prof_options prof)"
proof -
  define opts where "opts = prof_options prof"
  have v: "initial_delay (opt_retry_policy opts) \<le> MAX_INITIAL_DELAY"
      "is_none_or (\<lambda>l. l \<le> MAX_BANDWIDTH_LIMIT_KIB_PER_SECOND) (opt_bandwidth_limit opts)"
    using assms(1) by (auto simp: opts_def validate_options_Ok is_none_or_iff)
  let ?d = "initial_delay (opt_retry_policy opts)"
  have small: "delay_millis ?d < 2 ^ 63"
    using v(1) by (simp add: delay_millis_def MAX_INITIAL_DELAY_def NANOS_PER_SECOND_def)
  have d: "decode_u64 (clamp_i64 (delay_millis ?d)) = Ok (of_nat (delay_millis ?d))"
    using small by (simp add: decode_u64_def clamp_i64_def from_sql_u64_def)
  have u: "unat (of_nat (delay_millis ?d) :: u64) * 1000000 = ?d"
    using small assms(2) by (simp add: unat_of_nat delay_millis_def whole_millis_def opts_def)
      (metis mod_0_imp_dvd dvd_div_mult_self)
  have b: "convert decode_u64 (map_option (\<lambda>v. clamp_i64 (unat v)) (opt_bandwidth_limit opts)) =
      Ok (opt_bandwidth_limit opts)"
  proof (rule convert_round_trip)
    fix l assume "opt_bandwidth_limit opts = Some l"
    with v(2) have "unat l < 2 ^ 63"
      by (simp add: MAX_BANDWIDTH_LIMIT_KIB_PER_SECOND_def word_le_nat_alt)
    then show "decode_u64 (clamp_i64 (unat l)) = Ok l" by (rule decode_u64_clamped)
  qed
  have m: "convert decode_profile_deletion_method
      (map_option encode_deletion_method (opt_deletion_method opts)) = Ok (opt_deletion_method opts)"
    by (rule convert_round_trip) simp
  show ?thesis
    using d u b m unfolding values_from_profile_def Let_def opts_def[symmetric] decode_options_def
    by (cases opts, cases "opt_retry_policy opts", cases "opt_metadata opts",
        cases "req_specialist (opt_metadata opts)")
      (simp add: with_specialist_metadata_def metadata_requirements_new_def)
qed

lemma validate_profile_Ok:
  "validate_profile is_dir prof = Ok u \<longleftrightarrow>
     name_ok (prof_name prof) \<and> name_ok (peer_label (peer_a prof)) \<and>
     name_ok (peer_label (peer_b prof)) \<and> (\<exists>spec. spec_from_profile is_dir prof = Ok spec)"
  by (auto simp: validate_profile_def split: sum.splits)

lemma spec_options_valid:
  "spec_from_profile is_dir prof = Ok spec \<Longrightarrow> validate_options (prof_options prof) = Ok (spec_options spec)"
  by (auto simp: spec_from_profile_def assemble_spec_def Let_def split: if_split_asm)

text \<open>A row holds the columns of a profile.\<close>

definition holds_values :: "'a profile_values_scheme \<Rightarrow> profile_values \<Rightarrow> bool" where
  "holds_values row v =
     (pv_name row = pv_name v \<and> pv_mode row = pv_mode v \<and> pv_source row = pv_source v \<and>
      pv_peer_a row = pv_peer_a v \<and> pv_peer_b row = pv_peer_b v \<and> pv_options row = pv_options v)"

lemma into_profile_round_trip:
  assumes "validate_profile is_dir prof = Ok ()" "profile_storable prof"
    "holds_values row (values_from_profile prof)"
  shows "into_profile is_dir row (prof_exclusions prof) = Ok prof"
proof -
  from assms(1) obtain v where v: "validate_options (prof_options prof) = Ok v"
    by (auto simp: validate_profile_Ok dest: spec_options_valid)
  from assms(2) have st: "peer_storable (peer_a prof)" "peer_storable (peer_b prof)"
      "whole_millis (initial_delay (opt_retry_policy (prof_options prof)))"
    by (simp_all add: profile_storable_def)
  have p: "with_exclusions
      (with_options (with_source (with_mode
         (sync_profile_new (prof_name prof) (peer_a prof) (peer_b prof)) (prof_mode prof))
         (prof_source prof)) (prof_options prof)) (prof_exclusions prof) = prof"
    by (cases prof) (simp add: sync_profile_new_def with_mode_def with_source_def with_options_def
        with_exclusions_def)
  have o: "decode_options (pv_options row) = Ok (prof_options prof)"
    using decode_options_round_trip[OF v st(3)] assms(3) by (simp add: holds_values_def)
  have r: "pv_name row = prof_name prof" "pv_peer_a row = persisted_peer (peer_a prof)"
      "pv_peer_b row = persisted_peer (peer_b prof)" "pv_mode row = encode_mode (prof_mode prof)"
      "pv_source row = encode_source (prof_source prof)"
    using assms(3) by (simp_all add: holds_values_def values_from_profile_def Let_def)
  show ?thesis
    unfolding into_profile_def r decode_peer_round_trip[OF st(1)] decode_peer_round_trip[OF st(2)]
      o profile_mode.dec_enc profile_source.dec_enc result_bind_simps Let_def p assms(1) ..
qed

definition schedule_to_row :: "schedule_definition \<Rightarrow> schedule_row" where
  "schedule_to_row s =
     \<lparr>sw_interval = uint (sd_interval s), sw_timezone = sd_timezone s,
      sw_enabled = bool_to_int (sd_enabled s), sw_next_run = sd_next_run s\<rparr>"

lemma schedule_round_trip:
  assumes "validate_schedule s = Ok ()"
  shows "schedule_from_row (schedule_to_row s) = Ok s"
proof -
  have "0 \<le> uint (sd_interval s)" "uint (sd_interval s) < 2 ^ 32"
    using uint_lt2p[of "sd_interval s"] by simp_all
  then show ?thesis
    using assms by (cases s) (simp add: schedule_from_row_def schedule_to_row_def
        schedule_new_with_next_run_at_def)
qed

end
