(* ===== verification/ProfileStore.thy ===== *)
theory ProfileStore
  imports ProfileRows ScopeLock
begin

text \<open>
  The operations on stored profiles (\<open>storage.rs\<close>): creating, updating, scheduling, claiming
  a due run, removing and importing. An operation reads the database before its transaction
  starts, and another process may commit in between; so it takes both the tables it has
  \<open>seen\<close> and the tables its transaction runs on. In a program that is alone the two are the
  same. An error means that the transaction was rolled back; where the code reads the profile
  again after the commit, that answer is a result of its own.

  The tables extend those of the scheduler. The columns \<open>profile_revision\<close> and
  \<open>next_run_at_unix_seconds\<close> are integers; that SQLite turns the successor of
  \<open>i64::MAX\<close> into a floating-point number is not modelled.
\<close>

record profile_tables = schedule_tables +
  pt_settings :: settings_table
  pt_profiles :: "(int \<times> profile_row) list"
  pt_profile_seq :: int

subsection \<open>Reading\<close>

definition load_profile ::
  "(path \<Rightarrow> bool) \<Rightarrow> 'a profile_tables_scheme \<Rightarrow> nat \<Rightarrow> storage_error + persisted_profile option" where
  "load_profile is_dir db i =
     result_bind (profile_id_as_i64 i) (\<lambda>k.
       convert (materialize_profile is_dir k) (map_of (pt_profiles db) k))"

definition existing_profile ::
  "(path \<Rightarrow> bool) \<Rightarrow> 'a profile_tables_scheme \<Rightarrow> nat \<Rightarrow> storage_error + persisted_profile" where
  "existing_profile is_dir db i =
     result_bind (load_profile is_dir db i) (ok_or (ProfileNotFound i))"

definition list_profiles ::
  "(path \<Rightarrow> bool) \<Rightarrow> 'a profile_tables_scheme \<Rightarrow> storage_error + persisted_profile list" where
  "list_profiles is_dir db =
     collect_results (\<lambda>(i, row). materialize_profile is_dir i row) (sort_key fst (pt_profiles db))"

definition same_endpoint_pair :: "path option \<Rightarrow> sync_profile \<Rightarrow> sync_profile \<Rightarrow> bool" where
  "same_endpoint_pair cwd p q =
     (same_endpoint cwd (peer_a p) (peer_a q) \<and> same_endpoint cwd (peer_b p) (peer_b q))"

definition reject_duplicate_endpoint_pair ::
  "(path \<Rightarrow> bool) \<Rightarrow> path option \<Rightarrow> 'a profile_tables_scheme \<Rightarrow> sync_profile \<Rightarrow> nat option
    \<Rightarrow> storage_error + unit" where
  "reject_duplicate_endpoint_pair is_dir cwd db prof excluded =
     result_bind (list_profiles is_dir db) (\<lambda>ps.
       if list_ex (\<lambda>q. Some (pp_id q) \<noteq> excluded \<and> same_endpoint_pair cwd (pp_profile q) prof) ps
       then Err DuplicateEndpointPair else Ok ())"

subsection \<open>Rows\<close>

definition profile_row_of ::
  "profile_values \<Rightarrow> authorization_snapshot \<Rightarrow> int \<Rightarrow> int \<Rightarrow> string list \<Rightarrow> schedule_row option
    \<Rightarrow> profile_row" where
  "profile_row_of v auths enabled revision exclusions schedule =
     \<lparr>pv_name = pv_name v, pv_mode = pv_mode v, pv_source = pv_source v,
      pv_peer_a = pv_peer_a v, pv_peer_b = pv_peer_b v, pv_options = pv_options v,
      rw_schedule_enabled = enabled,
      rw_destructive = bool_to_int (allow_unattended_destructive auths),
      rw_permanent_removal = bool_to_int (allow_unattended_permanent_removal auths),
      rw_revision = revision, rw_exclusions = exclusions, rw_schedule = schedule\<rparr>"

text \<open>\<open>UNIQUE (name)\<close> among the other rows.\<close>

definition name_taken :: "(int \<times> profile_row) list \<Rightarrow> int option \<Rightarrow> string \<Rightarrow> bool" where
  "name_taken rows self name = list_ex (\<lambda>(i, row). Some i \<noteq> self \<and> pv_name row = name) rows"

definition name_conflict :: storage_error where
  "name_conflict = constraint_failed ''sync_profiles.name''"

definition insert_profile ::
  "'a profile_tables_scheme \<Rightarrow> profile_values \<Rightarrow> authorization_snapshot
    \<Rightarrow> storage_error + int \<times> 'a profile_tables_scheme" where
  "insert_profile db v auths =
     (if name_taken (pt_profiles db) None (pv_name v) then Err name_conflict
      else result_bind (autoincrement (pt_profile_seq db)) (\<lambda>i.
        Ok (i, db\<lparr>pt_profiles := pt_profiles db @ [(i, profile_row_of v auths 0 0 [] None)],
                 pt_profile_seq := i\<rparr>)))"

definition update_rows ::
  "int \<Rightarrow> (profile_row \<Rightarrow> profile_row) \<Rightarrow> (int \<times> profile_row) list \<Rightarrow> (int \<times> profile_row) list" where
  "update_rows k f rows = map (\<lambda>(i, row). (i, if i = k then f row else row)) rows"

text \<open>The patterns are inserted one by one under \<open>UNIQUE (profile_id, pattern)\<close>.\<close>

definition insert_exclusions ::
  "'a profile_tables_scheme \<Rightarrow> int \<Rightarrow> sync_profile \<Rightarrow> storage_error + 'a profile_tables_scheme" where
  "insert_exclusions db k prof =
     (if distinct (prof_exclusions prof)
      then Ok (db\<lparr>pt_profiles :=
             update_rows k (\<lambda>row. row\<lparr>rw_exclusions := prof_exclusions prof\<rparr>) (pt_profiles db)\<rparr>)
      else Err (constraint_failed
             ''sync_profile_exclusions.profile_id, sync_profile_exclusions.pattern''))"

definition overwrite_values ::
  "profile_values \<Rightarrow> authorization_snapshot \<Rightarrow> profile_row \<Rightarrow> profile_row" where
  "overwrite_values v auths row =
     profile_row_of v auths (rw_schedule_enabled row) (rw_revision row + 1) (rw_exclusions row)
       (rw_schedule row)"

definition update_profile_row ::
  "'a profile_tables_scheme \<Rightarrow> nat \<Rightarrow> profile_values \<Rightarrow> authorization_snapshot \<Rightarrow> nat
    \<Rightarrow> storage_error + 'a profile_tables_scheme" where
  "update_profile_row db i v auths expected =
     result_bind (profile_id_as_i64 i) (\<lambda>k.
     result_bind (to_sql_id expected) (\<lambda>revision.
     if \<not> is_some_and (\<lambda>row. rw_revision row = revision) (map_of (pt_profiles db) k)
     then Err ConcurrentProfileUpdate
     else if name_taken (pt_profiles db) (Some k) (pv_name v) then Err name_conflict
     else Ok (db\<lparr>pt_profiles := update_rows k (overwrite_values v auths) (pt_profiles db)\<rparr>)))"

subsection \<open>Creating and updating\<close>

definition create_profile_with_authorizations ::
  "(path \<Rightarrow> bool) \<Rightarrow> path option \<Rightarrow> 'b profile_tables_scheme \<Rightarrow> 'a profile_tables_scheme \<Rightarrow> sync_profile
    \<Rightarrow> authorization_snapshot \<Rightarrow> storage_error + persisted_profile \<times> 'a profile_tables_scheme" where
  "create_profile_with_authorizations is_dir cwd seen db prof auths =
     result_bind (validate_profile is_dir prof) (\<lambda>_.
     result_bind (validate_authorizations prof auths) (\<lambda>_.
     result_bind (reject_duplicate_endpoint_pair is_dir cwd seen prof None) (\<lambda>_.
     result_bind (insert_profile db (values_from_profile prof) auths) (\<lambda>(k, db1).
     result_bind (insert_exclusions db1 k prof) (\<lambda>db2.
     result_bind (corrupt_id ''invalid profile identifier'' k) (\<lambda>i.
     Ok (\<lparr>pp_id = i, pp_profile = prof, pp_schedule_enabled = False, pp_schedule = None,
          pp_revision = 0, pp_authorizations = auths\<rparr>, db2)))))))"

definition create_profile ::
  "(path \<Rightarrow> bool) \<Rightarrow> path option \<Rightarrow> 'b profile_tables_scheme \<Rightarrow> 'a profile_tables_scheme \<Rightarrow> sync_profile
    \<Rightarrow> storage_error + persisted_profile \<times> 'a profile_tables_scheme" where
  "create_profile is_dir cwd seen db prof =
     create_profile_with_authorizations is_dir cwd seen db prof default_authorization_snapshot"

definition kept_authorizations ::
  "sync_profile \<Rightarrow> sync_profile \<Rightarrow> authorization_snapshot \<Rightarrow> authorization_snapshot" where
  "kept_authorizations before after auths =
     (if unattended_authorization_scope_changed before after then default_authorization_snapshot
      else auths)"

definition update_profile_if_revision ::
  "(path \<Rightarrow> bool) \<Rightarrow> path option \<Rightarrow> 'b profile_tables_scheme \<Rightarrow> 'a profile_tables_scheme \<Rightarrow> nat
    \<Rightarrow> sync_profile \<Rightarrow> authorization_snapshot \<Rightarrow> nat
    \<Rightarrow> storage_error + persisted_profile \<times> 'a profile_tables_scheme" where
  "update_profile_if_revision is_dir cwd seen db i prof auths expected =
     result_bind (validate_profile is_dir prof) (\<lambda>_.
     result_bind (existing_profile is_dir seen i) (\<lambda>existing.
     if pp_revision existing \<noteq> expected then Err ConcurrentProfileUpdate
     else
     result_bind (reject_duplicate_endpoint_pair is_dir cwd seen prof (Some i)) (\<lambda>_.
     let kept = kept_authorizations (pp_profile existing) prof auths in
     result_bind (validate_authorizations prof kept) (\<lambda>_.
     result_bind (update_profile_row db i (values_from_profile prof) kept expected) (\<lambda>db1.
     result_bind (insert_exclusions db1 (int i) prof) (\<lambda>db2.
     Ok (\<lparr>pp_id = i, pp_profile = prof, pp_schedule_enabled = pp_schedule_enabled existing,
          pp_schedule = pp_schedule existing, pp_revision = pp_revision existing + 1,
          pp_authorizations = kept\<rparr>, db2)))))))"

definition update_profile_with_authorizations ::
  "(path \<Rightarrow> bool) \<Rightarrow> path option \<Rightarrow> 'b profile_tables_scheme \<Rightarrow> 'a profile_tables_scheme \<Rightarrow> nat
    \<Rightarrow> sync_profile \<Rightarrow> authorization_snapshot
    \<Rightarrow> storage_error + persisted_profile \<times> 'a profile_tables_scheme" where
  "update_profile_with_authorizations is_dir cwd seen db i prof auths =
     result_bind (validate_profile is_dir prof) (\<lambda>_.
     result_bind (existing_profile is_dir seen i) (\<lambda>existing.
     update_profile_if_revision is_dir cwd seen db i prof auths (pp_revision existing)))"

definition update_profile ::
  "(path \<Rightarrow> bool) \<Rightarrow> path option \<Rightarrow> 'b profile_tables_scheme \<Rightarrow> 'a profile_tables_scheme \<Rightarrow> nat
    \<Rightarrow> sync_profile \<Rightarrow> storage_error + persisted_profile \<times> 'a profile_tables_scheme" where
  "update_profile is_dir cwd seen db i prof =
     result_bind (existing_profile is_dir seen i) (\<lambda>existing.
     update_profile_if_revision is_dir cwd seen db i prof (pp_authorizations existing)
       (pp_revision existing))"

definition remove_profile ::
  "'a profile_tables_scheme \<Rightarrow> nat \<Rightarrow> storage_error + bool \<times> 'a profile_tables_scheme" where
  "remove_profile db i =
     result_bind (profile_id_as_i64 i) (\<lambda>k.
       Ok (map_of (pt_profiles db) k \<noteq> None,
           db\<lparr>pt_profiles := filter (\<lambda>(j, _). j \<noteq> k) (pt_profiles db)\<rparr>))"

subsection \<open>Schedules\<close>

definition invalid_schedule :: "string \<Rightarrow> storage_error" where
  "invalid_schedule what = InvalidSchedule what"

text \<open>A checked operation on \<open>i64\<close>.\<close>

definition checked_i64 :: "string \<Rightarrow> int \<Rightarrow> storage_error + int" where
  "checked_i64 what v =
     (if - (2 ^ 63) \<le> v \<and> v < 2 ^ 63 then Ok v else Err (invalid_schedule what))"

definition interval_seconds :: "schedule_definition \<Rightarrow> storage_error + int" where
  "interval_seconds s = checked_i64 ''interval is out of range'' (uint (sd_interval s) * 60)"

definition nonnegative_now :: "int \<Rightarrow> storage_error + unit" where
  "nonnegative_now now =
     (if now < 0 then Err (invalid_schedule ''current time must be a nonnegative Unix timestamp'')
      else Ok ())"

definition start_schedule :: "int \<Rightarrow> schedule_definition \<Rightarrow> storage_error + schedule_definition" where
  "start_schedule now s =
     (if sd_enabled s \<and> sd_next_run s = None
      then result_bind (interval_seconds s) (\<lambda>interval.
        result_bind (checked_i64 ''next run is out of range'' (now + interval)) (\<lambda>n.
        Ok (schedule_with_next_run_at s (Some n))))
      else Ok s)"

definition schedule_allowed ::
  "schedule_definition \<Rightarrow> application_mode \<Rightarrow> sync_profile \<Rightarrow> storage_error + unit" where
  "schedule_allowed s mode prof =
     result_bind (validate_schedule s) (\<lambda>_.
     if sd_enabled s \<and> mode \<noteq> Advanced then Err ScheduleRequiresAdvanced
     else if sd_enabled s \<and> opt_safe_delete (prof_options prof) \<and>
             opt_deletion_method (prof_options prof) = None
     then Err (invalid_schedule
       ''scheduled Safe Delete requires an explicitly selected Deletion Method'')
     else Ok ())"

definition set_schedule :: "schedule_definition option \<Rightarrow> int \<Rightarrow> profile_row \<Rightarrow> profile_row" where
  "set_schedule schedule revision row =
     row\<lparr>rw_schedule_enabled := bool_to_int (is_some_and sd_enabled schedule),
        rw_revision := revision, rw_schedule := map_option schedule_to_row schedule\<rparr>"

text \<open>The result is what \<open>load_profile\<close> answers after the commit.\<close>

definition update_schedule_at ::
  "(path \<Rightarrow> bool) \<Rightarrow> 'b profile_tables_scheme \<Rightarrow> 'a profile_tables_scheme \<Rightarrow> nat
    \<Rightarrow> schedule_definition option \<Rightarrow> application_mode \<Rightarrow> int
    \<Rightarrow> storage_error + (storage_error + persisted_profile) \<times> 'a profile_tables_scheme" where
  "update_schedule_at is_dir seen db i schedule mode now =
     result_bind (nonnegative_now now) (\<lambda>_.
     result_bind (convert (start_schedule now) schedule) (\<lambda>started.
     result_bind (existing_profile is_dir seen i) (\<lambda>existing.
     result_bind (convert (\<lambda>s. schedule_allowed s mode (pp_profile existing)) started) (\<lambda>_.
     result_bind (to_sql_id (pp_revision existing + 1)) (\<lambda>revision.
     result_bind (profile_id_as_i64 i) (\<lambda>k.
     if \<not> is_some_and (\<lambda>row. rw_revision row = int (pp_revision existing)) (map_of (pt_profiles db) k)
     then Err ConcurrentProfileUpdate
     else
       let db' = db\<lparr>pt_profiles := update_rows k (set_schedule started revision) (pt_profiles db)\<rparr> in
       Ok (existing_profile is_dir db' i, db')))))))"

definition update_schedule ::
  "(path \<Rightarrow> bool) \<Rightarrow> clock \<Rightarrow> 'b profile_tables_scheme \<Rightarrow> 'a profile_tables_scheme \<Rightarrow> nat
    \<Rightarrow> schedule_definition option \<Rightarrow> application_mode
    \<Rightarrow> storage_error + (storage_error + persisted_profile) \<times> 'a profile_tables_scheme" where
  "update_schedule is_dir clock seen db i schedule mode =
     result_bind clock (update_schedule_at is_dir seen db i schedule mode)"

subsection \<open>Claiming a due run\<close>

record claimed_run =
  cl_profile :: nat
  cl_run :: nat
  cl_scheduled_at :: int
  cl_snapshot :: run_snapshot_record

text \<open>The occurrence to claim: its time and the time of the next one, if the schedule is
  due.\<close>

definition due_occurrence ::
  "schedule_definition option \<Rightarrow> int \<Rightarrow> storage_error + (int \<times> int) option" where
  "due_occurrence schedule now =
     (case schedule of
        None \<Rightarrow> Ok None
      | Some s \<Rightarrow>
          (case sd_next_run s of
             None \<Rightarrow> Ok None
           | Some scheduled_at \<Rightarrow>
               if \<not> sd_enabled s \<or> now < scheduled_at then Ok None
               else
               result_bind (interval_seconds s) (\<lambda>interval.
               result_bind (checked_i64 ''schedule time is out of range'' (now - scheduled_at)) (\<lambda>elapsed.
               result_bind (checked_i64 ''next run is out of range'' (elapsed div interval + 1)) (\<lambda>occurrences.
               result_bind (checked_i64 ''next run is out of range'' (interval * occurrences)) (\<lambda>advance.
               result_bind (checked_i64 ''next run is out of range'' (scheduled_at + advance)) (\<lambda>next_run.
               Ok (Some (scheduled_at, next_run)))))))))"

definition is_due_at :: "int \<Rightarrow> profile_row \<Rightarrow> bool" where
  "is_due_at scheduled_at row =
     is_some_and (\<lambda>s. sw_enabled s = 1 \<and> sw_next_run s = Some scheduled_at) (rw_schedule row)"

definition advance_schedule :: "int \<Rightarrow> profile_row \<Rightarrow> profile_row" where
  "advance_schedule next_run row =
     row\<lparr>rw_schedule := map_option (\<lambda>s. s\<lparr>sw_next_run := Some next_run\<rparr>) (rw_schedule row)\<rparr>"

definition claim_in_transaction ::
  "(path \<Rightarrow> bool) \<Rightarrow> clock \<Rightarrow> 'a profile_tables_scheme \<Rightarrow> persisted_profile \<Rightarrow> int \<Rightarrow> int \<times> int
    \<Rightarrow> storage_error + claimed_run option \<times> 'a profile_tables_scheme" where
  "claim_in_transaction is_dir clock db existing now occurrence =
     (case occurrence of (scheduled_at, next_run) \<Rightarrow>
      let i = pp_id existing; k = int i in
      result_bind
        (ok_or (Sqlite ''Query returned no rows'') (map_of (pt_profiles db) k)) (\<lambda>row.
      if rw_revision row \<noteq> int (pp_revision existing) then Ok (None, db)
      else
      result_bind (allocate_run_id db) (\<lambda>(run, db1).
      result_bind
        (snapshot_from_profile is_dir clock run (pp_profile existing) (pp_authorizations existing))
        (\<lambda>snapshot.
      if \<not> is_due_at scheduled_at row then Ok (None, db1)
      else
      let db2 = db1\<lparr>pt_profiles := update_rows k (advance_schedule next_run) (pt_profiles db1)\<rparr> in
      result_bind (begin_run db2 snapshot) (\<lambda>db3.
      result_bind (insert_scheduler_event db3 i run SchedClaimed now None None) (\<lambda>(_, db4).
      Ok (Some \<lparr>cl_profile = i, cl_run = run, cl_scheduled_at = scheduled_at,
                cl_snapshot = snapshot\<rparr>, db4)))))))"

definition claim_due_schedule ::
  "(path \<Rightarrow> bool) \<Rightarrow> clock \<Rightarrow> 'b profile_tables_scheme \<Rightarrow> 'a profile_tables_scheme \<Rightarrow> nat \<Rightarrow> int
    \<Rightarrow> storage_error + claimed_run option \<times> 'a profile_tables_scheme" where
  "claim_due_schedule is_dir clock seen db i now =
     result_bind (nonnegative_now now) (\<lambda>_.
     result_bind (existing_profile is_dir seen i) (\<lambda>existing.
     result_bind (due_occurrence (pp_schedule existing) now) (\<lambda>due.
     (case due of
        None \<Rightarrow> Ok (None, db)
      | Some occurrence \<Rightarrow> claim_in_transaction is_dir clock db existing now occurrence))))"

subsection \<open>Importing a configuration\<close>

record imported_profile =
  im_profile :: sync_profile
  im_schedule :: "schedule_definition option"

record configuration_import =
  ci_settings :: application_settings
  ci_profiles :: "imported_profile list"

fun check_import ::
  "(path \<Rightarrow> bool) \<Rightarrow> path option \<Rightarrow> sync_profile list \<Rightarrow> imported_profile list \<Rightarrow> storage_error + unit" where
  "check_import is_dir cwd before [] = Ok ()"
| "check_import is_dir cwd before (im # ims) =
     result_bind (validate_profile is_dir (im_profile im)) (\<lambda>_.
     if prof_name (im_profile im) \<in> prof_name ` set before
     then Err (CorruptEvidence ''import contains duplicate Sync Profile names'')
     else
     result_bind
       (case im_schedule im of
          None \<Rightarrow> Ok ()
        | Some s \<Rightarrow>
            result_bind (validate_schedule s) (\<lambda>_.
              if sd_enabled s
              then Err (invalid_schedule ''imported schedules must be disabled until explicitly enabled'')
              else Ok ()))
       (\<lambda>_.
     if list_ex (\<lambda>p. same_endpoint_pair cwd p (im_profile im)) before then Err DuplicateEndpointPair
     else check_import is_dir cwd (before @ [im_profile im]) ims))"

definition imported_schedule_row :: "schedule_definition \<Rightarrow> schedule_row" where
  "imported_schedule_row s =
     \<lparr>sw_interval = uint (sd_interval s), sw_timezone = sd_timezone s, sw_enabled = 0,
      sw_next_run = None\<rparr>"

fun insert_imported ::
  "imported_profile list \<Rightarrow> 'a profile_tables_scheme \<Rightarrow> storage_error + 'a profile_tables_scheme" where
  "insert_imported [] db = Ok db"
| "insert_imported (im # ims) db =
     result_bind (insert_profile db (values_from_profile (im_profile im)) default_authorization_snapshot)
       (\<lambda>(k, db1).
     result_bind (insert_exclusions db1 k (im_profile im)) (\<lambda>db2.
     insert_imported ims
       (db2\<lparr>pt_profiles :=
          update_rows k (\<lambda>row. row\<lparr>rw_schedule := map_option imported_schedule_row (im_schedule im)\<rparr>)
            (pt_profiles db2)\<rparr>)))"

definition replace_configuration ::
  "(path \<Rightarrow> bool) \<Rightarrow> path option \<Rightarrow> 'a profile_tables_scheme \<Rightarrow> configuration_import
    \<Rightarrow> storage_error + 'a profile_tables_scheme" where
  "replace_configuration is_dir cwd db c =
     result_bind (check_import is_dir cwd [] (ci_profiles c)) (\<lambda>_.
     insert_imported (ci_profiles c)
       (db\<lparr>pt_profiles := [], pt_settings := save_settings (pt_settings db) (ci_settings c)\<rparr>))"

subsection \<open>What is stored under a key\<close>

lemma materialize_profile_iff:
  "materialize_profile is_dir k row = Ok p \<longleftrightarrow>
     0 \<le> k \<and> 0 \<le> rw_revision row \<and> pp_id p = nat k \<and> pp_revision p = nat (rw_revision row) \<and>
     rw_schedule_enabled row = bool_to_int (pp_schedule_enabled p) \<and>
     convert schedule_from_row (rw_schedule row) = Ok (pp_schedule p) \<and>
     is_some_and sd_enabled (pp_schedule p) = pp_schedule_enabled p \<and>
     rw_destructive row = bool_to_int (allow_unattended_destructive (pp_authorizations p)) \<and>
     rw_permanent_removal row = bool_to_int (allow_unattended_permanent_removal (pp_authorizations p)) \<and>
     into_profile is_dir row (rw_exclusions row) = Ok (pp_profile p) \<and>
     validate_authorizations (pp_profile p) (pp_authorizations p) = Ok ()"
  unfolding materialize_profile_def Let_def
  by (cases p; cases "pp_authorizations p") (auto simp: profile_bool.dec_Ok_iff split: if_split_asm)

lemma into_profile_valid:
  "into_profile is_dir row es = Ok prof \<Longrightarrow>
     prof_name prof = pv_name row \<and> validate_profile is_dir prof = Ok () \<and> prof_exclusions prof = es"
  by (auto simp: into_profile_def Let_def with_exclusions_def with_options_def with_source_def
      with_mode_def sync_profile_new_def)

lemma into_profile_other_columns [simp]:
  "into_profile is_dir (rw_schedule_update f row) es = into_profile is_dir row es"
  "into_profile is_dir (rw_schedule_enabled_update g row) es = into_profile is_dir row es"
  "into_profile is_dir (rw_revision_update g row) es = into_profile is_dir row es"
  by (simp_all add: into_profile_def)

lemma convert_schedule_round_trip:
  assumes "is_none_or (\<lambda>s. validate_schedule s = Ok ()) schedule"
  shows "convert schedule_from_row (map_option schedule_to_row schedule) = Ok schedule"
  using assms by (intro convert_round_trip schedule_round_trip) (simp add: is_none_or_iff)

lemma holds_profile_row: "holds_values (profile_row_of v auths e r es s) v"
  by (simp add: holds_values_def profile_row_of_def)

lemma materialize_new_row:
  assumes "validate_profile is_dir prof = Ok ()" "profile_storable prof"
    "validate_authorizations prof auths = Ok ()" "0 \<le> k" "0 \<le> revision"
    "convert schedule_from_row schedule = Ok sd" "is_some_and sd_enabled sd = enabled"
  shows "materialize_profile is_dir k
      (profile_row_of (values_from_profile prof) auths (bool_to_int enabled) revision
         (prof_exclusions prof) schedule) =
    Ok \<lparr>pp_id = nat k, pp_profile = prof, pp_schedule_enabled = enabled, pp_schedule = sd,
        pp_revision = nat revision, pp_authorizations = auths\<rparr>"
  using assms into_profile_round_trip[OF assms(1,2) holds_profile_row]
  by (simp add: materialize_profile_iff) (simp add: profile_row_of_def)

lemma map_of_update_rows:
  "map_of (update_rows k f rows) l = map_option (\<lambda>row. if l = k then f row else row) (map_of rows l)"
  by (induction rows) (auto simp: update_rows_def)

lemma map_fst_update_rows [simp]: "map fst (update_rows k f rows) = map fst rows"
  by (simp add: update_rows_def comp_def case_prod_beta)

lemma keys_below_update_rows [simp]: "keys_below (update_rows k f rows) used = keys_below rows used"
proof -
  have "list_all (\<lambda>e. P (fst e)) (update_rows k f rows) = list_all (\<lambda>e. P (fst e)) rows" for P
    by (simp add: update_rows_def list.pred_map comp_def case_prod_beta)
  from this[of "\<lambda>i. 0 < i \<and> i \<le> used"] show ?thesis by (simp add: keys_below_def)
qed

lemma keys_below_map_of: "keys_below rows used \<Longrightarrow> map_of rows k = Some row \<Longrightarrow> 0 < k \<and> k \<le> used"
  by (auto simp: keys_below_def list_all_iff dest!: map_of_SomeD)

definition stored :: "(path \<Rightarrow> bool) \<Rightarrow> 'a profile_tables_scheme \<Rightarrow> int \<Rightarrow> persisted_profile \<Rightarrow> bool" where
  "stored is_dir db k p =
     (\<exists>row. map_of (pt_profiles db) k = Some row \<and> materialize_profile is_dir k row = Ok p)"

definition profiles_apart :: "path option \<Rightarrow> sync_profile \<Rightarrow> sync_profile \<Rightarrow> bool" where
  "profiles_apart cwd p q = (prof_name p \<noteq> prof_name q \<and> \<not> same_endpoint_pair cwd p q)"

lemma profiles_apart_sym: "profiles_apart cwd p q = profiles_apart cwd q p"
  by (auto simp: profiles_apart_def same_endpoint_pair_def same_endpoint_def)

definition profile_inv :: "(path \<Rightarrow> bool) \<Rightarrow> path option \<Rightarrow> 'a profile_tables_scheme \<Rightarrow> bool" where
  "profile_inv is_dir cwd db =
     (keys_below (pt_profiles db) (pt_profile_seq db) \<and> 0 \<le> pt_profile_seq db \<and>
      (\<forall>k row. map_of (pt_profiles db) k = Some row \<longrightarrow> (\<exists>p. materialize_profile is_dir k row = Ok p)) \<and>
      (\<forall>k l p q. stored is_dir db k p \<longrightarrow> stored is_dir db l q \<longrightarrow> k \<noteq> l \<longrightarrow>
         profiles_apart cwd (pp_profile p) (pp_profile q)))"

lemma stored_unique: "stored is_dir db k p \<Longrightarrow> stored is_dir db k q \<Longrightarrow> p = q"
  by (auto simp: stored_def)

lemma stored_update:
  "stored is_dir (db\<lparr>pt_profiles := update_rows k f (pt_profiles db)\<rparr>) l p \<longleftrightarrow>
     (if l = k then \<exists>row. map_of (pt_profiles db) k = Some row \<and> materialize_profile is_dir k (f row) = Ok p
      else stored is_dir db l p)"
  by (auto simp: stored_def map_of_update_rows)

text \<open>Changing one row keeps the invariant when the new profile reads back and stays apart from
  the others.\<close>

lemma profile_inv_update:
  assumes "profile_inv is_dir cwd db" "map_of (pt_profiles db) k = Some row"
    "materialize_profile is_dir k (f row) = Ok p"
    "\<And>l q. stored is_dir db l q \<Longrightarrow> l \<noteq> k \<Longrightarrow> profiles_apart cwd (pp_profile p) (pp_profile q)"
  shows "profile_inv is_dir cwd (db\<lparr>pt_profiles := update_rows k f (pt_profiles db)\<rparr>)"
proof -
  have "\<exists>p'. materialize_profile is_dir l row' = Ok p'"
    if "map_of (update_rows k f (pt_profiles db)) l = Some row'" for l row'
    using that assms by (auto simp: map_of_update_rows profile_inv_def split: if_split_asm)
  moreover have "profiles_apart cwd (pp_profile a) (pp_profile b)"
    if "stored is_dir (db\<lparr>pt_profiles := update_rows k f (pt_profiles db)\<rparr>) l a"
      "stored is_dir (db\<lparr>pt_profiles := update_rows k f (pt_profiles db)\<rparr>) m b" "l \<noteq> m" for l m a b
    using that assms(1-3) assms(4) assms(4)[THEN profiles_apart_sym[THEN iffD1]] unfolding stored_update
    by (auto simp: profile_inv_def split: if_split_asm)
  ultimately show ?thesis
    using assms(1) unfolding profile_inv_def by simp
qed

lemma profile_inv_append:
  assumes "profile_inv is_dir cwd db"
    "materialize_profile is_dir (pt_profile_seq db + 1) row = Ok p"
    "\<And>l q. stored is_dir db l q \<Longrightarrow> profiles_apart cwd (pp_profile p) (pp_profile q)"
  shows "profile_inv is_dir cwd
    (db\<lparr>pt_profiles := pt_profiles db @ [(pt_profile_seq db + 1, row)],
        pt_profile_seq := pt_profile_seq db + 1\<rparr>)"
proof -
  let ?k = "pt_profile_seq db + 1"
  let ?db = "db\<lparr>pt_profiles := pt_profiles db @ [(?k, row)], pt_profile_seq := ?k\<rparr>"
  have fresh: "map_of (pt_profiles db) ?k = None"
    using assms(1) keys_below_map_of[of "pt_profiles db" "pt_profile_seq db" ?k]
    by (cases "map_of (pt_profiles db) ?k") (auto simp: profile_inv_def)
  then have m: "map_of (pt_profiles ?db) l = (if l = ?k then Some row else map_of (pt_profiles db) l)" for l
    by (auto simp: map_add_def split: option.splits)
  have st: "stored is_dir ?db l a \<longleftrightarrow> (if l = ?k then materialize_profile is_dir ?k row = Ok a
      else stored is_dir db l a)" for l a
    unfolding stored_def m by auto
  have "profiles_apart cwd (pp_profile a) (pp_profile b)"
    if "stored is_dir ?db l a" "stored is_dir ?db n b" "l \<noteq> n" for l n a b
    using that assms(1,2) assms(3) assms(3)[THEN profiles_apart_sym[THEN iffD1]] unfolding st
    by (auto simp: profile_inv_def split: if_split_asm)
  moreover have "\<exists>a. materialize_profile is_dir l row' = Ok a" if "map_of (pt_profiles ?db) l = Some row'" for l row'
    using that assms unfolding m by (auto simp: profile_inv_def split: if_split_asm)
  moreover have "keys_below (pt_profiles ?db) (pt_profile_seq ?db)"
    using assms(1) by (simp add: profile_inv_def keys_below_append)
  ultimately show ?thesis
    using assms(1) unfolding profile_inv_def by simp
qed

subsection \<open>Operations keep the invariant\<close>

lemma update_rows_fresh: "k \<notin> fst ` set rows \<Longrightarrow> update_rows k f rows = rows"
  by (induction rows) (auto simp: update_rows_def)

lemma update_rows_append:
  "update_rows k f (rows @ [(k, row)]) = update_rows k f rows @ [(k, f row)]"
  by (simp add: update_rows_def)

lemma update_rows_twice: "update_rows k g (update_rows k f rows) = update_rows k (\<lambda>r. g (f r)) rows"
  by (simp add: update_rows_def case_prod_beta comp_def)

lemma listed_profiles:
  assumes "list_profiles is_dir db = Ok ps" "keys_below (pt_profiles db) used"
  shows "p \<in> set ps \<longleftrightarrow> (\<exists>k. stored is_dir db k p)"
proof -
  have "map_of (pt_profiles db) k = Some row \<longleftrightarrow> (k, row) \<in> set (pt_profiles db)" for k row
    using assms(2) by (simp add: keys_below_def)
  then show ?thesis
    using collect_results_set[OF assms(1)[unfolded list_profiles_def], of p]
    by (auto simp: stored_def Bex_def)
qed

lemma stored_fields:
  "stored is_dir db k p \<Longrightarrow> 0 \<le> k \<and> pp_id p = nat k \<and> validate_profile is_dir (pp_profile p) = Ok ()"
  by (auto simp: stored_def materialize_profile_iff dest!: into_profile_valid)

lemma no_duplicate_pair:
  assumes "reject_duplicate_endpoint_pair is_dir cwd db prof excluded = Ok u" "profile_inv is_dir cwd db"
    "stored is_dir db k q" "Some (nat k) \<noteq> excluded"
  shows "\<not> same_endpoint_pair cwd (pp_profile q) prof"
proof -
  from assms(1) obtain ps where ps: "list_profiles is_dir db = Ok ps"
      "\<not> list_ex (\<lambda>q. Some (pp_id q) \<noteq> excluded \<and> same_endpoint_pair cwd (pp_profile q) prof) ps"
    by (auto simp: reject_duplicate_endpoint_pair_def split: if_split_asm)
  have "q \<in> set ps"
    using listed_profiles[OF ps(1)] assms(2,3) by (auto simp: profile_inv_def)
  then show ?thesis using ps(2) assms(4) stored_fields[OF assms(3)] by (auto simp: list_ex_iff)
qed

lemma name_not_taken:
  assumes "\<not> name_taken (pt_profiles db) self name" "stored is_dir db k q" "Some k \<noteq> self"
  shows "prof_name (pp_profile q) \<noteq> name"
proof -
  from assms(2) obtain row where "(k, row) \<in> set (pt_profiles db)" "prof_name (pp_profile q) = pv_name row"
    by (auto simp: stored_def materialize_profile_iff dest: map_of_SomeD into_profile_valid)
  then show ?thesis using assms(1,3) by (auto simp: name_taken_def list_ex_iff)
qed

lemma insert_profile_Ok:
  assumes "insert_profile db v auths = Ok (k, db1)" "insert_exclusions db1 k prof = Ok db2"
    "keys_below (pt_profiles db) (pt_profile_seq db)"
  shows "k = pt_profile_seq db + 1" "\<not> name_taken (pt_profiles db) None (pv_name v)"
    "distinct (prof_exclusions prof)"
    "db2 = db\<lparr>pt_profiles := pt_profiles db @ [(k, profile_row_of v auths 0 0 (prof_exclusions prof) None)],
             pt_profile_seq := k\<rparr>"
proof -
  from assms(1) have k: "k = pt_profile_seq db + 1" "\<not> name_taken (pt_profiles db) None (pv_name v)"
      "db1 = db\<lparr>pt_profiles := pt_profiles db @ [(k, profile_row_of v auths 0 0 [] None)], pt_profile_seq := k\<rparr>"
    by (auto simp: insert_profile_def split: if_split_asm)
  show "k = pt_profile_seq db + 1" "\<not> name_taken (pt_profiles db) None (pv_name v)" by (fact k)+
  from assms(2) show "distinct (prof_exclusions prof)"
    by (simp add: insert_exclusions_def split: if_split_asm)
  have "k \<notin> fst ` set (pt_profiles db)"
    using assms(3) k(1) by (force simp: keys_below_def list_all_iff)
  then have "update_rows k (\<lambda>row. row\<lparr>rw_exclusions := prof_exclusions prof\<rparr>) (pt_profiles db1) =
      pt_profiles db @ [(k, profile_row_of v auths 0 0 (prof_exclusions prof) None)]"
    by (simp add: k(3) update_rows_append update_rows_fresh) (simp add: profile_row_of_def)
  then show "db2 = db\<lparr>pt_profiles := pt_profiles db @ [(k, profile_row_of v auths 0 0 (prof_exclusions prof) None)],
             pt_profile_seq := k\<rparr>"
    using assms(2) by (cases db) (auto simp: insert_exclusions_def k(3) split: if_split_asm)
qed

text \<open>Storing a new profile that stays apart from the others.\<close>

lemma insert_profile_inv:
  assumes "profile_inv is_dir cwd db" "insert_profile db (values_from_profile prof) auths = Ok (k, db1)"
    "insert_exclusions db1 k prof = Ok db2"
    "validate_profile is_dir prof = Ok ()" "profile_storable prof"
    "validate_authorizations prof auths = Ok ()"
    "\<forall>l q. stored is_dir db l q \<longrightarrow> \<not> same_endpoint_pair cwd (pp_profile q) prof"
  shows "profile_inv is_dir cwd db2" "k = pt_profile_seq db + 1" "0 < k"
    "pt_profile_seq db2 = k"
    "stored is_dir db2 l q \<longleftrightarrow> stored is_dir db l q \<or> l = k \<and>
      q = \<lparr>pp_id = nat k, pp_profile = prof, pp_schedule_enabled = False, pp_schedule = None,
          pp_revision = 0, pp_authorizations = auths\<rparr>"
proof -
  have kb: "keys_below (pt_profiles db) (pt_profile_seq db)" "0 \<le> pt_profile_seq db"
    using assms(1) by (simp_all add: profile_inv_def)
  note ins = insert_profile_Ok[OF assms(2,3) kb(1)]
  let ?row = "profile_row_of (values_from_profile prof) auths 0 0 (prof_exclusions prof) None"
  let ?p = "\<lparr>pp_id = nat k, pp_profile = prof, pp_schedule_enabled = False, pp_schedule = None,
          pp_revision = 0, pp_authorizations = auths\<rparr>"
  have m: "materialize_profile is_dir k ?row = Ok ?p"
    using materialize_new_row[OF assms(4-6), of k 0 None None False] kb(2) ins(1)
    by (simp add: convert_def bool_to_int_def)
  have apart: "profiles_apart cwd (pp_profile ?p) (pp_profile q)" if "stored is_dir db l q" for l q
    using name_not_taken[OF ins(2) that] assms(7)[rule_format, OF that]
    by (auto simp: profiles_apart_def values_from_profile_def Let_def same_endpoint_pair_def
        same_endpoint_def)
  show "profile_inv is_dir cwd db2"
    using profile_inv_append[OF assms(1), of ?row ?p] m apart ins(4) unfolding ins(1)[symmetric] by simp
  show "k = pt_profile_seq db + 1" "0 < k" "pt_profile_seq db2 = k"
    using ins kb(2) by simp_all
  have "map_of (pt_profiles db) k = None"
    using kb(1) keys_below_map_of[of "pt_profiles db" "pt_profile_seq db" k] ins(1)
    by (cases "map_of (pt_profiles db) k") auto
  then show "stored is_dir db2 l q \<longleftrightarrow> stored is_dir db l q \<or> l = k \<and> q = ?p"
    using m by (auto simp: stored_def ins(4) map_add_def split: option.splits if_split_asm)
qed

lemma existing_profile_Ok [simp]:
  "existing_profile is_dir db i = Ok p \<longleftrightarrow> i < 2 ^ 63 \<and> stored is_dir db (int i) p"
  by (auto simp: existing_profile_def load_profile_def profile_id_as_i64_def convert_Ok stored_def)

lemma stored_cong:
  "pt_profiles db' = pt_profiles db \<Longrightarrow> stored is_dir db' = stored is_dir db"
  by (simp add: stored_def fun_eq_iff)

lemma profile_inv_cong:
  "pt_profiles db' = pt_profiles db \<Longrightarrow> pt_profile_seq db' = pt_profile_seq db \<Longrightarrow>
     profile_inv is_dir cwd db' = profile_inv is_dir cwd db"
  by (simp add: profile_inv_def stored_cong[of db' db])

text \<open>An update replaces the columns of one row and keeps its schedule.\<close>

lemma update_profile_tables:
  assumes "update_profile_row db i v auths expected = Ok db1" "insert_exclusions db1 (int i) prof = Ok db2"
  obtains row where "map_of (pt_profiles db) (int i) = Some row" "rw_revision row = int expected"
    "\<not> name_taken (pt_profiles db) (Some (int i)) (pv_name v)"
    "db2 = db\<lparr>pt_profiles := update_rows (int i)
       (\<lambda>r. profile_row_of v auths (rw_schedule_enabled r) (rw_revision r + 1) (prof_exclusions prof)
          (rw_schedule r)) (pt_profiles db)\<rparr>"
proof -
  from assms(1) obtain row where row: "map_of (pt_profiles db) (int i) = Some row" "rw_revision row = int expected"
    "\<not> name_taken (pt_profiles db) (Some (int i)) (pv_name v)"
    "db1 = db\<lparr>pt_profiles := update_rows (int i) (overwrite_values v auths) (pt_profiles db)\<rparr>"
    by (auto simp: update_profile_row_def profile_id_as_i64_def to_sql_id_def is_some_and_iff
        split: if_split_asm)
  have "(\<lambda>r. (overwrite_values v auths r)\<lparr>rw_exclusions := prof_exclusions prof\<rparr>) =
      (\<lambda>r. profile_row_of v auths (rw_schedule_enabled r) (rw_revision r + 1) (prof_exclusions prof)
          (rw_schedule r))"
    by (simp add: fun_eq_iff overwrite_values_def profile_row_of_def)
  with assms(2) row(4) have "db2 = db\<lparr>pt_profiles := update_rows (int i)
       (\<lambda>r. profile_row_of v auths (rw_schedule_enabled r) (rw_revision r + 1) (prof_exclusions prof)
          (rw_schedule r)) (pt_profiles db)\<rparr>"
    by (auto simp: insert_exclusions_def update_rows_twice split: if_split_asm)
  with row(1-3) that show thesis by blast
qed

lemma update_profile_inv:
  assumes "update_profile_if_revision is_dir cwd db db i prof auths expected = Ok (p, db')"
    "profile_inv is_dir cwd db" "profile_storable prof"
  shows "profile_inv is_dir cwd db'" "stored is_dir db' (int i) p" "i < 2 ^ 63" "pp_profile p = prof"
proof -
  from assms(1) obtain existing db1 where
    e: "validate_profile is_dir prof = Ok ()" "i < 2 ^ 63" "stored is_dir db (int i) existing"
      "pp_revision existing = expected"
      "reject_duplicate_endpoint_pair is_dir cwd db prof (Some i) = Ok ()"
    and k: "validate_authorizations prof (kept_authorizations (pp_profile existing) prof auths) = Ok ()"
    and u: "update_profile_row db i (values_from_profile prof)
        (kept_authorizations (pp_profile existing) prof auths) expected = Ok db1"
      "insert_exclusions db1 (int i) prof = Ok db'"
    and p: "p = \<lparr>pp_id = i, pp_profile = prof, pp_schedule_enabled = pp_schedule_enabled existing,
          pp_schedule = pp_schedule existing, pp_revision = pp_revision existing + 1,
          pp_authorizations = kept_authorizations (pp_profile existing) prof auths\<rparr>"
    by (auto simp: update_profile_if_revision_def Let_def split: if_split_asm)
  let ?kept = "kept_authorizations (pp_profile existing) prof auths"
  let ?f = "\<lambda>r. profile_row_of (values_from_profile prof) ?kept (rw_schedule_enabled r)
      (rw_revision r + 1) (prof_exclusions prof) (rw_schedule r)"
  obtain row where row: "map_of (pt_profiles db) (int i) = Some row" "rw_revision row = int expected"
      "\<not> name_taken (pt_profiles db) (Some (int i)) (pv_name (values_from_profile prof))"
      "db' = db\<lparr>pt_profiles := update_rows (int i) ?f (pt_profiles db)\<rparr>"
    by (rule update_profile_tables[OF u])
  have ex: "materialize_profile is_dir (int i) row = Ok existing"
    using e(3) row(1) by (simp add: stored_def)
  have m: "materialize_profile is_dir (int i) (?f row) = Ok p"
    using ex materialize_new_row[OF e(1) assms(3) k, of "int i" "rw_revision row + 1" "rw_schedule row"
        "pp_schedule existing" "pp_schedule_enabled existing"]
    by (simp add: materialize_profile_iff[of is_dir "int i" row existing] p e(4) nat_add_distrib)
  have "profiles_apart cwd prof (pp_profile q)" if "stored is_dir db l q" "l \<noteq> int i" for l q
  proof -
    have "Some (nat l) \<noteq> Some i" using that(2) stored_fields[OF that(1)] by auto
    from name_not_taken[OF row(3) that(1)] no_duplicate_pair[OF e(5) assms(2) that(1) this] that(2)
    show ?thesis
      by (auto simp: profiles_apart_def values_from_profile_def Let_def same_endpoint_pair_def
          same_endpoint_def)
  qed
  then show "profile_inv is_dir cwd db'"
    unfolding row(4) by (intro profile_inv_update[where f = ?f, OF assms(2) row(1) m]) (simp add: p)
  show "stored is_dir db' (int i) p"
    using m row(1) unfolding row(4) stored_update by simp
  show "i < 2 ^ 63" "pp_profile p = prof" using e(2) by (simp_all add: p)
qed

text \<open>Schedules.\<close>

lemma stored_schedule_valid:
  assumes "convert schedule_from_row r = Ok schedule"
  shows "is_none_or (\<lambda>s. validate_schedule s = Ok ()) schedule"
  using assms by (auto simp: convert_Ok is_none_or_iff schedule_from_row_def
      schedule_new_with_next_run_at_def Let_def)

lemma update_schedule_inv:
  assumes "update_schedule_at is_dir db db i schedule mode now = Ok (answer, db')"
    "profile_inv is_dir cwd db"
  shows "profile_inv is_dir cwd db'"
    "\<exists>p started. answer = Ok p \<and> stored is_dir db' (int i) p \<and> convert (start_schedule now) schedule = Ok started \<and>
       pp_schedule p = started"
proof -
  from assms(1) obtain started existing where
    c: "convert (start_schedule now) schedule = Ok started"
      "stored is_dir db (int i) existing" "i < 2 ^ 63"
      "\<exists>u. convert (\<lambda>s. schedule_allowed s mode (pp_profile existing)) started = Ok u"
    and db': "db' = db\<lparr>pt_profiles := update_rows (int i)
        (set_schedule started (int (pp_revision existing + 1))) (pt_profiles db)\<rparr>"
      "answer = existing_profile is_dir db' i"
    by (auto simp: update_schedule_at_def profile_id_as_i64_def to_sql_id_def Let_def
        split: if_split_asm)
  from c(4) have valid: "is_none_or (\<lambda>s. validate_schedule s = Ok ()) started"
    by (auto simp: convert_Ok schedule_allowed_def is_none_or_iff)
  from c(2) obtain row where row: "map_of (pt_profiles db) (int i) = Some row"
      "materialize_profile is_dir (int i) row = Ok existing"
    by (auto simp: stored_def)
  let ?p = "existing\<lparr>pp_schedule_enabled := is_some_and sd_enabled started, pp_schedule := started,
      pp_revision := pp_revision existing + 1\<rparr>"
  have m: "materialize_profile is_dir (int i) (set_schedule started (int (pp_revision existing + 1)) row) = Ok ?p"
    using row(2) convert_schedule_round_trip[OF valid]
    by (simp add: materialize_profile_iff set_schedule_def Suc_nat_eq_nat_zadd1)
  have "profiles_apart cwd (pp_profile ?p) (pp_profile q)" if "stored is_dir db l q" "l \<noteq> int i" for l q
    using assms(2) c(2) that by (simp add: profile_inv_def)
  then show "profile_inv is_dir cwd db'"
    unfolding db'(1)
    by (intro profile_inv_update[where f = "set_schedule started (int (pp_revision existing + 1))",
          OF assms(2) row(1) m])
  have "stored is_dir db' (int i) ?p"
    using m row(1) unfolding db'(1) stored_update by simp
  then have "answer = Ok ?p" using c(3) by (simp add: db'(2))
  then show "\<exists>p started. answer = Ok p \<and> stored is_dir db' (int i) p \<and>
      convert (start_schedule now) schedule = Ok started \<and> pp_schedule p = started"
    using c(1) \<open>stored is_dir db' (int i) ?p\<close> by auto
qed

subsection \<open>What a claim does\<close>

lemma due_occurrence_Some:
  assumes "due_occurrence schedule now = Ok (Some (at, next_run))"
  obtains s where "schedule = Some s" "sd_enabled s" "sd_next_run s = Some at" "at \<le> now"
    "next_run = at + uint (sd_interval s) * 60 * ((now - at) div (uint (sd_interval s) * 60) + 1)"
  using assms
  by (auto simp: due_occurrence_def interval_seconds_def checked_i64_def split: option.splits if_split_asm)

text \<open>The first occurrence after now.\<close>

lemma next_occurrence:
  fixes at now step :: int
  assumes "0 < step" "at \<le> now" "n = at + step * ((now - at) div step + 1)"
  shows "now < n" "n - step \<le> now" "(n - at) mod step = 0" "at < n"
proof -
  have d: "(now - at) div step * step + (now - at) mod step = now - at" by simp
  have r: "0 \<le> (now - at) mod step" "(now - at) mod step < step" using assms(1) by simp_all
  have n: "n = at + (now - at) div step * step + step" by (simp add: assms(3) algebra_simps)
  show "now < n" "n - step \<le> now" using d r n by linarith+
  then show "at < n" using assms(2) by linarith
  show "(n - at) mod step = 0" by (simp add: assms(3))
qed

lemma interval_positive:
  assumes "validate_schedule s = Ok u"
  shows "0 < uint (sd_interval s) * 60"
proof -
  have "sd_interval s \<noteq> 0" using assms by (simp add: validate_schedule_Ok one_le_word)
  then have "uint (sd_interval s) \<noteq> 0" by (simp add: uint_0_iff)
  then show ?thesis using uint_ge_0[of "sd_interval s"] by linarith
qed

text \<open>The operations on runs and events leave the profiles alone.\<close>

lemma allocate_run_id_Ok:
  fixes db :: "'a profile_tables_scheme"
  assumes "allocate_run_id db = Ok (run, db')"
  shows "pt_profiles db' = pt_profiles db" "pt_profile_seq db' = pt_profile_seq db"
    "rt_rows db' = rt_rows db" "rt_next_run_id db \<le> int run" "rt_next_run_id db' = int run + 1"
    "highest_run db < int run" "st_event_seq db' = st_event_seq db"
    "int run = max (rt_next_run_id db) (highest_run db + 1)"
  using assms by (auto simp: allocate_run_id_def Let_def checked_i64_succ_def split: if_split_asm)

lemma begin_run_Ok:
  fixes db :: "'a profile_tables_scheme"
  assumes "begin_run db s = Ok db'"
  obtains row where "snapshot_to_row s = Ok row" "rt_rows db' = rt_rows db @ [(int (rs_run_id s), row)]"
    "pt_profiles db' = pt_profiles db" "pt_profile_seq db' = pt_profile_seq db"
    "rt_next_run_id db' = max (rt_next_run_id db) (int (rs_run_id s) + 1)"
    "map_of (rt_rows db) (int (rs_run_id s)) = None" "st_event_seq db' = st_event_seq db"
  using assms by (auto simp: begin_run_def to_sql_id_def checked_i64_succ_def split: if_split_asm)

lemma insert_event_profiles:
  fixes db :: "'a profile_tables_scheme"
  assumes "insert_scheduler_event db p r kind t n c = Ok (i, db')"
  shows "pt_profiles db' = pt_profiles db" "pt_profile_seq db' = pt_profile_seq db"
    "rt_rows db' = rt_rows db" "rt_next_run_id db' = rt_next_run_id db"
    "st_event_seq db' = st_event_seq db + 1"
proof -
  obtain m where "db' = db\<lparr>st_events := st_events db @
        [(st_event_seq db + 1, new_event (int p) (int r) kind t m c)],
        st_event_seq := st_event_seq db + 1\<rparr>"
    by (rule insert_event_Ok[OF assms])
  then show "pt_profiles db' = pt_profiles db" "pt_profile_seq db' = pt_profile_seq db"
    "rt_rows db' = rt_rows db" "rt_next_run_id db' = rt_next_run_id db"
    "st_event_seq db' = st_event_seq db + 1"
    by simp_all
qed

lemma claim_Some:
  fixes db :: "'a profile_tables_scheme"
  assumes "claim_due_schedule is_dir clock seen db i now = Ok (Some c, db')"
  obtains existing s row next_run stored_run where
    "stored is_dir seen (int i) existing" "i < 2 ^ 63"
    "pp_schedule existing = Some s" "sd_enabled s" "sd_next_run s = Some (cl_scheduled_at c)"
    "cl_scheduled_at c \<le> now" "0 \<le> now"
    "next_run = cl_scheduled_at c +
       uint (sd_interval s) * 60 * ((now - cl_scheduled_at c) div (uint (sd_interval s) * 60) + 1)"
    "map_of (pt_profiles db) (int i) = Some row" "rw_revision row = int (pp_revision existing)"
    "is_due_at (cl_scheduled_at c) row"
    "pt_profiles db' = update_rows (int i) (advance_schedule next_run) (pt_profiles db)"
    "pt_profile_seq db' = pt_profile_seq db"
    "snapshot_from_profile is_dir clock (cl_run c) (pp_profile existing) (pp_authorizations existing) =
       Ok (cl_snapshot c)"
    "snapshot_to_row (cl_snapshot c) = Ok stored_run"
    "rt_rows db' = rt_rows db @ [(int (cl_run c), stored_run)]"
    "map_of (rt_rows db) (int (cl_run c)) = None"
    "rt_next_run_id db \<le> int (cl_run c)" "rt_next_run_id db' = int (cl_run c) + 1"
    "cl_profile c = i" "highest_run db < int (cl_run c)" "st_event_seq db' = st_event_seq db + 1"
    "int (cl_run c) = max (rt_next_run_id db) (highest_run db + 1)"
proof -
  from assms obtain existing occurrence where
    e: "0 \<le> now" "i < 2 ^ 63" "stored is_dir seen (int i) existing"
      "due_occurrence (pp_schedule existing) now = Ok (Some occurrence)"
      "claim_in_transaction is_dir clock db existing now occurrence = Ok (Some c, db')"
    by (auto simp: claim_due_schedule_def nonnegative_now_def split: if_split_asm option.splits)
  obtain at next_run where o: "occurrence = (at, next_run)" by (cases occurrence)
  have id: "pp_id existing = i" using stored_fields[OF e(3)] by simp
  from e(5)[unfolded claim_in_transaction_def o prod.case Let_def id] obtain row run db1 snapshot db3 ev where
    t: "map_of (pt_profiles db) (int i) = Some row" "rw_revision row = int (pp_revision existing)"
      "allocate_run_id db = Ok (run, db1)"
      "snapshot_from_profile is_dir clock run (pp_profile existing) (pp_authorizations existing) = Ok snapshot"
      "is_due_at at row"
      "begin_run (db1\<lparr>pt_profiles := update_rows (int i) (advance_schedule next_run) (pt_profiles db1)\<rparr>)
         snapshot = Ok db3"
      "insert_scheduler_event db3 i run SchedClaimed now None None = Ok (ev, db')"
    and c: "c = \<lparr>cl_profile = i, cl_run = run, cl_scheduled_at = at, cl_snapshot = snapshot\<rparr>"
    by (auto split: if_split_asm)
  have run: "rs_run_id snapshot = run"
    using t(4) by (auto simp: snapshot_from_profile_def snapshot_with_volumes_Ok)
  note a = allocate_run_id_Ok[OF t(3)]
  obtain stored_run where b: "snapshot_to_row snapshot = Ok stored_run"
      "rt_rows db3 = rt_rows db1 @ [(int run, stored_run)]"
      "pt_profiles db3 = update_rows (int i) (advance_schedule next_run) (pt_profiles db1)"
      "pt_profile_seq db3 = pt_profile_seq db1"
      "rt_next_run_id db3 = max (rt_next_run_id db1) (int run + 1)"
      "map_of (rt_rows db1) (int run) = None" "st_event_seq db3 = st_event_seq db1"
    by (rule begin_run_Ok[OF t(6), unfolded run]) auto
  note v = insert_event_profiles[OF t(7)]
  obtain s where s: "pp_schedule existing = Some s" "sd_enabled s" "sd_next_run s = Some at" "at \<le> now"
      "next_run = at + uint (sd_interval s) * 60 * ((now - at) div (uint (sd_interval s) * 60) + 1)"
    using due_occurrence_Some[OF e(4)[unfolded o]] .
  show thesis
    by (rule that[of existing s next_run row stored_run]) (use e s t a b v c in simp_all)
qed

lemma claim_None:
  fixes db :: "'a profile_tables_scheme"
  assumes "claim_due_schedule is_dir clock seen db i now = Ok (None, db')"
  shows "pt_profiles db' = pt_profiles db \<and> pt_profile_seq db' = pt_profile_seq db \<and>
    rt_rows db' = rt_rows db \<and> rt_next_run_id db \<le> rt_next_run_id db'"
proof -
  from assms consider "db' = db"
    | existing occurrence where "claim_in_transaction is_dir clock db existing now occurrence = Ok (None, db')"
    by (auto simp: claim_due_schedule_def split: option.splits)
  then show ?thesis
  proof cases
    case (2 existing occurrence)
    then have "db' = db \<or> (\<exists>run. allocate_run_id db = Ok (run, db'))"
      by (cases occurrence) (auto simp: claim_in_transaction_def Let_def split: if_split_asm)
    then show ?thesis using allocate_run_id_Ok[of db _ db'] by fastforce
  qed simp
qed

lemma stored_schedule_step:
  assumes "stored is_dir db k p" "pp_schedule p = Some s"
  shows "0 < uint (sd_interval s) * 60" "validate_schedule s = Ok ()"
proof -
  from assms have "validate_schedule s = Ok ()"
    using stored_schedule_valid by (fastforce simp: stored_def materialize_profile_iff)
  then show "validate_schedule s = Ok ()" "0 < uint (sd_interval s) * 60"
    by (simp_all add: interval_positive)
qed

definition next_due :: "'a profile_tables_scheme \<Rightarrow> int \<Rightarrow> int \<Rightarrow> bool" where
  "next_due db k t = is_some_and (is_due_at t) (map_of (pt_profiles db) k)"

lemma next_due_unique: "next_due db k t \<Longrightarrow> next_due db k u \<Longrightarrow> t = u"
  by (auto simp: next_due_def is_some_and_iff is_due_at_def)

lemma is_due_advance: "is_due_at t row \<Longrightarrow> is_due_at u (advance_schedule u row)"
  by (auto simp: is_due_at_def advance_schedule_def is_some_and_iff)

lemma claim_advances:
  fixes db :: "'a profile_tables_scheme"
  assumes "claim_due_schedule is_dir clock seen db i now = Ok (Some c, db')"
  obtains n where "next_due db (int i) (cl_scheduled_at c)" "next_due db' (int i) n"
    "cl_scheduled_at c < n" "now < n" "\<And>k. k \<noteq> int i \<Longrightarrow> next_due db' k = next_due db k"
    "rt_next_run_id db \<le> int (cl_run c)" "int (cl_run c) < rt_next_run_id db'"
proof -
  obtain existing s row n where
    e: "stored is_dir seen (int i) existing" "pp_schedule existing = Some s" "cl_scheduled_at c \<le> now"
    and n: "n = cl_scheduled_at c +
       uint (sd_interval s) * 60 * ((now - cl_scheduled_at c) div (uint (sd_interval s) * 60) + 1)"
    and r: "map_of (pt_profiles db) (int i) = Some row" "is_due_at (cl_scheduled_at c) row"
    and t: "pt_profiles db' = update_rows (int i) (advance_schedule n) (pt_profiles db)"
      "rt_next_run_id db \<le> int (cl_run c)" "rt_next_run_id db' = int (cl_run c) + 1"
    by (rule claim_Some[OF assms])
  note step = next_occurrence[OF stored_schedule_step(1)[OF e(1,2)] e(3) n]
  show thesis
  proof (rule that[of n])
    show "next_due db (int i) (cl_scheduled_at c)" using r by (simp add: next_due_def)
    show "next_due db' (int i) n"
      using r is_due_advance[OF r(2)] by (simp add: next_due_def t(1) map_of_update_rows)
    show "next_due db' k = next_due db k" if "k \<noteq> int i" for k
      using that by (simp add: next_due_def t(1) map_of_update_rows fun_eq_iff option.map_ident)
  qed (use step t in simp_all)
qed

text \<open>Polls of any number of schedulers, each of which may have read the database at any earlier
  time.\<close>

inductive poll_step :: "(path \<Rightarrow> bool) \<Rightarrow> profile_tables \<Rightarrow> profile_tables \<Rightarrow> bool" for is_dir where
  "claim_due_schedule is_dir clock (seen :: profile_tables) db i now = Ok (answer, db') \<Longrightarrow>
     poll_step is_dir db db'"

lemma poll_step_later:
  assumes "poll_step is_dir db db'" "next_due db k t"
  shows "(\<exists>u \<ge> t. next_due db' k u) \<and> rt_next_run_id db \<le> rt_next_run_id db'"
  using assms(1)
proof cases
  case (1 clock seen i now answer)
  show ?thesis
  proof (cases answer)
    case None
    with claim_None[of is_dir clock seen db i now db'] 1 assms(2) show ?thesis
      by (auto simp: next_due_def)
  next
    case (Some c)
    with 1 obtain n where n: "next_due db (int i) (cl_scheduled_at c)" "next_due db' (int i) n"
      "cl_scheduled_at c < n" "\<And>k. k \<noteq> int i \<Longrightarrow> next_due db' k = next_due db k"
      "rt_next_run_id db \<le> int (cl_run c)" "int (cl_run c) < rt_next_run_id db'"
      using claim_advances by blast
    show ?thesis
    proof (cases "k = int i")
      case True
      with n(1) assms(2) have "t = cl_scheduled_at c" using next_due_unique by blast
      with n True show ?thesis by (auto intro!: exI[of _ n])
    next
      case False
      with n assms(2) show ?thesis by auto
    qed
  qed
qed

lemma polls_later:
  assumes "(poll_step is_dir)\<^sup>*\<^sup>* db db'" "next_due db k t"
  shows "(\<exists>u \<ge> t. next_due db' k u) \<and> rt_next_run_id db \<le> rt_next_run_id db'"
  using assms
proof (induction rule: rtranclp_induct)
  case (step y z)
  then obtain u where "t \<le> u" "next_due y k u" "rt_next_run_id db \<le> rt_next_run_id y" by blast
  with poll_step_later[OF step.hyps(2)] show ?case by (meson order_trans)
qed auto

subsection \<open>Properties\<close>


text \<open>C27: No occurrence is claimed twice: whatever schedulers poll in between, and however old
  the state is that a scheduler read before its transaction, a later claim of the same profile
  takes a later occurrence and hands out a later run.\<close>

theorem occurrence_is_claimed_once:
  assumes "claim_due_schedule is_dir clock1 (seen1 :: profile_tables) db1 i now1 = Ok (Some c1, db2)"
    and "(poll_step is_dir)\<^sup>*\<^sup>* db2 db3"
    and "claim_due_schedule is_dir clock2 (seen2 :: profile_tables) db3 i now2 = Ok (Some c2, db4)"
  shows "cl_scheduled_at c1 < cl_scheduled_at c2 \<and> now1 < cl_scheduled_at c2 \<and> cl_run c1 < cl_run c2"
proof -
  obtain n where n: "next_due db2 (int i) n" "cl_scheduled_at c1 < n" "now1 < n"
      "int (cl_run c1) < rt_next_run_id db2"
    by (rule claim_advances[OF assms(1)])
  obtain u where u: "n \<le> u" "next_due db3 (int i) u" "rt_next_run_id db2 \<le> rt_next_run_id db3"
    using polls_later[OF assms(2) n(1)] by blast
  have c: "next_due db3 (int i) (cl_scheduled_at c2)" "rt_next_run_id db3 \<le> int (cl_run c2)"
    by (rule claim_advances[OF assms(3)], assumption)+
  from next_due_unique[OF u(2) c(1)] have "u = cl_scheduled_at c2" .
  with n u c(2) show ?thesis by simp
qed

end
