(* ===== verification/StoreInvariant.thy ===== *)
theory StoreInvariant
  imports ProfileStore
begin

text \<open>
  The profile store as a whole: every operation of \<open>storage.rs\<close>, run by a program that is
  alone, keeps the stored profiles readable and apart; what is stored is what is loaded; an
  update that was prepared against an older revision is refused. What two programs can do to
  each other is shown on concrete runs.
\<close>

subsection \<open>Claims and imports keep the invariant\<close>

lemma advanced_row_reads:
  assumes "materialize_profile is_dir k row = Ok p" "is_due_at t row" "0 \<le> n"
  shows "\<exists>s. pp_schedule p = Some s \<and> materialize_profile is_dir k (advance_schedule n row) =
    Ok (p\<lparr>pp_schedule := Some (s\<lparr>sd_next_run := Some n\<rparr>)\<rparr>)"
proof -
  from assms(2) obtain w where w: "rw_schedule row = Some w" "sw_enabled w = 1"
    by (auto simp: is_due_at_def is_some_and_iff)
  from assms(1) have c: "convert schedule_from_row (rw_schedule row) = Ok (pp_schedule p)"
      "is_some_and sd_enabled (pp_schedule p) = pp_schedule_enabled p"
    by (simp_all add: materialize_profile_iff)
  then obtain s where s: "schedule_from_row w = Ok s" "pp_schedule p = Some s"
    using w by (auto simp: convert_Ok)
  then have e: "sd_enabled s" "validate_schedule s = Ok ()"
    using w(2) by (auto simp: schedule_from_row_def schedule_new_with_next_run_at_def Let_def
        decode_profile_bool_def split: if_split_asm)
  have "validate_schedule (s\<lparr>sd_next_run := Some n\<rparr>) = Ok ()"
    using e assms(3) by (simp add: validate_schedule_Ok)
  then have "schedule_from_row (w\<lparr>sw_next_run := Some n\<rparr>) = Ok (s\<lparr>sd_next_run := Some n\<rparr>)"
    using s(1) by (auto simp: schedule_from_row_def schedule_new_with_next_run_at_def Let_def
        split: if_split_asm)
  then have "materialize_profile is_dir k (advance_schedule n row) =
      Ok (p\<lparr>pp_schedule := Some (s\<lparr>sd_next_run := Some n\<rparr>)\<rparr>)"
    using assms(1) c(2) s(2) w(1)
    by (simp add: materialize_profile_iff advance_schedule_def convert_def)
  then show ?thesis using s(2) by simp
qed

lemma claim_inv:
  fixes db :: "'a profile_tables_scheme"
  assumes "claim_due_schedule is_dir clock seen db i now = Ok (answer, db')" "profile_inv is_dir cwd db"
  shows "profile_inv is_dir cwd db'"
proof (cases answer)
  case None
  with assms claim_None[of is_dir clock seen db i now db'] show ?thesis
    by (simp add: profile_inv_cong[of db' db])
next
  case (Some c)
  obtain existing s row n where
    e: "stored is_dir seen (int i) existing" "pp_schedule existing = Some s" "cl_scheduled_at c \<le> now"
      "0 \<le> now"
    and n: "n = cl_scheduled_at c +
       uint (sd_interval s) * 60 * ((now - cl_scheduled_at c) div (uint (sd_interval s) * 60) + 1)"
    and r: "map_of (pt_profiles db) (int i) = Some row" "is_due_at (cl_scheduled_at c) row"
    and t: "pt_profiles db' = update_rows (int i) (advance_schedule n) (pt_profiles db)"
      "pt_profile_seq db' = pt_profile_seq db"
    by (rule claim_Some[OF assms(1)[unfolded Some]])
  have "now < n" by (rule next_occurrence(1)[OF stored_schedule_step(1)[OF e(1,2)] e(3) n])
  then have "0 \<le> n" using e(4) by simp
  obtain p where p: "materialize_profile is_dir (int i) row = Ok p"
    using assms(2) r(1) unfolding profile_inv_def by blast
  obtain q where q: "materialize_profile is_dir (int i) (advance_schedule n row) = Ok q"
      "pp_profile q = pp_profile p"
    using advanced_row_reads[OF p r(2) \<open>0 \<le> n\<close>] by force
  have "stored is_dir db (int i) p" using p r(1) by (simp add: stored_def)
  then have "profiles_apart cwd (pp_profile q) (pp_profile a)" if "stored is_dir db l a" "l \<noteq> int i" for l a
    using assms(2) that q(2) by (simp add: profile_inv_def)
  then have "profile_inv is_dir cwd (db\<lparr>pt_profiles := update_rows (int i) (advance_schedule n) (pt_profiles db)\<rparr>)"
    by (intro profile_inv_update[where f = "advance_schedule n", OF assms(2) r(1) q(1)])
  then show ?thesis
    by (rule profile_inv_cong[THEN iffD2, rotated 2]) (simp_all add: t)
qed

lemma imported_schedule_reads:
  assumes "validate_schedule s = Ok ()" "\<not> sd_enabled s"
  shows "schedule_from_row (imported_schedule_row s) = Ok s"
proof -
  have "sd_next_run s = None" using assms by (auto simp: validate_schedule_Ok)
  then have "imported_schedule_row s = schedule_to_row s"
    using assms(2) by (simp add: imported_schedule_row_def schedule_to_row_def bool_to_int_def)
  then show ?thesis using schedule_round_trip[OF assms(1)] by simp
qed

lemma empty_profile_inv: "profile_inv is_dir cwd db \<Longrightarrow>
    profile_inv is_dir cwd (db\<lparr>pt_profiles := [], pt_settings := t\<rparr>)"
  by (simp add: profile_inv_def keys_below_def stored_def)

lemma insert_imported_inv:
  assumes "check_import is_dir cwd before ims = Ok ()" "insert_imported ims db = Ok db'"
    "profile_inv is_dir cwd db" "list_all (\<lambda>im. profile_storable (im_profile im)) ims"
    "\<And>l q. stored is_dir db l q \<Longrightarrow> pp_profile q \<in> set before"
  shows "profile_inv is_dir cwd db'"
  using assms
proof (induction ims arbitrary: before db)
  case (Cons im ims)
  let ?prof = "im_profile im"
  from Cons.prems(1) have v: "validate_profile is_dir ?prof = Ok ()"
      "\<not> list_ex (\<lambda>p. same_endpoint_pair cwd p ?prof) before"
      "check_import is_dir cwd (before @ [?prof]) ims = Ok ()"
      "is_none_or (\<lambda>s. validate_schedule s = Ok () \<and> \<not> sd_enabled s) (im_schedule im)"
    by (auto simp: is_none_or_iff split: if_split_asm option.splits)
  from Cons.prems(2) obtain k db1 db2 where
    d: "insert_profile db (values_from_profile ?prof) default_authorization_snapshot = Ok (k, db1)"
      "insert_exclusions db1 k ?prof = Ok db2"
    and rest: "insert_imported ims (db2\<lparr>pt_profiles :=
          update_rows k (\<lambda>row. row\<lparr>rw_schedule := map_option imported_schedule_row (im_schedule im)\<rparr>)
            (pt_profiles db2)\<rparr>) = Ok db'"
    by auto
  let ?f = "\<lambda>row. row\<lparr>rw_schedule := map_option imported_schedule_row (im_schedule im)\<rparr>"
  let ?p = "\<lparr>pp_id = nat k, pp_profile = ?prof, pp_schedule_enabled = False, pp_schedule = None,
      pp_revision = 0, pp_authorizations = default_authorization_snapshot\<rparr>"
  have st: "profile_storable ?prof" using Cons.prems(4) by simp
  have auths: "validate_authorizations ?prof default_authorization_snapshot = Ok ()"
    by (simp add: validate_authorizations_def default_authorization_snapshot_def)
  have apart: "\<forall>l q. stored is_dir db l q \<longrightarrow> \<not> same_endpoint_pair cwd (pp_profile q) ?prof"
    using Cons.prems(5) v(2) by (auto simp: list_ex_iff)
  note ins = insert_profile_inv[OF Cons.prems(3) d v(1) st auths apart]
  have "stored is_dir db2 k ?p" using ins(5) by simp
  then obtain row where row: "map_of (pt_profiles db2) k = Some row" "materialize_profile is_dir k row = Ok ?p"
    by (auto simp: stored_def)
  have sched: "convert schedule_from_row (map_option imported_schedule_row (im_schedule im)) = Ok (im_schedule im)"
    using v(4) by (intro convert_round_trip imported_schedule_reads) (auto simp: is_none_or_iff)
  have m: "materialize_profile is_dir k (?f row) = Ok (?p\<lparr>pp_schedule := im_schedule im\<rparr>)"
    using row(2) sched v(4) by (cases "im_schedule im") (simp_all add: materialize_profile_iff)
  let ?db = "db2\<lparr>pt_profiles := update_rows k ?f (pt_profiles db2)\<rparr>"
  have inv: "profile_inv is_dir cwd ?db"
  proof (rule profile_inv_update[where f = ?f, OF ins(1) row(1) m])
    fix l q assume "stored is_dir db2 l q" "l \<noteq> k"
    then show "profiles_apart cwd (pp_profile (?p\<lparr>pp_schedule := im_schedule im\<rparr>)) (pp_profile q)"
      using ins(1) \<open>stored is_dir db2 k ?p\<close> unfolding profile_inv_def by fastforce
  qed
  have "pp_profile q \<in> set (before @ [?prof])" if "stored is_dir ?db l q" for l q
  proof -
    have new: "stored is_dir db2 l q \<Longrightarrow> stored is_dir db l q \<or> q = ?p"
      using ins(5) by blast
    show ?thesis
      using that row(1) m new Cons.prems(5) unfolding stored_update by (auto split: if_split_asm)
  qed
  with Cons.IH[OF v(3) rest inv] Cons.prems(4) show ?case by simp
qed simp

subsection \<open>Runs of one program\<close>

inductive profile_step :: "(path \<Rightarrow> bool) \<Rightarrow> path option \<Rightarrow> profile_tables \<Rightarrow> profile_tables \<Rightarrow> bool"
  for is_dir cwd where
  created: "create_profile_with_authorizations is_dir cwd db db prof auths = Ok (p, db') \<Longrightarrow>
    profile_storable prof \<Longrightarrow> profile_step is_dir cwd db db'"
| updated: "update_profile_if_revision is_dir cwd db db i prof auths expected = Ok (p, db') \<Longrightarrow>
    profile_storable prof \<Longrightarrow> profile_step is_dir cwd db db'"
| scheduled: "update_schedule_at is_dir db db i schedule mode now = Ok (answer, db') \<Longrightarrow>
    profile_step is_dir cwd db db'"
| claimed: "claim_due_schedule is_dir clock db db i now = Ok (c, db') \<Longrightarrow> profile_step is_dir cwd db db'"
| removed: "remove_profile db i = Ok (found, db') \<Longrightarrow> profile_step is_dir cwd db db'"
| imported: "replace_configuration is_dir cwd db c = Ok db' \<Longrightarrow>
    list_all (\<lambda>im. profile_storable (im_profile im)) (ci_profiles c) \<Longrightarrow> profile_step is_dir cwd db db'"

lemma create_profile_inv:
  assumes "create_profile_with_authorizations is_dir cwd db db prof auths = Ok (p, db')"
    "profile_inv is_dir cwd db" "profile_storable prof"
  shows "profile_inv is_dir cwd db'" "stored is_dir db' (int (pp_id p)) p" "pp_profile p = prof"
    "pp_authorizations p = auths" "pt_profile_seq db < int (pp_id p)" "int (pp_id p) = pt_profile_seq db'"
    "pt_profile_seq db' < 2 ^ 63"
proof -
  from assms(1) obtain k db1 where c: "validate_profile is_dir prof = Ok ()"
      "validate_authorizations prof auths = Ok ()"
      "reject_duplicate_endpoint_pair is_dir cwd db prof None = Ok ()"
      "insert_profile db (values_from_profile prof) auths = Ok (k, db1)"
      "insert_exclusions db1 k prof = Ok db'"
    and p: "p = \<lparr>pp_id = nat k, pp_profile = prof, pp_schedule_enabled = False, pp_schedule = None,
          pp_revision = 0, pp_authorizations = auths\<rparr>"
    by (auto simp: create_profile_with_authorizations_def)
  have "\<forall>l q. stored is_dir db l q \<longrightarrow> \<not> same_endpoint_pair cwd (pp_profile q) prof"
    using no_duplicate_pair[OF c(3) assms(2)] by blast
  note ins = insert_profile_inv[OF assms(2) c(4,5,1) assms(3) c(2) this]
  show "profile_inv is_dir cwd db'" by (fact ins(1))
  show "stored is_dir db' (int (pp_id p)) p" "int (pp_id p) = pt_profile_seq db'"
    "pt_profile_seq db < int (pp_id p)"
    using ins by (simp_all add: p)
  show "pt_profile_seq db' < 2 ^ 63"
    using c(4) ins(4) by (auto simp: insert_profile_def split: if_split_asm)
qed (use assms(1) in \<open>auto simp: create_profile_with_authorizations_def\<close>)

lemma remove_profile_inv:
  assumes "remove_profile db i = Ok (found, db')" "profile_inv is_dir cwd db"
  shows "profile_inv is_dir cwd db'"
proof -
  from assms(1) have d: "db' = db\<lparr>pt_profiles := filter (\<lambda>(j, _). j \<noteq> int i) (pt_profiles db)\<rparr>"
    by (auto simp: remove_profile_def profile_id_as_i64_def)
  have m: "map_of (filter (\<lambda>(j, _). j \<noteq> k) rows) l = (if l = k then None else map_of rows l)"
    for k l and rows :: "(int \<times> profile_row) list"
    by (induction rows) auto
  then have st: "stored is_dir db' l q \<Longrightarrow> stored is_dir db l q" for l q
    by (auto simp: stored_def d split: if_split_asm)
  have "keys_below (filter (\<lambda>(j, _). j \<noteq> int i) (pt_profiles db)) (pt_profile_seq db)"
    using assms(2) by (auto simp: profile_inv_def keys_below_def list_all_iff distinct_map_filter)
  moreover have "\<exists>p. materialize_profile is_dir l row = Ok p" if "map_of (pt_profiles db') l = Some row" for l row
    using that assms(2) unfolding d profile_inv_def by (auto simp: m split: if_split_asm)
  moreover have "profiles_apart cwd (pp_profile p) (pp_profile q)"
    if "stored is_dir db' k p" "stored is_dir db' l q" "k \<noteq> l" for k l p q
    using assms(2) st[OF that(1)] st[OF that(2)] that(3) unfolding profile_inv_def by blast
  ultimately show ?thesis
    using assms(2) unfolding profile_inv_def by (simp add: d)
qed

lemma profile_step_inv:
  assumes "profile_step is_dir cwd db db'" "profile_inv is_dir cwd db"
  shows "profile_inv is_dir cwd db'"
  using assms(1)
proof cases
  case (imported c)
  then have c: "check_import is_dir cwd [] (ci_profiles c) = Ok ()"
      "insert_imported (ci_profiles c)
         (db\<lparr>pt_profiles := [], pt_settings := save_settings (pt_settings db) (ci_settings c)\<rparr>) = Ok db'"
    by (auto simp: replace_configuration_def)
  show ?thesis
    by (rule insert_imported_inv[OF c empty_profile_inv[OF assms(2)] imported(2)])
      (simp add: stored_def)
next
  case (created prof auths p)
  from create_profile_inv(1)[OF created(1) assms(2) created(2)] show ?thesis .
next
  case (updated i prof auths expected p)
  from update_profile_inv(1)[OF updated(1) assms(2) updated(2)] show ?thesis .
next
  case (scheduled i schedule mode now answer)
  from update_schedule_inv(1)[OF scheduled assms(2)] show ?thesis .
next
  case (claimed clock i now c)
  from claim_inv[OF claimed assms(2)] show ?thesis .
next
  case (removed i found)
  from remove_profile_inv[OF removed assms(2)] show ?thesis .
qed

lemma profile_steps_inv:
  "(profile_step is_dir cwd)\<^sup>*\<^sup>* db db' \<Longrightarrow> profile_inv is_dir cwd db \<Longrightarrow> profile_inv is_dir cwd db'"
  by (induction rule: rtranclp_induct) (auto intro: profile_step_inv)

definition empty_profile_tables :: profile_tables where
  "empty_profile_tables =
     \<lparr>rt_rows = [], rt_next_run_id = 1, st_events = [], st_event_seq = 0, st_notices = [],
      st_notice_seq = 0, pt_settings = Map.empty, pt_profiles = [], pt_profile_seq = 0\<rparr>"

lemma empty_tables_inv [simp]: "profile_inv is_dir cwd empty_profile_tables"
  by (simp add: profile_inv_def empty_profile_tables_def keys_below_def stored_def)

subsection \<open>Properties\<close>

text \<open>C28: Whatever sequence of operations a program that is alone performs, all stored profiles can
  be listed, every listed profile passes the validation and its authorizations fit its options,
  and no two of them share a name or connect the same two endpoints.\<close>

theorem stored_profiles_stay_valid_and_apart:
  assumes "(profile_step is_dir cwd)\<^sup>*\<^sup>* empty_profile_tables db"
  shows "\<exists>ps. list_profiles is_dir db = Ok ps \<and> distinct (map (\<lambda>p. prof_name (pp_profile p)) ps) \<and>
    list_all (\<lambda>p. validate_profile is_dir (pp_profile p) = Ok () \<and>
      validate_authorizations (pp_profile p) (pp_authorizations p) = Ok ()) ps \<and>
    pairwise (\<lambda>p q. \<not> same_endpoint_pair cwd (pp_profile p) (pp_profile q)) (set ps)"
proof -
  have inv: "profile_inv is_dir cwd db" using profile_steps_inv[OF assms] by simp
  let ?rows = "sort_key fst (pt_profiles db)"
  let ?f = "\<lambda>(i, row). materialize_profile is_dir i row"
  have "distinct (map fst (pt_profiles db))" using inv by (simp add: profile_inv_def keys_below_def)
  moreover have "mset (map fst ?rows) = mset (map fst (pt_profiles db))" by simp
  ultimately have d: "distinct (map fst ?rows)" by (metis mset_eq_imp_distinct_iff)
  have mem: "map_of (pt_profiles db) k = Some row \<longleftrightarrow> (k, row) \<in> set ?rows" for k row
    using inv by (simp add: profile_inv_def keys_below_def)
  have "list_all (\<lambda>x. \<exists>p. ?f x = Ok p) ?rows"
    using inv unfolding profile_inv_def list_all_iff mem by auto
  then obtain ps where ps: "list_profiles is_dir db = Ok ps"
    using collect_results_Ok unfolding list_profiles_def by blast
  have st: "p \<in> set ps \<longleftrightarrow> (\<exists>k. stored is_dir db k p)" for p
    using listed_profiles[OF ps] inv unfolding profile_inv_def by blast
  have "distinct (map (\<lambda>p. prof_name (pp_profile p)) qs)"
    if "collect_results ?f rows = Ok qs" "distinct (map fst rows)" "set rows \<subseteq> set ?rows" for rows qs
    using that
  proof (induction rows arbitrary: qs)
    case (Cons e rows)
    obtain k row where e: "e = (k, row)" by (cases e)
    from Cons.prems(1) e obtain p ps' where p: "materialize_profile is_dir k row = Ok p"
        "collect_results ?f rows = Ok ps'" "qs = p # ps'" by auto
    have "prof_name (pp_profile p) \<noteq> prof_name (pp_profile q)" if "q \<in> set ps'" for q
    proof -
      from that collect_results_set[OF p(2)] obtain l row' where
        l: "(l, row') \<in> set rows" "materialize_profile is_dir l row' = Ok q" by auto
      have "l \<noteq> k" using Cons.prems(2) l(1) e by force
      moreover have "stored is_dir db k p" "stored is_dir db l q"
        using p(1) l Cons.prems(3) e by (auto simp: stored_def mem)
      ultimately show ?thesis
        using inv unfolding profile_inv_def profiles_apart_def by metis
    qed
    moreover have "distinct (map (\<lambda>p. prof_name (pp_profile p)) ps')"
      using Cons.IH[OF p(2)] Cons.prems(2,3) by simp
    ultimately show ?case unfolding p(3) by fastforce
  qed simp
  from this[OF ps[unfolded list_profiles_def] d]
  have names: "distinct (map (\<lambda>p. prof_name (pp_profile p)) ps)" by simp
  have valid: "list_all (\<lambda>p. validate_profile is_dir (pp_profile p) = Ok () \<and>
      validate_authorizations (pp_profile p) (pp_authorizations p) = Ok ()) ps"
    using st by (auto simp: list_all_iff stored_def materialize_profile_iff dest: into_profile_valid)
  have "\<not> same_endpoint_pair cwd (pp_profile p) (pp_profile q)" if "p \<in> set ps" "q \<in> set ps" "p \<noteq> q" for p q
  proof -
    from that st obtain k l where "stored is_dir db k p" "stored is_dir db l q" by blast
    moreover with that(3) have "k \<noteq> l" using stored_unique by blast
    ultimately show ?thesis using inv unfolding profile_inv_def profiles_apart_def by metis
  qed
  with ps names valid show ?thesis by (auto simp: pairwise_def)
qed

lemma stored_is_loaded:
  "stored is_dir db (int i) p \<Longrightarrow> i < 2 ^ 63 \<Longrightarrow> load_profile is_dir db i = Ok (Some p)"
  by (auto simp: stored_def load_profile_def profile_id_as_i64_def convert_def)

lemma loaded_is_stored:
  "load_profile is_dir db i = Ok (Some p) \<longleftrightarrow> stored is_dir db (int i) p \<and> i < 2 ^ 63"
  by (auto simp: stored_def load_profile_def profile_id_as_i64_def convert_Ok)

text \<open>C30: What an update returns is what is loaded afterwards: the given profile under the next
  revision. The permission to delete unattended survives only if nothing but the name changed;
  any change of the peers, the mode, the direction, the options or the exclusions takes it
  away, whatever was asked for.\<close>

theorem update_is_loaded_and_permissions_expire:
  assumes "update_profile_if_revision is_dir cwd db db i prof auths expected = Ok (p, db')"
    and "profile_inv is_dir cwd db" and "profile_storable prof"
  shows "load_profile is_dir db' i = Ok (Some p) \<and> pp_profile p = prof \<and>
    (\<exists>old. load_profile is_dir db i = Ok (Some old) \<and> pp_revision old = expected \<and>
       pp_revision p = expected + 1 \<and> pp_schedule p = pp_schedule old \<and>
       pp_authorizations p =
         (if (peer_a prof, peer_b prof, prof_mode prof, prof_source prof, prof_options prof,
              prof_exclusions prof) =
             (peer_a (pp_profile old), peer_b (pp_profile old), prof_mode (pp_profile old),
              prof_source (pp_profile old), prof_options (pp_profile old),
              prof_exclusions (pp_profile old))
          then auths
          else \<lparr>allow_unattended_destructive = False, allow_unattended_permanent_removal = False\<rparr>))"
proof -
  note u = update_profile_inv[OF assms]
  have "load_profile is_dir db' i = Ok (Some p)" using u by (intro stored_is_loaded)
  moreover obtain old where "stored is_dir db (int i) old" "i < 2 ^ 63" "pp_revision old = expected"
      "p = \<lparr>pp_id = i, pp_profile = prof, pp_schedule_enabled = pp_schedule_enabled old,
          pp_schedule = pp_schedule old, pp_revision = pp_revision old + 1,
          pp_authorizations = kept_authorizations (pp_profile old) prof auths\<rparr>"
    using assms(1) by (auto simp: update_profile_if_revision_def Let_def split: if_split_asm)
  ultimately show ?thesis
    using u(4) by (auto simp: loaded_is_stored kept_authorizations_def
        unattended_authorization_scope_changed_def default_authorization_snapshot_def
        intro!: exI[of _ old])
qed

text \<open>C31: No update is lost: once an update prepared against a revision has been committed, every
  other update prepared against that revision fails, whatever its author had read.\<close>

theorem second_update_of_a_revision_fails:
  assumes "update_profile_if_revision is_dir cwd seen1 db i prof1 auths1 expected = Ok (p, db1)"
  shows "\<not> (\<exists>r. update_profile_if_revision is_dir cwd seen2 db1 i prof2 auths2 expected = Ok r)"
proof -
  from assms obtain kept db0 where
    u: "update_profile_row db i (values_from_profile prof1) kept expected = Ok db0"
      "insert_exclusions db0 (int i) prof1 = Ok db1"
    by (auto simp: update_profile_if_revision_def Let_def split: if_split_asm)
  obtain row where "map_of (pt_profiles db) (int i) = Some row" "rw_revision row = int expected"
      "db1 = db\<lparr>pt_profiles := update_rows (int i)
       (\<lambda>r. profile_row_of (values_from_profile prof1) kept (rw_schedule_enabled r) (rw_revision r + 1)
          (prof_exclusions prof1) (rw_schedule r)) (pt_profiles db)\<rparr>"
    by (rule update_profile_tables[OF u])
  then have "\<exists>row. map_of (pt_profiles db1) (int i) = Some row \<and> rw_revision row = int expected + 1"
    by (simp add: map_of_update_rows profile_row_of_def)
  then have "update_profile_row db1 i v kept' expected \<noteq> Ok r" for v kept' r
    by (auto simp: update_profile_row_def profile_id_as_i64_def to_sql_id_def split: if_split_asm)
  then show ?thesis
    by (auto simp: update_profile_if_revision_def Let_def split: if_split_asm)
qed

text \<open>A created profile is loaded as it was returned, under a new identifier, and nothing else
  changes.\<close>

theorem created_profile_is_loaded:
  assumes "create_profile_with_authorizations is_dir cwd db db prof auths = Ok (p, db')"
    and "profile_inv is_dir cwd db" and "profile_storable prof"
  shows "load_profile is_dir db' (pp_id p) = Ok (Some p) \<and> pp_profile p = prof \<and>
    pp_authorizations p = auths \<and> load_profile is_dir db (pp_id p) = Ok None \<and>
    (\<forall>j. j \<noteq> pp_id p \<longrightarrow> load_profile is_dir db' j = load_profile is_dir db j)"
proof -
  note c = create_profile_inv[OF assms]
  have "int (pp_id p) < 2 ^ 63" using c(6,7) by linarith
  then have i: "pp_id p < 2 ^ 63" by simp
  from assms(1) obtain k db1 where d: "insert_profile db (values_from_profile prof) auths = Ok (k, db1)"
      "insert_exclusions db1 k prof = Ok db'" "k = int (pp_id p)"
    by (auto simp: create_profile_with_authorizations_def)
  have kb: "keys_below (pt_profiles db) (pt_profile_seq db)" using assms(2) by (simp add: profile_inv_def)
  note ins = insert_profile_Ok[OF d(1,2) kb]
  have "map_of (pt_profiles db) k = None"
    using kb keys_below_map_of[of "pt_profiles db" "pt_profile_seq db" k] ins(1)
    by (cases "map_of (pt_profiles db) k") auto
  with i d(3) ins(4) have "load_profile is_dir db (pp_id p) = Ok None"
      "\<forall>j. j \<noteq> pp_id p \<longrightarrow> load_profile is_dir db' j = load_profile is_dir db j"
    by (auto simp: load_profile_def profile_id_as_i64_def id_as_i64_def convert_def map_add_def
        split: option.splits)
  with c i show ?thesis by (simp add: stored_is_loaded)
qed

subsection \<open>A due schedule is claimed\<close>

lemma snapshot_columns_fit:
  assumes "validate_options opts = Ok v"
  shows "\<exists>c. snapshot_option_columns v = Ok c"
proof -
  have v: "initial_delay (val_retry_policy v) \<le> MAX_INITIAL_DELAY"
      "is_none_or (\<lambda>l. l \<le> MAX_BANDWIDTH_LIMIT_KIB_PER_SECOND) (val_bandwidth_limit v)"
    using assms by (auto simp: validate_options_Ok is_none_or_iff)
  have "delay_millis (initial_delay (val_retry_policy v)) < 2 ^ 63"
    using v(1) by (simp add: delay_millis_def MAX_INITIAL_DELAY_def NANOS_PER_SECOND_def)
  moreover have "\<exists>b. convert to_sql_u64 (val_bandwidth_limit v) = Ok b"
    using v(2) by (cases "val_bandwidth_limit v")
      (auto simp: convert_def to_sql_u64_def MAX_BANDWIDTH_LIMIT_KIB_PER_SECOND_def word_le_nat_alt)
  ultimately show ?thesis
    by (auto simp: snapshot_option_columns_def to_sql_u64_def unat_of_nat Let_def)
qed

lemma stored_schedule_row:
  assumes "materialize_profile is_dir k row = Ok p" "pp_schedule p = Some s" "sd_enabled s"
    "sd_next_run s = Some t"
  shows "is_due_at t row"
  using assms
  by (auto simp: materialize_profile_iff convert_Ok is_due_at_def schedule_from_row_def
      schedule_new_with_next_run_at_def Let_def decode_profile_bool_def is_some_and_iff split: if_split_asm)

definition room_for_a_run :: "'a schedule_tables_scheme \<Rightarrow> bool" where
  "room_for_a_run db =
     (1 \<le> rt_next_run_id db \<and> rt_next_run_id db + 1 < 2 ^ 63 \<and> highest_run db + 2 < 2 ^ 63 \<and>
      st_event_seq db + 1 < 2 ^ 63)"

lemma fresh_run:
  assumes "highest_run db < int run"
  shows "map_of (rt_rows db) (int run) = None"
proof (cases "rt_rows db")
  case (Cons e es)
  have "int run \<notin> fst ` set (rt_rows db)"
  proof
    assume "int run \<in> fst ` set (rt_rows db)"
    then have "int run \<le> Max (set (map fst (rt_rows db)))" by (intro Max_ge) simp_all
    moreover have "highest_run db = Max (set (map fst (rt_rows db)))"
      using Cons by (simp add: highest_run_def)
    ultimately show False using assms by linarith
  qed
  then show ?thesis by (metis map_of_eq_None_iff)
qed simp

lemma allocate_with_room:
  fixes db :: "'a profile_tables_scheme"
  assumes "room_for_a_run db"
  obtains run where "allocate_run_id db = Ok (run, db\<lparr>rt_next_run_id := int run + 1\<rparr>)"
    "highest_run db < int run" "int run + 1 < 2 ^ 63"
proof -
  define n where "n = max (rt_next_run_id db) (highest_run db + 1)"
  have n: "0 \<le> n" "n + 1 < 2 ^ 63" "highest_run db + 1 < 2 ^ 63" "highest_run db < n"
    using assms by (auto simp: room_for_a_run_def n_def)
  moreover have "1 \<le> rt_next_run_id db" "rt_next_run_id db < 2 ^ 63 - 1"
    using assms by (simp_all add: room_for_a_run_def)
  ultimately have "allocate_run_id db = Ok (nat n, db\<lparr>rt_next_run_id := int (nat n) + 1\<rparr>)"
    unfolding allocate_run_id_def checked_i64_succ_def Let_def by (simp add: n_def[symmetric])
  then show thesis by (rule that) (use n in simp_all)
qed

lemma due_occurrence_in_range:
  assumes "validate_schedule s = Ok ()" "sd_enabled s" "sd_next_run s = Some t" "t \<le> now"
    "now + uint (sd_interval s) * 60 < 2 ^ 63"
  shows "\<exists>n. due_occurrence (Some s) now = Ok (Some (t, n))"
proof -
  define i where "i = uint (sd_interval s) * 60"
  define d where "d = (now - t) div i"
  have t: "0 \<le> t" using assms(1,3) by (simp add: validate_schedule_Ok)
  have i: "0 < i" unfolding i_def by (rule interval_positive[OF assms(1)])
  have d: "i * d \<le> now - t" "0 \<le> d"
    using i assms(4) by (simp_all add: d_def minus_mod_eq_mult_div[symmetric] pos_imp_zdiv_nonneg_iff)
  have "1 * d \<le> i * d" using i d(2) by (intro mult_right_mono) simp_all
  then have le: "d \<le> now - t" using d(1) by simp
  have a: "i * (d + 1) = i * d + i" by (simp add: algebra_simps)
  have id: "0 \<le> i * d" using d(2) i by simp
  have now: "now + i < 2 ^ 63" using assms(5) by (simp add: i_def)
  have r: "- (2 ^ 63) \<le> i" "i < 2 ^ 63" "- (2 ^ 63) \<le> now - t" "now - t < 2 ^ 63"
      "- (2 ^ 63) \<le> d + 1" "d + 1 < 2 ^ 63" "- (2 ^ 63) \<le> i * d + i" "i * d + i < 2 ^ 63"
      "- (2 ^ 63) \<le> t + (i * d + i)" "t + (i * d + i) < 2 ^ 63"
    using t i d le id now assms(4) by linarith+
  have "interval_seconds s = Ok i"
    using r(1,2) unfolding i_def by (simp add: interval_seconds_def checked_i64_def)
  then show ?thesis
    using assms(2-4) r by (simp add: due_occurrence_def d_def[symmetric] a checked_i64_def)
qed

lemma claim_when_due:
  fixes db :: "'a profile_tables_scheme"
  assumes "load_profile is_dir db i = Ok (Some p)"
    and "pp_schedule p = Some s" and "sd_enabled s" and "sd_next_run s = Some t"
    and "t \<le> now" and "now + uint (sd_interval s) * 60 < 2 ^ 63"
    and "spec_from_profile_for_run is_dir (pp_profile p) = Ok spec" and "clock = Ok created"
    and "room_for_a_run db"
  shows "\<exists>c db'. claim_due_schedule is_dir clock db db i now = Ok (Some c, db') \<and>
    cl_profile c = i \<and> cl_scheduled_at c = t \<and> rs_created_at (cl_snapshot c) = created"
proof -
  have st: "stored is_dir db (int i) p" "i < 2 ^ 63" using assms(1) by (simp_all add: loaded_is_stored)
  then obtain row where row: "map_of (pt_profiles db) (int i) = Some row"
      "materialize_profile is_dir (int i) row = Ok p" by (auto simp: stored_def)
  have p: "pp_id p = i" "rw_revision row = int (pp_revision p)"
      "validate_authorizations (pp_profile p) (pp_authorizations p) = Ok ()"
    using row(2) by (simp_all add: materialize_profile_iff)
  have vs: "validate_schedule s = Ok ()" by (rule stored_schedule_step(2)[OF st(1) assms(2)])
  have now: "0 \<le> now" using vs assms(4,5) by (simp add: validate_schedule_Ok)
  obtain n where due: "due_occurrence (pp_schedule p) now = Ok (Some (t, n))"
    using due_occurrence_in_range[OF vs assms(3-6)] assms(2) by auto
  have at: "is_due_at t row" by (rule stored_schedule_row[OF row(2) assms(2-4)])
  obtain run where run: "allocate_run_id db = Ok (run, db\<lparr>rt_next_run_id := int run + 1\<rparr>)"
    "highest_run db < int run" "int run + 1 < 2 ^ 63"
    by (rule allocate_with_room[OF assms(9)])
  have opts: "validate_options (prof_options (pp_profile p)) = Ok (spec_options spec)"
    by (rule spec_for_run_options[OF assms(7)])
  have perm: "allow_unattended_permanent_removal (pp_authorizations p) \<longrightarrow>
      val_deletion_method (spec_options spec) = Some PermanentRemoval \<and> val_safe_delete (spec_options spec)"
    using p(3) opts by (auto simp: validate_authorizations_def Let_def validate_options_Ok split: if_split_asm)
  define snap where "snap = \<lparr>rs_run_id = run, rs_snapshot_id = run, rs_created_at = created,
      rs_profile = pp_profile p, rs_options = spec_options spec,
      rs_authorizations = pp_authorizations p, rs_volume_a = None, rs_volume_b = None\<rparr>"
  have snap: "snapshot_from_profile is_dir clock run (pp_profile p) (pp_authorizations p) = Ok snap"
    using assms(7,8) perm by (simp add: snapshot_from_profile_def snapshot_with_volumes_Ok snap_def)
  obtain c where "snapshot_option_columns (spec_options spec) = Ok c"
    using snapshot_columns_fit[OF opts] by blast
  then obtain r where r: "snapshot_to_row snap = Ok r"
    using run(3) by (simp add: snapshot_to_row_def snap_def to_sql_id_def Let_def)
  have run63: "run < 2 ^ 63" using run(3) by simp
  let ?db2 = "db\<lparr>rt_next_run_id := int run + 1,
      pt_profiles := update_rows (int i) (advance_schedule n) (pt_profiles db)\<rparr>"
  have b: "\<exists>db3. begin_run ?db2 snap = Ok db3 \<and> st_event_seq db3 = st_event_seq db"
    using r run run63 fresh_run[OF run(2)] by (simp add: begin_run_def snap_def to_sql_id_def
        checked_i64_succ_def)
  then obtain db3 where db3: "begin_run ?db2 snap = Ok db3" "st_event_seq db3 = st_event_seq db" by blast
  have "st_event_seq db + 1 < 2 ^ 63" using assms(9) by (simp add: room_for_a_run_def)
  then have e: "\<exists>ev db4. insert_scheduler_event db3 i run SchedClaimed now None None = Ok (ev, db4)"
    using st(2) run63 now db3(2)
    by (simp add: insert_scheduler_event_def profile_id_as_i64_def id_as_i64_def convert_def
        autoincrement_def)
  then obtain ev db4 where e: "insert_scheduler_event db3 i run SchedClaimed now None None = Ok (ev, db4)"
    by blast
  have "claim_in_transaction is_dir clock db p now (t, n) =
      Ok (Some \<lparr>cl_profile = i, cl_run = run, cl_scheduled_at = t, cl_snapshot = snap\<rparr>, db4)"
    using row(1) p(1,2) run(1) snap at db3(1) e by (simp add: claim_in_transaction_def Let_def)
  moreover have "existing_profile is_dir db i = Ok p" using st by simp
  ultimately have "claim_due_schedule is_dir clock db db i now =
      Ok (Some \<lparr>cl_profile = i, cl_run = run, cl_scheduled_at = t, cl_snapshot = snap\<rparr>, db4)"
    using now due by (simp add: claim_due_schedule_def nonnegative_now_def
        del: result_bind_Inr existing_profile_Ok)
  then show ?thesis by (simp add: snap_def)
qed

text \<open>C29: A due schedule is claimed: when the stored profile is complete enough to run, the clock
  answers, the next occurrence is a valid time and there are identifiers left, the claim
  succeeds and takes the occurrence the schedule names.\<close>

theorem due_schedule_is_claimed:
  fixes db :: "'a profile_tables_scheme"
  assumes "load_profile is_dir db i = Ok (Some p)"
    and "pp_schedule p = Some s" and "sd_enabled s" and "sd_next_run s = Some t"
    and "t \<le> now" and "now + uint (sd_interval s) * 60 < 2 ^ 63"
    and "spec_from_profile_for_run is_dir (pp_profile p) = Ok spec" and "clock = Ok created"
    and "room_for_a_run db"
  shows "\<exists>c db'. claim_due_schedule is_dir clock db db i now = Ok (Some c, db') \<and>
    cl_profile c = i \<and> cl_scheduled_at c = t \<and> rs_created_at (cl_snapshot c) = created"
  using assms by (rule claim_when_due)

text \<open>A schedule whose profile has come to enable Safe Delete without a deletion method cannot be
  claimed: every poll fails. \<open>update_schedule_at\<close> refuses to enable such a schedule, but an
  update of the profile may make one out of a schedule that is already enabled.\<close>

lemma claim_needs_a_deletion_method:
  fixes db :: "'a profile_tables_scheme"
  assumes "load_profile is_dir db i = Ok (Some p)"
    and "pp_schedule p = Some s" and "sd_enabled s" and "sd_next_run s = Some t"
    and "t \<le> now" and "now + uint (sd_interval s) * 60 < 2 ^ 63" and "room_for_a_run db"
    and "opt_safe_delete (prof_options (pp_profile p))"
    and "opt_deletion_method (prof_options (pp_profile p)) = None"
  shows "claim_due_schedule is_dir clock db db i now = Err (InvalidProfile DeletionMethodRequired)"
proof -
  have st: "stored is_dir db (int i) p" "i < 2 ^ 63" using assms(1) by (simp_all add: loaded_is_stored)
  then obtain row where row: "map_of (pt_profiles db) (int i) = Some row"
      "materialize_profile is_dir (int i) row = Ok p" by (auto simp: stored_def)
  have p: "pp_id p = i" "rw_revision row = int (pp_revision p)"
    using row(2) by (simp_all add: materialize_profile_iff)
  have vs: "validate_schedule s = Ok ()" by (rule stored_schedule_step(2)[OF st(1) assms(2)])
  have now: "0 \<le> now" using vs assms(4,5) by (simp add: validate_schedule_Ok)
  obtain n where due: "due_occurrence (pp_schedule p) now = Ok (Some (t, n))"
    using due_occurrence_in_range[OF vs assms(3-6)] assms(2) by auto
  obtain run where run: "allocate_run_id db = Ok (run, db\<lparr>rt_next_run_id := int run + 1\<rparr>)"
    by (rule allocate_with_room[OF assms(7)])
  obtain spec where spec: "spec_from_profile is_dir (pp_profile p) = Ok spec"
    using stored_fields[OF st(1)] by (auto simp: validate_profile_Ok)
  have "val_safe_delete (spec_options spec)" "val_deletion_method (spec_options spec) = None"
    using spec_options_valid[OF spec] assms(8,9) by (auto simp: validate_options_Ok)
  with spec have "spec_from_profile_for_run is_dir (pp_profile p) = Err DeletionMethodRequired"
    by (simp add: spec_from_profile_for_run_def)
  then have "claim_in_transaction is_dir clock db p now (t, n) = Err (InvalidProfile DeletionMethodRequired)"
    using row(1) p run by (simp add: claim_in_transaction_def Let_def snapshot_from_profile_def
        snapshot_with_volumes_def)
  moreover have "existing_profile is_dir db i = Ok p" using st by simp
  ultimately show ?thesis
    using now due by (simp add: claim_due_schedule_def nonnegative_now_def
        del: result_bind_Inr existing_profile_Ok)
qed

text \<open>The check for a duplicate pair of endpoints reads the database before the transaction: two
  programs that create a profile at the same time both succeed, even for the same pair.\<close>

lemma racing_creates_both_succeed:
  fixes db :: "'a profile_tables_scheme"
  assumes "create_profile is_dir cwd seen db first = Ok (p, db1)"
    and "create_profile is_dir cwd seen db second = Ok (q, db2)"
    and "prof_name first \<noteq> prof_name second" and "pt_profile_seq db + 2 < 2 ^ 63"
    and "0 \<le> pt_profile_seq db"
  shows "\<exists>r. create_profile is_dir cwd seen db1 second = Ok r"
proof -
  let ?auths = default_authorization_snapshot
  from assms(1) obtain k db0 where k: "insert_profile db (values_from_profile first) ?auths = Ok (k, db0)"
      "insert_exclusions db0 k first = Ok db1"
    by (auto simp: create_profile_def create_profile_with_authorizations_def)
  then have d: "pt_profile_seq db1 = pt_profile_seq db + 1"
      "pt_profiles db1 = update_rows k (\<lambda>row. row\<lparr>rw_exclusions := prof_exclusions first\<rparr>)
         (pt_profiles db @ [(k, profile_row_of (values_from_profile first) ?auths 0 0 [] None)])"
    by (auto simp: insert_profile_def insert_exclusions_def split: if_split_asm)
  have names: "name_taken (update_rows k (\<lambda>row. row\<lparr>rw_exclusions := es\<rparr>) rows) self name =
      name_taken rows self name" for rows self name es
    by (induction rows) (auto simp: name_taken_def update_rows_def)
  from assms(2) have s: "validate_profile is_dir second = Ok ()" "validate_authorizations second ?auths = Ok ()"
      "reject_duplicate_endpoint_pair is_dir cwd seen second None = Ok ()"
      "\<not> name_taken (pt_profiles db) None (prof_name second)" "distinct (prof_exclusions second)"
    by (auto simp: create_profile_def create_profile_with_authorizations_def insert_profile_def
        insert_exclusions_def values_from_profile_def Let_def split: if_split_asm)
  have "\<not> name_taken (pt_profiles db1) None (prof_name second)"
    using s(4) assms(3) unfolding d(2) names
    by (simp add: name_taken_def profile_row_of_def values_from_profile_def Let_def)
  with s d(1) assms(4,5) show ?thesis
    by (simp add: create_profile_def create_profile_with_authorizations_def insert_profile_def
        insert_exclusions_def values_from_profile_def Let_def autoincrement_def corrupt_id_def)
qed

text \<open>After a claim the profile is due at the next occurrence.\<close>

lemma claim_leaves_next_occurrence:
  fixes db :: "'a profile_tables_scheme"
  assumes "claim_due_schedule is_dir clock db db i now = Ok (Some c, db')"
    "load_profile is_dir db i = Ok (Some p)" "pp_schedule p = Some s"
  shows "load_profile is_dir db' i = Ok (Some (p\<lparr>pp_schedule := Some (s\<lparr>sd_next_run :=
      Some (cl_scheduled_at c + uint (sd_interval s) * 60 *
        ((now - cl_scheduled_at c) div (uint (sd_interval s) * 60) + 1))\<rparr>)\<rparr>))"
    "rt_next_run_id db' = max (rt_next_run_id db) (highest_run db + 1) + 1"
    "highest_run db' = max (rt_next_run_id db) (highest_run db + 1)"
    "st_event_seq db' = st_event_seq db + 1"
proof -
  obtain existing s' row n stored_run where
    e: "stored is_dir db (int i) existing" "i < 2 ^ 63" "pp_schedule existing = Some s'"
      "cl_scheduled_at c \<le> now" "0 \<le> now"
    and n: "n = cl_scheduled_at c +
       uint (sd_interval s') * 60 * ((now - cl_scheduled_at c) div (uint (sd_interval s') * 60) + 1)"
    and r: "map_of (pt_profiles db) (int i) = Some row" "is_due_at (cl_scheduled_at c) row"
    and t: "pt_profiles db' = update_rows (int i) (advance_schedule n) (pt_profiles db)"
      "rt_rows db' = rt_rows db @ [(int (cl_run c), stored_run)]"
      "rt_next_run_id db' = int (cl_run c) + 1" "highest_run db < int (cl_run c)"
      "st_event_seq db' = st_event_seq db + 1"
      "int (cl_run c) = max (rt_next_run_id db) (highest_run db + 1)"
    by (rule claim_Some[OF assms(1)])
  have p: "existing = p" using e(1,2) assms(2) stored_unique by (auto simp: loaded_is_stored)
  then have s: "s' = s" using e(3) assms(3) by simp
  have "now < n" by (rule next_occurrence(1)[OF stored_schedule_step(1)[OF e(1,3)] e(4) n])
  then have "0 \<le> n" using e(5) by simp
  moreover have "materialize_profile is_dir (int i) row = Ok p"
    using e(1) r(1) by (simp add: stored_def p)
  ultimately have "materialize_profile is_dir (int i) (advance_schedule n row) =
      Ok (p\<lparr>pp_schedule := Some (s\<lparr>sd_next_run := Some n\<rparr>)\<rparr>)"
    using advanced_row_reads[OF _ r(2)] assms(3) by force
  then have "stored is_dir db' (int i) (p\<lparr>pp_schedule := Some (s\<lparr>sd_next_run := Some n\<rparr>)\<rparr>)"
    using r(1) by (simp add: stored_def t(1) map_of_update_rows)
  from stored_is_loaded[OF this e(2)] show "load_profile is_dir db' i = Ok (Some (p\<lparr>pp_schedule :=
      Some (s\<lparr>sd_next_run := Some (cl_scheduled_at c + uint (sd_interval s) * 60 *
        ((now - cl_scheduled_at c) div (uint (sd_interval s) * 60) + 1))\<rparr>)\<rparr>))"
    unfolding n s .
  show "rt_next_run_id db' = max (rt_next_run_id db) (highest_run db + 1) + 1"
    "st_event_seq db' = st_event_seq db + 1" using t by simp_all
  have "Max (set (map fst (rt_rows db'))) = int (cl_run c)"
  proof (rule Max_eqI)
    fix y assume "y \<in> set (map fst (rt_rows db'))"
    then consider "y = int (cl_run c)" | "y \<in> set (map fst (rt_rows db))" by (auto simp: t(2))
    then show "y \<le> int (cl_run c)"
    proof cases
      case 2
      then have "rt_rows db \<noteq> []" by auto
      then have "highest_run db = Max (set (map fst (rt_rows db)))"
        by (simp add: highest_run_def split: list.splits)
      moreover have "y \<le> Max (set (map fst (rt_rows db)))" by (rule Max_ge[OF finite_set 2])
      ultimately show ?thesis using t(4) by linarith
    qed simp
  qed (simp_all add: t(2))
  moreover have "rt_rows db' \<noteq> []" by (simp add: t(2))
  ultimately have "highest_run db' = int (cl_run c)"
    unfolding highest_run_def by (cases "rt_rows db'") simp_all
  then show "highest_run db' = max (rt_next_run_id db) (highest_run db + 1)" using t(6) by simp
qed

subsection \<open>Examples\<close>

definition example_persisted :: persisted_profile where
  "example_persisted =
     \<lparr>pp_id = 1, pp_profile = example_ssh_profile, pp_schedule_enabled = False, pp_schedule = None,
      pp_revision = 0, pp_authorizations = default_authorization_snapshot\<rparr>"

definition example_row :: profile_row where
  "example_row =
     profile_row_of (values_from_profile example_ssh_profile) default_authorization_snapshot 0 0 [''x''] None"

definition example_created :: profile_tables where
  "example_created = empty_profile_tables\<lparr>pt_profiles := [(1, example_row)], pt_profile_seq := 1\<rparr>"

definition example_schedule :: schedule_definition where
  "example_schedule =
     \<lparr>sd_interval = 60, sd_timezone = ''UTC'', sd_enabled = True, sd_next_run = Some 100\<rparr>"

definition example_scheduled :: profile_tables where
  "example_scheduled =
     example_created\<lparr>pt_profiles := [(1, set_schedule (Some example_schedule) 1 example_row)]\<rparr>"

definition example_loaded :: persisted_profile where
  "example_loaded = example_persisted
     \<lparr>pp_schedule_enabled := True, pp_schedule := Some example_schedule, pp_revision := 1\<rparr>"

lemma example_profile_valid: "validate_profile (\<lambda>_. d) example_ssh_profile = Ok ()"
proof -
  have "\<exists>spec. spec_from_profile (\<lambda>_. d) example_ssh_profile = Ok spec"
    using example_spec_ok[of d] by (auto simp: spec_from_profile_for_run_def)
  then show ?thesis
    by (simp add: validate_profile_Ok name_ok_def example_ssh_profile_def sync_profile_new_def
        peer_new_def peer_from_ssh_def not_trims_to_empty is_whitespace_def)
qed

lemma example_create:
  "create_profile_with_authorizations (\<lambda>_. False) None empty_profile_tables empty_profile_tables
     example_ssh_profile default_authorization_snapshot = Ok (example_persisted, example_created)"
proof -
  have "prof_exclusions example_ssh_profile = [''x'']"
    by (simp add: example_ssh_profile_def sync_profile_new_def)
  moreover have "validate_authorizations example_ssh_profile default_authorization_snapshot = Ok ()"
    by (simp add: validate_authorizations_def default_authorization_snapshot_def)
  ultimately show ?thesis
    using example_profile_valid[of False]
    by (simp add: create_profile_with_authorizations_def reject_duplicate_endpoint_pair_def
        list_profiles_def empty_profile_tables_def insert_profile_def name_taken_def autoincrement_def
        insert_exclusions_def update_rows_def corrupt_id_def example_persisted_def example_created_def
        example_row_def profile_row_of_def)
qed

lemma example_schedule_valid: "validate_schedule example_schedule = Ok ()"
  by (simp add: validate_schedule_def example_schedule_def not_trims_to_empty is_whitespace_def
      word_le_nat_alt)

lemma example_created_inv: "profile_inv (\<lambda>_. False) None example_created"
  by (rule create_profile_inv(1)[OF example_create empty_tables_inv example_profile_storable])

lemma example_created_stored: "stored (\<lambda>_. False) example_created 1 example_persisted"
  using create_profile_inv(2)[OF example_create empty_tables_inv example_profile_storable]
  by (simp add: example_persisted_def)

lemma example_schedule_step:
  "\<exists>answer. update_schedule_at (\<lambda>_. False) example_created example_created 1 (Some example_schedule)
     Advanced 50 = Ok (answer, example_scheduled)"
proof -
  have "existing_profile (\<lambda>_. False) example_created 1 = Ok example_persisted"
    using example_created_stored by simp
  moreover have "map_of (pt_profiles example_created) 1 = Some example_row" "rw_revision example_row = 0"
    by (simp_all add: example_created_def example_row_def profile_row_of_def)
  moreover have "example_created\<lparr>pt_profiles := update_rows 1 (set_schedule (Some example_schedule) 1)
      (pt_profiles example_created)\<rparr> = example_scheduled"
    by (simp add: example_created_def example_scheduled_def update_rows_def)
  moreover have "sd_enabled example_schedule" "sd_next_run example_schedule = Some 100"
      "pp_revision example_persisted = 0" "\<not> opt_safe_delete (prof_options (pp_profile example_persisted))"
    by (simp_all add: example_schedule_def example_persisted_def example_ssh_profile_def
        sync_profile_new_def default_sync_options_def)
  ultimately show ?thesis
    using example_schedule_valid
    by (simp add: update_schedule_at_def nonnegative_now_def convert_def start_schedule_def
        schedule_allowed_def to_sql_id_def profile_id_as_i64_def id_as_i64_def Let_def
        del: result_bind_Inr existing_profile_Ok)
qed

lemma example_scheduled_stored: "stored (\<lambda>_. False) example_scheduled 1 example_loaded"
proof -
  have "materialize_profile (\<lambda>_. False) 1 example_row = Ok example_persisted"
    using example_created_stored by (simp add: stored_def example_created_def)
  then have "materialize_profile (\<lambda>_. False) 1 (set_schedule (Some example_schedule) 1 example_row) =
      Ok example_loaded"
    using convert_schedule_round_trip[of "Some example_schedule"] example_schedule_valid
    by (simp add: materialize_profile_iff set_schedule_def example_loaded_def example_persisted_def)
      (simp add: example_schedule_def)
  then show ?thesis by (simp add: stored_def example_scheduled_def)
qed

lemma example_scheduled_steps: "(profile_step (\<lambda>_. False) None)\<^sup>*\<^sup>* empty_profile_tables example_scheduled"
proof -
  have "profile_step (\<lambda>_. False) None empty_profile_tables example_created"
    by (rule profile_step.created[OF example_create example_profile_storable])
  moreover obtain answer where "update_schedule_at (\<lambda>_. False) example_created example_created 1
      (Some example_schedule) Advanced 50 = Ok (answer, example_scheduled)"
    using example_schedule_step by blast
  then have "profile_step (\<lambda>_. False) None example_created example_scheduled"
    by (rule profile_step.scheduled)
  ultimately show ?thesis by (meson rtranclp.simps)
qed

theorem stored_profiles_stay_valid_and_apart_witness:
  "\<exists>ps. list_profiles (\<lambda>_. False) example_scheduled = Ok ps \<and>
     distinct (map (\<lambda>p. prof_name (pp_profile p)) ps)"
  using stored_profiles_stay_valid_and_apart[OF example_scheduled_steps] by blast

theorem created_profile_is_loaded_witness:
  "load_profile (\<lambda>_. False) example_created 1 = Ok (Some example_persisted)"
  using created_profile_is_loaded[OF example_create empty_tables_inv example_profile_storable]
  by (simp add: example_persisted_def)

lemma example_scheduled_inv: "profile_inv (\<lambda>_. False) None example_scheduled"
  using profile_steps_inv[OF example_scheduled_steps] by simp

lemma example_listed: "list_profiles (\<lambda>_. False) example_scheduled = Ok [example_loaded]"
proof -
  have "materialize_profile (\<lambda>_. False) 1 (set_schedule (Some example_schedule) 1 example_row) =
      Ok example_loaded"
    using example_scheduled_stored by (simp add: stored_def example_scheduled_def)
  then show ?thesis by (simp add: list_profiles_def example_scheduled_def)
qed

lemma example_update:
  "\<exists>p db. update_profile_if_revision (\<lambda>_. False) None example_scheduled example_scheduled 1
     example_ssh_profile default_authorization_snapshot 1 = Ok (p, db)"
proof -
  have "existing_profile (\<lambda>_. False) example_scheduled 1 = Ok example_loaded"
    using example_scheduled_stored by simp
  moreover have "reject_duplicate_endpoint_pair (\<lambda>_. False) None example_scheduled example_ssh_profile (Some 1) = Ok ()"
    by (simp add: reject_duplicate_endpoint_pair_def example_listed)
      (simp add: example_loaded_def example_persisted_def)
  moreover have "\<exists>db. update_profile_row example_scheduled 1 (values_from_profile example_ssh_profile)
      default_authorization_snapshot 1 = Ok db"
    by (simp add: update_profile_row_def profile_id_as_i64_def id_as_i64_def to_sql_id_def
        example_scheduled_def set_schedule_def example_row_def profile_row_of_def name_taken_def)
  then obtain db where "update_profile_row example_scheduled 1 (values_from_profile example_ssh_profile)
      default_authorization_snapshot 1 = Ok db" by blast
  moreover have "kept_authorizations (pp_profile example_loaded) example_ssh_profile
      default_authorization_snapshot = default_authorization_snapshot"
    by (simp add: kept_authorizations_def)
  moreover have "validate_authorizations example_ssh_profile default_authorization_snapshot = Ok ()"
    by (simp add: validate_authorizations_def default_authorization_snapshot_def)
  moreover have "distinct (prof_exclusions example_ssh_profile)" "pp_revision example_loaded = 1"
    by (simp_all add: example_ssh_profile_def sync_profile_new_def example_loaded_def)
  ultimately show ?thesis
    using example_profile_valid[of False]
    by (simp add: update_profile_if_revision_def insert_exclusions_def
        del: result_bind_Inr existing_profile_Ok)
qed

theorem update_is_loaded_and_permissions_expire_witness:
  "\<exists>p db. update_profile_if_revision (\<lambda>_. False) None example_scheduled example_scheduled 1
     example_ssh_profile default_authorization_snapshot 1 = Ok (p, db) \<and>
     load_profile (\<lambda>_. False) db 1 = Ok (Some p) \<and> pp_revision p = 2"
proof -
  obtain p db where u: "update_profile_if_revision (\<lambda>_. False) None example_scheduled example_scheduled 1
     example_ssh_profile default_authorization_snapshot 1 = Ok (p, db)"
    using example_update by blast
  from update_is_loaded_and_permissions_expire[OF u example_scheduled_inv example_profile_storable] u
  show ?thesis by auto
qed

theorem second_update_of_a_revision_fails_witness:
  "\<exists>p db. update_profile_if_revision (\<lambda>_. False) None example_scheduled example_scheduled 1
       example_ssh_profile default_authorization_snapshot 1 = Ok (p, db) \<and>
     \<not> (\<exists>r. update_profile_if_revision (\<lambda>_. False) None example_scheduled db 1
       example_ssh_profile default_authorization_snapshot 1 = Ok r)"
proof -
  obtain p db where u: "update_profile_if_revision (\<lambda>_. False) None example_scheduled example_scheduled 1
     example_ssh_profile default_authorization_snapshot 1 = Ok (p, db)"
    using example_update by blast
  from second_update_of_a_revision_fails[OF u] u show ?thesis by blast
qed

lemma example_room: "room_for_a_run example_scheduled"
  by (simp add: room_for_a_run_def example_scheduled_def example_created_def empty_profile_tables_def
      highest_run_def)

lemma example_schedule_fields:
  "pp_schedule example_loaded = Some example_schedule" "sd_enabled example_schedule"
  "sd_next_run example_schedule = Some 100" "uint (sd_interval example_schedule) = 60"
  "pp_profile example_loaded = example_ssh_profile"
  by (simp_all add: example_loaded_def example_schedule_def example_persisted_def)

lemma example_claim:
  "\<exists>c db. claim_due_schedule (\<lambda>_. False) (Ok 150) example_scheduled example_scheduled 1 150 = Ok (Some c, db) \<and>
     cl_profile c = 1 \<and> cl_scheduled_at c = 100 \<and> rs_created_at (cl_snapshot c) = 150"
proof -
  obtain spec where "spec_from_profile_for_run (\<lambda>_. False) (pp_profile example_loaded) = Ok spec"
    using example_spec_ok[of False] by (auto simp: example_schedule_fields)
  from claim_when_due[OF stored_is_loaded[of _ _ 1, simplified, OF example_scheduled_stored]
      example_schedule_fields(1-3) _ _ this refl example_room, of 150 150]
  show ?thesis by (simp add: example_schedule_fields(4))
qed

theorem due_schedule_is_claimed_witness:
  "\<exists>c db. claim_due_schedule (\<lambda>_. False) (Ok 150) example_scheduled example_scheduled 1 150 = Ok (Some c, db) \<and>
     cl_scheduled_at c = 100"
proof -
  obtain spec where "spec_from_profile_for_run (\<lambda>_. False) (pp_profile example_loaded) = Ok spec"
    using example_spec_ok[of False] by (auto simp: example_schedule_fields)
  from due_schedule_is_claimed[OF stored_is_loaded[of _ _ 1, simplified, OF example_scheduled_stored]
      example_schedule_fields(1-3) _ _ this refl example_room, of 150 150]
  show ?thesis by (auto simp: example_schedule_fields(4))
qed


lemma example_second_claim:
  "\<exists>c1 db1 c2 db2.
     claim_due_schedule (\<lambda>_. False) (Ok 150) example_scheduled example_scheduled 1 150 = Ok (Some c1, db1) \<and>
     cl_scheduled_at c1 = 100 \<and>
     claim_due_schedule (\<lambda>_. False) (Ok 4000) db1 db1 1 4000 = Ok (Some c2, db2) \<and>
     cl_scheduled_at c2 = 3700"
proof -
  obtain c db where c: "claim_due_schedule (\<lambda>_. False) (Ok 150) example_scheduled example_scheduled 1 150 =
      Ok (Some c, db)" "cl_scheduled_at c = 100"
    using example_claim by blast
  have l: "load_profile (\<lambda>_. False) example_scheduled 1 = Ok (Some example_loaded)"
    by (rule stored_is_loaded) (use example_scheduled_stored in simp_all)
  note a = claim_leaves_next_occurrence[OF c(1) l example_schedule_fields(1)]
  have load: "load_profile (\<lambda>_. False) db 1 =
      Ok (Some (example_loaded\<lparr>pp_schedule := Some (example_schedule\<lparr>sd_next_run := Some 3700\<rparr>)\<rparr>))"
    using a(1) by (simp add: c(2) example_schedule_fields(4))
  have room: "room_for_a_run db"
    using a(2-4) by (simp add: room_for_a_run_def example_scheduled_def example_created_def
        empty_profile_tables_def highest_run_def)
  obtain spec where spec: "spec_from_profile_for_run (\<lambda>_. False) example_ssh_profile = Ok spec"
    using example_spec_ok[of False] by blast
  have "\<exists>c2 db2. claim_due_schedule (\<lambda>_. False) (Ok 4000) db db 1 4000 = Ok (Some c2, db2) \<and>
      cl_profile c2 = 1 \<and> cl_scheduled_at c2 = 3700 \<and> rs_created_at (cl_snapshot c2) = 4000"
    by (rule claim_when_due[where s = "example_schedule\<lparr>sd_next_run := Some 3700\<rparr>",
          OF load _ _ _ _ _ _ refl room])
      (simp_all add: example_schedule_fields spec)
  with c show ?thesis by blast
qed

theorem occurrence_is_claimed_once_witness:
  "\<exists>c1 db1 c2 db2.
     claim_due_schedule (\<lambda>_. False) (Ok 150) example_scheduled example_scheduled 1 150 = Ok (Some c1, db1) \<and>
     claim_due_schedule (\<lambda>_. False) (Ok 4000) db1 db1 1 4000 = Ok (Some c2, db2) \<and>
     cl_scheduled_at c1 < cl_scheduled_at c2 \<and> cl_run c1 < cl_run c2"
proof -
  obtain c1 db1 c2 db2 where
    c: "claim_due_schedule (\<lambda>_. False) (Ok 150) example_scheduled example_scheduled 1 150 = Ok (Some c1, db1)"
      "claim_due_schedule (\<lambda>_. False) (Ok 4000) db1 db1 1 4000 = Ok (Some c2, db2)"
    using example_second_claim by blast
  from occurrence_is_claimed_once[OF c(1) rtranclp.rtrancl_refl c(2)] c show ?thesis by blast
qed

end
