(* ===== verification/EvidenceTables.thy ===== *)
theory EvidenceTables
  imports ProfileStore Append Baseline
begin

text \<open>
  The evidence of a run beside its journal (\<open>evidence.rs\<close>): the frozen inventories, the
  outcomes of a reviewed Mirror run, the reconciliation, and the Mirror baseline of a profile.
  \<open>database\<close> is the whole application database: the tables of the schedules and profiles
  with those of the evidence. The rows of a run are the list of its rows in the order of
  \<open>ordinal\<close>; a run whose row is gone has none, as \<open>ON DELETE CASCADE\<close> takes them away.
\<close>

subsection \<open>Tables\<close>

record inventory_row =
  iw_path :: string
  iw_type :: string
  iw_outcome :: string
  iw_size :: int
  iw_modified :: "int option"
  iw_readonly :: int
  iw_permissions :: "int option"
  iw_symlink :: "string option"
  iw_fingerprint :: "string option"

record resolution_row =
  mw_original :: string
  mw_generated :: "string option"
  mw_resolution :: string
  mw_operation :: string
  mw_source :: "string option"
  mw_target :: "string option"
  mw_outcome :: "string \<times> string option"
  mw_review_state :: string

record finding_row =
  fw_path :: string
  fw_kind :: string
  fw_reason :: "string \<times> string option"

record state_columns =
  cs_present :: int
  cs_type :: "string option"
  cs_size :: "int option"
  cs_modified :: "int option"
  cs_readonly :: "int option"
  cs_permissions :: "int option"
  cs_symlink :: "string option"
  cs_fingerprint :: "string option"

record baseline_item_row =
  bw_path :: string
  bw_peer_a :: state_columns
  bw_peer_b :: state_columns

record requirement_columns =
  rq_file_type :: int
  rq_executable :: int
  rq_symlinks :: int
  rq_timestamps :: int
  rq_ownership :: int
  rq_acls :: int
  rq_xattrs :: int

record baseline_row =
  lw_peer_a_name :: string
  lw_peer_a_root :: string
  lw_peer_b_name :: string
  lw_peer_b_root :: string
  lw_metadata :: requirement_columns
  lw_items :: "baseline_item_row list"

record database = profile_tables +
  db_journal :: "int \<Rightarrow> journal_row list"
  db_source_items :: "int \<Rightarrow> inventory_row list"
  db_destination_items :: "int \<Rightarrow> inventory_row list"
  db_resolutions :: "int \<Rightarrow> resolution_row list"
  db_reconciled :: "int \<Rightarrow> (string \<times> finding_row list) option"
  db_baselines :: "string \<Rightarrow> baseline_row option"

text \<open>The journal as \<open>Replay\<close> and \<open>Append\<close> see it: the rows of each run with its
  \<open>deletion_method\<close>.\<close>

definition journal_store :: "'a database_scheme \<Rightarrow> evidence_store" where
  "journal_store db n =
     map_option (\<lambda>row. \<lparr>rj_deletion_method = ok_deletion_method (sr_options row),
                        rj_rows = db_journal db (int n)\<rparr>)
       (map_of (rt_rows db) (int n))"

definition append_action_event ::
  "'a database_scheme \<Rightarrow> nat \<Rightarrow> journal_event \<Rightarrow> storage_error + 'a database_scheme" where
  "append_action_event db n event =
     result_bind (append_event (journal_store db) n event) (\<lambda>store.
       Ok (db\<lparr>db_journal :=
         (db_journal db)(int n := (case store n of None \<Rightarrow> [] | Some j \<Rightarrow> rj_rows j))\<rparr>))"

definition foreign_key_failed :: storage_error where
  "foreign_key_failed = Sqlite ''FOREIGN KEY constraint failed''"

definition no_rows :: storage_error where
  "no_rows = Sqlite ''Query returned no rows''"

text \<open>Inserting the rows of a run one by one into a table with the primary key
  \<open>(run_id, ordinal)\<close>: the first insert fails when the run has rows there already, or when
  it does not exist.\<close>

definition insert_rows ::
  "'a run_tables_scheme \<Rightarrow> int \<Rightarrow> string \<Rightarrow> 'r list \<Rightarrow> 'r list \<Rightarrow> storage_error + 'r list" where
  "insert_rows db run table old rows =
     (if rows = [] then Ok old
      else if old \<noteq> [] then Err (constraint_failed table)
      else if map_of (rt_rows db) run = None then Err foreign_key_failed
      else Ok rows)"

subsection \<open>Inventories\<close>

definition inventory_to_row :: "snapshot_item \<Rightarrow> inventory_row" where
  "inventory_to_row i =
     \<lparr>iw_path = path_to_blob (sn_path i), iw_type = encode_item_type (sn_type i),
      iw_outcome = encode_analysis_outcome (sn_outcome i), iw_size = as_i64 (sn_size i),
      iw_modified = sn_modified i, iw_readonly = bool_to_int (sn_readonly i),
      iw_permissions = map_option uint (sn_permissions i),
      iw_symlink = map_option path_to_blob (sn_symlink_target i),
      iw_fingerprint = sn_fingerprint i\<rparr>"

definition negative_size :: "string \<Rightarrow> int \<Rightarrow> storage_error + u64" where
  "negative_size what v = (if v < 0 then Err (CorruptEvidence what) else Ok (of_int v))"

definition inventory_from_row :: "inventory_row \<Rightarrow> storage_error + snapshot_item" where
  "inventory_from_row r =
     result_bind (negative_size ''source inventory contains a negative size'' (iw_size r)) (\<lambda>size.
     result_bind (blob_to_path (iw_path r)) (\<lambda>p.
     result_bind (decode_item_type (iw_type r)) (\<lambda>ty.
     result_bind (decode_analysis_outcome (iw_outcome r)) (\<lambda>out.
     result_bind (convert (corrupt_u32 ''source inventory contains invalid permissions'')
                    (iw_permissions r)) (\<lambda>permissions.
     result_bind (convert blob_to_path (iw_symlink r)) (\<lambda>symlink.
     result_bind (decode_hash (iw_fingerprint r)) (\<lambda>fingerprint.
     Ok \<lparr>sn_path = p, sn_type = ty, sn_outcome = out, sn_size = size,
         sn_modified = iw_modified r, sn_readonly = from_sql_bool (iw_readonly r),
         sn_permissions = permissions, sn_symlink_target = symlink,
         sn_fingerprint = fingerprint\<rparr>)))))))"

definition insert_inventory ::
  "'a run_tables_scheme \<Rightarrow> int \<Rightarrow> string \<Rightarrow> inventory_row list \<Rightarrow> inventory_row list
    \<Rightarrow> storage_error + inventory_row list" where
  "insert_inventory db run table old rows =
     result_bind (insert_rows db run table old rows) (\<lambda>found.
       if \<not> distinct (map iw_path rows) then Err (constraint_failed table) else Ok found)"

definition record_source_inventory ::
  "'a database_scheme \<Rightarrow> nat \<Rightarrow> inventory_snapshot \<Rightarrow> storage_error + 'a database_scheme" where
  "record_source_inventory db i inventory =
     result_bind (to_sql_id i) (\<lambda>run.
     result_bind (insert_inventory db run ''source_inventory_items'' (db_source_items db run)
                    (map inventory_to_row (snap_items inventory))) (\<lambda>rows.
     update_run_row (db\<lparr>db_source_items := (db_source_items db)(run := rows)\<rparr>) i run
       (\<lambda>r. r\<lparr>sr_source_recorded := 1\<rparr>)))"

definition record_destination_inventory ::
  "'a database_scheme \<Rightarrow> nat \<Rightarrow> inventory_snapshot \<Rightarrow> storage_error + 'a database_scheme" where
  "record_destination_inventory db i inventory =
     result_bind (to_sql_id i) (\<lambda>run.
     result_bind (insert_inventory db run ''destination_inventory_items''
                    (db_destination_items db run)
                    (map inventory_to_row (snap_items inventory))) (\<lambda>rows.
     update_run_row (db\<lparr>db_destination_items := (db_destination_items db)(run := rows)\<rparr>) i run
       (\<lambda>r. r\<lparr>sr_destination_recorded := 1\<rparr>)))"

definition load_inventory_table ::
  "(path \<Rightarrow> bool) \<Rightarrow> clock \<Rightarrow> 'a database_scheme \<Rightarrow> nat \<Rightarrow> (int \<Rightarrow> inventory_row list) \<Rightarrow> peer_side
    \<Rightarrow> storage_error + inventory_snapshot" where
  "load_inventory_table is_dir clock db i table side =
     result_bind (load_snapshot is_dir clock db i) (\<lambda>s.
     let p = (case side of PeerA \<Rightarrow> peer_a (rs_profile s) | PeerB \<Rightarrow> peer_b (rs_profile s)) in
     result_bind (collect_results inventory_from_row (table (int i))) (\<lambda>items.
     Ok \<lparr>snap_peer_name = peer_label p, snap_root = peer_root p, snap_items = items\<rparr>))"

definition load_source_inventory ::
  "(path \<Rightarrow> bool) \<Rightarrow> clock \<Rightarrow> 'a database_scheme \<Rightarrow> nat \<Rightarrow> storage_error + inventory_snapshot" where
  "load_source_inventory is_dir clock db i =
     result_bind (load_snapshot is_dir clock db i) (\<lambda>s.
     load_inventory_table is_dir clock db i (db_source_items db)
       (if prof_mode (rs_profile s) = Mirror then PeerA
        else side_of_source (prof_source (rs_profile s))))"

definition load_destination_inventory ::
  "(path \<Rightarrow> bool) \<Rightarrow> clock \<Rightarrow> 'a database_scheme \<Rightarrow> nat \<Rightarrow> storage_error + inventory_snapshot" where
  "load_destination_inventory is_dir clock db i =
     load_inventory_table is_dir clock db i (db_destination_items db) PeerB"

subsection \<open>Outcomes of a reviewed Mirror run\<close>

record mirror_resolution_item =
  mr_original :: path
  mr_generated :: "path option"
  mr_resolution :: conflict_resolution
  mr_operation :: resolution_operation
  mr_source :: "peer_side option"
  mr_target :: "peer_side option"
  mr_outcome :: mirror_resolution_outcome
  mr_review_state :: mirror_resolution_review_state

definition keeps_both :: "conflict_resolution \<Rightarrow> bool" where
  "keeps_both r = (r = PreserveBoth \<or> r = RenamePreserveForReview)"

definition mirror_resolution_item_new ::
  "path \<Rightarrow> path option \<Rightarrow> conflict_resolution \<Rightarrow> resolution_operation \<Rightarrow> peer_side option
    \<Rightarrow> peer_side option \<Rightarrow> mirror_resolution_outcome \<Rightarrow> mirror_resolution_review_state
    \<Rightarrow> mirror_resolution_item" where
  "mirror_resolution_item_new original generated resolution operation source target outcome state =
     \<lparr>mr_original = original, mr_generated = generated, mr_resolution = resolution,
      mr_operation = operation, mr_source = source, mr_target = target, mr_outcome = outcome,
      mr_review_state = (if keeps_both resolution then ReviewLater else state)\<rparr>"

definition mirror_item_requires_review :: "mirror_resolution_item \<Rightarrow> bool" where
  "mirror_item_requires_review r =
     (keeps_both (mr_resolution r) \<or> mr_outcome r \<noteq> ResCompleted \<or> mr_review_state r = ReviewLater)"

definition resolution_to_row :: "mirror_resolution_item \<Rightarrow> resolution_row" where
  "resolution_to_row r =
     \<lparr>mw_original = path_to_blob (mr_original r),
      mw_generated = map_option path_to_blob (mr_generated r),
      mw_resolution = encode_conflict_resolution (mr_resolution r),
      mw_operation = encode_resolution_operation (mr_operation r),
      mw_source = map_option encode_side (mr_source r),
      mw_target = map_option encode_side (mr_target r),
      mw_outcome = encode_mirror_resolution_outcome (mr_outcome r),
      mw_review_state = encode_mirror_review_state (mr_review_state r)\<rparr>"

definition resolution_from_row :: "resolution_row \<Rightarrow> storage_error + mirror_resolution_item" where
  "resolution_from_row r =
     result_bind (blob_to_path (mw_original r)) (\<lambda>original.
     result_bind (convert blob_to_path (mw_generated r)) (\<lambda>generated.
     result_bind (decode_conflict_resolution (mw_resolution r)) (\<lambda>resolution.
     result_bind (decode_resolution_operation (mw_operation r)) (\<lambda>operation.
     result_bind (convert decode_side (mw_source r)) (\<lambda>source.
     result_bind (convert decode_side (mw_target r)) (\<lambda>target.
     result_bind (decode_mirror_resolution_outcome (mw_outcome r)) (\<lambda>outcome.
     result_bind (decode_mirror_review_state (mw_review_state r)) (\<lambda>state.
     Ok (mirror_resolution_item_new original generated resolution operation source target outcome
           state)))))))))"

definition record_mirror_resolutions ::
  "'a database_scheme \<Rightarrow> nat \<Rightarrow> mirror_resolution_item list \<Rightarrow> storage_error + 'a database_scheme" where
  "record_mirror_resolutions db i resolutions =
     result_bind (to_sql_id i) (\<lambda>run.
     result_bind (ok_or no_rows (map_of (rt_rows db) run)) (\<lambda>row.
     if sr_mode row \<noteq> encode_mode Mirror
     then Err (InvalidEvent ''Mirror resolution evidence requires a Mirror run'')
     else Ok (db\<lparr>db_resolutions :=
                 (db_resolutions db)(run := map resolution_to_row resolutions)\<rparr>)))"

definition load_mirror_resolutions ::
  "'a database_scheme \<Rightarrow> nat \<Rightarrow> storage_error + mirror_resolution_item list" where
  "load_mirror_resolutions db i =
     result_bind (to_sql_id i) (\<lambda>run.
     collect_results resolution_from_row (db_resolutions db run))"

subsection \<open>The reconciliation of a run\<close>

fun reason_kind :: "reconciliation_reason \<Rightarrow> reconciliation_finding_kind" where
  "reason_kind RUnexplained = KUnexplained"
| "reason_kind RExcluded = KExcluded"
| "reason_kind RNewlyAppeared = KNewlyAppeared"
| "reason_kind RChanged = KChanged"
| "reason_kind (RFailed _) = KFailed"
| "reason_kind RUnavailable = KUnavailable"
| "reason_kind RUnverifiable = KUnverifiable"

definition finding_to_row :: "reconciliation_finding \<Rightarrow> finding_row" where
  "finding_to_row f =
     \<lparr>fw_path = path_to_blob (rf_path f), fw_kind = encode_finding_kind (reason_kind (rf_reason f)),
      fw_reason = encode_reconciliation_reason (rf_reason f)\<rparr>"

definition finding_from_row :: "finding_row \<Rightarrow> storage_error + reconciliation_finding" where
  "finding_from_row r =
     result_bind (decode_finding_kind (fw_kind r)) (\<lambda>kind.
     result_bind (decode_reconciliation_reason (fw_reason r)) (\<lambda>reason.
     if reason_kind reason \<noteq> kind
     then Err (CorruptEvidence ''reconciliation finding kind and reason differ'')
     else result_bind (blob_to_path (fw_path r)) (\<lambda>p.
       Ok \<lparr>rf_path = p, rf_reason = reason\<rparr>)))"

definition record_reconciliation ::
  "'a database_scheme \<Rightarrow> nat \<Rightarrow> completion_reconciliation \<Rightarrow> storage_error + 'a database_scheme" where
  "record_reconciliation db i reconciliation =
     result_bind (to_sql_id i) (\<lambda>run.
     if map_of (rt_rows db) run = None then Err foreign_key_failed
     else Ok (db\<lparr>db_reconciled := (db_reconciled db)(run \<mapsto>
       (encode_source_drain_status (cr_drain reconciliation),
        map finding_to_row (cr_findings reconciliation)))\<rparr>))"

definition load_reconciliation ::
  "'a database_scheme \<Rightarrow> nat \<Rightarrow> storage_error + completion_reconciliation option" where
  "load_reconciliation db i =
     result_bind (to_sql_id i) (\<lambda>run.
     (case db_reconciled db run of
        None \<Rightarrow> Ok None
      | Some (drain, rows) \<Rightarrow>
          result_bind (collect_results finding_from_row rows) (\<lambda>findings.
          result_bind (decode_source_drain_status drain) (\<lambda>status.
          Ok (Some \<lparr>cr_drain = status, cr_findings = findings\<rparr>)))))"

subsection \<open>The Mirror baseline of a profile\<close>

definition requirements_to_row :: "metadata_requirements \<Rightarrow> requirement_columns" where
  "requirements_to_row m =
     \<lparr>rq_file_type = bool_to_int (req_file_type m),
      rq_executable = bool_to_int (req_executable_permissions m),
      rq_symlinks = bool_to_int (req_symlink_targets m),
      rq_timestamps = bool_to_int (req_timestamps m),
      rq_ownership = bool_to_int (ownership (req_specialist m)),
      rq_acls = bool_to_int (access_control_lists (req_specialist m)),
      rq_xattrs = bool_to_int (extended_attributes (req_specialist m))\<rparr>"

definition requirements_from_row :: "requirement_columns \<Rightarrow> storage_error + metadata_requirements" where
  "requirements_from_row r =
     result_bind (decode_bool (rq_ownership r) ''baseline ownership requirement'') (\<lambda>owner.
     result_bind (decode_bool (rq_acls r) ''baseline ACL requirement'') (\<lambda>acls.
     result_bind (decode_bool (rq_xattrs r) ''baseline extended-attribute requirement'') (\<lambda>xattrs.
     result_bind (decode_bool (rq_file_type r) ''baseline file-type requirement'') (\<lambda>ty.
     result_bind (decode_bool (rq_executable r) ''baseline executable-permission requirement'') (\<lambda>ex.
     result_bind (decode_bool (rq_symlinks r) ''baseline symlink-target requirement'') (\<lambda>links.
     result_bind (decode_bool (rq_timestamps r) ''baseline timestamp requirement'') (\<lambda>times.
     Ok \<lparr>req_file_type = ty, req_executable_permissions = ex, req_symlink_targets = links,
         req_timestamps = times,
         req_specialist = \<lparr>ownership = owner, access_control_lists = acls,
                           extended_attributes = xattrs\<rparr>\<rparr>)))))))"

definition absent_state :: state_columns where
  "absent_state =
     \<lparr>cs_present = 0, cs_type = None, cs_size = None, cs_modified = None, cs_readonly = None,
      cs_permissions = None, cs_symlink = None, cs_fingerprint = None\<rparr>"

definition state_to_columns :: "baseline_state option \<Rightarrow> state_columns" where
  "state_to_columns state =
     (case state of
        None \<Rightarrow> absent_state
      | Some s \<Rightarrow>
          \<lparr>cs_present = 1, cs_type = Some (encode_item_type (bs_type s)),
           cs_size = Some (as_i64 (bs_size s)), cs_modified = bs_modified s,
           cs_readonly = Some (bool_to_int (bs_readonly s)),
           cs_permissions = map_option uint (bs_executable s),
           cs_symlink = map_option path_to_blob (bs_symlink_target s),
           cs_fingerprint = bs_fingerprint s\<rparr>)"

definition decode_baseline_state :: "state_columns \<Rightarrow> storage_error + baseline_state option" where
  "decode_baseline_state c =
     result_bind (decode_bool (cs_present c) ''baseline item presence'') (\<lambda>present.
     if \<not> present
     then (if cs_type c \<noteq> None \<or> cs_size c \<noteq> None \<or> cs_modified c \<noteq> None \<or> cs_readonly c \<noteq> None \<or>
              cs_permissions c \<noteq> None \<or> cs_symlink c \<noteq> None \<or> cs_fingerprint c \<noteq> None
           then Err (CorruptEvidence ''absent baseline item contains state'')
           else Ok None)
     else
     result_bind (ok_or (CorruptEvidence ''present baseline item has no item type'') (cs_type c)) (\<lambda>t.
     result_bind (decode_item_type t) (\<lambda>ty.
     result_bind (ok_or (CorruptEvidence ''present baseline item has no size'') (cs_size c)) (\<lambda>v.
     result_bind (negative_size ''baseline item has a negative size'' v) (\<lambda>size.
     result_bind (ok_or (CorruptEvidence ''present baseline item has no readonly flag'')
                    (cs_readonly c)) (\<lambda>ro.
     result_bind (decode_bool ro ''baseline readonly flag'') (\<lambda>readonly.
     result_bind (convert (corrupt_u32 ''baseline item has invalid permissions'')
                    (cs_permissions c)) (\<lambda>permissions.
     result_bind (convert blob_to_path (cs_symlink c)) (\<lambda>symlink.
     result_bind (decode_hash (cs_fingerprint c)) (\<lambda>fingerprint.
     Ok (Some \<lparr>bs_type = ty, bs_size = size, bs_modified = cs_modified c, bs_readonly = readonly,
              bs_executable = permissions, bs_symlink_target = symlink,
              bs_fingerprint = fingerprint\<rparr>)))))))))))"

definition baseline_item_to_row :: "baseline_item \<Rightarrow> baseline_item_row" where
  "baseline_item_to_row i =
     \<lparr>bw_path = path_to_blob (bi_path i), bw_peer_a = state_to_columns (bi_peer_a i),
      bw_peer_b = state_to_columns (bi_peer_b i)\<rparr>"

definition baseline_item_from_row :: "baseline_item_row \<Rightarrow> storage_error + baseline_item" where
  "baseline_item_from_row r =
     result_bind (decode_baseline_state (bw_peer_a r)) (\<lambda>a.
     result_bind (decode_baseline_state (bw_peer_b r)) (\<lambda>b.
     result_bind (blob_to_path (bw_path r)) (\<lambda>p.
     Ok \<lparr>bi_path = p, bi_peer_a = a, bi_peer_b = b\<rparr>)))"

definition baseline_to_row :: "sync_baseline \<Rightarrow> baseline_row" where
  "baseline_to_row b =
     \<lparr>lw_peer_a_name = bl_peer_a_name b, lw_peer_a_root = path_to_blob (bl_peer_a_root b),
      lw_peer_b_name = bl_peer_b_name b, lw_peer_b_root = path_to_blob (bl_peer_b_root b),
      lw_metadata = requirements_to_row (bl_metadata b),
      lw_items = map baseline_item_to_row (bl_items b)\<rparr>"

definition baseline_from_row :: "string \<Rightarrow> baseline_row \<Rightarrow> storage_error + sync_baseline" where
  "baseline_from_row name r =
     result_bind (requirements_from_row (lw_metadata r)) (\<lambda>metadata.
     result_bind (collect_results baseline_item_from_row (lw_items r)) (\<lambda>items.
     result_bind (blob_to_path (lw_peer_a_root r)) (\<lambda>a.
     result_bind (blob_to_path (lw_peer_b_root r)) (\<lambda>b.
     Ok \<lparr>bl_profile_name = name, bl_peer_a_name = lw_peer_a_name r, bl_peer_a_root = a,
         bl_peer_b_name = lw_peer_b_name r, bl_peer_b_root = b, bl_metadata = metadata,
         bl_items = items\<rparr>))))"

definition load_mirror_baseline ::
  "'a database_scheme \<Rightarrow> string \<Rightarrow> storage_error + sync_baseline option" where
  "load_mirror_baseline db name = convert (baseline_from_row name) (db_baselines db name)"

definition merged_baseline :: "sync_baseline option \<Rightarrow> sync_baseline \<Rightarrow> sync_baseline" where
  "merged_baseline found baseline =
     (case found of None \<Rightarrow> baseline | Some existing \<Rightarrow> merge_settled existing baseline)"

definition update_mirror_baseline ::
  "'a database_scheme \<Rightarrow> sync_baseline \<Rightarrow> storage_error + 'a database_scheme" where
  "update_mirror_baseline db baseline =
     result_bind (load_mirror_baseline db (bl_profile_name baseline)) (\<lambda>found.
     let merged = merged_baseline found baseline; row = baseline_to_row merged in
     if \<not> distinct (map bw_path (lw_items row))
     then Err (constraint_failed ''sync_baseline_items.relative_path'')
     else Ok (db\<lparr>db_baselines := (db_baselines db)(bl_profile_name merged \<mapsto> row)\<rparr>))"

subsection \<open>Rows read back\<close>

text \<open>A row that is read back as it was written, for the values a column can hold.\<close>

locale row_codec =
  fixes enc :: "'a \<Rightarrow> 'c" and dec :: "'c \<Rightarrow> 'e + 'a" and storable :: "'a \<Rightarrow> bool"
  assumes row_round_trip [simp]: "storable x \<Longrightarrow> dec (enc x) = Ok x"
begin

lemma rows_round_trip: "list_all storable xs \<Longrightarrow> collect_results dec (map enc xs) = Ok xs"
  by (induction xs) simp_all

lemma convert_row: "is_none_or storable x \<Longrightarrow> convert dec (map_option enc x) = Ok x"
  by (rule convert_round_trip) (simp add: is_none_or_iff)

lemma enc_inj_on: "inj_on enc {x. storable x}"
  by (rule inj_onI) (metis mem_Collect_eq row_round_trip sum.inject(2))

end

interpretation size_column: row_codec as_i64 "negative_size what" fits
  by unfold_locales (simp add: negative_size_def as_i64_fits)

interpretation permission_column: row_codec uint "corrupt_u32 what" "\<lambda>_. True"
proof
  fix n :: u32
  show "corrupt_u32 what (uint n) = Ok n" using uint_lt2p[of n] by (simp add: corrupt_u32_def)
qed

interpretation path_column: row_codec path_to_blob blob_to_path path_wf
  by unfold_locales simp

interpretation side_column: row_codec encode_side decode_side "\<lambda>_. True"
  by unfold_locales simp

definition item_storable :: "snapshot_item \<Rightarrow> bool" where
  "item_storable i =
     (path_wf (sn_path i) \<and> fits (sn_size i) \<and>
      is_none_or path_wf (sn_symlink_target i) \<and> hash_wf (sn_fingerprint i))"

interpretation inventory_rows: row_codec inventory_to_row inventory_from_row item_storable
proof
  fix i assume "item_storable i"
  then show "inventory_from_row (inventory_to_row i) = Ok i"
    by (simp add: item_storable_def inventory_from_row_def inventory_to_row_def path_column.convert_row
        permission_column.convert_row is_none_or_iff)
qed

definition resolution_storable :: "mirror_resolution_item \<Rightarrow> bool" where
  "resolution_storable r =
     (path_wf (mr_original r) \<and> is_none_or path_wf (mr_generated r) \<and>
      (keeps_both (mr_resolution r) \<longrightarrow> mr_review_state r = ReviewLater))"

interpretation resolution_rows: row_codec resolution_to_row resolution_from_row resolution_storable
proof
  fix r assume "resolution_storable r"
  then show "resolution_from_row (resolution_to_row r) = Ok r"
    by (simp add: resolution_storable_def resolution_from_row_def resolution_to_row_def
        path_column.convert_row side_column.convert_row is_none_or_iff mirror_resolution_item_new_def)
qed

interpretation finding_rows: row_codec finding_to_row finding_from_row "\<lambda>f. path_wf (rf_path f)"
  by unfold_locales (simp add: finding_to_row_def finding_from_row_def)

definition state_storable :: "baseline_state \<Rightarrow> bool" where
  "state_storable s =
     (fits (bs_size s) \<and> is_none_or path_wf (bs_symlink_target s) \<and>
      hash_wf (bs_fingerprint s))"

lemma decode_flag [simp]: "decode_bool 0 field = Ok False" "decode_bool 1 field = Ok True"
  by (simp_all add: decode_bool_def)

interpretation baseline_states: row_codec state_to_columns decode_baseline_state "is_none_or state_storable"
proof
  fix s assume "is_none_or state_storable s"
  then show "decode_baseline_state (state_to_columns s) = Ok s"
    by (cases s) (simp_all add: state_storable_def decode_baseline_state_def state_to_columns_def
        absent_state_def ok_or_def path_column.convert_row
        permission_column.convert_row is_none_or_iff)
qed

definition baseline_item_storable :: "baseline_item \<Rightarrow> bool" where
  "baseline_item_storable i =
     (path_wf (bi_path i) \<and> is_none_or state_storable (bi_peer_a i) \<and>
      is_none_or state_storable (bi_peer_b i))"

interpretation baseline_item_rows: row_codec baseline_item_to_row baseline_item_from_row baseline_item_storable
  by unfold_locales (simp add: baseline_item_storable_def baseline_item_to_row_def baseline_item_from_row_def)

lemma requirements_round_trip [simp]: "requirements_from_row (requirements_to_row m) = Ok m"
  by (simp add: requirements_from_row_def requirements_to_row_def)

definition baseline_storable :: "sync_baseline \<Rightarrow> bool" where
  "baseline_storable b =
     (path_wf (bl_peer_a_root b) \<and> path_wf (bl_peer_b_root b) \<and>
      list_all baseline_item_storable (bl_items b) \<and> distinct (map bi_path (bl_items b)))"

lemma baseline_round_trip:
  "baseline_storable b \<Longrightarrow> baseline_from_row (bl_profile_name b) (baseline_to_row b) = Ok b"
  by (simp add: baseline_storable_def baseline_from_row_def baseline_to_row_def
      baseline_item_rows.rows_round_trip)

lemma distinct_blobs:
  "list_all path_wf ps \<Longrightarrow> distinct (map path_to_blob ps) = distinct ps"
  using path_column.enc_inj_on by (auto simp: distinct_map list_all_iff inj_on_def)

subsection \<open>What a snapshot does not depend on\<close>

lemma snapshot_from_row_flags [simp]:
  "snapshot_from_row is_dir clock i (row\<lparr>sr_source_recorded := v\<rparr>) = snapshot_from_row is_dir clock i row"
  "snapshot_from_row is_dir clock i (row\<lparr>sr_destination_recorded := v\<rparr>) = snapshot_from_row is_dir clock i row"
  "snapshot_from_row is_dir clock i (row\<lparr>sr_review_cleared := v\<rparr>) = snapshot_from_row is_dir clock i row"
  "snapshot_from_row is_dir clock i (row\<lparr>sr_blocked_reason := r\<rparr>) = snapshot_from_row is_dir clock i row"
  by (simp_all add: snapshot_from_row_def read_snapshot_numbers_def read_snapshot_profile_def
      read_snapshot_options_def)

lemma map_of_update_keyed:
  "map_of (map (\<lambda>(r, row). (r, if r = run then f row else row)) rows) k =
     (if k = run then map_option f (map_of rows k) else map_of rows k)"
  by (induction rows) auto

lemma update_run_row_Ok:
  "update_run_row db i run f = Ok db' \<longleftrightarrow>
     map_of (rt_rows db) run \<noteq> None \<and>
     db' = db\<lparr>rt_rows := map (\<lambda>(r, row). (r, if r = run then f row else row)) (rt_rows db)\<rparr>"
  by (auto simp: update_run_row_def)

lemma load_snapshot_rows:
  assumes "\<And>k. map_option (snapshot_from_row is_dir clock j) (map_of (rt_rows db') k) =
    map_option (snapshot_from_row is_dir clock j) (map_of (rt_rows db) k)"
  shows "load_snapshot is_dir clock db' j = load_snapshot is_dir clock db j"
proof -
  have "(case map_of (rt_rows db') k of None \<Rightarrow> e | Some row \<Rightarrow> snapshot_from_row is_dir clock j row) =
      (case map_of (rt_rows db) k of None \<Rightarrow> e | Some row \<Rightarrow> snapshot_from_row is_dir clock j row)" for k e
    using assms[of k] by (auto split: option.splits)
  then show ?thesis by (simp add: load_snapshot_def)
qed

lemma load_snapshot_update:
  assumes "update_run_row db i run f = Ok db'"
    and "\<And>row. snapshot_from_row is_dir clock j (f row) = snapshot_from_row is_dir clock j row"
  shows "load_snapshot is_dir clock db' j = load_snapshot is_dir clock db j"
  by (rule load_snapshot_rows)
    (use assms in \<open>auto simp: update_run_row_Ok map_of_update_keyed option.map_comp comp_def\<close>)

lemma loaded_id: "load_snapshot is_dir clock db i = Ok s \<Longrightarrow> i < 2 ^ 63 \<and> map_of (rt_rows db) (int i) \<noteq> None"
  by (auto simp: load_snapshot_def to_sql_id_def split: if_splits option.splits)

subsection \<open>Frozen inventories\<close>

definition recorded_peer :: "run_snapshot_record \<Rightarrow> peer" where
  "recorded_peer s =
     (case (if prof_mode (rs_profile s) = Mirror then PeerA
            else side_of_source (prof_source (rs_profile s))) of
        PeerA \<Rightarrow> peer_a (rs_profile s) | PeerB \<Rightarrow> peer_b (rs_profile s))"

lemma load_source_inventory_rows:
  assumes "load_snapshot is_dir clock db i = Ok s"
  shows "load_source_inventory is_dir clock db i =
    result_bind (collect_results inventory_from_row (db_source_items db (int i))) (\<lambda>items.
      Ok \<lparr>snap_peer_name = peer_label (recorded_peer s), snap_root = peer_root (recorded_peer s),
          snap_items = items\<rparr>)"
  using assms by (simp add: load_source_inventory_def load_inventory_table_def recorded_peer_def Let_def)

lemma load_destination_inventory_rows:
  assumes "load_snapshot is_dir clock db i = Ok s"
  shows "load_destination_inventory is_dir clock db i =
    result_bind (collect_results inventory_from_row (db_destination_items db (int i))) (\<lambda>items.
      Ok \<lparr>snap_peer_name = peer_label (peer_b (rs_profile s)),
          snap_root = peer_root (peer_b (rs_profile s)), snap_items = items\<rparr>)"
  using assms by (simp add: load_destination_inventory_def load_inventory_table_def Let_def)

lemma insert_inventory_Ok:
  "insert_inventory db run table old rows = Ok found \<longleftrightarrow>
     distinct (map iw_path rows) \<and>
     (if rows = [] then found = old
      else old = [] \<and> map_of (rt_rows db) run \<noteq> None \<and> found = rows)"
  by (auto simp: insert_inventory_def insert_rows_def)

lemma record_source_inventory_Ok:
  assumes "record_source_inventory db i iv = Ok db'"
  shows "load_snapshot is_dir clock db' j = load_snapshot is_dir clock db j"
    and "db_source_items db' (int i) =
      (if snap_items iv = [] then db_source_items db (int i) else map inventory_to_row (snap_items iv))"
    and "snap_items iv \<noteq> [] \<Longrightarrow> db_source_items db (int i) = []"
proof -
  from assms obtain rows where r: "i < 2 ^ 63"
      "insert_inventory db (int i) ''source_inventory_items'' (db_source_items db (int i))
         (map inventory_to_row (snap_items iv)) = Ok rows"
      "update_run_row (db\<lparr>db_source_items := (db_source_items db)(int i := rows)\<rparr>) i (int i)
         (\<lambda>r. r\<lparr>sr_source_recorded := 1\<rparr>) = Ok db'"
    by (auto simp: record_source_inventory_def to_sql_id_def split: if_splits)
  show "load_snapshot is_dir clock db' j = load_snapshot is_dir clock db j"
    using load_snapshot_update[OF r(3)] by (simp add: load_snapshot_def)
  show "db_source_items db' (int i) =
      (if snap_items iv = [] then db_source_items db (int i) else map inventory_to_row (snap_items iv))"
    "snap_items iv \<noteq> [] \<Longrightarrow> db_source_items db (int i) = []"
    using r(2,3) by (auto simp: insert_inventory_Ok update_run_row_Ok split: if_splits)
qed


subsection \<open>The baseline of a profile\<close>

lemma merged_baseline_name [simp]:
  "is_none_or (\<lambda>o'. bl_profile_name o' = bl_profile_name b) old \<Longrightarrow>
   bl_profile_name (merged_baseline old b) = bl_profile_name b"
  by (cases old) (auto simp: merged_baseline_def merge_settled_merged is_none_or_iff)

lemma find_distinct_member:
  "distinct (map key xs) \<Longrightarrow> x \<in> set xs \<Longrightarrow> List.find (\<lambda>y. key y = key x) xs = Some x"
  by (induction xs) (auto simp: image_iff)

lemma merged_items_subset: "set (merged_items xs ys) \<subseteq> set xs \<union> set ys"
proof
  fix i assume "i \<in> set (merged_items xs ys)"
  then have "List.find (\<lambda>j. bi_path j = bi_path i) (merged_items xs ys) = Some i"
    by (intro find_distinct_member) (simp_all add: merged_items_paths)
  then show "i \<in> set xs \<union> set ys"
    unfolding merged_items_find by (auto dest!: find_Some_D)
qed

lemma merged_baseline_storable:
  assumes "is_none_or baseline_storable old" and "baseline_storable b"
  shows "baseline_storable (merged_baseline old b)"
proof (cases old)
  case (Some e)
  with assms have "list_all baseline_item_storable (bl_items e @ bl_items b)"
    by (auto simp: baseline_storable_def is_none_or_iff)
  then have "list_all baseline_item_storable (merged_items (bl_items e) (bl_items b))"
    using merged_items_subset by (fastforce simp: list_all_iff)
  with Some assms show ?thesis
    by (simp add: merged_baseline_def merge_settled_merged baseline_storable_def merged_items_paths
        is_none_or_iff)
qed (use assms in \<open>simp add: merged_baseline_def\<close>)

lemma update_mirror_baseline_step:
  assumes "load_mirror_baseline db (bl_profile_name b) = Ok old"
    and "is_none_or baseline_storable old" and "baseline_storable b"
  shows "update_mirror_baseline db b = Ok (db\<lparr>db_baselines :=
      (db_baselines db)(bl_profile_name b \<mapsto> baseline_to_row (merged_baseline old b))\<rparr>)"
    and "load_mirror_baseline (db\<lparr>db_baselines :=
      (db_baselines db)(bl_profile_name b \<mapsto> baseline_to_row (merged_baseline old b))\<rparr>) (bl_profile_name b) =
      Ok (Some (merged_baseline old b))"
proof -
  have name: "bl_profile_name (merged_baseline old b) = bl_profile_name b"
    using assms(1) by (intro merged_baseline_name)
      (auto simp: load_mirror_baseline_def convert_def baseline_from_row_def is_none_or_iff
        split: option.splits)
  note st = merged_baseline_storable[OF assms(2,3)]
  then have "distinct (map bw_path (lw_items (baseline_to_row (merged_baseline old b))))"
    using distinct_blobs[of "map bi_path (bl_items (merged_baseline old b))"]
    by (simp add: baseline_to_row_def baseline_item_to_row_def comp_def baseline_storable_def
        baseline_item_storable_def list_all_iff)
  then show "update_mirror_baseline db b = Ok (db\<lparr>db_baselines :=
      (db_baselines db)(bl_profile_name b \<mapsto> baseline_to_row (merged_baseline old b))\<rparr>)"
    by (simp add: update_mirror_baseline_def assms(1) name Let_def)
  show "load_mirror_baseline (db\<lparr>db_baselines :=
      (db_baselines db)(bl_profile_name b \<mapsto> baseline_to_row (merged_baseline old b))\<rparr>) (bl_profile_name b) =
      Ok (Some (merged_baseline old b))"
    using baseline_round_trip[OF st] by (simp add: load_mirror_baseline_def convert_def name)
qed

fun update_baselines ::
  "'a database_scheme \<Rightarrow> sync_baseline list \<Rightarrow> storage_error + 'a database_scheme" where
  "update_baselines db [] = Ok db"
| "update_baselines db (b # bs) = result_bind (update_mirror_baseline db b) (\<lambda>db'. update_baselines db' bs)"

text \<open>C25: The baseline table implements the merge of settled baselines: however many baselines a
  profile's runs settle, every update succeeds, what is loaded afterwards is the older baseline
  with all of them merged into it in order, and the baselines of other profiles are untouched.\<close>

theorem baseline_store_refines_merge:
  assumes "load_mirror_baseline db name = Ok old"
    and "is_none_or baseline_storable old"
    and "\<forall>b \<in> set bs. baseline_storable b \<and> bl_profile_name b = name"
  shows "\<exists>db'. update_baselines db bs = Ok db' \<and>
    load_mirror_baseline db' name = Ok (fold (\<lambda>b found. Some (merged_baseline found b)) bs old) \<and>
    (\<forall>other. other \<noteq> name \<longrightarrow> load_mirror_baseline db' other = load_mirror_baseline db other)"
  using assms
proof (induction bs arbitrary: db old)
  case (Cons b bs)
  let ?db = "db\<lparr>db_baselines := (db_baselines db)(name \<mapsto> baseline_to_row (merged_baseline old b))\<rparr>"
  from Cons.prems have b: "bl_profile_name b = name" "baseline_storable b" by simp_all
  note step = update_mirror_baseline_step[OF Cons.prems(1)[folded b(1)] Cons.prems(2) b(2), unfolded b(1)]
  have "is_none_or baseline_storable (Some (merged_baseline old b))"
    using merged_baseline_storable[OF Cons.prems(2) b(2)] by (simp add: is_none_or_iff)
  from Cons.IH[OF step(2) this] Cons.prems(3) obtain db' where
    "update_baselines ?db bs = Ok db'"
    "load_mirror_baseline db' name = Ok (fold (\<lambda>b found. Some (merged_baseline found b)) (b # bs) old)"
    "\<forall>other. other \<noteq> name \<longrightarrow> load_mirror_baseline db' other = load_mirror_baseline ?db other"
    by auto
  then show ?case by (auto simp: step(1) load_mirror_baseline_def)
qed simp

subsection \<open>The reconciliation of a run\<close>

lemma recorded_reconciliation_is_loaded:
  assumes "record_reconciliation db i c = Ok db'" and "\<forall>f \<in> set (cr_findings c). path_wf (rf_path f)"
  shows "load_reconciliation db' i = Ok (Some c)"
  using assms by (auto simp: record_reconciliation_def load_reconciliation_def to_sql_id_def
      finding_rows.rows_round_trip list_all_iff split: if_splits)

lemma recorded_resolutions_are_loaded:
  assumes "record_mirror_resolutions db i rs = Ok db'" and "list_all resolution_storable rs"
  shows "load_mirror_resolutions db' i = Ok rs"
  using assms by (auto simp: record_mirror_resolutions_def load_mirror_resolutions_def
      resolution_rows.rows_round_trip split: if_splits)

subsection \<open>Examples\<close>

definition empty_database :: database where
  "empty_database =
     \<lparr>rt_rows = [], rt_next_run_id = 1, st_events = [], st_event_seq = 0, st_notices = [],
      st_notice_seq = 0, pt_settings = Map.empty, pt_profiles = [], pt_profile_seq = 0,
      db_journal = (\<lambda>_. []), db_source_items = (\<lambda>_. []), db_destination_items = (\<lambda>_. []),
      db_resolutions = (\<lambda>_. []), db_reconciled = (\<lambda>_. None), db_baselines = (\<lambda>_. None)\<rparr>"

text \<open>The database with the run of \<open>example_run_snapshot\<close>.\<close>

definition example_database :: database where
  "example_database = projr (begin_run empty_database example_run_snapshot)"

lemma example_begun: "begin_run empty_database example_run_snapshot = Ok example_database"
  by (auto simp: example_database_def begin_run_def snapshot_to_row_def to_sql_id_def to_sql_u64_def
      convert_def snapshot_option_columns_def example_run_snapshot_def Let_def ok_or_def
      checked_i64_succ_def default_retry_policy_def delay_millis_def empty_database_def)

lemma example_database_loads: "load_snapshot (\<lambda>_. True) (Ok 99) example_database 5 = Ok example_run_snapshot"
proof -
  obtain spec where spec: "spec_from_profile_for_run (\<lambda>_. True) example_ssh_profile = Ok spec"
    using example_spec_ok by blast
  show ?thesis
    by (rule begun_snapshot_loads[OF example_run_snapshot_taken example_profile_storable example_begun spec refl])
qed

lemma example_database_tables:
  "db_source_items example_database = (\<lambda>_. [])" "db_journal example_database = (\<lambda>_. [])"
  "db_reconciled example_database = (\<lambda>_. None)" "db_resolutions example_database = (\<lambda>_. [])"
  "st_events example_database = []" "st_event_seq example_database = 0"
  "\<exists>row. rt_rows example_database = [(5, row)] \<and> sr_blocked_reason row = None \<and>
     sr_review_cleared row = 0 \<and> sr_source_recorded row = 0 \<and> sr_destination_recorded row = 0"
  by (auto simp: example_database_def begin_run_def snapshot_to_row_def to_sql_id_def to_sql_u64_def
      convert_def snapshot_option_columns_def example_run_snapshot_def Let_def ok_or_def
      checked_i64_succ_def default_retry_policy_def delay_millis_def empty_database_def)

definition example_snapshot_item :: snapshot_item where
  "example_snapshot_item =
     \<lparr>sn_path = [Normal ''f''], sn_type = RegularFile, sn_outcome = Included, sn_size = 3,
      sn_modified = Some (-1), sn_readonly = True, sn_permissions = Some 420,
      sn_symlink_target = None, sn_fingerprint = None\<rparr>"

definition example_frozen :: inventory_snapshot where
  "example_frozen =
     \<lparr>snap_peer_name = ''laptop'', snap_root = [RootDir, Normal ''a''],
      snap_items = [example_snapshot_item]\<rparr>"

lemma example_item_storable: "item_storable example_snapshot_item"
  by (simp add: item_storable_def example_snapshot_item_def path_wf_def inner_wf_def name_wf_def
      fits_def hash_wf_def SLASH_def)

lemma example_frozen_recorded:
  "\<exists>db. record_source_inventory example_database 5 example_frozen = Ok db \<and>
     (\<exists>db'. record_source_inventory db 5 (example_frozen\<lparr>snap_items := []\<rparr>) = Ok db')"
proof -
  obtain row where "rt_rows example_database = [(5, row)]" using example_database_tables(7) by blast
  then show ?thesis
    by (simp add: record_source_inventory_def to_sql_id_def insert_inventory_def insert_rows_def
        example_frozen_def example_database_tables update_run_row_def)
qed


definition example_settled :: "string \<Rightarrow> sync_baseline" where
  "example_settled f =
     \<lparr>bl_profile_name = ''work'', bl_peer_a_name = ''a'', bl_peer_a_root = [RootDir],
      bl_peer_b_name = ''b'', bl_peer_b_root = [RootDir], bl_metadata = default_metadata_requirements,
      bl_items = [\<lparr>bi_path = [Normal f], bi_peer_a = Some (state_of_snapshot example_snapshot_item),
        bi_peer_b = None\<rparr>]\<rparr>"

theorem baseline_store_refines_merge_witness:
  "\<exists>db. update_baselines empty_database [example_settled ''x'', example_settled ''y''] = Ok db \<and>
     load_mirror_baseline db ''work'' =
       Ok (Some (merge_settled (example_settled ''x'') (example_settled ''y'')))"
proof -
  have st: "baseline_storable (example_settled f)" if "f \<in> {''x'', ''y''}" for f
    using that example_item_storable by (auto simp: baseline_storable_def example_settled_def
        baseline_item_storable_def state_storable_def state_of_snapshot_def item_storable_def
        path_wf_def inner_wf_def name_wf_def SLASH_def example_snapshot_item_def)
  have "load_mirror_baseline empty_database ''work'' = Ok None"
    by (simp add: load_mirror_baseline_def empty_database_def convert_def)
  from baseline_store_refines_merge[OF this, of "[example_settled ''x'', example_settled ''y'']"] st
  show ?thesis by (auto simp: merged_baseline_def example_settled_def)
qed

end
