(* ===== verification/Reports.thy ===== *)
theory Reports
  imports EvidenceTables RunJournal
begin

text \<open>
  The report of a run (\<open>evidence.rs\<close>: \<open>RunReport\<close>, \<open>load_report\<close>, the removal of
  reports and \<open>mark_review_cleared\<close>): what the stored evidence says about a run, and what
  the user may do with it.
\<close>

subsection \<open>Items\<close>

record run_report_item =
  ri_journal :: action_journal_entry
  ri_source_path :: path
  ri_destination_path :: path
  ri_consequence :: string

definition report_consequence :: "plan_action_kind \<Rightarrow> peer_side \<Rightarrow> sync_mode \<Rightarrow> string" where
  "report_consequence operation side mode =
     (if mode = Mirror \<and> operation = CopyToDestination
      then (case side of
              PeerA \<Rightarrow> ''Copy the Peer A item to Peer B; preserve the item on Peer A.''
            | PeerB \<Rightarrow> ''Copy the Peer B item to Peer A; preserve the item on Peer B.'')
      else (case operation of
              CopyToDestination \<Rightarrow>
                ''Copy the selected source item to the destination; preserve the source.''
            | OverwriteDestination \<Rightarrow>
                ''Replace the destination version with the selected source version after verification.''
            | RemoveDestination \<Rightarrow>
                ''Remove the destination item because it is absent from the selected source scope.''
            | RemoveSourceAfterVerification \<Rightarrow>
                ''Remove the source item only after the destination result is independently verified.''))"

definition side_root :: "sync_profile \<Rightarrow> peer_side \<Rightarrow> path" where
  "side_root p side = peer_root (case side of PeerA \<Rightarrow> peer_a p | PeerB \<Rightarrow> peer_b p)"

definition item_from_journal :: "run_snapshot_record \<Rightarrow> action_journal_entry \<Rightarrow> run_report_item" where
  "item_from_journal s e =
     (let side = pr_side (je_plan e); p = rs_profile s in
      \<lparr>ri_journal = e,
       ri_source_path = join (side_root p side) (je_path e),
       ri_destination_path = join (side_root p (opposite side)) (je_path e),
       ri_consequence = report_consequence (je_operation e) side (prof_mode p)\<rparr>)"

abbreviation ri_outcome :: "run_report_item \<Rightarrow> action_outcome" where
  "ri_outcome i \<equiv> je_outcome (ri_journal i)"

definition item_progress_bytes :: "run_report_item \<Rightarrow> u64" where
  "item_progress_bytes i =
     (case rev (je_progress (ri_journal i)) of [] \<Rightarrow> 0 | n # _ \<Rightarrow> n)"

subsection \<open>Status, result and life cycle\<close>

datatype run_execution_result =
    ResultNotStarted | ResultInProgress | ResultSucceeded | ResultFailed | ResultCancelled
  | ResultInterrupted | ResultBlocked | ResultRecoveryReview

datatype run_lifecycle = LifecycleOpen | LifecycleReviewRequired | LifecycleReviewCleared

fun is_failed :: "action_outcome \<Rightarrow> bool" where
  "is_failed (ActFailed _) = True"
| "is_failed _ = False"

fun is_unresolved :: "action_outcome \<Rightarrow> bool" where
  "is_unresolved (ActUnresolved _) = True"
| "is_unresolved _ = False"

fun is_recovery_review :: "action_outcome \<Rightarrow> bool" where
  "is_recovery_review (ActRecoveryReview _) = True"
| "is_recovery_review _ = False"

fun resolution_failed :: "mirror_resolution_outcome \<Rightarrow> bool" where
  "resolution_failed (ResFailed _) = True"
| "resolution_failed (ResUnresolved _) = True"
| "resolution_failed _ = False"

abbreviation some_outcome :: "(action_outcome \<Rightarrow> bool) \<Rightarrow> run_report_item list \<Rightarrow> bool" where
  "some_outcome P items \<equiv> list_ex (\<lambda>i. P (ri_outcome i)) items"

definition report_status ::
  "run_report_item list \<Rightarrow> mirror_resolution_item list \<Rightarrow> bool \<Rightarrow> bool
    \<Rightarrow> completion_reconciliation option \<Rightarrow> bool \<Rightarrow> run_report_status" where
  "report_status items resolutions cleared blocked reconciliation inventory_recorded =
     (if blocked then RepBlocked
      else if some_outcome (\<lambda>o'. o' = ActInProgress) items \<or>
              (items = [] \<and> inventory_recorded \<and> reconciliation = None) then RepInProgress
      else if some_outcome is_recovery_review items then RepRecoveryReview
      else if some_outcome is_failed items \<or>
              list_ex (\<lambda>r. resolution_failed (mr_outcome r)) resolutions then RepFailed
      else if some_outcome (\<lambda>o'. o' = ActInterrupted) items then RepInterrupted
      else if some_outcome (\<lambda>o'. o' = ActCancelled) items then RepCancelled
      else if some_outcome (\<lambda>o'. o' = ActDeferred \<or> is_unresolved o') items \<or>
              list_ex mirror_item_requires_review resolutions \<or>
              is_some_and reconciliation_requires_review reconciliation \<or>
              (inventory_recorded \<and> reconciliation = None) then RepCompletedWithReviewRequired
      else if cleared then RepReviewCleared
      else RepCompleted)"

definition execution_result :: "run_report_item list \<Rightarrow> bool \<Rightarrow> bool \<Rightarrow> run_execution_result" where
  "execution_result items blocked reconciled =
     (if blocked then ResultBlocked
      else if items = [] \<and> \<not> reconciled then ResultNotStarted
      else if some_outcome (\<lambda>o'. o' = ActInProgress) items then ResultInProgress
      else if some_outcome is_recovery_review items then ResultRecoveryReview
      else if some_outcome is_failed items then ResultFailed
      else if some_outcome (\<lambda>o'. o' = ActInterrupted) items then ResultInterrupted
      else if some_outcome (\<lambda>o'. o' = ActCancelled) items then ResultCancelled
      else ResultSucceeded)"

fun needs_review :: "action_outcome \<Rightarrow> bool" where
  "needs_review ActInProgress = False"
| "needs_review ActCompleted = False"
| "needs_review _ = True"

definition report_lifecycle ::
  "run_report_item list \<Rightarrow> mirror_resolution_item list \<Rightarrow> bool \<Rightarrow> bool
    \<Rightarrow> completion_reconciliation option \<Rightarrow> run_lifecycle" where
  "report_lifecycle items resolutions cleared blocked reconciliation =
     (if cleared
      then (if list_ex mirror_item_requires_review resolutions \<or>
               is_some_and reconciliation_requires_review reconciliation
            then LifecycleReviewRequired else LifecycleReviewCleared)
      else if blocked \<or> is_some_and reconciliation_requires_review reconciliation \<or>
              list_ex mirror_item_requires_review resolutions then LifecycleReviewRequired
      else if some_outcome needs_review items then LifecycleReviewRequired
      else LifecycleOpen)"

subsection \<open>The report\<close>

record run_report =
  rp_run_id :: nat
  rp_snapshot :: run_snapshot_record
  rp_items :: "run_report_item list"
  rp_status :: run_report_status
  rp_execution_result :: run_execution_result
  rp_lifecycle :: run_lifecycle
  rp_blocked_reason :: "string option"
  rp_reconciliation :: "completion_reconciliation option"
  rp_reconciliation_required :: bool
  rp_inventory_a :: "inventory_snapshot option"
  rp_inventory_b :: "inventory_snapshot option"
  rp_resolutions :: "mirror_resolution_item list"

definition can_mark_review_cleared :: "run_report \<Rightarrow> bool" where
  "can_mark_review_cleared r =
     (rp_lifecycle r = LifecycleOpen \<and> rp_execution_result r = ResultSucceeded \<and>
      (\<not> rp_reconciliation_required r \<or>
       is_some_and (\<lambda>c. \<not> reconciliation_requires_review c) (rp_reconciliation r)) \<and>
      list_all (\<lambda>m. \<not> mirror_item_requires_review m) (rp_resolutions r))"

definition inventories_recorded :: "sync_mode \<Rightarrow> snapshot_row \<Rightarrow> bool" where
  "inventories_recorded mode row =
     (if mode = Mirror
      then from_sql_bool (sr_source_recorded row) \<and> from_sql_bool (sr_destination_recorded row)
      else from_sql_bool (sr_source_recorded row))"

definition when_recorded :: "bool \<Rightarrow> 'e + 'a \<Rightarrow> 'e + 'a option" where
  "when_recorded b r = (if b then result_bind r (\<lambda>v. Ok (Some v)) else Ok None)"

definition load_report ::
  "(path \<Rightarrow> bool) \<Rightarrow> clock \<Rightarrow> 'a database_scheme \<Rightarrow> nat \<Rightarrow> storage_error + run_report" where
  "load_report is_dir clock db i =
     result_bind (load_snapshot is_dir clock db i) (\<lambda>s.
     result_bind (load_journal (journal_store db) i) (\<lambda>journal.
     result_bind (ok_or no_rows (map_of (rt_rows db) (int i))) (\<lambda>row.
     result_bind (load_reconciliation db i) (\<lambda>reconciliation.
     result_bind (load_mirror_resolutions db i) (\<lambda>resolutions.
     let cleared = from_sql_bool (sr_review_cleared row);
         blocked = (sr_blocked_reason row \<noteq> None);
         mirror = (prof_mode (rs_profile s) = Mirror);
         recorded = inventories_recorded (prof_mode (rs_profile s)) row;
         items = map (item_from_journal s) journal in
     result_bind (when_recorded (mirror \<and> from_sql_bool (sr_source_recorded row))
                    (load_source_inventory is_dir clock db i)) (\<lambda>a.
     result_bind (when_recorded (mirror \<and> from_sql_bool (sr_destination_recorded row))
                    (load_destination_inventory is_dir clock db i)) (\<lambda>b.
     Ok \<lparr>rp_run_id = i, rp_snapshot = s, rp_items = items,
         rp_status = report_status items resolutions cleared blocked reconciliation recorded,
         rp_execution_result = execution_result items blocked (reconciliation \<noteq> None),
         rp_lifecycle = report_lifecycle items resolutions cleared blocked reconciliation,
         rp_blocked_reason = sr_blocked_reason row, rp_reconciliation = reconciliation,
         rp_reconciliation_required = recorded, rp_inventory_a = a, rp_inventory_b = b,
         rp_resolutions = resolutions\<rparr>)))))))"

definition list_run_reports ::
  "(path \<Rightarrow> bool) \<Rightarrow> clock \<Rightarrow> 'a database_scheme \<Rightarrow> storage_error + run_report list" where
  "list_run_reports is_dir clock db =
     result_bind (collect_results get_id (sort_key uminus (map fst (rt_rows db))))
       (collect_results (load_report is_dir clock db))"

subsection \<open>What the user may do with a report\<close>

definition load_report_or_not_found ::
  "(path \<Rightarrow> bool) \<Rightarrow> clock \<Rightarrow> 'a database_scheme \<Rightarrow> nat \<Rightarrow> storage_error + run_report" where
  "load_report_or_not_found is_dir clock db i =
     (case load_report is_dir clock db i of
        Inl e \<Rightarrow> Err (if e = no_rows then ReportNotFound i else e)
      | Inr r \<Rightarrow> Ok r)"

text \<open>\<open>DELETE FROM run_snapshots\<close> takes the rows that refer to the run with it.\<close>

definition delete_run :: "int \<Rightarrow> 'a database_scheme \<Rightarrow> 'a database_scheme" where
  "delete_run run db =
     db\<lparr>rt_rows := filter (\<lambda>(r, row). r \<noteq> run) (rt_rows db),
        db_journal := (db_journal db)(run := []),
        db_source_items := (db_source_items db)(run := []),
        db_destination_items := (db_destination_items db)(run := []),
        db_resolutions := (db_resolutions db)(run := []),
        db_reconciled := (db_reconciled db)(run := None)\<rparr>"

definition delete_report_metadata ::
  "(path \<Rightarrow> bool) \<Rightarrow> clock \<Rightarrow> 'a database_scheme \<Rightarrow> nat \<Rightarrow> string \<Rightarrow> (run_report_status \<Rightarrow> bool)
    \<Rightarrow> storage_error + 'a database_scheme" where
  "delete_report_metadata is_dir clock db i action allowed =
     result_bind (load_report_or_not_found is_dir clock db i) (\<lambda>report.
     if \<not> allowed (rp_status report)
     then Err (ReportActionNotAllowed i action (rp_status report))
     else if map_of (rt_rows db) (int i) = None then Err (ReportNotFound i)
     else Ok (delete_run (int i) db))"

definition removable :: "run_report_status \<Rightarrow> bool" where
  "removable s = (s = RepCompleted \<or> s = RepReviewCleared)"

definition discardable :: "run_report_status \<Rightarrow> bool" where
  "discardable s = (\<not> (s = RepCompleted \<or> s = RepReviewCleared \<or> s = RepInProgress))"

definition remove_completed_report ::
  "(path \<Rightarrow> bool) \<Rightarrow> clock \<Rightarrow> 'a database_scheme \<Rightarrow> nat \<Rightarrow> storage_error + 'a database_scheme" where
  "remove_completed_report is_dir clock db i =
     delete_report_metadata is_dir clock db i ''Remove Completed Report'' removable"

definition discard_unresolved_run ::
  "(path \<Rightarrow> bool) \<Rightarrow> clock \<Rightarrow> 'a database_scheme \<Rightarrow> nat \<Rightarrow> storage_error + 'a database_scheme" where
  "discard_unresolved_run is_dir clock db i =
     delete_report_metadata is_dir clock db i ''Discard Unresolved Run'' discardable"

definition announce_cleared ::
  "clock \<Rightarrow> 'a database_scheme \<Rightarrow> nat \<Rightarrow> storage_error + 'a database_scheme" where
  "announce_cleared clock db i =
     (case claiming_profile db (int i) of
        None \<Rightarrow> Ok db
      | Some p \<Rightarrow>
          if list_ex (\<lambda>e. er_run (snd e) = int i \<and> er_kind (snd e) = ''review_cleared'') (st_events db)
          then Ok db
          else
          result_bind (corrupt_id ''scheduler profile id is invalid'' p) (\<lambda>profile.
          result_bind clock (\<lambda>now.
          if now < 0 then Err (Sqlite ''CHECK constraint failed: created_at_unix_seconds >= 0'')
          else
          result_bind (autoincrement (st_event_seq db)) (\<lambda>e.
          Ok (db\<lparr>st_events := st_events db @
                   [(e, new_event (int profile) (int i) SchedReviewCleared now None None)],
                st_event_seq := e\<rparr>)))))"

definition set_cleared :: "snapshot_row \<Rightarrow> snapshot_row" where
  "set_cleared row = row\<lparr>sr_review_cleared := 1\<rparr>"

definition mark_review_cleared ::
  "(path \<Rightarrow> bool) \<Rightarrow> clock \<Rightarrow> 'a database_scheme \<Rightarrow> nat \<Rightarrow> storage_error + 'a database_scheme" where
  "mark_review_cleared is_dir clock db i =
     result_bind (load_report_or_not_found is_dir clock db i) (\<lambda>report.
     if \<not> can_mark_review_cleared report
     then Err (InvalidEvent
       ''Review-Cleared requires settled actions and a reconciliation with no findings'')
     else if map_of (rt_rows db) (int i) = None then Err (ReportNotFound i)
     else
     result_bind (update_run_row db i (int i) set_cleared) (\<lambda>db'.
       announce_cleared clock db' i))"

subsection \<open>Loading a report\<close>

lemma load_report_Ok:
  assumes "load_report is_dir clock db i = Ok r"
  obtains s journal row where
    "load_snapshot is_dir clock db i = Ok s" "load_journal (journal_store db) i = Ok journal"
    "map_of (rt_rows db) (int i) = Some row" "load_reconciliation db i = Ok (rp_reconciliation r)"
    "load_mirror_resolutions db i = Ok (rp_resolutions r)"
    "rp_items r = map (item_from_journal s) journal"
    "rp_blocked_reason r = sr_blocked_reason row"
    "rp_reconciliation_required r = inventories_recorded (prof_mode (rs_profile s)) row"
    "rp_status r = report_status (rp_items r) (rp_resolutions r) (from_sql_bool (sr_review_cleared row))
       (rp_blocked_reason r \<noteq> None) (rp_reconciliation r) (rp_reconciliation_required r)"
    "rp_execution_result r =
       execution_result (rp_items r) (rp_blocked_reason r \<noteq> None) (rp_reconciliation r \<noteq> None)"
    "rp_lifecycle r = report_lifecycle (rp_items r) (rp_resolutions r)
       (from_sql_bool (sr_review_cleared row)) (rp_blocked_reason r \<noteq> None) (rp_reconciliation r)"
  using assms by (auto simp: load_report_def Let_def)

lemma load_report_cong:
  assumes "load_snapshot is_dir clock db' i = load_snapshot is_dir clock db i"
    and "map_of (rt_rows db') (int i) = map_of (rt_rows db) (int i)"
    and "db_journal db' (int i) = db_journal db (int i)"
    and "db_source_items db' (int i) = db_source_items db (int i)"
    and "db_destination_items db' (int i) = db_destination_items db (int i)"
    and "db_resolutions db' (int i) = db_resolutions db (int i)"
    and "db_reconciled db' (int i) = db_reconciled db (int i)"
  shows "load_report is_dir clock db' i = load_report is_dir clock db i"
proof -
  have "journal_store db' i = journal_store db i" by (simp add: journal_store_def assms)
  then have j: "load_journal (journal_store db') i = load_journal (journal_store db) i"
    by (simp add: load_journal_def)
  have k: "load_reconciliation db' i = load_reconciliation db i"
    "load_mirror_resolutions db' i = load_mirror_resolutions db i"
    by (auto simp: load_reconciliation_def load_mirror_resolutions_def to_sql_id_def assms)
  have l: "load_source_inventory is_dir clock db' i = load_source_inventory is_dir clock db i"
    "load_destination_inventory is_dir clock db' i = load_destination_inventory is_dir clock db i"
    by (simp_all add: load_source_inventory_def load_destination_inventory_def
        load_inventory_table_def assms)
  show ?thesis by (simp only: load_report_def assms j k l)
qed

lemma removable_status:
  assumes "removable (report_status items resolutions cleared blocked reconciliation recorded)"
  shows "\<not> blocked \<and> list_all (\<lambda>i. ri_outcome i = ActCompleted) items \<and>
    list_all (\<lambda>r. \<not> mirror_item_requires_review r) resolutions \<and>
    is_none_or (\<lambda>c. \<not> reconciliation_requires_review c) reconciliation \<and>
    (recorded \<longrightarrow> reconciliation \<noteq> None)"
proof -
  have "out = ActCompleted \<longleftrightarrow> out \<noteq> ActInProgress \<and> \<not> is_recovery_review out \<and> \<not> is_failed out \<and>
      out \<noteq> ActInterrupted \<and> out \<noteq> ActCancelled \<and> out \<noteq> ActDeferred \<and> \<not> is_unresolved out" for out
    by (cases out) simp_all
  with assms show ?thesis
    by (auto simp: removable_def report_status_def list_all_iff list_ex_iff is_none_or_iff
        is_some_and_def split: if_split_asm option.splits)
qed

lemma settled_status:
  assumes "list_all (\<lambda>i. ri_outcome i = ActCompleted) items"
    and "list_all (\<lambda>r. \<not> mirror_item_requires_review r) resolutions"
    and "is_none_or (\<lambda>c. \<not> reconciliation_requires_review c) reconciliation"
    and "recorded \<longrightarrow> reconciliation \<noteq> None"
  shows "report_status items resolutions cleared False reconciliation recorded =
      (if cleared then RepReviewCleared else RepCompleted)"
    and "report_lifecycle items resolutions True False reconciliation = LifecycleReviewCleared"
proof -
  have no: "\<not> some_outcome P items" if "\<not> P ActCompleted" for P
    using assms(1) that by (auto simp: list_all_iff list_ex_iff)
  have "\<not> list_ex mirror_item_requires_review resolutions"
    using assms(2) by (auto simp: list_all_iff list_ex_iff)
  moreover have "\<not> list_ex (\<lambda>r. resolution_failed (mr_outcome r)) resolutions"
    using assms(2) by (auto simp: list_all_iff list_ex_iff mirror_item_requires_review_def)
  moreover have "\<not> is_some_and reconciliation_requires_review reconciliation"
    using assms(3) by (cases reconciliation) (simp_all add: is_none_or_iff is_some_and_def)
  ultimately show "report_status items resolutions cleared False reconciliation recorded =
      (if cleared then RepReviewCleared else RepCompleted)"
    "report_lifecycle items resolutions True False reconciliation = LifecycleReviewCleared"
    using assms(4) no[of "\<lambda>o'. o' = ActInProgress"] no[of is_recovery_review] no[of is_failed]
      no[of "\<lambda>o'. o' = ActInterrupted"] no[of "\<lambda>o'. o' = ActCancelled"]
      no[of "\<lambda>o'. o' = ActDeferred \<or> is_unresolved o'"]
    by (auto simp: report_status_def report_lifecycle_def)
qed

subsection \<open>What a completed report rests on\<close>

text \<open>C21: A report that may be removed as completed is accounted for. Nothing blocked the run, every
  action of its journal completed, no Mirror decision is left for later, the reconciliation --
  there is one whenever the inventories were recorded -- has no finding; and behind every
  completed Safe Delete stand a verified transfer, a proof of both sides and a removal result
  that shows the source gone and the destination as it was proved.\<close>

theorem completed_report_is_accounted_for:
  assumes "load_report is_dir clock db i = Ok r" and "removable (rp_status r)"
  shows "rp_blocked_reason r = None \<and>
    list_all (\<lambda>m. \<not> mirror_item_requires_review m) (rp_resolutions r) \<and>
    (rp_reconciliation_required r \<longrightarrow> rp_reconciliation r \<noteq> None) \<and>
    is_none_or (\<lambda>c. cr_findings c = []) (rp_reconciliation r) \<and>
    (\<forall>item \<in> set (rp_items r). ri_outcome item = ActCompleted \<and>
      (je_operation (ri_journal item) = RemoveSourceAfterVerification \<longrightarrow>
        (\<exists>t p v. je_transfer (ri_journal item) = Some t \<and> je_proof (ri_journal item) = Some p \<and>
           je_removal (ri_journal item) = Some v \<and>
           transfer_evidence_valid (ri_journal item) t \<and> proof_boundary_valid (ri_journal item) p \<and>
           \<not> re_source_present (rm_evidence v) \<and> re_destination_present (rm_evidence v) \<and>
           re_destination_size (rm_evidence v) = re_destination_size p \<and>
           re_destination_sha256 (rm_evidence v) = re_destination_sha256 p)))"
proof -
  obtain s journal row where l: "load_snapshot is_dir clock db i = Ok s"
    "load_journal (journal_store db) i = Ok journal"
    "map_of (rt_rows db) (int i) = Some row"
    "rp_items r = map (item_from_journal s) journal"
    "rp_status r = report_status (rp_items r) (rp_resolutions r) (from_sql_bool (sr_review_cleared row))
       (rp_blocked_reason r \<noteq> None) (rp_reconciliation r) (rp_reconciliation_required r)"
    by (rule load_report_Ok[OF assms(1)])
  note st = removable_status[OF assms(2)[unfolded l(5)]]
  have done': "ri_outcome item = ActCompleted" if "item \<in> set (rp_items r)" for item
    using st that by (simp add: list_all_iff)
  have "\<exists>t p v. je_transfer e = Some t \<and> je_proof e = Some p \<and> je_removal e = Some v \<and>
        transfer_evidence_valid e t \<and> proof_boundary_valid e p \<and>
        \<not> re_source_present (rm_evidence v) \<and> re_destination_present (rm_evidence v) \<and>
        re_destination_size (rm_evidence v) = re_destination_size p \<and>
        re_destination_sha256 (rm_evidence v) = re_destination_sha256 p"
    if item: "item \<in> set (rp_items r)" "e = ri_journal item"
      and op: "je_operation e = RemoveSourceAfterVerification" for item e
  proof -
    have e: "e \<in> set journal" using item l(4) by (auto simp: item_from_journal_def Let_def)
    obtain j where j: "journal_store db i = Some j" using l(3) by (simp add: journal_store_def)
    note ok = loaded_entry_ok[OF l(2) j e, unfolded entry_ok_def]
    have "is_safe_delete e" using op by (simp add: is_safe_delete_def)
    with ok done'[OF item(1)] item(2) obtain v p t where r: "je_removal e = Some v"
        "je_proof e = Some p" "je_transfer e = Some t" by blast
    with ok show ?thesis
      by (auto simp: matches_proof_def removal_evidence_valid_def transfer_evidence_valid_def)
  qed
  with st done' show ?thesis by (auto simp: is_none_or_iff reconciliation_requires_review_def)
qed

subsection \<open>Removing a report\<close>

lemma map_of_filter_key: "map_of (filter (\<lambda>(r, row). r \<noteq> run) rows) k = (if k = run then None else map_of rows k)"
  by (induction rows) auto

lemma delete_report_metadata_Ok:
  assumes "delete_report_metadata is_dir clock db i action allowed = Ok db'"
  obtains r where "load_report is_dir clock db i = Ok r" "allowed (rp_status r)" "db' = delete_run (int i) db"
  using assms by (auto simp: delete_report_metadata_def load_report_or_not_found_def split: sum.splits if_splits)

lemma deleted_run:
  assumes "i < 2 ^ 63"
  shows "load_report is_dir clock (delete_run (int i) db) i = Err (run_not_found i)"
    and "j \<noteq> i \<Longrightarrow> load_report is_dir clock (delete_run (int i) db) j = load_report is_dir clock db j"
proof -
  show "load_report is_dir clock (delete_run (int i) db) i = Err (run_not_found i)"
    using assms by (simp add: load_report_def load_snapshot_def to_sql_id_def delete_run_def map_of_filter_key)
  assume j: "j \<noteq> i"
  then have "load_snapshot is_dir clock (delete_run (int i) db) j = load_snapshot is_dir clock db j"
    by (simp add: load_snapshot_def to_sql_id_def delete_run_def map_of_filter_key)
  with j show "load_report is_dir clock (delete_run (int i) db) j = load_report is_dir clock db j"
    by (intro load_report_cong) (simp_all add: delete_run_def map_of_filter_key)
qed

text \<open>C23: Removing or discarding a report takes that report and nothing else. It succeeds only on a
  settled report (remove) or an unsettled one that is not in progress (discard), never both; it
  cannot be loaded afterwards, while every other report loads as before and the events, notices,
  profiles, baselines and the sequence of run ids stay as they were.\<close>

theorem report_removal_is_confined:
  fixes db :: "'a database_scheme"
  assumes "remove_completed_report is_dir clock db i = Ok db' \<or>
    discard_unresolved_run is_dir clock db i = Ok db'"
  shows "(\<exists>r. load_report is_dir clock db i = Ok r \<and>
      (remove_completed_report is_dir clock db i = Ok db') = removable (rp_status r) \<and>
      (discard_unresolved_run is_dir clock db i = Ok db') = discardable (rp_status r) \<and>
      rp_status r \<noteq> RepInProgress) \<and>
    load_report is_dir clock db' i = Err (run_not_found i) \<and>
    (\<forall>j. j \<noteq> i \<longrightarrow> load_report is_dir clock db' j = load_report is_dir clock db j) \<and>
    st_events db' = st_events db \<and> st_notices db' = st_notices db \<and>
    pt_profiles db' = pt_profiles db \<and> db_baselines db' = db_baselines db \<and>
    rt_next_run_id db' = rt_next_run_id db"
proof -
  obtain r where r: "load_report is_dir clock db i = Ok r" "removable (rp_status r) \<or> discardable (rp_status r)"
    and db': "db' = delete_run (int i) db"
    using assms unfolding remove_completed_report_def discard_unresolved_run_def
    by (elim disjE) (erule delete_report_metadata_Ok; blast)+
  obtain s row where l: "load_snapshot is_dir clock db i = Ok s" "map_of (rt_rows db) (int i) = Some row"
    by (rule load_report_Ok[OF r(1)])
  have i: "i < 2 ^ 63" using loaded_id[OF l(1)] by simp
  have each: "(delete_report_metadata is_dir clock db i action allowed = Ok db') = allowed (rp_status r)"
    for action allowed
    by (simp add: delete_report_metadata_def load_report_or_not_found_def r(1) l(2) db')
  have status: "rp_status r \<noteq> RepInProgress"
    using r(2) by (auto simp: removable_def discardable_def)
  have tables: "st_events db' = st_events db \<and> st_notices db' = st_notices db \<and>
    pt_profiles db' = pt_profiles db \<and> db_baselines db' = db_baselines db \<and>
    rt_next_run_id db' = rt_next_run_id db"
    by (simp add: db' delete_run_def)
  have others: "\<forall>j. j \<noteq> i \<longrightarrow> load_report is_dir clock db' j = load_report is_dir clock db j"
    unfolding db' using deleted_run(2)[OF i] by blast
  show ?thesis
    using r(1) status tables others deleted_run(1)[OF i, of is_dir clock db]
    by (simp add: remove_completed_report_def discard_unresolved_run_def each db'[symmetric])
qed

text \<open>A run that does not exist is not answered with \<open>ReportNotFound\<close>: only an empty query
  result is translated, and \<open>load_snapshot\<close> has already turned that into
  \<open>InvalidEvent\<close>.\<close>

lemma missing_report_is_an_invalid_event:
  assumes "i < 2 ^ 63" and "map_of (rt_rows db) (int i) = None"
  shows "remove_completed_report is_dir clock db i = Err (run_not_found i)"
    and "mark_review_cleared is_dir clock db i = Err (run_not_found i)"
  using assms by (simp_all add: remove_completed_report_def delete_report_metadata_def
      mark_review_cleared_def load_report_or_not_found_def load_report_def load_snapshot_def
      to_sql_id_def run_not_found_def no_rows_def)

subsection \<open>Clearing a review\<close>

lemma announce_cleared_Ok:
  assumes "announce_cleared clock db i = Ok db'"
  obtains es k where "db' = db\<lparr>st_events := st_events db @ es, st_event_seq := k\<rparr>"
    "claiming_profile db (int i) \<noteq> None \<longrightarrow>
       (\<exists>e \<in> set (st_events db @ es). er_run (snd e) = int i \<and> er_kind (snd e) = ''review_cleared'')"
proof (cases "claiming_profile db (int i)")
  case None
  with assms have "db' = db\<lparr>st_events := st_events db @ [], st_event_seq := st_event_seq db\<rparr>"
    by (simp add: announce_cleared_def)
  with None that[of "st_event_seq db" "[]"] show thesis by simp
next
  case (Some p)
  show thesis
  proof (cases "list_ex (\<lambda>e. er_run (snd e) = int i \<and> er_kind (snd e) = ''review_cleared'') (st_events db)")
    case True
    then have "db' = db\<lparr>st_events := st_events db @ [], st_event_seq := st_event_seq db\<rparr>"
      using assms Some by (simp add: announce_cleared_def)
    with True that[of "st_event_seq db" "[]"] show thesis by (auto simp: list_ex_iff)
  next
    case False
    then obtain now e where "db' = db\<lparr>st_events := st_events db @
        [(e, new_event p (int i) SchedReviewCleared now None None)], st_event_seq := e\<rparr>"
      using assms Some by (auto simp: announce_cleared_def corrupt_id_def split: if_splits)
    with that show thesis by (simp add: new_event_def)
  qed
qed

lemma load_report_cleared:
  fixes db :: "'a database_scheme"
  assumes "load_report is_dir clock db i = Ok r"
    and snap: "load_snapshot is_dir clock db' i = load_snapshot is_dir clock db i"
    and row: "map_of (rt_rows db') (int i) = map_option set_cleared (map_of (rt_rows db) (int i))"
    and t: "db_journal db' = db_journal db" "db_source_items db' = db_source_items db"
      "db_destination_items db' = db_destination_items db" "db_resolutions db' = db_resolutions db"
      "db_reconciled db' = db_reconciled db"
  shows "load_report is_dir clock db' i = Ok (r\<lparr>
     rp_status := report_status (rp_items r) (rp_resolutions r) True (rp_blocked_reason r \<noteq> None)
       (rp_reconciliation r) (rp_reconciliation_required r),
     rp_lifecycle := report_lifecycle (rp_items r) (rp_resolutions r) True
       (rp_blocked_reason r \<noteq> None) (rp_reconciliation r)\<rparr>)"
proof -
  have cleared: "inventories_recorded m (set_cleared w) = inventories_recorded m w"
    "from_sql_bool (sr_review_cleared (set_cleared w))"
    "sr_blocked_reason (set_cleared w) = sr_blocked_reason w"
    "sr_source_recorded (set_cleared w) = sr_source_recorded w"
    "sr_destination_recorded (set_cleared w) = sr_destination_recorded w" for m w
    by (simp_all add: set_cleared_def inventories_recorded_def from_sql_bool_def)
  have "journal_store db' i = journal_store db i"
    by (simp add: journal_store_def row t option.map_comp comp_def set_cleared_def)
  then have j: "load_journal (journal_store db') i = load_journal (journal_store db) i"
    by (simp add: load_journal_def)
  have k: "load_reconciliation db' i = load_reconciliation db i"
    "load_mirror_resolutions db' i = load_mirror_resolutions db i"
    by (simp_all add: load_reconciliation_def load_mirror_resolutions_def t)
  have l: "load_source_inventory is_dir clock db' i = load_source_inventory is_dir clock db i"
    "load_destination_inventory is_dir clock db' i = load_destination_inventory is_dir clock db i"
    by (simp_all add: load_source_inventory_def load_destination_inventory_def
        load_inventory_table_def snap t)
  from assms(1) show ?thesis
    by (auto simp: load_report_def Let_def snap j k l row cleared)
qed

lemma can_clear:
  assumes "load_report is_dir clock db i = Ok r" and "can_mark_review_cleared r"
  shows "rp_blocked_reason r = None \<and> list_all (\<lambda>i. ri_outcome i = ActCompleted) (rp_items r) \<and>
    list_all (\<lambda>m. \<not> mirror_item_requires_review m) (rp_resolutions r) \<and>
    is_none_or (\<lambda>c. \<not> reconciliation_requires_review c) (rp_reconciliation r) \<and>
    (rp_reconciliation_required r \<longrightarrow> rp_reconciliation r \<noteq> None)"
proof -
  have l: "rp_execution_result r =
       execution_result (rp_items r) (rp_blocked_reason r \<noteq> None) (rp_reconciliation r \<noteq> None)"
    using assms(1) by (auto simp: load_report_def Let_def)
  have "\<exists>row :: snapshot_row. rp_lifecycle r = report_lifecycle (rp_items r) (rp_resolutions r)
       (from_sql_bool (sr_review_cleared row)) (rp_blocked_reason r \<noteq> None) (rp_reconciliation r)"
    by (rule load_report_Ok[OF assms(1)]) (rule exI, assumption)
  then obtain row :: snapshot_row where l2: "rp_lifecycle r = report_lifecycle (rp_items r) (rp_resolutions r)
       (from_sql_bool (sr_review_cleared row)) (rp_blocked_reason r \<noteq> None) (rp_reconciliation r)" ..
  have out: "out = ActCompleted \<longleftrightarrow> out \<noteq> ActInProgress \<and> \<not> needs_review out" for out
    by (cases out) simp_all
  show ?thesis
    using assms(2) l l2
    by (auto simp: can_mark_review_cleared_def out report_lifecycle_def execution_result_def
        list_all_iff list_ex_iff is_none_or_iff is_some_and_def split: if_split_asm option.splits)
qed

text \<open>C22: A cleared review stays visible as cleared. Marking succeeds only when every action
  completed; the report is then exactly the one before with the status and life cycle of a
  cleared review, a scheduled run has its event, no other report changes, and the review cannot
  be cleared a second time.\<close>

theorem cleared_review_is_reported:
  fixes db :: "'a database_scheme"
  assumes "mark_review_cleared is_dir clock db i = Ok db'"
  shows "(\<exists>r. load_report is_dir clock db i = Ok r \<and>
      list_all (\<lambda>item. ri_outcome item = ActCompleted) (rp_items r) \<and>
      load_report is_dir clock db' i =
        Ok (r\<lparr>rp_status := RepReviewCleared, rp_lifecycle := LifecycleReviewCleared\<rparr>)) \<and>
    (\<forall>j. j \<noteq> i \<longrightarrow> load_report is_dir clock db' j = load_report is_dir clock db j) \<and>
    (claiming_profile db (int i) \<noteq> None \<longrightarrow>
      (\<exists>e \<in> set (st_events db'). er_run (snd e) = int i \<and> er_kind (snd e) = ''review_cleared'')) \<and>
    \<not> (\<exists>db''. mark_review_cleared is_dir clock db' i = Ok db'')"
proof -
  from assms obtain r db1 where r: "load_report is_dir clock db i = Ok r" "can_mark_review_cleared r"
    and u: "update_run_row db i (int i) set_cleared = Ok db1" and a: "announce_cleared clock db1 i = Ok db'"
    by (auto simp: mark_review_cleared_def load_report_or_not_found_def split: sum.splits if_splits)
  obtain es k where e: "db' = db1\<lparr>st_events := st_events db1 @ es, st_event_seq := k\<rparr>"
    "claiming_profile db1 (int i) \<noteq> None \<longrightarrow>
       (\<exists>e \<in> set (st_events db1 @ es). er_run (snd e) = int i \<and> er_kind (snd e) = ''review_cleared'')"
    by (rule announce_cleared_Ok[OF a])
  note db1 = u[unfolded update_run_row_Ok, THEN conjunct2]
  have rows: "map_of (rt_rows db') k = (if k = int i then map_option set_cleared (map_of (rt_rows db) k)
      else map_of (rt_rows db) k)" for k
    by (simp add: e(1) db1 map_of_update_keyed)
  have cleared: "snapshot_from_row is_dir clock j (set_cleared row') = snapshot_from_row is_dir clock j row'"
    for j row' by (simp add: set_cleared_def)
  have snap: "load_snapshot is_dir clock db' j = load_snapshot is_dir clock db j" for j
    by (rule load_snapshot_rows) (simp add: rows option.map_comp comp_def cleared)
  have tables: "db_journal db' = db_journal db" "db_source_items db' = db_source_items db"
      "db_destination_items db' = db_destination_items db" "db_resolutions db' = db_resolutions db"
      "db_reconciled db' = db_reconciled db" "st_events db' = st_events db1 @ es"
      "claiming_profile db1 = claiming_profile db"
    by (simp_all add: e(1) db1 claiming_profile_def[abs_def])
  have others: "\<forall>j. j \<noteq> i \<longrightarrow> load_report is_dir clock db' j = load_report is_dir clock db j"
    by (auto intro!: load_report_cong simp: snap rows tables)
  note ok = can_clear[OF r]
  note st = settled_status[OF _ _ _ _, of "rp_items r" "rp_resolutions r" "rp_reconciliation r"
      "rp_reconciliation_required r"]
  have now: "load_report is_dir clock db' i =
      Ok (r\<lparr>rp_status := RepReviewCleared, rp_lifecycle := LifecycleReviewCleared\<rparr>)"
    by (subst load_report_cleared[OF r(1) snap _ tables(1-5)]) (simp_all add: rows ok st)
  have "\<not> (\<exists>db''. mark_review_cleared is_dir clock db' i = Ok db'')"
    by (simp add: mark_review_cleared_def load_report_or_not_found_def now can_mark_review_cleared_def)
  with r(1) ok now others e(2) show ?thesis by (simp add: tables)
qed

subsection \<open>Examples\<close>

text \<open>The run of \<open>example_database\<close> with one copy carried out, a frozen inventory and a
  reconciliation without findings.\<close>

definition example_copy_events :: "journal_event list" where
  "example_copy_events = [JPlanned (example_plan 1 ''b'' CopyToDestination), JStarted 1, JCompleted 1]"

definition example_copy_store :: evidence_store where
  "example_copy_store = appended [5 \<mapsto> fresh_journal None] 5 example_copy_events"

definition example_copied :: database where
  "example_copied = example_database\<lparr>
     db_journal := (\<lambda>_. rj_rows (the (example_copy_store 5))),
     db_reconciled := [5 \<mapsto> (encode_source_drain_status NotApplicable, [])],
     rt_rows := map (\<lambda>(r, row). (r, row\<lparr>sr_source_recorded := 1\<rparr>)) (rt_rows example_database)\<rparr>"

lemma example_copy_accepted:
  "append_events [5 \<mapsto> fresh_journal None] 5 example_copy_events = Ok example_copy_store"
proof -
  have "\<not> (case append_events [5 \<mapsto> fresh_journal None] 5 example_copy_events of Inl _ \<Rightarrow> True | Inr _ \<Rightarrow> False)"
    by code_simp
  then show ?thesis by (simp add: example_copy_store_def appended_def split: sum.splits)
qed

lemma example_copied_row:
  obtains row where "rt_rows example_copied = [(5, row)]" "sr_blocked_reason row = None"
    "sr_review_cleared row = 0" "sr_source_recorded row = 1" "ok_deletion_method (sr_options row) = None"
proof -
  have "\<exists>row. rt_rows example_database = [(5, row)] \<and> sr_blocked_reason row = None \<and>
      sr_review_cleared row = 0 \<and> ok_deletion_method (sr_options row) = None"
    by (auto simp: example_database_def begin_run_def snapshot_to_row_def to_sql_id_def to_sql_u64_def
        convert_def snapshot_option_columns_def example_run_snapshot_def Let_def ok_or_def
        checked_i64_succ_def default_retry_policy_def delay_millis_def empty_database_def)
  then show thesis using that by (auto simp: example_copied_def)
qed

lemma example_copied_snapshot:
  "load_snapshot (\<lambda>_. True) (Ok 99) example_copied 5 = Ok example_run_snapshot"
proof -
  have "load_snapshot (\<lambda>_. True) (Ok 99) example_copied 5 = load_snapshot (\<lambda>_. True) (Ok 99) example_database 5"
    using example_database_tables(7) by (intro load_snapshot_rows) (auto simp: example_copied_def)
  then show ?thesis by (simp add: example_database_loads)
qed

lemma example_copied_journal:
  "\<exists>e. load_journal (journal_store example_copied) 5 = Ok [e] \<and> je_outcome e = ActCompleted"
proof -
  have "replayable [] example_copy_events" by code_simp
  from fresh_run_holds[OF _ example_copy_accepted this, of None] obtain j where
    j: "example_copy_store 5 = Some j" "holds j example_copy_events" "rj_deletion_method j = None"
    by (auto simp: fresh_journal_def)
  obtain row where "rt_rows example_copied = [(5, row)]" "ok_deletion_method (sr_options row) = None"
    by (rule example_copied_row)
  then have "journal_store example_copied 5 = Some j"
    using j(1,3) by (cases j) (simp add: journal_store_def, simp add: example_copied_def)
  from log_loads[of j _ "journal_store example_copied" 5, OF j(2) this]
  have "load_journal (journal_store example_copied) 5 =
      Ok (List.map_filter (log_entry example_copy_events) (btree_set (map event_action example_copy_events)))"
    by simp
  moreover have "btree_set (map event_action example_copy_events) = [1]" by code_simp
  moreover have "map_option je_outcome (log_entry example_copy_events 1) = Some ActCompleted" by code_simp
  ultimately show ?thesis by (auto simp: List.map_filter_simps)
qed

lemma example_copied_report:
  "\<exists>r. load_report (\<lambda>_. True) (Ok 99) example_copied 5 = Ok r \<and> rp_status r = RepCompleted \<and>
     rp_reconciliation_required r \<and> can_mark_review_cleared r \<and> length (rp_items r) = 1"
proof -
  obtain e where e: "load_journal (journal_store example_copied) 5 = Ok [e]" "je_outcome e = ActCompleted"
    using example_copied_journal by blast
  obtain row where row: "rt_rows example_copied = [(5, row)]" "sr_blocked_reason row = None"
    "sr_review_cleared row = 0" "sr_source_recorded row = 1" by (rule example_copied_row)
  have m: "prof_mode (rs_profile example_run_snapshot) = OneWay"
    by (simp add: example_run_snapshot_def example_ssh_profile_def sync_profile_new_def)
  have r: "load_reconciliation example_copied 5 = Ok (Some \<lparr>cr_drain = NotApplicable, cr_findings = []\<rparr>)"
    by (simp add: load_reconciliation_def example_copied_def to_sql_id_def decode_source_drain_status_def)
  have mr: "load_mirror_resolutions example_copied 5 = Ok []"
    by (simp add: load_mirror_resolutions_def example_copied_def to_sql_id_def example_database_tables)
  have out: "ri_outcome (item_from_journal example_run_snapshot e) = ActCompleted"
    using e(2) by (simp add: item_from_journal_def Let_def)
  show ?thesis
    by (simp add: load_report_def example_copied_snapshot e(1) row r mr m Let_def when_recorded_def
        inventories_recorded_def from_sql_bool_def report_status_def execution_result_def
        report_lifecycle_def reconciliation_requires_review_def out is_some_and_def
        can_mark_review_cleared_def ok_or_def)
qed

theorem completed_report_is_accounted_for_witness:
  "\<exists>r item. load_report (\<lambda>_. True) (Ok 99) example_copied 5 = Ok r \<and> rp_items r = [item] \<and>
     ri_outcome item = ActCompleted \<and> rp_reconciliation r \<noteq> None"
proof -
  obtain r where r: "load_report (\<lambda>_. True) (Ok 99) example_copied 5 = Ok r" "rp_status r = RepCompleted"
    "rp_reconciliation_required r" "length (rp_items r) = 1" using example_copied_report by blast
  from completed_report_is_accounted_for[OF r(1)] r show ?thesis
    by (auto simp: removable_def length_Suc_conv)
qed

theorem report_removal_is_confined_witness:
  "\<exists>db. remove_completed_report (\<lambda>_. True) (Ok 99) example_copied 5 = Ok db \<and>
     load_report (\<lambda>_. True) (Ok 99) db 5 = Err (run_not_found 5)"
proof -
  obtain r where r: "load_report (\<lambda>_. True) (Ok 99) example_copied 5 = Ok r" "rp_status r = RepCompleted"
    using example_copied_report by blast
  obtain row where "rt_rows example_copied = [(5, row)]" by (rule example_copied_row)
  with r have "remove_completed_report (\<lambda>_. True) (Ok 99) example_copied 5 = Ok (delete_run 5 example_copied)"
    by (simp add: remove_completed_report_def delete_report_metadata_def load_report_or_not_found_def
        removable_def)
  with report_removal_is_confined[OF disjI1, OF this] show ?thesis by blast
qed

theorem cleared_review_is_reported_witness:
  "\<exists>db r. mark_review_cleared (\<lambda>_. True) (Ok 99) example_copied 5 = Ok db \<and>
     load_report (\<lambda>_. True) (Ok 99) db 5 = Ok r \<and> rp_status r = RepReviewCleared"
proof -
  obtain r where r: "load_report (\<lambda>_. True) (Ok 99) example_copied 5 = Ok r" "can_mark_review_cleared r"
    using example_copied_report by blast
  obtain row where "rt_rows example_copied = [(5, row)]" by (rule example_copied_row)
  with r have "\<exists>db. mark_review_cleared (\<lambda>_. True) (Ok 99) example_copied 5 = Ok db"
    by (simp add: mark_review_cleared_def load_report_or_not_found_def update_run_row_def
        announce_cleared_def claiming_profile_def example_copied_def example_database_tables)
  then obtain db where db: "mark_review_cleared (\<lambda>_. True) (Ok 99) example_copied 5 = Ok db" by blast
  with cleared_review_is_reported[OF db] show ?thesis by auto
qed

subsection \<open>A run that never started\<close>

text \<open>A run that was begun and then left alone -- the program ended before its analysis, so there
  is no inventory, no action and no reconciliation -- is reported as completed, and its report
  can be removed as a completed one, although nothing was synchronised.\<close>

lemma unstarted_run_is_reported_completed:
  "\<exists>r. load_report (\<lambda>_. True) (Ok 99) example_database 5 = Ok r \<and>
     rp_status r = RepCompleted \<and> rp_execution_result r = ResultNotStarted \<and>
     remove_completed_report (\<lambda>_. True) (Ok 99) example_database 5 = Ok (delete_run 5 example_database)"
proof -
  obtain row where row: "rt_rows example_database = [(5, row)]" "sr_blocked_reason row = None"
    "sr_review_cleared row = 0" "sr_source_recorded row = 0" "sr_destination_recorded row = 0"
    using example_database_tables(7) by blast
  have j: "load_journal (journal_store example_database) 5 = Ok []"
    by (simp add: load_journal_def journal_store_def row to_sql_id_def load_rows_def
        example_database_tables sort_by_def)
  have r: "load_reconciliation example_database 5 = Ok None" "load_mirror_resolutions example_database 5 = Ok []"
    by (simp_all add: load_reconciliation_def load_mirror_resolutions_def to_sql_id_def
        example_database_tables)
  show ?thesis
    by (simp add: load_report_def example_database_loads j row r Let_def when_recorded_def
        inventories_recorded_def from_sql_bool_def report_status_def execution_result_def ok_or_def
        remove_completed_report_def delete_report_metadata_def load_report_or_not_found_def removable_def)
qed

end
