(* ===== verification/Spec2Isabelle.thy ===== *)
theory Spec2Isabelle
  imports Prelude Paths Collections Model ScopeLock Inventory HostTrust Process Exclusion Walk
    Plan Analysis Decisions Conflict Resolution Evidence Codec Rows Replay Append Journal RoundTrip
    Written RunJournal Baseline MirrorDeletion Reconciliation Parser
    RunSnapshot SchedulerStore ProfileRows ProfileStore StoreInvariant EvidenceTables Reports
begin

text \<open>
  SyncPlus: the core of a two-peer file synchroniser (\<open>src/crates/syncplus-core\<close>).

  \<^bold>\<open>The program.\<close> A profile names two peers (a local directory or a directory
  behind SSH), a mode (One-Way or Mirror) and options. A run takes a snapshot of the profile,
  locks the scope of both peers, collects an inventory of each, builds a plan, shows it for
  confirmation, carries it out action by action while every boundary is appended to a journal
  in the application database, and finally reconciles what it finds with what it planned. In
  Mirror mode items that differ are not overwritten: they become rows of a conflict review, and
  the decisions of the user become another plan.

  \<^bold>\<open>Theories and sources.\<close>
  \<^item> \<open>Prelude\<close>, \<open>Paths\<close>, \<open>Collections\<close>: the standard library as the sources
    use it (byte strings and UTF-8, \<open>std::path\<close>, results, ordered sets and maps, stable
    sorting, runs of fallible steps). \<open>Decisions\<close> is the interface of a review that
    collects one decision per row.
  \<^item> \<open>Model\<close> (\<open>model.rs\<close>): peers, options, profiles and the transition function
    of a run, with the life cycle it refines. \<open>ScopeLock\<close> (\<open>scope_lock.rs\<close>): leases
    of peer scopes. \<open>HostTrust\<close> (\<open>ssh_host.rs\<close>, the fingerprint table of
    \<open>evidence.rs\<close>): approval of SSH host keys. \<open>Process\<close> (\<open>process.rs\<close>):
    validation of a profile and the rsync and SSH command lines.
  \<^item> \<open>Inventory\<close>, \<open>Exclusion\<close>, \<open>Walk\<close>, \<open>Plan\<close>, \<open>Analysis\<close>
    (\<open>analysis.rs\<close>): items and their scope, exclusion patterns, the walk of a directory
    tree, plan construction and validation, the fresh analysis and its confirmation.
  \<^item> \<open>Conflict\<close> (\<open>conflict.rs\<close>) and \<open>Resolution\<close> (\<open>resolution.rs\<close> and
    the resolution plan of \<open>analysis.rs\<close>): the review of a Mirror run and what its
    decisions become.
  \<^item> \<open>Baseline\<close> (\<open>baseline.rs\<close>), \<open>MirrorDeletion\<close>
    (\<open>mirror_deletion.rs\<close>) and \<open>Reconciliation\<close> (\<open>reconciliation.rs\<close>): what
    a settled run leaves for the next one, the deletions a baseline supports, and the comparison
    of a finished run with a fresh analysis and its journal.
  \<^item> \<open>Parser\<close> (\<open>parser.rs\<close>): the incremental parser of the transfer program's
    output, its limits and the escapes of a path.
  \<^item> \<open>Evidence\<close>, \<open>Codec\<close>, \<open>Rows\<close>, \<open>Replay\<close>, \<open>Append\<close>
    (\<open>evidence.rs\<close>, the provenance checks of \<open>restore.rs\<close>): the run journal: its
    data, its text encodings, the columns of a row, the replay of the stored rows and the
    checks of an append.
  \<^item> \<open>Journal\<close>, \<open>RoundTrip\<close>, \<open>Written\<close>, \<open>RunJournal\<close>: the proofs
    about the journal. \<open>Journal\<close> states the life cycle of an action as a step relation and
    shows that replaying any row is a step of it; \<open>RoundTrip\<close> that a stored event reads
    back; \<open>Written\<close> that accepting an event is the same step; \<open>RunJournal\<close> draws
    the consequences for a whole run.

  \<^bold>\<open>Reading the model.\<close> A \<open>String\<close> or \<open>OsStr\<close> is its list of
  bytes, a \<open>Path\<close> its list of components (two spellings of one path, such as
  \<open>a//b\<close> and \<open>a/b\<close>, are one path here, as they are for \<open>==\<close> in the
  code). \<open>u64\<close> sizes and counters are 64-bit words, \<open>i64\<close> times are integers, ids
  are natural numbers that are compared with \<open>i64::MAX\<close> where they are bound to SQL. A
  fallible function returns \<open>Inl\<close> of its error or \<open>Inr\<close> of its result; the texts
  of errors are the code's. What the code asks of its surroundings (the answers of the file
  system, the probe of a host, the current directory, the clock) is a parameter. The database
  is the list of the rows of each run in the order of insertion; a query is a function of that
  list. The loops are structural recursions, the matcher of \<open>Exclusion\<close>, the UTF-8
  decoder and the escape loops of \<open>Parser\<close> have a termination measure; no definition uses fuel.

  \<^bold>\<open>Lemma groups.\<close> Each component theory has the invariant of its state, the
  behaviour of each operation on its branches, and its agreement with a more abstract
  description where there is one: the life cycle of a run, glob matching, the exact contents
  of an inventory, of a plan and of a review, the boundary steps of an action, the log of a
  run. The locales \<open>step_invariant\<close>, \<open>decision_loop\<close>, \<open>codec\<close> and
  \<open>canonical_codec\<close> state the contracts several components share; they are interpreted
  on the code's functions.

  \<^bold>\<open>Not modelled.\<close> The desktop application (\<open>crates/syncplus\<close>): presentation
  and event loops. Threads, child processes and sockets: a mutex is the order of the steps it
  protects. The text of SQL statements and SQLite itself: the queries are modelled by what they
  return. Hashing, JSON and compression libraries. Of \<open>evidence.rs\<close>, the snapshots,
  inventories, schedules and preferences stored beside the journal; of the workflows, the
  copy, removal, restore, precheck, scheduler and storage modules are left to later work.
\<close>

end
